(* ===== verification/Prelude.thy ===== *)
theory Prelude
  imports Complex_Main "HOL-Library.Sublist"
begin

text \<open>
  Shared vocabulary of the development: Python exceptions as values, computations that
  read and write a state and may raise (an exception does not undo the state changes made
  before it), weakest preconditions for them, and generic list and map lemmas.
\<close>

section \<open>Exceptions and stateful computations\<close>

text \<open>
  The exception classes the modelled code raises or catches. Messages are not modelled:
  the class is what callers react to.
\<close>

datatype py_error =
    ValueError
  | TypeError
  | IndexError
  | KeyError
  | RuntimeError
  | AttributeError
  | BareException

text \<open>
  \<open>('s, 'a) prog\<close> is a piece of Python code over the mutable state \<open>'s\<close>: it returns a
  value or raises, and in both cases leaves a (possibly changed) state behind.
\<close>

type_synonym ('s, 'a) prog = "'s \<Rightarrow> (py_error + 'a) \<times> 's"

definition ret :: "'a \<Rightarrow> ('s, 'a) prog" where
  "ret x = (\<lambda>s. (Inr x, s))"

definition raise :: "py_error \<Rightarrow> ('s, 'a) prog" where
  "raise e = (\<lambda>s. (Inl e, s))"

definition bnd :: "('s, 'a) prog \<Rightarrow> ('a \<Rightarrow> ('s, 'b) prog) \<Rightarrow> ('s, 'b) prog" where
  "bnd m f = (\<lambda>s. case m s of (r, t) \<Rightarrow> (case r of Inl e \<Rightarrow> (Inl e, t) | Inr x \<Rightarrow> f x t))"

definition sq :: "('s, 'a) prog \<Rightarrow> ('s, 'b) prog \<Rightarrow> ('s, 'b) prog" where
  "sq m n = bnd m (\<lambda>_. n)"

text \<open>\<open>try m except Exception as e: h e\<close>.\<close>

definition catch :: "('s, 'a) prog \<Rightarrow> (py_error \<Rightarrow> ('s, 'a) prog) \<Rightarrow> ('s, 'a) prog" where
  "catch m h = (\<lambda>s. case m s of (r, t) \<Rightarrow> (case r of Inl e \<Rightarrow> h e t | Inr x \<Rightarrow> (Inr x, t)))"

definition gets :: "('s \<Rightarrow> 'a) \<Rightarrow> ('s, 'a) prog" where
  "gets f = (\<lambda>s. (Inr (f s), s))"

definition upd :: "('s \<Rightarrow> 's) \<Rightarrow> ('s, unit) prog" where
  "upd f = (\<lambda>s. (Inr (), f s))"

text \<open>A pure computation that may raise, run inside a stateful one.\<close>

definition lift :: "py_error + 'a \<Rightarrow> ('s, 'a) prog" where
  "lift r = (\<lambda>s. (r, s))"

text \<open>\<open>if b: raise e\<close>.\<close>

definition fail_if :: "bool \<Rightarrow> py_error \<Rightarrow> ('s, unit) prog" where
  "fail_if b e = (if b then raise e else ret ())"

text \<open>\<open>if b: m\<close>, for a statement \<open>m\<close>.\<close>

definition when_do :: "bool \<Rightarrow> ('s, unit) prog \<Rightarrow> ('s, unit) prog" where
  "when_do b m = (if b then m else ret ())"

text \<open>\<open>[f(x) for x in xs]\<close>, where each call may raise and change the state.\<close>

fun mapP :: "('a \<Rightarrow> ('s, 'b) prog) \<Rightarrow> 'a list \<Rightarrow> ('s, 'b list) prog" where
  "mapP f [] = ret []"
| "mapP f (x # xs) = bnd (f x) (\<lambda>y. bnd (mapP f xs) (\<lambda>ys. ret (y # ys)))"

text \<open>\<open>for x in xs: f(x)\<close>.\<close>

fun eachP :: "('a \<Rightarrow> ('s, unit) prog) \<Rightarrow> 'a list \<Rightarrow> ('s, unit) prog" where
  "eachP f [] = ret ()"
| "eachP f (x # xs) = sq (f x) (eachP f xs)"

section \<open>Weakest preconditions\<close>

text \<open>
  \<open>wp m Q E s\<close>: run from \<open>s\<close>, \<open>m\<close> either returns and \<open>Q\<close> holds of value and state, or
  raises and \<open>E\<close> holds of the exception and the state it leaves. The rules in \<open>wp\<close>
  compute it by simplification.
\<close>

definition wp :: "('s, 'a) prog \<Rightarrow> ('a \<Rightarrow> 's \<Rightarrow> bool) \<Rightarrow> (py_error \<Rightarrow> 's \<Rightarrow> bool) \<Rightarrow> 's \<Rightarrow> bool" where
  "wp m Q E s = (case m s of (r, t) \<Rightarrow> (case r of Inl e \<Rightarrow> E e t | Inr x \<Rightarrow> Q x t))"

named_theorems wp_rules "rules that compute weakest preconditions"

lemma wp_ret [wp_rules]: "wp (ret x) Q E s = Q x s"
  by (simp add: wp_def ret_def)

lemma wp_raise [wp_rules]: "wp (raise e) Q E s = E e s"
  by (simp add: wp_def raise_def)

lemma wp_bnd [wp_rules]: "wp (bnd m f) Q E s = wp m (\<lambda>x t. wp (f x) Q E t) E s"
  by (auto simp: wp_def bnd_def split: prod.splits sum.splits)

lemma wp_sq [wp_rules]: "wp (sq m n) Q E s = wp m (\<lambda>_ t. wp n Q E t) E s"
  by (simp add: sq_def wp_bnd)

lemma wp_sq_fun: "wp (sq m n) Q E = wp m (\<lambda>_. wp n Q E) E"
  by (rule ext) (simp add: wp_sq)

lemma wp_catch [wp_rules]: "wp (catch m h) Q E s = wp m Q (\<lambda>e t. wp (h e) Q E t) s"
  by (auto simp: wp_def catch_def split: prod.splits sum.splits)

lemma wp_gets [wp_rules]: "wp (gets f) Q E s = Q (f s) s"
  by (simp add: wp_def gets_def)

lemma wp_upd [wp_rules]: "wp (upd f) Q E s = Q () (f s)"
  by (simp add: wp_def upd_def)

lemma wp_lift [wp_rules]:
  "wp (lift r) Q E s = (case r of Inl e \<Rightarrow> E e s | Inr x \<Rightarrow> Q x s)"
  by (simp add: wp_def lift_def split: sum.splits)

lemma wp_fail_if [wp_rules]:
  "wp (fail_if b e) Q E s = (if b then E e s else Q () s)"
  by (simp add: fail_if_def wp_ret wp_raise)

lemma wp_when_do [wp_rules]:
  "wp (when_do b m) Q E s = (if b then wp m Q E s else Q () s)"
  by (simp add: when_do_def wp_ret)

lemma wp_if [wp_rules]:
  "wp (if b then m else n) Q E s = (if b then wp m Q E s else wp n Q E s)"
  by simp

lemma wp_case_option [wp_rules]:
  "wp (case x of None \<Rightarrow> m | Some y \<Rightarrow> f y) Q E s =
   (case x of None \<Rightarrow> wp m Q E s | Some y \<Rightarrow> wp (f y) Q E s)"
  by (simp split: option.splits)

lemma wp_case_prod [wp_rules]:
  "wp (case p of (a, b) \<Rightarrow> f a b) Q E s = (case p of (a, b) \<Rightarrow> wp (f a b) Q E s)"
  by (simp split: prod.splits)

lemma wp_let [wp_rules]: "wp (let x = v in f x) Q E s = (let x = v in wp (f x) Q E s)"
  by simp

lemma wp_mono:
  assumes "wp m Q' E' s"
    and "\<And>x t. Q' x t \<Longrightarrow> Q x t" and "\<And>e t. E' e t \<Longrightarrow> E e t"
  shows "wp m Q E s"
  using assms by (auto simp: wp_def split: prod.splits sum.splits)

lemma wp_run:
  assumes "wp m Q E s"
  shows "m s = (Inr x, t) \<Longrightarrow> Q x t" and "m s = (Inl e, t) \<Longrightarrow> E e t"
  using assms by (auto simp: wp_def)

lemma wp_conj:
  "wp m Q E s \<Longrightarrow> wp m Q' E' s \<Longrightarrow> wp m (\<lambda>x t. Q x t \<and> Q' x t) (\<lambda>e t. E e t \<and> E' e t) s"
  by (auto simp: wp_def split: prod.splits sum.splits)

text \<open>A run that surely returns: the value and the final state.\<close>

lemma wp_returns: "wp m (\<lambda>x t. Q x t) (\<lambda>_ _. False) s \<Longrightarrow> \<exists>x t. m s = (Inr x, t) \<and> Q x t"
  by (auto simp: wp_def split: prod.splits sum.splits)

lemma wp_mapP_invariant:
  assumes "\<And>x s. x \<in> set xs \<Longrightarrow> I s \<Longrightarrow> wp (f x) (\<lambda>_. I) (\<lambda>_. I) s" and "I s"
  shows "wp (mapP f xs) (\<lambda>_. I) (\<lambda>_. I) s"
  using assms
proof (induction xs arbitrary: s)
  case Nil
  then show ?case by (simp add: wp_rules)
next
  case (Cons x xs)
  have first: "wp (f x) (\<lambda>_. I) (\<lambda>_. I) s" using Cons.prems by simp
  have rest: "wp (mapP f xs) (\<lambda>_. I) (\<lambda>_. I) t" if "I t" for t
    using Cons.IH [OF Cons.prems(1) that] by simp
  show ?case
    unfolding mapP.simps wp_bnd wp_ret by (rule wp_mono [OF first]) (use rest in auto)
qed

lemma wp_eachP_invariant:
  assumes "\<And>x s. x \<in> set xs \<Longrightarrow> I s \<Longrightarrow> wp (f x) (\<lambda>_. I) (\<lambda>_. I) s" and "I s"
  shows "wp (eachP f xs) (\<lambda>_. I) (\<lambda>_. I) s"
  using assms
proof (induction xs arbitrary: s)
  case Nil
  then show ?case by (simp add: wp_rules)
next
  case (Cons x xs)
  have first: "wp (f x) (\<lambda>_. I) (\<lambda>_. I) s" using Cons.prems by simp
  have rest: "wp (eachP f xs) (\<lambda>_. I) (\<lambda>_. I) t" if "I t" for t
    using Cons.IH [OF Cons.prems(1) that] by simp
  show ?case
    unfolding eachP.simps wp_sq by (rule wp_mono [OF first]) (use rest in auto)
qed

text \<open>Evaluation of closed runs: the combinators applied to a state.\<close>

named_theorems run_simps "equations that execute programs on a given state"

lemma run_ret [run_simps]: "ret x s = (Inr x, s)"
  by (simp add: ret_def)

lemma run_raise [run_simps]: "raise e s = (Inl e, s)"
  by (simp add: raise_def)

lemma run_bnd [run_simps]:
  "bnd m f s = (case m s of (r, t) \<Rightarrow> (case r of Inl e \<Rightarrow> (Inl e, t) | Inr x \<Rightarrow> f x t))"
  by (simp add: bnd_def)

lemma run_sq [run_simps]:
  "sq m n s = (case m s of (r, t) \<Rightarrow> (case r of Inl e \<Rightarrow> (Inl e, t) | Inr x \<Rightarrow> n t))"
  by (simp add: sq_def bnd_def)

lemma run_catch [run_simps]:
  "catch m h s = (case m s of (r, t) \<Rightarrow> (case r of Inl e \<Rightarrow> h e t | Inr x \<Rightarrow> (Inr x, t)))"
  by (simp add: catch_def)

lemma run_gets [run_simps]: "gets f s = (Inr (f s), s)"
  by (simp add: gets_def)

lemma run_upd [run_simps]: "upd f s = (Inr (), f s)"
  by (simp add: upd_def)

lemma run_lift [run_simps]: "lift r s = (r, s)"
  by (simp add: lift_def)

lemma run_fail_if [run_simps]: "fail_if b e s = (if b then (Inl e, s) else (Inr (), s))"
  by (simp add: fail_if_def run_ret run_raise)

lemma run_when_do [run_simps]: "when_do b m s = (if b then m s else (Inr (), s))"
  by (simp add: when_do_def run_ret)

section \<open>Lists\<close>

lemma filter_neq_id [simp]: "p \<notin> set xs \<Longrightarrow> filter (\<lambda>x. x \<noteq> p) xs = xs"
  by (induction xs) auto

lemma filter_eq_Nil [simp]: "p \<notin> set xs \<Longrightarrow> filter (\<lambda>x. x = p) xs = []"
  by (induction xs) auto

end
