(* ===== verification/PyValue.thy ===== *)
theory PyValue
  imports Prelude
begin

text \<open>
  The JSON-shaped Python values the services exchange and store. A dictionary keeps its
  insertion order, because \<open>json.dumps\<close> writes the keys in that order and the queue store
  compares serialized items as exact strings. The text of a value is identified with the
  ordered tree it denotes: \<open>json.dumps\<close> is injective on such trees and \<open>json.loads\<close>
  inverts it. Floats are the rationals they denote.
\<close>

datatype json =
    JNull
  | JBool bool
  | JInt int
  | JFloat rat
  | JStr string
  | JList "json list"
  | JDict "(string \<times> json) list"

type_synonym dict = "(string \<times> json) list"

section \<open>Ordered dictionaries\<close>

text \<open>\<open>d[k] = v\<close>: an existing key keeps its place, a new key is appended.\<close>

fun dset :: "string \<Rightarrow> 'v \<Rightarrow> (string \<times> 'v) list \<Rightarrow> (string \<times> 'v) list" where
  "dset k v [] = [(k, v)]"
| "dset k v ((k', w) # d) = (if k = k' then (k, v) # d else (k', w) # dset k v d)"

text \<open>\<open>del d[k]\<close> for a key that is present, \<open>d.pop(k, None)\<close> otherwise.\<close>

definition ddel :: "string \<Rightarrow> (string \<times> 'v) list \<Rightarrow> (string \<times> 'v) list" where
  "ddel k d = filter (\<lambda>kv. fst kv \<noteq> k) d"

abbreviation dget :: "(string \<times> 'v) list \<Rightarrow> string \<Rightarrow> 'v option" where
  "dget d k \<equiv> map_of d k"

abbreviation dhas :: "(string \<times> 'v) list \<Rightarrow> string \<Rightarrow> bool" where
  "dhas d k \<equiv> map_of d k \<noteq> None"

text \<open>\<open>d.update(e)\<close>.\<close>

definition dupdate :: "(string \<times> 'v) list \<Rightarrow> (string \<times> 'v) list \<Rightarrow> (string \<times> 'v) list" where
  "dupdate d e = fold (\<lambda>(k, v). dset k v) e d"

definition wf_dict :: "(string \<times> 'v) list \<Rightarrow> bool" where
  "wf_dict d = distinct (map fst d)"

lemma dget_dset: "dget (dset k v d) k' = (if k' = k then Some v else dget d k')"
  by (induction k v d rule: dset.induct) auto

lemma dget_ddel: "dget (ddel k d) k' = (if k' = k then None else dget d k')"
  by (induction d) (auto simp: ddel_def)

lemma fst_dset: "fst ` set (dset k v d) = insert k (fst ` set d)"
  by (induction k v d rule: dset.induct) auto

lemma wf_dset [intro]: "wf_dict d \<Longrightarrow> wf_dict (dset k v d)"
  unfolding wf_dict_def
proof (induction k v d rule: dset.induct)
  case (2 k v k' w d)
  then show ?case using fst_dset [of k v d] by auto
qed simp

lemma wf_ddel [intro]: "wf_dict d \<Longrightarrow> wf_dict (ddel k d)"
  unfolding wf_dict_def ddel_def by (induction d) auto

lemma wf_filter [intro]: "wf_dict d \<Longrightarrow> wf_dict (filter P d)"
  unfolding wf_dict_def by (induction d) auto

lemma dset_neq_Nil [simp]: "dset k v d \<noteq> []"
  by (induction k v d rule: dset.induct) auto

lemma dget_filter_keys: "dget (filter (\<lambda>kv. P (fst kv)) d) k = (if P k then dget d k else None)"
  by (induction d) auto

lemmas dict_simps = dget_dset dget_ddel dget_filter_keys

section \<open>Truth value, equality and membership\<close>

fun truthy :: "json \<Rightarrow> bool" where
  "truthy JNull = False"
| "truthy (JBool b) = b"
| "truthy (JInt i) = (i \<noteq> 0)"
| "truthy (JFloat r) = (r \<noteq> 0)"
| "truthy (JStr s) = (s \<noteq> [])"
| "truthy (JList xs) = (xs \<noteq> [])"
| "truthy (JDict d) = (d \<noteq> [])"

text \<open>Only immutable values can be dictionary keys; \<open>x in d\<close> raises TypeError for others.\<close>

fun hashable :: "json \<Rightarrow> bool" where
  "hashable (JList _) = False"
| "hashable (JDict _) = False"
| "hashable _ = True"

fun num_of :: "json \<Rightarrow> rat option" where
  "num_of (JBool b) = Some (if b then 1 else 0)"
| "num_of (JInt i) = Some (of_int i)"
| "num_of (JFloat r) = Some r"
| "num_of _ = None"

text \<open>
  \<open>a == b\<close>: numbers compare by value (\<open>True == 1 == 1.0\<close>), lists element by element,
  dictionaries by their entries whatever the order.
\<close>

lemma size_snd_dict: "kv \<in> set d \<Longrightarrow> size (snd kv) < size (JDict d)"
  by (induction d) (auto simp: less_Suc_eq_le)

function py_eq :: "json \<Rightarrow> json \<Rightarrow> bool" where
  "py_eq (JDict d) j =
     (case j of
        JDict e \<Rightarrow> length d = length e \<and>
          list_all (\<lambda>kv. case map_of e (fst kv) of None \<Rightarrow> False | Some w \<Rightarrow> py_eq (snd kv) w) d
      | _ \<Rightarrow> False)"
| "py_eq (JList xs) j =
     (case j of
        JList ys \<Rightarrow> length xs = length ys \<and> list_all (\<lambda>(x, y). py_eq x y) (zip xs ys)
      | _ \<Rightarrow> False)"
| "py_eq JNull j = (j = JNull)"
| "py_eq (JStr s) j = (j = JStr s)"
| "py_eq (JBool b) j = (num_of j = Some (if b then 1 else 0))"
| "py_eq (JInt i) j = (num_of j = Some (of_int i))"
| "py_eq (JFloat r) j = (num_of j = Some r)"
  by pat_completeness auto
termination
proof (relation "measure (\<lambda>(x, y). size x)")
  fix d :: dict and j x kv w
  assume "kv \<in> set d"
  then show "((snd kv, w), JDict d, j) \<in> measure (\<lambda>(x, y). size x)"
    using size_snd_dict [of kv d] by simp
next
  fix xs ys :: "json list" and j xy x y
  assume "xy \<in> set (zip xs ys)" and "(x, y) = xy"
  then have "x \<in> set xs" by (metis set_zip_leftD)
  then have "size x < size (JList xs)"
    by (induction xs) (auto simp: less_Suc_eq_le)
  then show "((x, y), JList xs, j) \<in> measure (\<lambda>(x, y). size x)" by simp
qed simp


text \<open>
  The key a hashable value denotes in a dictionary or set: numbers that compare equal hash
  alike, so the value is brought to one representative.
\<close>

fun py_key :: "json \<Rightarrow> json" where
  "py_key (JBool b) = JInt (if b then 1 else 0)"
| "py_key (JFloat r) = (if of_int \<lfloor>r\<rfloor> = r then JInt \<lfloor>r\<rfloor> else JFloat r)"
| "py_key j = j"

lemma py_eq_key: "hashable b \<Longrightarrow> py_eq a b \<longleftrightarrow> py_key a = py_key b"
  by (cases a; cases b) (auto split: if_splits)

lemma py_eq_key2: "hashable a \<Longrightarrow> py_eq a b \<longleftrightarrow> py_key a = py_key b"
  by (cases a; cases b) (auto split: if_splits)

lemma hashable_py_key [simp]: "hashable (py_key j) = hashable j"
  by (cases j) auto

text \<open>\<open>x in xs\<close> for a list.\<close>

definition py_in :: "json \<Rightarrow> json list \<Rightarrow> bool" where
  "py_in x xs = list_ex (\<lambda>y. py_eq y x) xs"

fun is_dict :: "json \<Rightarrow> bool" where
  "is_dict (JDict _) = True"
| "is_dict _ = False"

text \<open>\<open>k in v\<close> for a string key: dictionary keys, list elements, substrings; else TypeError.\<close>

definition py_contains :: "string \<Rightarrow> json \<Rightarrow> py_error + bool" where
  "py_contains k v =
     (case v of
        JDict d \<Rightarrow> Inr (dhas d k)
      | JList xs \<Rightarrow> Inr (JStr k \<in> set xs)
      | JStr s \<Rightarrow> Inr (sublist k s)
      | _ \<Rightarrow> Inl TypeError)"

text \<open>\<open>v[k]\<close> for a string key.\<close>

definition py_getitem :: "json \<Rightarrow> string \<Rightarrow> py_error + json" where
  "py_getitem v k =
     (case v of
        JDict d \<Rightarrow> (case dget d k of None \<Rightarrow> Inl KeyError | Some w \<Rightarrow> Inr w)
      | _ \<Rightarrow> Inl TypeError)"

text \<open>\<open>v[k] = w\<close> for a string key.\<close>

definition py_setitem :: "json \<Rightarrow> string \<Rightarrow> json \<Rightarrow> py_error + json" where
  "py_setitem v k w = (case v of JDict d \<Rightarrow> Inr (JDict (dset k w d)) | _ \<Rightarrow> Inl TypeError)"

text \<open>\<open>del v[k]\<close> for a string key.\<close>

definition py_delitem :: "json \<Rightarrow> string \<Rightarrow> py_error + json" where
  "py_delitem v k =
     (case v of
        JDict d \<Rightarrow> (if dhas d k then Inr (JDict (ddel k d)) else Inl KeyError)
      | _ \<Rightarrow> Inl TypeError)"

text \<open>\<open>v.get(k, dflt)\<close>.\<close>

definition py_get :: "json \<Rightarrow> string \<Rightarrow> json \<Rightarrow> py_error + json" where
  "py_get v k dflt =
     (case v of
        JDict d \<Rightarrow> Inr (case dget d k of None \<Rightarrow> dflt | Some w \<Rightarrow> w)
      | _ \<Rightarrow> Inl AttributeError)"

text \<open>\<open>d[k]\<close> on a dictionary.\<close>

definition item_at :: "dict \<Rightarrow> string \<Rightarrow> py_error + json" where
  "item_at d k = (case dget d k of None \<Rightarrow> Inl KeyError | Some v \<Rightarrow> Inr v)"

text \<open>Sequencing of pure computations that may raise.\<close>

definition ebind :: "py_error + 'a \<Rightarrow> ('a \<Rightarrow> py_error + 'b) \<Rightarrow> py_error + 'b" where
  "ebind r f = (case r of Inl e \<Rightarrow> Inl e | Inr x \<Rightarrow> f x)"

lemma ebind_simps [simp]: "ebind (Inl e) f = Inl e" "ebind (Inr x) f = f x"
  by (simp_all add: ebind_def)

lemma py_dict_simps [simp]:
  "py_contains k (JDict d) = Inr (dhas d k)"
  "py_getitem (JDict d) k = (case dget d k of None \<Rightarrow> Inl KeyError | Some w \<Rightarrow> Inr w)"
  "py_setitem (JDict d) k w = Inr (JDict (dset k w d))"
  "py_delitem (JDict d) k = (if dhas d k then Inr (JDict (ddel k d)) else Inl KeyError)"
  "py_get (JDict d) k dflt = Inr (case dget d k of None \<Rightarrow> dflt | Some w \<Rightarrow> w)"
  by (simp_all add: py_contains_def py_getitem_def py_setitem_def py_delitem_def py_get_def)

lemma item_at_Some [simp]: "dget d k = Some v \<Longrightarrow> item_at d k = Inr v"
  by (simp add: item_at_def)

end
