(* ===== verification/QueueStore.thy ===== *)
theory QueueStore
  imports PyValue
begin

text \<open>
  The storage interface of the plan queue (\<open>manager/queue_store.py\<close>, class \<open>QueueStore\<close>):
  scalars under string keys and ordered collections with the list semantics its module
  documentation states (inclusive ranges, negative indices from the end, insertion next to
  the first element equal to a pivot, removal of all equal elements). \<open>RedisQueueStore\<close>
  forwards each call to a server that has these semantics; \<open>SqlQueueStore\<close> implements them
  over rows (theory \<open>SqlStore\<close>). The locale \<open>queue_lists\<close> states what a client may rely on.
\<close>

section \<open>The contract as a functional store\<close>

record 'v store =
  st_kv :: "string \<Rightarrow> 'v option"
  st_lists :: "string \<Rightarrow> 'v list"

datatype insert_where = Before | After

definition empty_store :: "'v store" where
  "empty_store = \<lparr>st_kv = (\<lambda>_. None), st_lists = (\<lambda>_. [])\<rparr>"

definition store_get :: "string \<Rightarrow> 'v store \<Rightarrow> 'v option \<times> 'v store" where
  "store_get k s = (st_kv s k, s)"

definition store_set :: "string \<Rightarrow> 'v \<Rightarrow> 'v store \<Rightarrow> unit \<times> 'v store" where
  "store_set k v s = ((), s\<lparr>st_kv := (st_kv s)(k \<mapsto> v)\<rparr>)"

definition store_delete :: "string list \<Rightarrow> 'v store \<Rightarrow> unit \<times> 'v store" where
  "store_delete ks s =
     ((), s\<lparr>st_kv := (\<lambda>k. if k \<in> set ks then None else st_kv s k),
           st_lists := (\<lambda>k. if k \<in> set ks then [] else st_lists s k)\<rparr>)"

definition set_list :: "string \<Rightarrow> 'v list \<Rightarrow> 'v store \<Rightarrow> 'v store" where
  "set_list k xs s = s\<lparr>st_lists := (st_lists s)(k := xs)\<rparr>"

definition store_len :: "string \<Rightarrow> 'v store \<Rightarrow> int \<times> 'v store" where
  "store_len k s = (int (length (st_lists s k)), s)"

text \<open>\<open>SqlQueueStore._resolve_range\<close>: an inclusive range with negative indices as bounds.\<close>

definition resolve_range :: "int \<Rightarrow> int \<Rightarrow> int \<Rightarrow> int \<times> int" where
  "resolve_range len start stop =
     (let start' = (if start < 0 then max (len + start) 0 else start);
          stop' = (if stop < 0 then len + stop else stop)
      in (start', min stop' (len - 1)))"

definition range_of :: "int \<Rightarrow> int \<Rightarrow> 'v list \<Rightarrow> 'v list" where
  "range_of start stop xs =
     (case resolve_range (int (length xs)) start stop of (a, b) \<Rightarrow>
        if a > b then [] else take (nat (b - a + 1)) (drop (nat a) xs))"

definition index_of :: "int \<Rightarrow> 'v list \<Rightarrow> 'v option" where
  "index_of i xs =
     (let j = (if i < 0 then int (length xs) + i else i)
      in if j < 0 \<or> int (length xs) \<le> j then None else Some (xs ! nat j))"

fun insert_at_pivot :: "insert_where \<Rightarrow> 'v \<Rightarrow> 'v \<Rightarrow> 'v list \<Rightarrow> 'v list option" where
  "insert_at_pivot w p v [] = None"
| "insert_at_pivot w p v (x # xs) =
     (if x = p then Some (case w of Before \<Rightarrow> v # x # xs | After \<Rightarrow> x # v # xs)
      else map_option ((#) x) (insert_at_pivot w p v xs))"

definition store_range :: "string \<Rightarrow> int \<Rightarrow> int \<Rightarrow> 'v store \<Rightarrow> 'v list \<times> 'v store" where
  "store_range k start stop s = (range_of start stop (st_lists s k), s)"

definition store_index :: "string \<Rightarrow> int \<Rightarrow> 'v store \<Rightarrow> 'v option \<times> 'v store" where
  "store_index k i s = (index_of i (st_lists s k), s)"

definition store_push_front :: "string \<Rightarrow> 'v \<Rightarrow> 'v store \<Rightarrow> int \<times> 'v store" where
  "store_push_front k v s =
     (int (length (st_lists s k)) + 1, set_list k (v # st_lists s k) s)"

definition store_push_back :: "string \<Rightarrow> 'v \<Rightarrow> 'v store \<Rightarrow> int \<times> 'v store" where
  "store_push_back k v s =
     (int (length (st_lists s k)) + 1, set_list k (st_lists s k @ [v]) s)"

definition store_pop_front :: "string \<Rightarrow> 'v store \<Rightarrow> 'v option \<times> 'v store" where
  "store_pop_front k s =
     (case st_lists s k of [] \<Rightarrow> (None, s) | x # xs \<Rightarrow> (Some x, set_list k xs s))"

definition store_pop_back :: "string \<Rightarrow> 'v store \<Rightarrow> 'v option \<times> 'v store" where
  "store_pop_back k s =
     (case st_lists s k of [] \<Rightarrow> (None, s)
      | x # xs \<Rightarrow> (Some (last (x # xs)), set_list k (butlast (x # xs)) s))"

definition store_insert ::
    "string \<Rightarrow> insert_where \<Rightarrow> 'v \<Rightarrow> 'v \<Rightarrow> 'v store \<Rightarrow> int \<times> 'v store" where
  "store_insert k w p v s =
     (case insert_at_pivot w p v (st_lists s k) of
        None \<Rightarrow> (-1, s)
      | Some ys \<Rightarrow> (int (length ys), set_list k ys s))"

definition store_remove :: "string \<Rightarrow> 'v \<Rightarrow> 'v store \<Rightarrow> int \<times> 'v store" where
  "store_remove k v s =
     (int (length (filter (\<lambda>x. x = v) (st_lists s k))),
      set_list k (filter (\<lambda>x. x \<noteq> v) (st_lists s k)) s)"

definition store_trim :: "string \<Rightarrow> int \<Rightarrow> int \<Rightarrow> 'v store \<Rightarrow> unit \<times> 'v store" where
  "store_trim k start stop s = ((), set_list k (range_of start stop (st_lists s k)) s)"

lemmas store_defs = store_get_def store_set_def store_delete_def set_list_def store_len_def
  store_range_def store_index_def store_push_front_def store_push_back_def
  store_pop_front_def store_pop_back_def store_insert_def store_remove_def store_trim_def

section \<open>Facts about ranges and pivots\<close>

lemma range_of_all [simp]: "range_of 0 (-1) xs = xs"
  by (cases xs) (auto simp: range_of_def resolve_range_def Let_def)

lemma range_of_suffix:
  assumes "0 \<le> n" and "n \<le> int (length xs)"
  shows "range_of n (-1) xs = drop (nat n) xs"
  using assms by (auto simp: range_of_def resolve_range_def Let_def)

lemma index_of_nth: "i < length xs \<Longrightarrow> index_of (int i) xs = Some (xs ! i)"
  by (simp add: index_of_def)

lemma index_of_neg:
  assumes "i < 0" and "- int (length xs) \<le> i"
  shows "index_of i xs = Some (xs ! nat (int (length xs) + i))"
  using assms by (simp add: index_of_def Let_def)

lemma index_of_last: "xs \<noteq> [] \<Longrightarrow> index_of (-1) xs = Some (last xs)"
  by (cases xs rule: rev_cases) (simp_all add: index_of_def Let_def nth_append)

lemma index_of_front [simp]: "index_of 0 (x # xs) = Some x" "index_of i [] = None"
  by (simp_all add: index_of_def)

lemma index_of_None: "index_of i xs = None \<longleftrightarrow> i < - int (length xs) \<or> int (length xs) \<le> i"
  by (auto simp: index_of_def Let_def)

lemma index_of_mem: "index_of i xs = Some x \<Longrightarrow> x \<in> set xs"
  by (auto simp: index_of_def Let_def split: if_splits)

lemma insert_at_pivot_None: "insert_at_pivot w p v xs = None \<longleftrightarrow> p \<notin> set xs"
  by (induction xs) auto

lemma insert_at_pivot_split:
  assumes "p \<notin> set xs"
  shows "insert_at_pivot w p v (xs @ p # ys) =
     Some (case w of Before \<Rightarrow> xs @ v # p # ys | After \<Rightarrow> xs @ p # v # ys)"
  using assms by (induction xs) (auto split: insert_where.splits)

lemma insert_at_pivot_parts:
  "insert_at_pivot w p v xs = Some ys \<Longrightarrow> \<exists>as bs. xs = as @ bs \<and> ys = as @ v # bs"
proof (induction xs arbitrary: ys)
  case (Cons x xs)
  show ?case
  proof (cases "x = p")
    case True
    then have "ys = (case w of Before \<Rightarrow> [] @ v # x # xs | After \<Rightarrow> [x] @ v # xs)"
      using Cons.prems by (simp split: insert_where.splits)
    then show ?thesis by (cases w) (force intro: exI [of _ "[]"] exI [of _ "[x]"])+
  next
    case False
    then obtain zs where zs: "insert_at_pivot w p v xs = Some zs" "ys = x # zs"
      using Cons.prems by auto
    from Cons.IH [OF zs(1)] obtain as bs where "xs = as @ bs" "zs = as @ v # bs" by auto
    then have "x # xs = (x # as) @ bs \<and> ys = (x # as) @ v # bs" by (simp add: zs(2))
    then show ?thesis by blast
  qed
qed simp

lemma length_insert_at_pivot: "insert_at_pivot w p v xs = Some ys \<Longrightarrow> length ys = Suc (length xs)"
  by (induction xs arbitrary: ys) (auto split: if_splits insert_where.splits)

lemma set_insert_at_pivot: "insert_at_pivot w p v xs = Some ys \<Longrightarrow> set ys = insert v (set xs)"
  by (induction xs arbitrary: ys) (auto split: if_splits insert_where.splits)

section \<open>The interface\<close>

text \<open>
  What the queue code relies on, for one named list of a store \<open>'s\<close> whose contents are
  \<open>lst s k\<close>. \<open>fits s k\<close> says that the backend can represent one more element of list \<open>k\<close>
  (always true for the functional store, a bound on the stored positions for the SQL one).
\<close>

locale queue_lists =
  fixes lst :: "'s \<Rightarrow> string \<Rightarrow> 'v list"
    and sinv :: "'s \<Rightarrow> bool"
    and fits :: "'s \<Rightarrow> string \<Rightarrow> bool"
    and push_front :: "string \<Rightarrow> 'v \<Rightarrow> 's \<Rightarrow> int \<times> 's"
    and push_back :: "string \<Rightarrow> 'v \<Rightarrow> 's \<Rightarrow> int \<times> 's"
    and pop_front :: "string \<Rightarrow> 's \<Rightarrow> 'v option \<times> 's"
    and pop_back :: "string \<Rightarrow> 's \<Rightarrow> 'v option \<times> 's"
    and pivot_insert :: "string \<Rightarrow> insert_where \<Rightarrow> 'v \<Rightarrow> 'v \<Rightarrow> 's \<Rightarrow> int \<times> 's"
    and remove_all :: "string \<Rightarrow> 'v \<Rightarrow> 's \<Rightarrow> int \<times> 's"
  assumes push_front_law:
      "\<lbrakk>sinv s; fits s k; push_front k v s = (n, t)\<rbrakk>
       \<Longrightarrow> sinv t \<and> lst t = (lst s)(k := v # lst s k) \<and> n = int (length (lst t k))"
    and push_back_law:
      "\<lbrakk>sinv s; fits s k; push_back k v s = (n, t)\<rbrakk>
       \<Longrightarrow> sinv t \<and> lst t = (lst s)(k := lst s k @ [v]) \<and> n = int (length (lst t k))"
    and pop_front_law:
      "\<lbrakk>sinv s; pop_front k s = (r, t)\<rbrakk>
       \<Longrightarrow> sinv t \<and> lst t = (lst s)(k := tl (lst s k)) \<and>
           r = (if lst s k = [] then None else Some (hd (lst s k)))"
    and pop_back_law:
      "\<lbrakk>sinv s; pop_back k s = (r, t)\<rbrakk>
       \<Longrightarrow> sinv t \<and> lst t = (lst s)(k := butlast (lst s k)) \<and>
           r = (if lst s k = [] then None else Some (last (lst s k)))"
    and pivot_insert_law:
      "\<lbrakk>sinv s; fits s k; pivot_insert k w p v s = (n, t)\<rbrakk>
       \<Longrightarrow> sinv t \<and>
          (case insert_at_pivot w p v (lst s k) of
             None \<Rightarrow> n = -1 \<and> lst t = lst s
           | Some ys \<Rightarrow> n = int (length ys) \<and> lst t = (lst s)(k := ys))"
    and remove_all_law:
      "\<lbrakk>sinv s; remove_all k v s = (n, t)\<rbrakk>
       \<Longrightarrow> sinv t \<and> lst t = (lst s)(k := filter (\<lambda>x. x \<noteq> v) (lst s k)) \<and>
           n = int (length (filter (\<lambda>x. x = v) (lst s k)))"
begin

text \<open>Replacing an element: insert after it, then remove it (\<open>_replace_item\<close>).\<close>

lemma replace_in_place:
  assumes "sinv s" "fits s k" and xs: "lst s k = xs @ p # ys"
    and p: "p \<notin> set xs" "p \<notin> set ys" "v \<noteq> p"
    and ins: "pivot_insert k After p v s = (n, t)" and rem: "remove_all k p t = (m, u)"
  shows "sinv u" and "lst u = (lst s)(k := xs @ v # ys)" and "m = 1"
proof -
  from pivot_insert_law [OF assms(1,2) ins] xs p(1)
  have t: "sinv t" "lst t = (lst s)(k := xs @ p # v # ys)"
    by (auto simp: insert_at_pivot_split)
  note r = remove_all_law [OF t(1) rem]
  then show "sinv u" by simp
  show "lst u = (lst s)(k := xs @ v # ys)" using r t p by (simp add: fun_eq_iff)
  show "m = 1" using r t p by simp
qed

text \<open>Removing an element that occurs once.\<close>

lemma remove_single:
  assumes "sinv s" and xs: "lst s k = xs @ p # ys" and p: "p \<notin> set xs" "p \<notin> set ys"
    and rem: "remove_all k p s = (m, u)"
  shows "sinv u" and "lst u = (lst s)(k := xs @ ys)" and "m = 1"
proof -
  note r = remove_all_law [OF assms(1) rem]
  then show "sinv u" by simp
  show "lst u = (lst s)(k := xs @ ys)" using r xs p by simp
  show "m = 1" using r xs p by simp
qed

text \<open>A pushed element is the next one popped at the same end, and nothing else changes.\<close>

lemma push_pop_front:
  assumes "sinv s" "fits s k" "push_front k v s = (n, t)" "pop_front k t = (r, u)"
  shows "r = Some v" and "lst u = lst s"
  using push_front_law [OF assms(1-3)] pop_front_law [of t k r u] assms(4) by auto

lemma push_pop_back:
  assumes "sinv s" "fits s k" "push_back k v s = (n, t)" "pop_back k t = (r, u)"
  shows "r = Some v" and "lst u = lst s"
  using push_back_law [OF assms(1-3)] pop_back_law [of t k r u] assms(4) by auto

end

interpretation qs: queue_lists st_lists "\<lambda>_. True" "\<lambda>_ _. True" store_push_front
    store_push_back store_pop_front store_pop_back store_insert store_remove
  by unfold_locales
    (auto simp: store_defs length_insert_at_pivot split: list.splits option.splits)

end
