(* ===== verification/PlanQueue.thy ===== *)
theory PlanQueue
  imports QueueStore
begin

text \<open>
  The plan queue of the queue server (\<open>manager/plan_queue_ops.py\<close>, class
  \<open>PlanQueueOperations\<close>): the object's state, the private method bodies and the public
  operations. Items are JSON values, because most methods accept whatever the API hands
  them; each misuse is an exception value. Parameters that default to \<open>None\<close> are JSON values
  with \<open>JNull\<close> for \<open>None\<close>. Methods that the class protects with its \<open>asyncio.Lock\<close> run one at
  a time, so a public operation is one state transformer.
\<close>

section \<open>State\<close>

text \<open>
  \<open>pq_uuids\<close> is the sequence of values \<open>uuid.uuid4()\<close> yields and \<open>pq_clock\<close> the sequence of
  readings of \<open>time.time()\<close>; \<open>pq_next\<close> and \<open>pq_tick\<close> count how many were consumed.
\<close>

record pq =
  pq_store :: "json store"
  pq_prefix :: string
  pq_uid_dict :: "json \<Rightarrow> json option"
  pq_opened :: bool
  pq_has_lock :: bool
  pq_queue_uid :: string
  pq_history_uid :: string
  pq_queue_size :: int
  pq_history_size :: int
  pq_running_info :: json
  pq_mode :: dict
  pq_uuids :: "nat \<Rightarrow> string"
  pq_next :: nat
  pq_clock :: "nat \<Rightarrow> rat"
  pq_tick :: nat

type_synonym 'a pqm = "(pq, 'a) prog"

definition name_running_plan :: "pq \<Rightarrow> string" where
  "name_running_plan s = pq_prefix s @ ''running_plan''"

definition name_plan_queue :: "pq \<Rightarrow> string" where
  "name_plan_queue s = pq_prefix s @ ''plan_queue''"

definition name_plan_history :: "pq \<Rightarrow> string" where
  "name_plan_history s = pq_prefix s @ ''plan_history''"

definition name_plan_queue_mode :: "pq \<Rightarrow> string" where
  "name_plan_queue_mode s = pq_prefix s @ ''plan_queue_mode''"

lemmas name_defs = name_running_plan_def name_plan_queue_def name_plan_history_def
  name_plan_queue_mode_def

definition plan_queue_mode_default :: dict where
  "plan_queue_mode_default = [(''loop'', JBool False), (''ignore_failures'', JBool False)]"

text \<open>\<open>__init__\<close> over an existing store, with the remaining uuid and clock sequences.\<close>

definition pq_init ::
    "string \<Rightarrow> json store \<Rightarrow> (nat \<Rightarrow> string) \<Rightarrow> nat \<Rightarrow> (nat \<Rightarrow> rat) \<Rightarrow> nat \<Rightarrow> pq" where
  "pq_init name_prefix st us n ck t =
     \<lparr>pq_store = st,
      pq_prefix = (if name_prefix \<noteq> [] then name_prefix @ ''_'' else name_prefix),
      pq_uid_dict = (\<lambda>_. None), pq_opened = False, pq_has_lock = False,
      pq_queue_uid = us n, pq_history_uid = us (Suc n),
      pq_queue_size = 0, pq_history_size = 0, pq_running_info = JNull,
      pq_mode = plan_queue_mode_default,
      pq_uuids = us, pq_next = n + 2, pq_clock = ck, pq_tick = t\<rparr>"

section \<open>Access to the store, the clock and fresh identifiers\<close>

definition st :: "(pq \<Rightarrow> json store \<Rightarrow> 'a \<times> json store) \<Rightarrow> 'a pqm" where
  "st f = (\<lambda>s. case f s (pq_store s) of (r, t) \<Rightarrow> (Inr r, s\<lparr>pq_store := t\<rparr>))"

lemma wp_st:
  "wp (st f) Q E s = (case f s (pq_store s) of (r, t) \<Rightarrow> Q r (s\<lparr>pq_store := t\<rparr>))"
  by (simp add: wp_def st_def split: prod.splits)

lemma run_st [run_simps]:
  "st f s = (case f s (pq_store s) of (r, t) \<Rightarrow> (Inr r, s\<lparr>pq_store := t\<rparr>))"
  by (simp add: st_def)

definition new_item_uid :: "string pqm" where
  "new_item_uid = bnd (gets (\<lambda>s. pq_uuids s (pq_next s)))
     (\<lambda>u. sq (upd (\<lambda>s. s\<lparr>pq_next := Suc (pq_next s)\<rparr>)) (ret u))"

definition time_time :: "rat pqm" where
  "time_time = bnd (gets (\<lambda>s. pq_clock s (pq_tick s)))
     (\<lambda>t. sq (upd (\<lambda>s. s\<lparr>pq_tick := Suc (pq_tick s)\<rparr>)) (ret t))"

definition renew_queue_uid :: "unit pqm" where
  "renew_queue_uid = bnd new_item_uid (\<lambda>u. upd (\<lambda>s. s\<lparr>pq_queue_uid := u\<rparr>))"

definition renew_history_uid :: "unit pqm" where
  "renew_history_uid = bnd new_item_uid (\<lambda>u. upd (\<lambda>s. s\<lparr>pq_history_uid := u\<rparr>))"

definition verify_item_type :: "json \<Rightarrow> unit pqm" where
  "verify_item_type item = fail_if (\<not> is_dict item) TypeError"

definition set_new_item_uuid :: "json \<Rightarrow> json pqm" where
  "set_new_item_uuid item =
     sq (verify_item_type item)
       (bnd new_item_uid (\<lambda>u. lift (py_setitem item ''item_uid'' (JStr u))))"

section \<open>The UID dictionary\<close>

definition uid_dict_clear :: "unit pqm" where
  "uid_dict_clear = sq renew_queue_uid (upd (\<lambda>s. s\<lparr>pq_uid_dict := (\<lambda>_. None)\<rparr>))"

definition is_uid_in_dict :: "json \<Rightarrow> bool pqm" where
  "is_uid_in_dict uid =
     sq (fail_if (\<not> hashable uid) TypeError) (gets (\<lambda>s. pq_uid_dict s (py_key uid) \<noteq> None))"

definition uid_dict_put :: "json \<Rightarrow> json \<Rightarrow> unit pqm" where
  "uid_dict_put uid item =
     upd (\<lambda>s. s\<lparr>pq_uid_dict := (pq_uid_dict s)(py_key uid \<mapsto> item)\<rparr>)"

definition uid_dict_add :: "json \<Rightarrow> unit pqm" where
  "uid_dict_add item =
     bnd (lift (py_getitem item ''item_uid'')) (\<lambda>uid.
     bnd (is_uid_in_dict uid) (\<lambda>present.
     sq (fail_if present RuntimeError) (sq renew_queue_uid (uid_dict_put uid item))))"

definition uid_dict_remove :: "json \<Rightarrow> unit pqm" where
  "uid_dict_remove uid =
     bnd (is_uid_in_dict uid) (\<lambda>present.
     sq (fail_if (\<not> present) RuntimeError)
       (sq renew_queue_uid
         (upd (\<lambda>s. s\<lparr>pq_uid_dict := (pq_uid_dict s)(py_key uid := None)\<rparr>))))"

definition uid_dict_update :: "json \<Rightarrow> unit pqm" where
  "uid_dict_update item =
     bnd (lift (py_getitem item ''item_uid'')) (\<lambda>uid.
     bnd (is_uid_in_dict uid) (\<lambda>present.
     sq (fail_if (\<not> present) RuntimeError) (sq renew_queue_uid (uid_dict_put uid item))))"

definition uid_dict_get_item :: "json \<Rightarrow> json pqm" where
  "uid_dict_get_item uid =
     bnd (gets (\<lambda>s. pq_uid_dict s (py_key uid))) (\<lambda>r.
       case r of None \<Rightarrow> raise KeyError | Some item \<Rightarrow> ret item)"

definition verify_item :: "json \<Rightarrow> json list \<Rightarrow> unit pqm" where
  "verify_item item ignore_uids =
     sq (verify_item_type item)
       (bnd (lift (py_contains ''item_uid'' item)) (\<lambda>has.
        sq (fail_if (\<not> has) ValueError)
          (bnd (lift (py_getitem item ''item_uid'')) (\<lambda>uid.
             if py_in uid ignore_uids then ret ()
             else bnd (is_uid_in_dict uid) (\<lambda>present. fail_if present RuntimeError)))))"

section \<open>Reading the queue and the running item\<close>

definition get_queue_body :: "(json list \<times> string) pqm" where
  "get_queue_body =
     bnd (st (\<lambda>s. store_range (name_plan_queue s) 0 (-1))) (\<lambda>items.
     bnd (gets pq_queue_uid) (\<lambda>u. ret (items, u)))"

definition get_queue_size_body :: "int pqm" where
  "get_queue_size_body = st (\<lambda>s. store_len (name_plan_queue s))"

definition get_history_size_body :: "int pqm" where
  "get_history_size_body = st (\<lambda>s. store_len (name_plan_history s))"

definition get_running_item_info_body :: "json pqm" where
  "get_running_item_info_body =
     bnd (st (\<lambda>s. store_get (name_running_plan s))) (\<lambda>r.
     ret (case r of None \<Rightarrow> JDict [] | Some plan \<Rightarrow> plan))"

definition is_item_running_body :: "bool pqm" where
  "is_item_running_body = bnd get_running_item_info_body (\<lambda>r. ret (truthy r))"

text \<open>\<open>self._queue_size = await self._get_queue_size()\<close>, and the same for the other caches.\<close>

definition refresh_queue_size :: "unit pqm" where
  "refresh_queue_size =
     bnd get_queue_size_body (\<lambda>n. upd (\<lambda>s. s\<lparr>pq_queue_size := n\<rparr>))"

definition refresh_history_size :: "unit pqm" where
  "refresh_history_size =
     bnd get_history_size_body (\<lambda>n. upd (\<lambda>s. s\<lparr>pq_history_size := n\<rparr>))"

definition refresh_running_info :: "unit pqm" where
  "refresh_running_info =
     bnd get_running_item_info_body (\<lambda>r. upd (\<lambda>s. s\<lparr>pq_running_info := r\<rparr>))"

definition set_running_item_info :: "json \<Rightarrow> unit pqm" where
  "set_running_item_info plan =
     sq (st (\<lambda>s. store_set (name_running_plan s) plan)) refresh_running_info"

definition clear_running_item_info :: "unit pqm" where
  "clear_running_item_info = sq (set_running_item_info (JDict [])) refresh_running_info"

text \<open>The synchronous accessors read the cached copies.\<close>

definition is_item_running :: "bool pqm" where
  "is_item_running = gets (\<lambda>s. truthy (pq_running_info s))"

definition get_running_item_info :: "json pqm" where
  "get_running_item_info = gets pq_running_info"

definition get_queue_size :: "int pqm" where
  "get_queue_size = gets pq_queue_size"

definition get_history_size :: "int pqm" where
  "get_history_size = gets pq_history_size"

text \<open>The position of the item with a given UID, scanning from position \<open>n\<close>.\<close>

fun index_by_uid_from :: "json \<Rightarrow> int \<Rightarrow> json list \<Rightarrow> py_error + int" where
  "index_by_uid_from uid n [] = Inl IndexError"
| "index_by_uid_from uid n (plan # plans) =
     ebind (py_getitem plan ''item_uid'')
       (\<lambda>u. if py_eq u uid then Inr n else index_by_uid_from uid (n + 1) plans)"

definition get_index_by_uid :: "json \<Rightarrow> int pqm" where
  "get_index_by_uid uid =
     bnd get_queue_body (\<lambda>(queue, _). lift (index_by_uid_from uid 0 queue))"

fun uid_to_index ::
    "json set \<Rightarrow> int \<Rightarrow> json list \<Rightarrow> (json \<Rightarrow> int option) \<Rightarrow> py_error + (json \<Rightarrow> int option)" where
  "uid_to_index uids_set n [] m = Inr m"
| "uid_to_index uids_set n (plan # plans) m =
     ebind (py_getitem plan ''item_uid'')
       (\<lambda>u. if \<not> hashable u then Inl TypeError
            else uid_to_index uids_set (n + 1) plans
                   (if py_key u \<in> uids_set then m(py_key u \<mapsto> n) else m))"

definition get_index_by_uid_batch :: "json list \<Rightarrow> int list pqm" where
  "get_index_by_uid_batch uids =
     bnd get_queue_body (\<lambda>(queue, _).
     sq (fail_if (\<exists>u \<in> set uids. \<not> hashable u) TypeError)
       (bnd (lift (uid_to_index (py_key ` set uids) 0 queue (\<lambda>_. None))) (\<lambda>m.
        ret (map (\<lambda>u. case m (py_key u) of None \<Rightarrow> -1 | Some i \<Rightarrow> i) uids))))"

text \<open>\<open>isinstance(v, int)\<close>, which booleans satisfy too, with the number.\<close>

fun as_int :: "json \<Rightarrow> int option" where
  "as_int (JInt i) = Some i"
| "as_int (JBool b) = Some (if b then 1 else 0)"
| "as_int _ = None"

text \<open>The running item blocks operations on its UID: \<open>running_item and uid == running_item["item_uid"]\<close>.\<close>

definition uid_is_running :: "json \<Rightarrow> bool pqm" where
  "uid_is_running uid =
     bnd get_running_item_info_body (\<lambda>running_item.
     if truthy running_item
     then bnd (lift (py_getitem running_item ''item_uid'')) (\<lambda>u. ret (py_eq uid u))
     else ret False)"

definition get_item_body :: "json \<Rightarrow> json \<Rightarrow> json pqm" where
  "get_item_body pos uid =
     sq (fail_if (pos \<noteq> JNull \<and> uid \<noteq> JNull) ValueError)
       (if uid \<noteq> JNull then
          bnd (is_uid_in_dict uid) (\<lambda>present.
          sq (fail_if (\<not> present) IndexError)
            (bnd (uid_is_running uid) (\<lambda>run.
             sq (fail_if run IndexError) (uid_dict_get_item uid))))
        else
          let pos' = (if pos \<noteq> JNull then pos else JStr ''back'')
          in bnd (if pos' = JStr ''back'' then ret (-1)
                  else if pos' = JStr ''front'' then ret 0
                  else (case as_int pos' of Some i \<Rightarrow> ret i | None \<Rightarrow> raise TypeError)) (\<lambda>index.
             bnd (st (\<lambda>s. store_index (name_plan_queue s) index)) (\<lambda>r.
               case r of None \<Rightarrow> raise IndexError | Some item \<Rightarrow> ret item)))"

definition remove_item_body :: "json \<Rightarrow> bool \<Rightarrow> unit pqm" where
  "remove_item_body item single =
     bnd (st (\<lambda>s. store_remove (name_plan_queue s) item)) (\<lambda>n_rem_items.
     sq refresh_queue_size (fail_if (n_rem_items \<noteq> 1 \<and> single) RuntimeError))"

end
