(* ===== verification/PlanQueueOps.thy ===== *)
theory PlanQueueOps
  imports PlanQueue
begin

text \<open>
  The operations of \<open>PlanQueueOperations\<close> (\<open>manager/plan_queue_ops.py\<close>): removal, insertion,
  replacement and moves of queue items, batches of them, the history, the execution cycle of
  a plan, the queue mode, start and restart. Each private body \<open>_op\<close> of the class is
  \<open>op_body\<close>; the public method \<open>op\<close> runs it while holding the lock.
\<close>

text \<open>
  \<open>async with self._lock\<close>: before \<open>start\<close> there is no lock object, and entering \<open>None\<close> raises.
\<close>

definition with_lock :: "'a pqm \<Rightarrow> 'a pqm" where
  "with_lock m = bnd (gets pq_has_lock) (\<lambda>b. if b then m else raise TypeError)"

section \<open>Removing items\<close>

definition pop_item_from_queue_body :: "json \<Rightarrow> json \<Rightarrow> (json \<times> int) pqm" where
  "pop_item_from_queue_body pos uid =
     sq (fail_if (pos \<noteq> JNull \<and> uid \<noteq> JNull) ValueError)
       (let pos' = (if pos \<noteq> JNull then pos else JStr ''back'') in
        bnd (if uid \<noteq> JNull then
               bnd (is_uid_in_dict uid) (\<lambda>present.
               sq (fail_if (\<not> present) IndexError)
                 (bnd (uid_is_running uid) (\<lambda>run.
                  sq (fail_if run IndexError)
                    (bnd (uid_dict_get_item uid) (\<lambda>item.
                     sq (remove_item_body item True) (ret item))))))
             else if pos' = JStr ''back'' then
               bnd (st (\<lambda>s. store_pop_back (name_plan_queue s))) (\<lambda>r.
                 case r of None \<Rightarrow> raise IndexError | Some item \<Rightarrow> ret item)
             else if pos' = JStr ''front'' then
               bnd (st (\<lambda>s. store_pop_front (name_plan_queue s))) (\<lambda>r.
                 case r of None \<Rightarrow> raise IndexError | Some item \<Rightarrow> ret item)
             else if as_int pos' \<noteq> None then
               bnd (get_item_body pos' JNull) (\<lambda>item.
               sq (when_do (truthy item) (remove_item_body item True)) (ret item))
             else raise ValueError) (\<lambda>item.
        sq (when_do (truthy item)
              (bnd (lift (py_getitem item ''item_uid'')) uid_dict_remove))
          (sq refresh_queue_size
            (bnd (gets pq_queue_size) (\<lambda>n. ret (item, n))))))"

definition as_list :: "json \<Rightarrow> py_error + json list" where
  "as_list uids =
     (if \<not> truthy uids then Inr [] else case uids of JList us \<Rightarrow> Inr us | _ \<Rightarrow> Inl TypeError)"

text \<open>\<open>len(set(uids)) != len(uids)\<close>; building the set raises for unhashable elements.\<close>

definition check_repeated :: "json list \<Rightarrow> unit pqm" where
  "check_repeated uids =
     sq (fail_if (\<exists>u \<in> set uids. \<not> hashable u) TypeError)
       (fail_if (\<not> distinct (map py_key uids)) ValueError)"

definition check_missing :: "json list \<Rightarrow> unit pqm" where
  "check_missing uids =
     bnd (mapP is_uid_in_dict uids) (\<lambda>ps. fail_if (\<not> list_all id ps) ValueError)"

fun pop_uids :: "json list \<Rightarrow> json list pqm" where
  "pop_uids [] = ret []"
| "pop_uids (uid # uids) =
     bnd (catch (bnd (pop_item_from_queue_body JNull uid) (\<lambda>(item, _). ret [item]))
            (\<lambda>_. ret [])) (\<lambda>items.
     bnd (pop_uids uids) (\<lambda>rest. ret (items @ rest)))"

definition pop_item_from_queue_batch_body :: "json \<Rightarrow> bool \<Rightarrow> (json list \<times> int) pqm" where
  "pop_item_from_queue_batch_body uids ignore_missing =
     bnd (lift (as_list uids)) (\<lambda>us.
     sq (when_do (\<not> ignore_missing) (sq (check_repeated us) (check_missing us)))
       (bnd (pop_uids us) (\<lambda>items.
        sq refresh_queue_size (bnd (gets pq_queue_size) (\<lambda>n. ret (items, n))))))"

section \<open>Adding items\<close>

definition allowed_item_parameters :: "string list" where
  "allowed_item_parameters =
     [''item_uid'', ''item_type'', ''name'', ''args'', ''kwargs'', ''meta'', ''user'',
      ''user_group'', ''properties'']"

definition filter_item_parameters :: "json \<Rightarrow> py_error + json" where
  "filter_item_parameters item =
     (case item of
        JDict d \<Rightarrow> Inr (JDict (filter (\<lambda>kv. fst kv \<in> set allowed_item_parameters) d))
      | _ \<Rightarrow> Inl AttributeError)"

text \<open>An integer position is clipped to the ends of the queue of size \<open>qsize0\<close>.\<close>

definition clip_pos :: "int \<Rightarrow> json \<Rightarrow> json" where
  "clip_pos qsize0 pos =
     (case as_int pos of
        None \<Rightarrow> pos
      | Some p \<Rightarrow>
          if p = 0 \<or> p < - qsize0 then JStr ''front''
          else if p = -1 \<or> p \<ge> qsize0 then JStr ''back''
          else pos)"

definition insert_next_to_uid :: "json \<Rightarrow> json \<Rightarrow> json \<Rightarrow> int pqm" where
  "insert_next_to_uid item before_uid after_uid =
     (let uid = (if before_uid \<noteq> JNull then before_uid else after_uid);
          before = py_eq uid before_uid
      in bnd (is_uid_in_dict uid) (\<lambda>present.
         sq (fail_if (\<not> present) IndexError)
           (bnd (uid_is_running uid) (\<lambda>run.
              if run then
                (if before then raise IndexError
                 else st (\<lambda>s. store_push_front (name_plan_queue s) item))
              else
                bnd (uid_dict_get_item uid) (\<lambda>item_to_displace.
                st (\<lambda>s. store_insert (name_plan_queue s) (if before then Before else After)
                           item_to_displace item))))))"

definition insert_at_pos :: "json \<Rightarrow> json \<Rightarrow> int pqm" where
  "insert_at_pos item pos =
     (if pos = JStr ''back'' then st (\<lambda>s. store_push_back (name_plan_queue s) item)
      else if pos = JStr ''front'' then st (\<lambda>s. store_push_front (name_plan_queue s) item)
      else (case as_int pos of
          Some p \<Rightarrow>
            let pos_reference = (if p > 0 then p else p + 1) in
            bnd (get_item_body (JInt pos_reference) JNull) (\<lambda>item_to_displace.
              if truthy item_to_displace then
                st (\<lambda>s. store_insert (name_plan_queue s) Before item_to_displace item)
              else raise RuntimeError)
        | None \<Rightarrow> raise ValueError))"

text \<open>
  The item as it will be stored: with a new UID if it has none, checked against the
  registered UIDs otherwise, and without the parameters that are not allowed.
\<close>

definition prepare_item :: "json \<Rightarrow> bool \<Rightarrow> json pqm" where
  "prepare_item item filter_parameters =
     bnd (lift (py_contains ''item_uid'' item)) (\<lambda>has.
     bnd (if \<not> has then set_new_item_uuid item else sq (verify_item item []) (ret item)) (\<lambda>item.
     if filter_parameters then lift (filter_item_parameters item) else ret item))"

definition add_item_to_queue_body ::
    "json \<Rightarrow> json \<Rightarrow> json \<Rightarrow> json \<Rightarrow> bool \<Rightarrow> (json \<times> int) pqm" where
  "add_item_to_queue_body item pos before_uid after_uid filter_parameters =
     sq (fail_if (pos \<noteq> JNull \<and> (before_uid \<noteq> JNull \<or> after_uid \<noteq> JNull)) ValueError)
    (sq (fail_if (before_uid \<noteq> JNull \<and> after_uid \<noteq> JNull) ValueError)
    (bnd (prepare_item item filter_parameters) (\<lambda>item.
     bnd get_queue_size_body (\<lambda>qsize0.
     bnd (if before_uid \<noteq> JNull \<or> after_uid \<noteq> JNull
          then insert_next_to_uid item before_uid after_uid
          else insert_at_pos item
                 (clip_pos qsize0 (if pos \<noteq> JNull then pos else JStr ''back''))) (\<lambda>qsize.
     sq (upd (\<lambda>s. s\<lparr>pq_queue_size := qsize\<rparr>))
       (sq (uid_dict_add item) (ret (item, qsize))))))))"

text \<open>
  One pass of the batch loop: the UIDs of the items added so far, the items as added (or as
  submitted, for those that failed) and one success flag per item.
\<close>

fun add_batch_loop ::
    "json \<Rightarrow> json \<Rightarrow> json \<Rightarrow> bool \<Rightarrow> json list \<Rightarrow> json list \<Rightarrow>
     (json list \<times> json list \<times> bool list) pqm" where
  "add_batch_loop pos before_uid after_uid flt added_uids [] = ret (added_uids, [], [])"
| "add_batch_loop pos before_uid after_uid flt added_uids (item # items) =
     bnd (catch
            (bnd (if added_uids = []
                  then add_item_to_queue_body item pos before_uid after_uid flt
                  else add_item_to_queue_body item JNull JNull (last added_uids) flt)
               (\<lambda>(item_added, _).
             bnd (lift (py_getitem item_added ''item_uid'')) (\<lambda>u. ret (Some (u, item_added)))))
            (\<lambda>_. ret None)) (\<lambda>r.
       case r of
         Some (u, item_added) \<Rightarrow>
           bnd (add_batch_loop pos before_uid after_uid flt (added_uids @ [u]) items)
             (\<lambda>(us, is, rs). ret (us, item_added # is, True # rs))
       | None \<Rightarrow>
           bnd (add_batch_loop pos before_uid after_uid flt added_uids items)
             (\<lambda>(us, is, rs). ret (us, item # is, False # rs)))"

definition undo_added :: "json list \<Rightarrow> unit pqm" where
  "undo_added uids =
     eachP (\<lambda>uid. catch (bnd (pop_item_from_queue_body JNull uid) (\<lambda>_. ret ())) (\<lambda>_. ret ())) uids"

definition add_batch_to_queue_body ::
    "json list \<Rightarrow> json \<Rightarrow> json \<Rightarrow> json \<Rightarrow> bool \<Rightarrow> (json list \<times> bool list \<times> int \<times> bool) pqm" where
  "add_batch_to_queue_body items pos before_uid after_uid filter_parameters =
     bnd (add_batch_loop pos before_uid after_uid filter_parameters [] items)
       (\<lambda>(added_item_uids, items_added, results).
     let success = list_all id results in
     sq (when_do (\<not> success) (undo_added added_item_uids))
       (sq refresh_queue_size
         (bnd (gets pq_queue_size) (\<lambda>n.
          ret (if success then items_added else items, results, n, success)))))"

section \<open>Replacing and moving items\<close>

text \<open>
  The exchange itself: the new item goes in after the old one, all elements equal to the old
  one are removed, and the UID dictionary follows.
\<close>

definition swap_item :: "json \<Rightarrow> json \<Rightarrow> json \<Rightarrow> (json \<times> int) pqm" where
  "swap_item item_to_replace item item_uid =
     bnd (st (\<lambda>s. store_insert (name_plan_queue s) After item_to_replace item)) (\<lambda>_.
     sq (remove_item_body item_to_replace True)
    (sq (uid_dict_remove item_uid)
    (sq (uid_dict_add item)
    (sq refresh_queue_size (bnd (gets pq_queue_size) (\<lambda>n. ret (item, n)))))))"

definition replace_item_body :: "json \<Rightarrow> json \<Rightarrow> (json \<times> int) pqm" where
  "replace_item_body item item_uid =
     bnd get_running_item_info_body (\<lambda>running_item.
     bnd (if truthy running_item then lift (py_getitem running_item ''item_uid'')
          else ret JNull) (\<lambda>running_item_uid.
     bnd (is_uid_in_dict item_uid) (\<lambda>present.
     sq (fail_if (\<not> present) RuntimeError)
    (sq (fail_if (running_item_uid \<noteq> JNull \<and> py_eq running_item_uid item_uid) RuntimeError)
    (bnd (lift (py_contains ''item_uid'' item)) (\<lambda>has.
     bnd (if \<not> has then set_new_item_uuid item else ret item) (\<lambda>item.
     bnd (uid_dict_get_item item_uid) (\<lambda>item_to_replace.
       if py_eq item item_to_replace then
         bnd get_queue_size_body (\<lambda>qsize. ret (item, qsize))
       else
         sq (verify_item item [item_uid])
           (bnd (lift (filter_item_parameters item)) (\<lambda>item.
            swap_item item_to_replace item item_uid))))))))))"

definition to_index_error :: "'a pqm \<Rightarrow> 'a pqm" where
  "to_index_error m = catch m (\<lambda>_. raise IndexError)"

text \<open>
  The destination of a move: the reference item and whether to insert before it. An integer
  destination is an index into the queue as it is before the source is taken out, so the
  item goes before the reference when it moves towards the front and after it otherwise.
\<close>

definition move_destination ::
    "json \<Rightarrow> json \<Rightarrow> json \<Rightarrow> json \<Rightarrow> json \<Rightarrow> int \<Rightarrow> (json \<times> bool) pqm" where
  "move_destination pos uid pos_dest before_uid after_uid queue_size =
     (if before_uid \<noteq> JNull \<or> after_uid \<noteq> JNull then
        let uid_dest = (if truthy before_uid then before_uid else after_uid) in
        bnd (get_item_body JNull uid_dest) (\<lambda>item_dest.
        ret (item_dest, py_eq uid_dest before_uid))
      else
        bnd (get_item_body pos_dest JNull) (\<lambda>item_dest.
        bnd (if uid \<noteq> JNull then bnd (get_index_by_uid uid) (\<lambda>i. ret (JInt i))
             else ret pos) (\<lambda>src.
        bnd (if src = JStr ''front'' then ret 0
             else if src = JStr ''back'' then ret (queue_size - 1)
             else (case as_int src of Some i \<Rightarrow> ret i | None \<Rightarrow> raise TypeError)) (\<lambda>src_index.
        bnd (if pos_dest = JStr ''front'' then ret True
             else if pos_dest = JStr ''back'' then ret False
             else (case as_int pos_dest of
                 None \<Rightarrow> raise TypeError
               | Some p \<Rightarrow>
                   let si = (if src_index \<ge> 0 then src_index else queue_size + src_index);
                       pd = (if p \<ge> 0 then p else queue_size + p)
                   in ret (si > pd))) (\<lambda>before.
        ret (item_dest, before))))))"

text \<open>The item is taken out and put back as it is, next to the destination.\<close>

definition reinsert_item :: "json \<Rightarrow> json \<Rightarrow> json \<Rightarrow> (json \<times> int) pqm" where
  "reinsert_item uid_source before_uid after_uid =
     bnd (pop_item_from_queue_body JNull uid_source) (\<lambda>(item, _).
     add_item_to_queue_body item JNull before_uid after_uid False)"

definition move_item_body ::
    "json \<Rightarrow> json \<Rightarrow> json \<Rightarrow> json \<Rightarrow> json \<Rightarrow> (json \<times> int) pqm" where
  "move_item_body pos uid pos_dest before_uid after_uid =
     sq (fail_if (pos = JNull \<and> uid = JNull) ValueError)
    (sq (fail_if (pos_dest = JNull \<and> before_uid = JNull \<and> after_uid = JNull) ValueError)
    (sq (fail_if (pos \<noteq> JNull \<and> uid \<noteq> JNull) ValueError)
    (sq (fail_if (pos_dest \<noteq> JNull \<and> (before_uid \<noteq> JNull \<or> after_uid \<noteq> JNull)) ValueError)
    (sq (fail_if (before_uid \<noteq> JNull \<and> after_uid \<noteq> JNull) ValueError)
    (bnd get_queue_size_body (\<lambda>queue_size.
     bnd (to_index_error (if uid \<noteq> JNull then get_item_body JNull uid
                          else get_item_body pos JNull)) (\<lambda>item_source.
     bnd (lift (py_getitem item_source ''item_uid'')) (\<lambda>uid_source.
     bnd (to_index_error
            (move_destination pos uid pos_dest before_uid after_uid queue_size))
       (\<lambda>(item_dest, before).
     bnd (lift (py_getitem item_dest ''item_uid'')) (\<lambda>uid_dest.
     bnd (if \<not> py_eq uid_source uid_dest then
            reinsert_item uid_source (if before then uid_dest else JNull)
              (if before then JNull else uid_dest)
          else bnd get_queue_size_body (\<lambda>qsize. ret (item_dest, qsize))) (\<lambda>(item, qsize).
     sq (upd (\<lambda>s. s\<lparr>pq_queue_size := qsize\<rparr>)) (ret (item, qsize)))))))))))))"

fun move_uids ::
    "json \<Rightarrow> json \<Rightarrow> json \<Rightarrow> json option \<Rightarrow> json list \<Rightarrow> json list pqm" where
  "move_uids pos_dest before_uid after_uid last_uid [] = ret []"
| "move_uids pos_dest before_uid after_uid last_uid (uid # uids) =
     bnd (case last_uid of
            None \<Rightarrow> move_item_body JNull uid pos_dest before_uid after_uid
          | Some l \<Rightarrow>
              (if l = JNull then move_item_body JNull uid pos_dest before_uid after_uid
               else move_item_body JNull uid JNull JNull l)) (\<lambda>(item, _).
     bnd (move_uids pos_dest before_uid after_uid (Some uid) uids) (\<lambda>items.
     ret (item # items)))"

definition move_batch_body ::
    "json \<Rightarrow> json \<Rightarrow> json \<Rightarrow> json \<Rightarrow> bool \<Rightarrow> (json list \<times> int) pqm" where
  "move_batch_body uids pos_dest before_uid after_uid reorder =
     bnd (lift (as_list uids)) (\<lambda>us.
     let n_params = length (filter (\<lambda>p. p \<noteq> JNull) [pos_dest, before_uid, after_uid]) in
     sq (fail_if (n_params < 1) ValueError)
    (sq (fail_if (n_params > 1) ValueError)
    (sq (check_repeated us)
    (sq (check_missing us)
    (sq (fail_if (before_uid \<noteq> JNull \<and> py_in before_uid us) ValueError)
    (sq (fail_if (after_uid \<noteq> JNull \<and> py_in after_uid us) ValueError)
    (bnd (if reorder then
            bnd (get_index_by_uid_batch us) (\<lambda>indices.
            ret (map snd (sort_key fst (zip indices us))))
          else ret us) (\<lambda>uids_prepared.
     bnd (move_uids pos_dest before_uid after_uid None uids_prepared) (\<lambda>items.
     sq refresh_queue_size (bnd (gets pq_queue_size) (\<lambda>n. ret (items, n))))))))))))"

definition clear_queue_body :: "unit pqm" where
  "clear_queue_body =
     sq renew_queue_uid
    (sq (st (\<lambda>s. store_delete [name_plan_queue s]))
    (bnd get_running_item_info_body (\<lambda>running_item.
     sq (if truthy running_item then
           bnd (lift (py_getitem running_item ''item_uid'')) (\<lambda>uid.
           bnd (uid_dict_get_item uid) (\<lambda>item.
           sq uid_dict_clear (uid_dict_add item)))
         else uid_dict_clear)
       refresh_queue_size)))"

end
