(* ===== verification/PlanQueueExec.thy ===== *)
theory PlanQueueExec
  imports PlanQueueOps
begin

text \<open>
  The history, the execution cycle of a plan (front of the queue, running item, history and
  possibly back to the queue), the queue mode, start-up and the public operations of
  \<open>PlanQueueOperations\<close> (\<open>manager/plan_queue_ops.py\<close>).
\<close>

section \<open>History\<close>

definition add_to_history :: "json \<Rightarrow> int pqm" where
  "add_to_history item =
     sq renew_history_uid
       (bnd (st (\<lambda>s. store_push_back (name_plan_history s) item)) (\<lambda>n.
        sq (upd (\<lambda>s. s\<lparr>pq_history_size := n\<rparr>)) (ret n)))"

definition get_history_body :: "(json list \<times> string) pqm" where
  "get_history_body =
     bnd (st (\<lambda>s. store_range (name_plan_history s) 0 (-1))) (\<lambda>items.
     bnd (gets pq_history_uid) (\<lambda>u. ret (items, u)))"

definition clear_history_body :: "unit pqm" where
  "clear_history_body =
     sq renew_history_uid
       (sq (st (\<lambda>s. store_delete [name_plan_history s])) refresh_history_size)"

text \<open>The position of the first history entry with the UID; a malformed entry raises.\<close>

fun history_index :: "json \<Rightarrow> int \<Rightarrow> json list \<Rightarrow> py_error + int option" where
  "history_index uid i [] = Inr None"
| "history_index uid i (item # items) =
     ebind (py_getitem item ''item_uid'')
       (\<lambda>u. if py_eq u uid then Inr (Some i) else history_index uid (i + 1) items)"

definition trim_history_body :: "int option \<Rightarrow> json \<Rightarrow> unit pqm" where
  "trim_history_body new_size item_uid =
     sq (fail_if (new_size = None \<and> item_uid = JNull) ValueError)
    (sq (fail_if (new_size \<noteq> None \<and> item_uid \<noteq> JNull) ValueError)
    (bnd (case new_size of
            Some n \<Rightarrow>
              bnd get_history_size_body (\<lambda>history_size.
              if n < history_size then
                (let n' = max (min n history_size) 0; n_delete = history_size - n' in
                 sq (st (\<lambda>s. store_trim (name_plan_history s) n_delete (-1))) (ret True))
              else ret False)
          | None \<Rightarrow>
              bnd get_history_body (\<lambda>(history, _).
              bnd (lift (history_index item_uid 0 history)) (\<lambda>n_delete.
                case n_delete of
                  None \<Rightarrow> ret False
                | Some i \<Rightarrow>
                    sq (st (\<lambda>s. store_trim (name_plan_history s) (i + 1) (-1))) (ret True))))
       (\<lambda>update_uid.
     sq (when_do update_uid renew_history_uid) refresh_history_size)))"

section \<open>Item properties and results\<close>

text \<open>\<open>item.setdefault(k, {})\<close>.\<close>

definition setdefault_dict :: "json \<Rightarrow> string \<Rightarrow> py_error + json" where
  "setdefault_dict item k =
     (case item of
        JDict d \<Rightarrow> Inr (JDict (if dhas d k then d else dset k (JDict []) d))
      | _ \<Rightarrow> Inl AttributeError)"

text \<open>\<open>item[k][k2] = v\<close>.\<close>

definition set_sub :: "json \<Rightarrow> string \<Rightarrow> string \<Rightarrow> json \<Rightarrow> py_error + json" where
  "set_sub item k k2 v =
     ebind (py_getitem item k) (\<lambda>sub. ebind (py_setitem sub k2 v) (\<lambda>sub'. py_setitem item k sub'))"

text \<open>\<open>item.setdefault("properties", {})[k] = v\<close>.\<close>

definition set_property :: "string \<Rightarrow> json \<Rightarrow> json \<Rightarrow> py_error + json" where
  "set_property k v item =
     ebind (setdefault_dict item ''properties'') (\<lambda>i. set_sub i ''properties'' k v)"

definition del_if_present :: "string \<Rightarrow> json \<Rightarrow> py_error + json" where
  "del_if_present k p = ebind (py_contains k p) (\<lambda>b. if b then py_delitem p k else Inr p)"

definition clean_item_properties :: "json \<Rightarrow> py_error + json" where
  "clean_item_properties item =
     ebind (py_contains ''properties'' item) (\<lambda>has.
       if has then
         ebind (py_getitem item ''properties'') (\<lambda>p.
         ebind (del_if_present ''immediate_execution'' p) (\<lambda>p1.
         ebind (del_if_present ''time_start'' p1) (\<lambda>p2.
           if truthy p2 then py_setitem item ''properties'' p2
           else py_delitem item ''properties'')))
       else Inr item)"

definition set_subs :: "json \<Rightarrow> string \<Rightarrow> (string \<times> json) list \<Rightarrow> py_error + json" where
  "set_subs item k kvs = fold (\<lambda>(k2, v) r. ebind r (\<lambda>i. set_sub i k k2 v)) kvs (Inr item)"

text \<open>The \<open>result\<close> dictionary of a finished item; the stop time is read half way.\<close>

definition add_result ::
    "json \<Rightarrow> json \<Rightarrow> json \<Rightarrow> json \<Rightarrow> json \<Rightarrow> json \<Rightarrow> json \<Rightarrow> json pqm" where
  "add_result item time_start exit_status run_uids scan_ids err_msg err_tb =
     bnd (lift (setdefault_dict item ''result'')) (\<lambda>i.
     bnd (lift (set_subs i ''result'' [(''exit_status'', exit_status), (''run_uids'', run_uids),
                  (''scan_ids'', scan_ids), (''time_start'', time_start)])) (\<lambda>i.
     bnd time_time (\<lambda>t.
     lift (set_subs i ''result'' [(''time_stop'', JFloat t), (''msg'', err_msg),
             (''traceback'', err_tb)]))))"

section \<open>The execution cycle\<close>

definition refresh_running :: "unit pqm" where
  "refresh_running = sq refresh_queue_size refresh_running_info"

definition refresh_all :: "unit pqm" where
  "refresh_all = sq refresh_queue_size (sq refresh_history_size refresh_running_info)"

text \<open>\<open>copy.deepcopy(item) if "item_uid" in item else self.set_new_item_uuid(item)\<close>.\<close>

definition with_item_uid :: "json \<Rightarrow> json pqm" where
  "with_item_uid item =
     bnd (lift (py_contains ''item_uid'' item)) (\<lambda>has.
     if has then ret item else set_new_item_uuid item)"

definition start_plan :: "bool \<Rightarrow> json \<Rightarrow> json pqm" where
  "start_plan immediate_execution item =
     bnd is_item_running_body (\<lambda>running.
     sq (fail_if running BareException)
    (bnd (if immediate_execution then ret item
          else bnd (get_item_body (JStr ''front'') JNull) (\<lambda>plan.
               sq (fail_if (\<not> truthy plan) BareException) (ret plan))) (\<lambda>plan.
     bnd (lift (py_contains ''item_type'' plan)) (\<lambda>has.
     sq (fail_if (\<not> has) BareException)
    (bnd (lift (py_getitem plan ''item_type'')) (\<lambda>item_type.
     sq (fail_if (\<not> py_eq item_type (JStr ''plan'')) RuntimeError)
    (sq (when_do (\<not> immediate_execution)
           (bnd (st (\<lambda>s. store_pop_front (name_plan_queue s))) (\<lambda>_. ret ())))
    (bnd time_time (\<lambda>t.
     bnd (lift (set_property ''time_start'' (JFloat t) plan)) (\<lambda>plan.
     sq (set_running_item_info plan) (sq renew_queue_uid (ret plan))))))))))))"

definition set_next_item_as_running_body :: "json \<Rightarrow> json pqm" where
  "set_next_item_as_running_body item =
     (let immediate_execution = truthy item in
      bnd (if immediate_execution then
             bnd (with_item_uid item) (\<lambda>i.
             lift (set_property ''immediate_execution'' (JBool True) i))
           else ret item) (\<lambda>item.
      bnd (catch (start_plan immediate_execution item)
             (\<lambda>e. if e = RuntimeError then raise e else ret (JDict []))) (\<lambda>plan.
      sq refresh_running (ret plan))))"

text \<open>
  A plan is set running; an instruction is popped and, in loop mode, put back at the end.
\<close>

definition process_item :: "bool \<Rightarrow> json \<Rightarrow> json \<Rightarrow> json pqm" where
  "process_item immediate_execution loop_mode item =
     (if truthy item then
        bnd (lift (py_getitem item ''item_type'')) (\<lambda>item_type.
        if py_eq item_type (JStr ''plan'') then
          set_next_item_as_running_body (if immediate_execution then item else JNull)
        else if \<not> immediate_execution then
          bnd (pop_item_from_queue_body (JStr ''front'') JNull) (\<lambda>_.
          sq (when_do (truthy loop_mode)
                (bnd (set_new_item_uuid item) (\<lambda>item_to_add.
                 bnd (add_item_to_queue_body item_to_add JNull JNull JNull True) (\<lambda>_.
                 ret ()))))
            (ret item))
        else ret item)
      else ret item)"

definition process_next_item_body :: "json \<Rightarrow> json pqm" where
  "process_next_item_body item =
     bnd (gets (\<lambda>s. item_at (pq_mode s) ''loop'')) (\<lambda>l.
     bnd (lift l) (\<lambda>loop_mode.
     let immediate_execution = truthy item in
     bnd (if immediate_execution then with_item_uid item
          else get_item_body (JStr ''front'') JNull) (\<lambda>item.
     bnd (process_item immediate_execution loop_mode item) (\<lambda>item_to_return.
     sq refresh_running (ret item_to_return)))))"

definition set_processed_item_as_completed_body ::
    "json \<Rightarrow> json \<Rightarrow> json \<Rightarrow> json \<Rightarrow> json \<Rightarrow> json pqm" where
  "set_processed_item_as_completed_body exit_status run_uids scan_ids err_msg err_tb =
     bnd (gets (\<lambda>s. item_at (pq_mode s) ''loop'')) (\<lambda>l.
     bnd (lift l) (\<lambda>loop_mode.
     bnd is_item_running_body (\<lambda>running.
     bnd (if running then
            bnd get_running_item_info_body (\<lambda>item.
            bnd (lift (py_getitem item ''properties'')) (\<lambda>props.
            bnd (lift (py_get props ''immediate_execution'' (JBool False))) (\<lambda>immediate.
            bnd (lift (py_getitem props ''time_start'')) (\<lambda>item_time_start.
            bnd (lift (clean_item_properties item)) (\<lambda>item_cleaned.
            sq (when_do (truthy loop_mode \<and> \<not> truthy immediate)
                  (bnd (set_new_item_uuid item_cleaned) (\<lambda>item_to_add.
                   bnd (st (\<lambda>s. store_push_back (name_plan_queue s) item_to_add)) (\<lambda>_.
                   bnd (lift (py_getitem item ''item_uid'')) (\<lambda>uid.
                   sq (uid_dict_remove uid) (uid_dict_add item_to_add))))))
           (bnd (add_result item_cleaned item_time_start exit_status run_uids scan_ids
                   err_msg err_tb) (\<lambda>item_cleaned.
            sq clear_running_item_info
           (sq (when_do (\<not> truthy loop_mode \<and> \<not> truthy immediate)
                  (bnd (lift (py_getitem item ''item_uid'')) uid_dict_remove))
           (sq renew_queue_uid
           (bnd (add_to_history item_cleaned) (\<lambda>_. ret item_cleaned)))))))))))
          else ret (JDict [])) (\<lambda>item_cleaned.
     sq refresh_all (ret item_cleaned)))))"

definition set_processed_item_as_stopped_body ::
    "json \<Rightarrow> json \<Rightarrow> json \<Rightarrow> json \<Rightarrow> json \<Rightarrow> json pqm" where
  "set_processed_item_as_stopped_body exit_status run_uids scan_ids err_msg err_tb =
     bnd (if py_eq exit_status (JStr ''stopped'') then
            set_processed_item_as_completed_body exit_status run_uids scan_ids err_msg err_tb
          else
            bnd is_item_running_body (\<lambda>running.
            if running then
              bnd get_running_item_info_body (\<lambda>item.
              bnd (lift (py_get item ''properties'' (JDict []))) (\<lambda>props.
              bnd (lift (py_get props ''immediate_execution'' (JBool False))) (\<lambda>immediate.
              bnd (lift (ebind (py_getitem item ''properties'')
                           (\<lambda>p. py_getitem p ''time_start''))) (\<lambda>item_time_start.
              bnd (lift (clean_item_properties item)) (\<lambda>item_cleaned.
              bnd (add_result item_cleaned item_time_start exit_status run_uids scan_ids
                     err_msg err_tb) (\<lambda>item_cleaned.
              bnd (add_to_history item_cleaned) (\<lambda>_.
              sq clear_running_item_info
             (sq (when_do (\<not> truthy immediate)
                   (bnd (lift (py_getitem item ''item_uid'')) (\<lambda>uid.
                    sq (uid_dict_remove uid)
                   (bnd (set_new_item_uuid item_cleaned) (\<lambda>item_pushed_to_queue.
                    bnd (add_item_to_queue_body item_pushed_to_queue (JStr ''front'')
                           JNull JNull False) (\<lambda>_. ret ()))))))
             (sq renew_queue_uid (ret item_cleaned))))))))))
            else ret (JDict []))) (\<lambda>item_cleaned.
     sq refresh_all (ret item_cleaned))"

section \<open>The queue mode\<close>

fun validate_mode_items :: "dict \<Rightarrow> string list \<Rightarrow> py_error + string list" where
  "validate_mode_items [] missing_keys = Inr missing_keys"
| "validate_mode_items ((k, v) # kvs) missing_keys =
     (if k \<notin> {''loop'', ''ignore_failures''} then Inl ValueError
      else if k \<notin> set missing_keys then Inl KeyError
      else (case v of JBool _ \<Rightarrow> validate_mode_items kvs (removeAll k missing_keys)
                    | _ \<Rightarrow> Inl TypeError))"

definition validate_plan_queue_mode :: "json \<Rightarrow> py_error + unit" where
  "validate_plan_queue_mode mode =
     (case mode of
        JDict d \<Rightarrow> ebind (validate_mode_items d [''loop'', ''ignore_failures''])
                     (\<lambda>missing_keys. if missing_keys \<noteq> [] then Inl ValueError else Inr ())
      | _ \<Rightarrow> Inl AttributeError)"

definition load_plan_queue_mode :: "unit pqm" where
  "load_plan_queue_mode =
     bnd (st (\<lambda>s. store_get (name_plan_queue_mode s))) (\<lambda>queue_mode.
     let m = (case queue_mode of None \<Rightarrow> JDict plan_queue_mode_default | Some m \<Rightarrow> m) in
     catch (sq (lift (validate_plan_queue_mode m))
              (upd (\<lambda>s. s\<lparr>pq_mode := (case m of JDict d \<Rightarrow> d | _ \<Rightarrow> [])\<rparr>)))
       (\<lambda>_. upd (\<lambda>s. s\<lparr>pq_mode := plan_queue_mode_default\<rparr>)))"

definition set_plan_queue_mode :: "json \<Rightarrow> bool \<Rightarrow> unit pqm" where
  "set_plan_queue_mode plan_queue_mode upd_mode =
     sq (fail_if (\<not> is_dict plan_queue_mode \<and> plan_queue_mode \<noteq> JStr ''default'') TypeError)
    (bnd (gets pq_mode) (\<lambda>current.
     let new_mode =
           (if plan_queue_mode = JStr ''default'' then plan_queue_mode_default
            else case plan_queue_mode of
                JDict d \<Rightarrow> (if upd_mode then dupdate current d else d) | _ \<Rightarrow> [])
     in sq (lift (validate_plan_queue_mode (JDict new_mode)))
          (with_lock
            (sq (upd (\<lambda>s. s\<lparr>pq_mode := new_mode\<rparr>))
              (st (\<lambda>s. store_set (name_plan_queue_mode s) (JDict new_mode)))))))"

section \<open>Start-up and reset\<close>

definition uid_dict_initialize :: "unit pqm" where
  "uid_dict_initialize =
     bnd get_queue_body (\<lambda>(pq, _).
     sq uid_dict_clear
    (sq (eachP uid_dict_add pq)
    (bnd get_running_item_info_body (\<lambda>item. when_do (truthy item) (uid_dict_add item)))))"

definition queue_clean :: "unit pqm" where
  "queue_clean =
     bnd get_queue_body (\<lambda>(pq, _).
     bnd (mapP (\<lambda>item. bnd (lift (py_contains ''item_uid'' item)) (\<lambda>ok. ret (item, ok))) pq)
       (\<lambda>verified.
     sq (eachP (\<lambda>item. remove_item_body item False) (map fst (filter (\<lambda>v. \<not> snd v) verified)))
    (bnd get_running_item_info_body (\<lambda>item.
     sq (when_do (truthy item)
          (bnd (lift (py_contains ''item_uid'' item)) (\<lambda>ok.
           when_do (\<not> ok) clear_running_item_info)))
       refresh_running))))"

text \<open>\<open>open_result\<close> is what \<open>self._store.open()\<close> does: nothing, or an exception.\<close>

definition pq_start :: "py_error + unit \<Rightarrow> unit pqm" where
  "pq_start open_result =
     bnd (gets pq_opened) (\<lambda>opened.
     when_do (\<not> opened)
       (sq (upd (\<lambda>s. s\<lparr>pq_has_lock := True\<rparr>))
       (sq (lift open_result)
       (sq (upd (\<lambda>s. s\<lparr>pq_opened := True\<rparr>))
       (sq queue_clean
       (sq uid_dict_initialize
       (sq load_plan_queue_mode
       (sq refresh_all
       (sq renew_queue_uid renew_history_uid)))))))))"

definition pq_stop :: "unit pqm" where
  "pq_stop = upd (\<lambda>s. s\<lparr>pq_opened := False\<rparr>)"

definition delete_pool_entries_body :: "unit pqm" where
  "delete_pool_entries_body =
     sq (st (\<lambda>s. store_delete [name_running_plan s]))
    (sq (st (\<lambda>s. store_delete [name_plan_queue s]))
    (sq (st (\<lambda>s. store_delete [name_plan_history s]))
    (sq (st (\<lambda>s. store_delete [name_plan_queue_mode s]))
    (sq uid_dict_clear
    (sq renew_queue_uid (sq renew_history_uid refresh_all))))))"

section \<open>Values kept for other components\<close>

text \<open>
  User group permissions, the manager's lock, the pending stop and the autostart mode are
  plain values under their own keys: cleared, saved and retrieved.
\<close>

definition name_info :: "string \<Rightarrow> pq \<Rightarrow> string" where
  "name_info key s = pq_prefix s @ key"

definition info_clear :: "string \<Rightarrow> unit pqm" where
  "info_clear key = st (\<lambda>s. store_delete [name_info key s])"

definition info_save :: "string \<Rightarrow> json \<Rightarrow> unit pqm" where
  "info_save key info = st (\<lambda>s. store_set (name_info key s) info)"

definition info_retrieve :: "string \<Rightarrow> json option pqm" where
  "info_retrieve key = st (\<lambda>s. store_get (name_info key s))"

section \<open>The public operations\<close>

definition get_queue_full_body :: "(json list \<times> json \<times> string) pqm" where
  "get_queue_full_body =
     bnd get_queue_body (\<lambda>(plan_queue, plan_queue_uid).
     bnd get_running_item_info_body (\<lambda>running_item.
     ret (plan_queue, running_item, plan_queue_uid)))"

text \<open>Each public method is its private body run under the lock.\<close>

definition delete_pool_entries :: "unit pqm" where
  "delete_pool_entries = with_lock delete_pool_entries_body"

definition get_queue :: "(json list \<times> string) pqm" where
  "get_queue = with_lock get_queue_body"

definition get_queue_full :: "(json list \<times> json \<times> string) pqm" where
  "get_queue_full = with_lock get_queue_full_body"

definition get_item :: "json \<Rightarrow> json \<Rightarrow> json pqm" where
  "get_item a b = with_lock (get_item_body a b)"

definition pop_item_from_queue :: "json \<Rightarrow> json \<Rightarrow> (json \<times> int) pqm" where
  "pop_item_from_queue a b = with_lock (pop_item_from_queue_body a b)"

definition pop_item_from_queue_batch :: "json \<Rightarrow> bool \<Rightarrow> (json list \<times> int) pqm" where
  "pop_item_from_queue_batch a b = with_lock (pop_item_from_queue_batch_body a b)"

definition add_item_to_queue :: "json \<Rightarrow> json \<Rightarrow> json \<Rightarrow> json \<Rightarrow> bool \<Rightarrow> (json \<times> int) pqm" where
  "add_item_to_queue a b c d e = with_lock (add_item_to_queue_body a b c d e)"

definition add_batch_to_queue :: "json list \<Rightarrow> json \<Rightarrow> json \<Rightarrow> json \<Rightarrow> bool \<Rightarrow> (json list \<times> bool list \<times> int \<times> bool) pqm" where
  "add_batch_to_queue a b c d e = with_lock (add_batch_to_queue_body a b c d e)"

definition replace_item :: "json \<Rightarrow> json \<Rightarrow> (json \<times> int) pqm" where
  "replace_item a b = with_lock (replace_item_body a b)"

definition move_item :: "json \<Rightarrow> json \<Rightarrow> json \<Rightarrow> json \<Rightarrow> json \<Rightarrow> (json \<times> int) pqm" where
  "move_item a b c d e = with_lock (move_item_body a b c d e)"

definition move_batch :: "json \<Rightarrow> json \<Rightarrow> json \<Rightarrow> json \<Rightarrow> bool \<Rightarrow> (json list \<times> int) pqm" where
  "move_batch a b c d e = with_lock (move_batch_body a b c d e)"

definition clear_queue :: "unit pqm" where
  "clear_queue = with_lock clear_queue_body"

definition get_history :: "(json list \<times> string) pqm" where
  "get_history = with_lock get_history_body"

definition clear_history :: "unit pqm" where
  "clear_history = with_lock clear_history_body"

definition trim_history :: "int option \<Rightarrow> json \<Rightarrow> unit pqm" where
  "trim_history a b = with_lock (trim_history_body a b)"

definition process_next_item :: "json \<Rightarrow> json pqm" where
  "process_next_item a = with_lock (process_next_item_body a)"

definition set_next_item_as_running :: "json \<Rightarrow> json pqm" where
  "set_next_item_as_running a = with_lock (set_next_item_as_running_body a)"

definition set_processed_item_as_completed :: "json \<Rightarrow> json \<Rightarrow> json \<Rightarrow> json \<Rightarrow> json \<Rightarrow> json pqm" where
  "set_processed_item_as_completed a b c d e = with_lock (set_processed_item_as_completed_body a b c d e)"

definition set_processed_item_as_stopped :: "json \<Rightarrow> json \<Rightarrow> json \<Rightarrow> json \<Rightarrow> json \<Rightarrow> json pqm" where
  "set_processed_item_as_stopped a b c d e = with_lock (set_processed_item_as_stopped_body a b c d e)"

lemmas public_defs = delete_pool_entries_def get_queue_def get_queue_full_def get_item_def
  pop_item_from_queue_def pop_item_from_queue_batch_def add_item_to_queue_def
  add_batch_to_queue_def replace_item_def move_item_def move_batch_def clear_queue_def
  get_history_def   clear_history_def trim_history_def process_next_item_def
  set_next_item_as_running_def set_processed_item_as_completed_def
  set_processed_item_as_stopped_def

datatype pq_op =
    Op_set_mode json bool
  | Op_delete_pool_entries
  | Op_get_queue
  | Op_get_queue_full
  | Op_get_item json json
  | Op_pop_item json json
  | Op_pop_batch json bool
  | Op_add_item json json json json bool
  | Op_add_batch "json list" json json json bool
  | Op_replace_item json json
  | Op_move_item json json json json json
  | Op_move_batch json json json json bool
  | Op_clear_queue
  | Op_get_history
  | Op_clear_history
  | Op_trim_history "int option" json
  | Op_process_next json
  | Op_set_next_running json
  | Op_completed json json json json json
  | Op_stopped json json json json json

definition ignore_result :: "'a pqm \<Rightarrow> unit pqm" where
  "ignore_result m = bnd m (\<lambda>_. ret ())"

fun run_op :: "pq_op \<Rightarrow> unit pqm" where
  "run_op (Op_set_mode m u) = set_plan_queue_mode m u"
| "run_op Op_delete_pool_entries = delete_pool_entries"
| "run_op Op_get_queue = ignore_result get_queue"
| "run_op Op_get_queue_full = ignore_result get_queue_full"
| "run_op (Op_get_item pos uid) = ignore_result (get_item pos uid)"
| "run_op (Op_pop_item pos uid) = ignore_result (pop_item_from_queue pos uid)"
| "run_op (Op_pop_batch uids im) = ignore_result (pop_item_from_queue_batch uids im)"
| "run_op (Op_add_item item pos b a f) = ignore_result (add_item_to_queue item pos b a f)"
| "run_op (Op_add_batch items pos b a f) = ignore_result (add_batch_to_queue items pos b a f)"
| "run_op (Op_replace_item item uid) = ignore_result (replace_item item uid)"
| "run_op (Op_move_item pos uid pd b a) = ignore_result (move_item pos uid pd b a)"
| "run_op (Op_move_batch uids pd b a r) = ignore_result (move_batch uids pd b a r)"
| "run_op Op_clear_queue = clear_queue"
| "run_op Op_get_history = ignore_result get_history"
| "run_op Op_clear_history = clear_history"
| "run_op (Op_trim_history n uid) = trim_history n uid"
| "run_op (Op_process_next item) = ignore_result (process_next_item item)"
| "run_op (Op_set_next_running item) = ignore_result (set_next_item_as_running item)"
| "run_op (Op_completed es r sc m tb) = ignore_result (set_processed_item_as_completed es r sc m tb)"
| "run_op (Op_stopped es r sc m tb) = ignore_result (set_processed_item_as_stopped es r sc m tb)"

end
