(* ===== verification/PlanQueueWp.thy ===== *)
theory PlanQueueWp
  imports PlanQueueExec
begin

text \<open>
  The abstract view of a plan queue (queue, history, running item, UID dictionary) and, for
  every primitive of the class, the equation that computes its weakest precondition in terms
  of that view. The proofs about operations rest on these equations and on the laws of the
  store's interface.
\<close>

section \<open>The view\<close>

definition queue :: "pq \<Rightarrow> json list" where
  "queue s = st_lists (pq_store s) (name_plan_queue s)"

definition history :: "pq \<Rightarrow> json list" where
  "history s = st_lists (pq_store s) (name_plan_history s)"

definition running :: "pq \<Rightarrow> json" where
  "running s =
     (case st_kv (pq_store s) (name_running_plan s) of None \<Rightarrow> JDict [] | Some r \<Rightarrow> r)"

definition set_queue :: "json list \<Rightarrow> pq \<Rightarrow> pq" where
  "set_queue xs s = s\<lparr>pq_store := set_list (name_plan_queue s) xs (pq_store s)\<rparr>"

definition set_history :: "json list \<Rightarrow> pq \<Rightarrow> pq" where
  "set_history xs s = s\<lparr>pq_store := set_list (name_plan_history s) xs (pq_store s)\<rparr>"

definition set_running :: "json \<Rightarrow> pq \<Rightarrow> pq" where
  "set_running r s = s\<lparr>pq_store := snd (store_set (name_running_plan s) r (pq_store s))\<rparr>"

text \<open>One more identifier consumed, as the queue's (history's) new UID.\<close>

definition bump_queue :: "pq \<Rightarrow> pq" where
  "bump_queue s =
     s\<lparr>pq_next := Suc (pq_next s), pq_queue_uid := pq_uuids s (pq_next s)\<rparr>"

definition bump_history :: "pq \<Rightarrow> pq" where
  "bump_history s =
     s\<lparr>pq_next := Suc (pq_next s), pq_history_uid := pq_uuids s (pq_next s)\<rparr>"

definition set_dict :: "(json \<Rightarrow> json option) \<Rightarrow> pq \<Rightarrow> pq" where
  "set_dict d s = s\<lparr>pq_uid_dict := d\<rparr>"

definition set_sizes :: "int \<Rightarrow> int \<Rightarrow> json \<Rightarrow> pq \<Rightarrow> pq" where
  "set_sizes q h r s = s\<lparr>pq_queue_size := q, pq_history_size := h, pq_running_info := r\<rparr>"

definition use_uuid :: "pq \<Rightarrow> pq" where
  "use_uuid s = s\<lparr>pq_next := Suc (pq_next s)\<rparr>"

definition use_tick :: "pq \<Rightarrow> pq" where
  "use_tick s = s\<lparr>pq_tick := Suc (pq_tick s)\<rparr>"

lemmas effect_defs = set_queue_def set_history_def set_running_def bump_queue_def
  bump_history_def set_dict_def set_sizes_def use_uuid_def use_tick_def

lemma names_distinct [simp]:
  "name_plan_queue s \<noteq> name_plan_history s" "name_plan_history s \<noteq> name_plan_queue s"
  "name_plan_queue s \<noteq> name_running_plan s" "name_running_plan s \<noteq> name_plan_queue s"
  "name_plan_history s \<noteq> name_running_plan s" "name_running_plan s \<noteq> name_plan_history s"
  "name_plan_queue_mode s \<noteq> name_plan_queue s" "name_plan_queue s \<noteq> name_plan_queue_mode s"
  "name_plan_queue_mode s \<noteq> name_plan_history s" "name_plan_history s \<noteq> name_plan_queue_mode s"
  "name_plan_queue_mode s \<noteq> name_running_plan s" "name_running_plan s \<noteq> name_plan_queue_mode s"
  by (simp_all add: name_defs)

lemma names_frame [simp]:
  "name_plan_queue (s\<lparr>pq_store := x\<rparr>) = name_plan_queue s"
  "name_plan_history (s\<lparr>pq_store := x\<rparr>) = name_plan_history s"
  "name_running_plan (s\<lparr>pq_store := x\<rparr>) = name_running_plan s"
  "name_plan_queue_mode (s\<lparr>pq_store := x\<rparr>) = name_plan_queue_mode s"
  by (simp_all add: name_defs)

text \<open>What each effect does to the view, and what it leaves alone.\<close>

lemma view_set_queue [simp]:
  "queue (set_queue xs s) = xs" "history (set_queue xs s) = history s"
  "running (set_queue xs s) = running s" "pq_uid_dict (set_queue xs s) = pq_uid_dict s"
  "pq_uuids (set_queue xs s) = pq_uuids s" "pq_next (set_queue xs s) = pq_next s"
  "pq_mode (set_queue xs s) = pq_mode s" "pq_queue_size (set_queue xs s) = pq_queue_size s"
  "pq_history_size (set_queue xs s) = pq_history_size s"
  "pq_running_info (set_queue xs s) = pq_running_info s"
  "pq_has_lock (set_queue xs s) = pq_has_lock s" "pq_opened (set_queue xs s) = pq_opened s"
  "pq_clock (set_queue xs s) = pq_clock s" "pq_tick (set_queue xs s) = pq_tick s"
  by (simp_all add: queue_def history_def running_def effect_defs set_list_def)

lemma view_set_history [simp]:
  "queue (set_history xs s) = queue s" "history (set_history xs s) = xs"
  "running (set_history xs s) = running s" "pq_uid_dict (set_history xs s) = pq_uid_dict s"
  "pq_uuids (set_history xs s) = pq_uuids s" "pq_next (set_history xs s) = pq_next s"
  "pq_mode (set_history xs s) = pq_mode s" "pq_queue_size (set_history xs s) = pq_queue_size s"
  "pq_history_size (set_history xs s) = pq_history_size s"
  "pq_running_info (set_history xs s) = pq_running_info s"
  "pq_has_lock (set_history xs s) = pq_has_lock s" "pq_opened (set_history xs s) = pq_opened s"
  "pq_clock (set_history xs s) = pq_clock s" "pq_tick (set_history xs s) = pq_tick s"
  by (simp_all add: queue_def history_def running_def effect_defs set_list_def)

lemma view_set_running [simp]:
  "queue (set_running r s) = queue s" "history (set_running r s) = history s"
  "running (set_running r s) = r" "pq_uid_dict (set_running r s) = pq_uid_dict s"
  "pq_uuids (set_running r s) = pq_uuids s" "pq_next (set_running r s) = pq_next s"
  "pq_mode (set_running r s) = pq_mode s" "pq_queue_size (set_running r s) = pq_queue_size s"
  "pq_history_size (set_running r s) = pq_history_size s"
  "pq_running_info (set_running r s) = pq_running_info s"
  "pq_has_lock (set_running r s) = pq_has_lock s" "pq_opened (set_running r s) = pq_opened s"
  "pq_clock (set_running r s) = pq_clock s" "pq_tick (set_running r s) = pq_tick s"
  by (simp_all add: queue_def history_def running_def effect_defs store_set_def)

lemma view_bump_queue [simp]:
  "queue (bump_queue s) = queue s" "history (bump_queue s) = history s"
  "running (bump_queue s) = running s" "pq_uid_dict (bump_queue s) = pq_uid_dict s"
  "pq_uuids (bump_queue s) = pq_uuids s" "pq_next (bump_queue s) = Suc (pq_next s)"
  "pq_mode (bump_queue s) = pq_mode s" "pq_queue_size (bump_queue s) = pq_queue_size s"
  "pq_history_size (bump_queue s) = pq_history_size s"
  "pq_running_info (bump_queue s) = pq_running_info s"
  "pq_has_lock (bump_queue s) = pq_has_lock s" "pq_opened (bump_queue s) = pq_opened s"
  "pq_clock (bump_queue s) = pq_clock s" "pq_tick (bump_queue s) = pq_tick s"
  by (simp_all add: queue_def history_def running_def effect_defs name_defs)

lemma view_bump_history [simp]:
  "queue (bump_history s) = queue s" "history (bump_history s) = history s"
  "running (bump_history s) = running s" "pq_uid_dict (bump_history s) = pq_uid_dict s"
  "pq_uuids (bump_history s) = pq_uuids s" "pq_next (bump_history s) = Suc (pq_next s)"
  "pq_mode (bump_history s) = pq_mode s" "pq_queue_size (bump_history s) = pq_queue_size s"
  "pq_history_size (bump_history s) = pq_history_size s"
  "pq_running_info (bump_history s) = pq_running_info s"
  "pq_has_lock (bump_history s) = pq_has_lock s" "pq_opened (bump_history s) = pq_opened s"
  "pq_clock (bump_history s) = pq_clock s" "pq_tick (bump_history s) = pq_tick s"
  by (simp_all add: queue_def history_def running_def effect_defs name_defs)

lemma view_set_dict [simp]:
  "queue (set_dict d s) = queue s" "history (set_dict d s) = history s"
  "running (set_dict d s) = running s" "pq_uid_dict (set_dict d s) = d"
  "pq_uuids (set_dict d s) = pq_uuids s" "pq_next (set_dict d s) = pq_next s"
  "pq_mode (set_dict d s) = pq_mode s" "pq_queue_size (set_dict d s) = pq_queue_size s"
  "pq_history_size (set_dict d s) = pq_history_size s"
  "pq_running_info (set_dict d s) = pq_running_info s"
  "pq_has_lock (set_dict d s) = pq_has_lock s" "pq_opened (set_dict d s) = pq_opened s"
  "pq_clock (set_dict d s) = pq_clock s" "pq_tick (set_dict d s) = pq_tick s"
  by (simp_all add: queue_def history_def running_def effect_defs name_defs)

lemma view_set_sizes [simp]:
  "queue (set_sizes q h r s) = queue s" "history (set_sizes q h r s) = history s"
  "running (set_sizes q h r s) = running s" "pq_uid_dict (set_sizes q h r s) = pq_uid_dict s"
  "pq_uuids (set_sizes q h r s) = pq_uuids s" "pq_next (set_sizes q h r s) = pq_next s"
  "pq_mode (set_sizes q h r s) = pq_mode s" "pq_queue_size (set_sizes q h r s) = q"
  "pq_history_size (set_sizes q h r s) = h" "pq_running_info (set_sizes q h r s) = r"
  "pq_has_lock (set_sizes q h r s) = pq_has_lock s" "pq_opened (set_sizes q h r s) = pq_opened s"
  "pq_clock (set_sizes q h r s) = pq_clock s" "pq_tick (set_sizes q h r s) = pq_tick s"
  by (simp_all add: queue_def history_def running_def effect_defs name_defs)

lemma view_use_uuid [simp]:
  "queue (use_uuid s) = queue s" "history (use_uuid s) = history s"
  "running (use_uuid s) = running s" "pq_uid_dict (use_uuid s) = pq_uid_dict s"
  "pq_uuids (use_uuid s) = pq_uuids s" "pq_next (use_uuid s) = Suc (pq_next s)"
  "pq_mode (use_uuid s) = pq_mode s" "pq_queue_size (use_uuid s) = pq_queue_size s"
  "pq_history_size (use_uuid s) = pq_history_size s"
  "pq_running_info (use_uuid s) = pq_running_info s"
  "pq_has_lock (use_uuid s) = pq_has_lock s" "pq_opened (use_uuid s) = pq_opened s"
  "pq_clock (use_uuid s) = pq_clock s" "pq_tick (use_uuid s) = pq_tick s"
  by (simp_all add: queue_def history_def running_def effect_defs name_defs)

lemma view_use_tick [simp]:
  "queue (use_tick s) = queue s" "history (use_tick s) = history s"
  "running (use_tick s) = running s" "pq_uid_dict (use_tick s) = pq_uid_dict s"
  "pq_uuids (use_tick s) = pq_uuids s" "pq_next (use_tick s) = pq_next s"
  "pq_mode (use_tick s) = pq_mode s" "pq_queue_size (use_tick s) = pq_queue_size s"
  "pq_history_size (use_tick s) = pq_history_size s"
  "pq_running_info (use_tick s) = pq_running_info s"
  "pq_has_lock (use_tick s) = pq_has_lock s" "pq_opened (use_tick s) = pq_opened s"
  "pq_clock (use_tick s) = pq_clock s" "pq_tick (use_tick s) = Suc (pq_tick s)"
  by (simp_all add: queue_def history_def running_def effect_defs name_defs)

definition drop_key :: "string \<Rightarrow> pq \<Rightarrow> pq" where
  "drop_key k s = s\<lparr>pq_store := snd (store_delete [k] (pq_store s))\<rparr>"

lemma view_drop_key [simp]:
  "queue (drop_key k s) = (if k = name_plan_queue s then [] else queue s)"
  "history (drop_key k s) = (if k = name_plan_history s then [] else history s)"
  "running (drop_key k s) = (if k = name_running_plan s then JDict [] else running s)"
  "pq_uid_dict (drop_key k s) = pq_uid_dict s"
  "pq_uuids (drop_key k s) = pq_uuids s" "pq_next (drop_key k s) = pq_next s"
  "pq_mode (drop_key k s) = pq_mode s" "pq_queue_size (drop_key k s) = pq_queue_size s"
  "pq_history_size (drop_key k s) = pq_history_size s"
  "pq_running_info (drop_key k s) = pq_running_info s"
  "pq_has_lock (drop_key k s) = pq_has_lock s" "pq_opened (drop_key k s) = pq_opened s"
  "pq_clock (drop_key k s) = pq_clock s" "pq_tick (drop_key k s) = pq_tick s"
  "name_plan_queue (drop_key k s) = name_plan_queue s"
  "name_plan_history (drop_key k s) = name_plan_history s"
  "name_running_plan (drop_key k s) = name_running_plan s"
  "name_plan_queue_mode (drop_key k s) = name_plan_queue_mode s"
  by (auto simp: queue_def history_def running_def drop_key_def store_delete_def name_defs)

lemma names_effects [simp]:
  "name_plan_queue (bump_queue s) = name_plan_queue s"
  "name_plan_history (bump_queue s) = name_plan_history s"
  "name_running_plan (bump_queue s) = name_running_plan s"
  "name_plan_queue (bump_history s) = name_plan_queue s"
  "name_plan_history (bump_history s) = name_plan_history s"
  "name_running_plan (bump_history s) = name_running_plan s"
  "name_plan_queue (set_dict D s) = name_plan_queue s"
  "name_plan_history (set_dict D s) = name_plan_history s"
  "name_running_plan (set_dict D s) = name_running_plan s"
  "name_plan_queue (set_sizes q h r s) = name_plan_queue s"
  "name_plan_history (set_sizes q h r s) = name_plan_history s"
  "name_running_plan (set_sizes q h r s) = name_running_plan s"
  by (simp_all add: effect_defs name_defs)

section \<open>Primitives over the view\<close>

named_theorems pq_wp "weakest preconditions of the queue's primitives"

declare wp_rules [pq_wp]


lemma wp_new_item_uid [pq_wp]:
  "wp new_item_uid Q E s = Q (pq_uuids s (pq_next s)) (use_uuid s)"
  by (simp add: new_item_uid_def wp_rules effect_defs)

lemma wp_time_time [pq_wp]: "wp time_time Q E s = Q (pq_clock s (pq_tick s)) (use_tick s)"
  by (simp add: time_time_def wp_rules effect_defs)

lemma wp_renew_queue_uid [pq_wp]: "wp renew_queue_uid Q E s = Q () (bump_queue s)"
  by (simp add: renew_queue_uid_def new_item_uid_def wp_rules effect_defs)

lemma wp_renew_history_uid [pq_wp]: "wp renew_history_uid Q E s = Q () (bump_history s)"
  by (simp add: renew_history_uid_def new_item_uid_def wp_rules effect_defs)

lemma wp_verify_item_type [pq_wp]:
  "wp (verify_item_type item) Q E s = (if is_dict item then Q () s else E TypeError s)"
  by (simp add: verify_item_type_def wp_rules)

lemma wp_set_new_item_uuid [pq_wp]:
  "wp (set_new_item_uuid item) Q E s =
     (case item of
        JDict d \<Rightarrow> Q (JDict (dset ''item_uid'' (JStr (pq_uuids s (pq_next s))) d)) (use_uuid s)
      | _ \<Rightarrow> E TypeError s)"
  by (simp add: set_new_item_uuid_def pq_wp split: json.splits)

lemma wp_is_uid_in_dict [pq_wp]:
  "wp (is_uid_in_dict uid) Q E s =
     (if hashable uid then Q (pq_uid_dict s (py_key uid) \<noteq> None) s else E TypeError s)"
  by (simp add: is_uid_in_dict_def wp_rules)

lemma wp_uid_dict_clear [pq_wp]:
  "wp uid_dict_clear Q E s = Q () (set_dict (\<lambda>_. None) (bump_queue s))"
  by (simp add: uid_dict_clear_def pq_wp) (simp add: set_dict_def)

lemma wp_uid_dict_remove [pq_wp]:
  "wp (uid_dict_remove uid) Q E s =
     (if \<not> hashable uid then E TypeError s
      else if pq_uid_dict s (py_key uid) = None then E RuntimeError s
      else Q () (set_dict ((pq_uid_dict s)(py_key uid := None)) (bump_queue s)))"
  by (simp add: uid_dict_remove_def pq_wp) (simp add: set_dict_def)

lemma wp_uid_dict_get_item [pq_wp]:
  "wp (uid_dict_get_item uid) Q E s =
     (case pq_uid_dict s (py_key uid) of None \<Rightarrow> E KeyError s | Some item \<Rightarrow> Q item s)"
  by (simp add: uid_dict_get_item_def wp_rules split: option.splits)

lemma wp_get_queue_body [pq_wp]: "wp get_queue_body Q E s = Q (queue s, pq_queue_uid s) s"
  by (simp add: get_queue_body_def wp_rules wp_st store_range_def queue_def)

lemma wp_get_queue_size_body [pq_wp]:
  "wp get_queue_size_body Q E s = Q (int (length (queue s))) s"
  by (simp add: get_queue_size_body_def wp_rules wp_st store_len_def queue_def)

lemma wp_get_history_size_body [pq_wp]:
  "wp get_history_size_body Q E s = Q (int (length (history s))) s"
  by (simp add: get_history_size_body_def wp_rules wp_st store_len_def history_def)

lemma wp_get_history_body [pq_wp]:
  "wp get_history_body Q E s = Q (history s, pq_history_uid s) s"
  by (simp add: get_history_body_def wp_rules wp_st store_range_def history_def)

lemma wp_get_running_item_info_body [pq_wp]:
  "wp get_running_item_info_body Q E s = Q (running s) s"
  by (simp add: get_running_item_info_body_def wp_rules wp_st store_get_def running_def)

lemma wp_is_item_running_body [pq_wp]:
  "wp is_item_running_body Q E s = Q (truthy (running s)) s"
  by (simp add: is_item_running_body_def pq_wp)

lemma wp_refresh_queue_size [pq_wp]:
  "wp refresh_queue_size Q E s =
     Q () (set_sizes (int (length (queue s))) (pq_history_size s) (pq_running_info s) s)"
  by (simp add: refresh_queue_size_def pq_wp) (simp add: set_sizes_def)

lemma wp_refresh_history_size [pq_wp]:
  "wp refresh_history_size Q E s =
     Q () (set_sizes (pq_queue_size s) (int (length (history s))) (pq_running_info s) s)"
  by (simp add: refresh_history_size_def pq_wp) (simp add: set_sizes_def)

lemma wp_refresh_running_info [pq_wp]:
  "wp refresh_running_info Q E s =
     Q () (set_sizes (pq_queue_size s) (pq_history_size s) (running s) s)"
  by (simp add: refresh_running_info_def pq_wp) (simp add: set_sizes_def)

lemma set_sizes_twice [simp]:
  "set_sizes q h r (set_sizes q' h' r' s) = set_sizes q h r s"
  by (simp add: set_sizes_def)

lemma wp_set_running_item_info [pq_wp]:
  "wp (set_running_item_info plan) Q E s =
     Q () (set_sizes (pq_queue_size s) (pq_history_size s) plan (set_running plan s))"
proof -
  have "s\<lparr>pq_store := snd (store_set (name_running_plan s) plan (pq_store s))\<rparr>
        = set_running plan s" by (simp add: set_running_def)
  then show ?thesis
    by (simp add: set_running_item_info_def pq_wp wp_st split_beta)
qed

lemma wp_clear_running_item_info [pq_wp]:
  "wp clear_running_item_info Q E s =
     Q () (set_sizes (pq_queue_size s) (pq_history_size s) (JDict []) (set_running (JDict []) s))"
  by (simp add: clear_running_item_info_def pq_wp)

text \<open>The cached sizes commute with every other effect.\<close>

lemma sizes_out [simp]:
  "bump_queue (set_sizes q h r s) = set_sizes q h r (bump_queue s)"
  "bump_history (set_sizes q h r s) = set_sizes q h r (bump_history s)"
  "set_dict D (set_sizes q h r s) = set_sizes q h r (set_dict D s)"
  "set_queue xs (set_sizes q h r s) = set_sizes q h r (set_queue xs s)"
  "set_history xs (set_sizes q h r s) = set_sizes q h r (set_history xs s)"
  "set_running x (set_sizes q h r s) = set_sizes q h r (set_running x s)"
  "use_uuid (set_sizes q h r s) = set_sizes q h r (use_uuid s)"
  "use_tick (set_sizes q h r s) = set_sizes q h r (use_tick s)"
  "drop_key k (set_sizes q h r s) = set_sizes q h r (drop_key k s)"
  by (simp_all add: effect_defs drop_key_def name_defs)

lemma dict_out [simp]:
  "bump_queue (set_dict D s) = set_dict D (bump_queue s)"
  "bump_history (set_dict D s) = set_dict D (bump_history s)"
  "set_dict D (set_dict D' s) = set_dict D s"
  "set_queue xs (set_dict D s) = set_dict D (set_queue xs s)"
  "set_history xs (set_dict D s) = set_dict D (set_history xs s)"
  "set_running x (set_dict D s) = set_dict D (set_running x s)"
  "use_uuid (set_dict D s) = set_dict D (use_uuid s)"
  "use_tick (set_dict D s) = set_dict D (use_tick s)"
  "set_queue xs (set_queue ys s) = set_queue xs s"
  "set_history xs (set_history ys s) = set_history xs s"
  "set_running x (set_running y s) = set_running x s"
  by (simp_all add: effect_defs drop_key_def name_defs set_list_def store_set_def)

text \<open>The store's list operations on the queue and the history.\<close>

lemma wp_queue_push_back [pq_wp]:
  "wp (st (\<lambda>s. store_push_back (name_plan_queue s) v)) Q E s =
     Q (int (length (queue s)) + 1) (set_queue (queue s @ [v]) s)"
  by (simp add: wp_rules wp_st store_push_back_def queue_def set_queue_def)

lemma wp_queue_push_front [pq_wp]:
  "wp (st (\<lambda>s. store_push_front (name_plan_queue s) v)) Q E s =
     Q (int (length (queue s)) + 1) (set_queue (v # queue s) s)"
  by (simp add: wp_rules wp_st store_push_front_def queue_def set_queue_def)

lemma wp_queue_pop_front [pq_wp]:
  "wp (st (\<lambda>s. store_pop_front (name_plan_queue s))) Q E s =
     (case queue s of [] \<Rightarrow> Q None s | x # xs \<Rightarrow> Q (Some x) (set_queue xs s))"
  by (simp add: wp_rules wp_st store_pop_front_def queue_def set_queue_def split: list.splits)

lemma wp_queue_pop_back [pq_wp]:
  "wp (st (\<lambda>s. store_pop_back (name_plan_queue s))) Q E s =
     (if queue s = [] then Q None s
      else Q (Some (last (queue s))) (set_queue (butlast (queue s)) s))"
  by (simp add: wp_rules wp_st store_pop_back_def queue_def set_queue_def split: list.splits)

lemma wp_queue_index [pq_wp]:
  "wp (st (\<lambda>s. store_index (name_plan_queue s) i)) Q E s = Q (index_of i (queue s)) s"
  by (simp add: wp_rules wp_st store_index_def queue_def)

lemma wp_queue_insert [pq_wp]:
  "wp (st (\<lambda>s. store_insert (name_plan_queue s) w p v)) Q E s =
     (case insert_at_pivot w p v (queue s) of
        None \<Rightarrow> Q (-1) s
      | Some ys \<Rightarrow> Q (int (length ys)) (set_queue ys s))"
  by (simp add: wp_rules wp_st store_insert_def queue_def set_queue_def split: option.splits)

lemma wp_queue_remove [pq_wp]:
  "wp (st (\<lambda>s. store_remove (name_plan_queue s) v)) Q E s =
     Q (int (length (filter (\<lambda>x. x = v) (queue s))))
       (set_queue (filter (\<lambda>x. x \<noteq> v) (queue s)) s)"
  by (simp add: wp_rules wp_st store_remove_def queue_def set_queue_def)

lemma wp_queue_delete [pq_wp]:
  "wp (st (\<lambda>s. store_delete [name_plan_queue s])) Q E s =
     Q () (drop_key (name_plan_queue s) s)"
  by (simp add: wp_st split_beta drop_key_def)

lemma wp_history_delete [pq_wp]:
  "wp (st (\<lambda>s. store_delete [name_plan_history s])) Q E s =
     Q () (drop_key (name_plan_history s) s)"
  by (simp add: wp_st split_beta drop_key_def)

lemma wp_history_push_back [pq_wp]:
  "wp (st (\<lambda>s. store_push_back (name_plan_history s) v)) Q E s =
     Q (int (length (history s)) + 1) (set_history (history s @ [v]) s)"
  by (simp add: wp_rules wp_st store_push_back_def history_def set_history_def)

lemma wp_history_trim [pq_wp]:
  "wp (st (\<lambda>s. store_trim (name_plan_history s) a b)) Q E s =
     Q () (set_history (range_of a b (history s)) s)"
  by (simp add: wp_rules wp_st store_trim_def history_def set_history_def)

lemma wp_with_lock [pq_wp]:
  "wp (with_lock m) Q E s = (if pq_has_lock s then wp m Q E s else E TypeError s)"
  by (simp add: with_lock_def wp_rules)

lemma wp_ignore_result [pq_wp]:
  "wp (ignore_result m) Q E s = wp m (\<lambda>_ t. Q () t) E s"
  by (simp add: ignore_result_def wp_rules)

lemma size_updates [simp]:
  "s\<lparr>pq_queue_size := n\<rparr> = set_sizes n (pq_history_size s) (pq_running_info s) s"
  "s\<lparr>pq_history_size := n\<rparr> = set_sizes (pq_queue_size s) n (pq_running_info s) s"
  by (simp_all add: set_sizes_def)

end
