(* ===== verification/PlanQueueInv.thy ===== *)
theory PlanQueueInv
  imports PlanQueueWp
begin

text \<open>
  The invariant of the plan queue: the items in the queue carry distinct hashable UIDs and
  every one of them is registered in the UID dictionary with exactly its stored content, the
  running item keeps its UID reserved, and identifiers generated later are unused. Every
  public operation keeps it, whether it returns or raises.
\<close>

section \<open>Well-formed items\<close>

definition raw_uid :: "json \<Rightarrow> json" where
  "raw_uid j = (case j of
     JDict d \<Rightarrow> (case dget d ''item_uid'' of Some u \<Rightarrow> u | None \<Rightarrow> JNull) | _ \<Rightarrow> JNull)"

definition the_uid :: "json \<Rightarrow> json" where
  "the_uid j = py_key (raw_uid j)"

definition dict_field :: "dict \<Rightarrow> string \<Rightarrow> bool" where
  "dict_field d k = (case dget d k of None \<Rightarrow> True | Some v \<Rightarrow> is_dict v)"

definition good_item :: "json \<Rightarrow> bool" where
  "good_item j = (case j of
     JDict d \<Rightarrow>
       wf_dict d \<and>
       (case dget d ''item_uid'' of Some u \<Rightarrow> hashable u | None \<Rightarrow> False) \<and>
       dict_field d ''properties'' \<and> dict_field d ''result''
   | _ \<Rightarrow> False)"

definition props_of :: "json \<Rightarrow> dict" where
  "props_of j = (case j of
     JDict d \<Rightarrow> (case dget d ''properties'' of Some (JDict p) \<Rightarrow> p | _ \<Rightarrow> []) | _ \<Rightarrow> [])"

definition is_immediate :: "json \<Rightarrow> bool" where
  "is_immediate j =
     (case dget (props_of j) ''immediate_execution'' of Some v \<Rightarrow> truthy v | None \<Rightarrow> False)"

text \<open>The running item: nothing, or a well-formed item with its start time.\<close>

definition good_running :: "json \<Rightarrow> bool" where
  "good_running r \<longleftrightarrow> r = JDict [] \<or> good_item r \<and> dhas (props_of r) ''time_start''"

text \<open>A running item whose UID is reserved in the dictionary.\<close>

definition reserved :: "json \<Rightarrow> bool" where
  "reserved r \<longleftrightarrow> r \<noteq> JDict [] \<and> \<not> is_immediate r"

lemma good_itemE [elim]:
  assumes "good_item j"
  obtains d u where "j = JDict d" "dget d ''item_uid'' = Some u" "hashable u" "wf_dict d"
    "raw_uid j = u" "the_uid j = py_key u" "dict_field d ''properties''" "dict_field d ''result''"
  using assms by (auto simp: good_item_def raw_uid_def the_uid_def split: json.splits option.splits)

lemma good_item_truthy [simp]: "good_item j \<Longrightarrow> truthy j"
  by (auto elim!: good_itemE)

lemma good_item_hashable [simp]: "good_item j \<Longrightarrow> hashable (raw_uid j)"
  by (auto elim!: good_itemE)

lemma the_uid_hashable [simp]: "good_item j \<Longrightarrow> hashable (the_uid j)"
  by (auto elim!: good_itemE)

lemma getitem_uid [simp]: "good_item j \<Longrightarrow> py_getitem j ''item_uid'' = Inr (raw_uid j)"
  by (auto elim!: good_itemE)

lemma contains_uid [simp]: "good_item j \<Longrightarrow> py_contains ''item_uid'' j = Inr True"
  by (auto elim!: good_itemE)

lemma good_item_is_dict [simp]: "good_item j \<Longrightarrow> is_dict j"
  by (auto elim!: good_itemE)

lemma good_item_not_empty [simp]: "\<not> good_item (JDict [])"
  by (simp add: good_item_def)

lemma good_running_cases:
  "good_running r \<Longrightarrow> truthy r \<Longrightarrow> good_item r"
  by (auto simp: good_running_def)

lemma good_running_falsy: "good_running r \<Longrightarrow> \<not> truthy r \<longleftrightarrow> r = JDict []"
  by (auto simp: good_running_def)

lemma py_key_raw [simp]: "py_key (raw_uid j) = the_uid j"
  by (simp add: the_uid_def)

lemma py_key_idem [simp]: "py_key (py_key j) = py_key j"
  by (cases j) auto

lemma py_key_the_uid [simp]: "py_key (the_uid j) = the_uid j"
  unfolding the_uid_def by (rule py_key_idem)

lemma py_eq_uid [simp]: "good_item j \<Longrightarrow> py_eq u (raw_uid j) \<longleftrightarrow> py_key u = the_uid j"
  by (simp add: py_eq_key)

lemma py_eq_uid' [simp]: "good_item j \<Longrightarrow> py_eq (raw_uid j) u \<longleftrightarrow> the_uid j = py_key u"
  by (simp add: py_eq_key2)

lemma dict_field_dset:
  "dict_field (dset k v d) k' = (if k' = k then is_dict v else dict_field d k')"
  by (simp add: dict_field_def dict_simps)

text \<open>A fresh UID makes any well-typed dictionary a well-formed item.\<close>

lemma good_item_fresh:
  assumes "wf_dict d" "dict_field d ''properties''" "dict_field d ''result''"
  shows "good_item (JDict (dset ''item_uid'' (JStr u) d))"
    and "the_uid (JDict (dset ''item_uid'' (JStr u) d)) = JStr u"
  using assms by (auto simp: good_item_def the_uid_def raw_uid_def dict_simps dict_field_dset simp del: py_key_raw)

lemma wp_uid_dict_add [pq_wp]:
  assumes "good_item j"
  shows "wp (uid_dict_add j) Q E s =
     (if pq_uid_dict s (the_uid j) \<noteq> None then E RuntimeError s
      else Q () (set_dict ((pq_uid_dict s)(the_uid j \<mapsto> j)) (bump_queue s)))"
  using assms by (simp add: uid_dict_add_def pq_wp uid_dict_put_def) (simp add: set_dict_def)

definition filtered :: "dict \<Rightarrow> dict" where
  "filtered d = filter (\<lambda>kv. fst kv \<in> set allowed_item_parameters) d"

lemma filter_item_parameters_dict [simp]:
  "filter_item_parameters (JDict d) = Inr (JDict (filtered d))"
  by (simp add: filter_item_parameters_def filtered_def)

lemma dget_filtered:
  "dget (filtered d) k = (if k \<in> set allowed_item_parameters then dget d k else None)"
  unfolding filtered_def by (rule dget_filter_keys)

lemma good_item_filtered:
  assumes "good_item (JDict d)"
  shows "good_item (JDict (filtered d))" and "the_uid (JDict (filtered d)) = the_uid (JDict d)"
proof -
  have "wf_dict (filtered d)"
    using assms wf_filter [of d] by (auto simp: good_item_def filtered_def)
  then show "good_item (JDict (filtered d))"
    using assms
    by (auto simp: good_item_def dget_filtered dict_field_def allowed_item_parameters_def
        split: option.splits)
  show "the_uid (JDict (filtered d)) = the_uid (JDict d)"
    by (simp add: the_uid_def raw_uid_def dget_filtered allowed_item_parameters_def
        del: py_key_raw)
qed

section \<open>The invariant\<close>

definition unused_from :: "(nat \<Rightarrow> string) \<Rightarrow> nat \<Rightarrow> json \<Rightarrow> bool" where
  "unused_from us n u \<longleftrightarrow> (\<forall>i\<ge>n. u \<noteq> JStr (us i))"

definition queue_ok ::
    "json list \<Rightarrow> json list \<Rightarrow> json \<Rightarrow> (json \<Rightarrow> json option) \<Rightarrow> (nat \<Rightarrow> string) \<Rightarrow> nat \<Rightarrow> bool" where
  "queue_ok q h r D us n \<longleftrightarrow>
     inj us \<and>
     (\<forall>j \<in> set q. good_item j \<and> D (the_uid j) = Some j) \<and>
     distinct (map the_uid q) \<and>
     (\<forall>j \<in> set h. good_item j) \<and>
     good_running r \<and>
     (reserved r \<longrightarrow> D (the_uid r) \<noteq> None \<and> the_uid r \<notin> the_uid ` set q) \<and>
     (\<forall>u j. D u = Some j \<longrightarrow> good_item j \<and> the_uid j = u \<and> unused_from us n u) \<and>
     (r \<noteq> JDict [] \<longrightarrow> unused_from us n (the_uid r))"

definition pq_wf :: "pq \<Rightarrow> bool" where
  "pq_wf s \<longleftrightarrow>
     queue_ok (queue s) (history s) (running s) (pq_uid_dict s) (pq_uuids s) (pq_next s) \<and>
     validate_plan_queue_mode (JDict (pq_mode s)) = Inr ()"

lemma unused_from_mono: "unused_from us n u \<Longrightarrow> n \<le> m \<Longrightarrow> unused_from us m u"
  by (simp add: unused_from_def)

lemma unused_from_used: "inj us \<Longrightarrow> k < n \<Longrightarrow> unused_from us n (JStr (us k))"
  unfolding unused_from_def by (metis injD json.inject(4) leD)

lemma queue_okD:
  assumes "queue_ok q h r D us n"
  shows "inj us" and "\<And>j. j \<in> set q \<Longrightarrow> good_item j"
    and "\<And>j. j \<in> set q \<Longrightarrow> D (the_uid j) = Some j" and "distinct (map the_uid q)"
    and "\<And>j. j \<in> set h \<Longrightarrow> good_item j" and "good_running r"
    and "reserved r \<Longrightarrow> D (the_uid r) \<noteq> None" and "reserved r \<Longrightarrow> the_uid r \<notin> the_uid ` set q"
    and "\<And>u j. D u = Some j \<Longrightarrow> good_item j" and "\<And>u j. D u = Some j \<Longrightarrow> the_uid j = u"
    and "\<And>u j. D u = Some j \<Longrightarrow> unused_from us n u"
    and "r \<noteq> JDict [] \<Longrightarrow> unused_from us n (the_uid r)"
  using assms unfolding queue_ok_def by blast+

lemma distinct_uid_list: "distinct (map the_uid q) \<Longrightarrow> distinct q"
  by (simp add: distinct_map)

lemma queue_uid_inj:
  "queue_ok q h r D us n \<Longrightarrow> i \<in> set q \<Longrightarrow> j \<in> set q \<Longrightarrow> the_uid i = the_uid j \<Longrightarrow> i = j"
  by (metis option.inject queue_okD(3))

text \<open>Consuming identifiers.\<close>

lemma queue_ok_next:
  assumes "queue_ok q h r D us n" and "n \<le> m"
  shows "queue_ok q h r D us m"
  using assms unfolding queue_ok_def by (blast intro: unused_from_mono)

lemma queue_ok_fresh:
  assumes "queue_ok q h r D us n" and "n \<le> k"
  shows "D (JStr (us k)) = None"
  using assms unfolding queue_ok_def unused_from_def by (metis not_None_eq)

text \<open>Reordering the queue, or dropping elements while their registration stays.\<close>

lemma queue_ok_subset:
  assumes "queue_ok q h r D us n" and "set q' \<subseteq> set q" and "distinct (map the_uid q')" and "n \<le> m"
  shows "queue_ok q' h r D us m"
  using queue_ok_next [OF assms(1,4)] assms(2,3) unfolding queue_ok_def by (auto 4 4)

text \<open>Unregistering a UID that is no longer in the queue nor reserved.\<close>

lemma queue_ok_forget:
  assumes "queue_ok q h r D us n" and "u \<notin> the_uid ` set q" and "reserved r \<Longrightarrow> the_uid r \<noteq> u"
    and "n \<le> m"
  shows "queue_ok q h r (D(u := None)) us m"
  using queue_ok_next [OF assms(1,4)] assms(2,3) unfolding queue_ok_def by auto

text \<open>Registering a new item and putting it in the queue.\<close>

lemma queue_ok_add:
  assumes ok: "queue_ok q h r D us n" and j: "good_item j" "D (the_uid j) = None"
    and u: "unused_from us m (the_uid j)" and q': "set q' \<subseteq> insert j (set q)"
    "distinct (map the_uid q')" and n: "n \<le> m"
  shows "queue_ok q' h r (D(the_uid j \<mapsto> j)) us m"
proof -
  have ok': "queue_ok q h r D us m" by (rule queue_ok_next [OF ok n])
  have neq: "the_uid k \<noteq> the_uid j" if "k \<in> set q" for k
    using queue_okD(3) [OF ok that] j(2) by auto
  have mem: "k = j \<or> k \<in> set q \<and> the_uid k \<noteq> the_uid j" if "k \<in> set q'" for k
    using that q'(1) neq by auto
  have "reserved r \<Longrightarrow> the_uid r \<noteq> the_uid j"
    using queue_okD(7) [OF ok'] j(2) by auto
  then have "reserved r \<Longrightarrow> the_uid r \<notin> the_uid ` set q'"
    using queue_okD(8) [OF ok'] mem by blast
  moreover have "\<forall>k \<in> set q'. good_item k \<and> (D(the_uid j \<mapsto> j)) (the_uid k) = Some k"
    using mem j(1) queue_okD(2,3) [OF ok'] by auto
  moreover have "\<forall>u k. (D(the_uid j \<mapsto> j)) u = Some k \<longrightarrow>
      good_item k \<and> the_uid k = u \<and> unused_from us m u"
    using queue_okD(9-11) [OF ok'] j(1) u by auto
  moreover have "reserved r \<longrightarrow> (D(the_uid j \<mapsto> j)) (the_uid r) \<noteq> None"
    using queue_okD(7) [OF ok'] by auto
  moreover have "\<forall>k \<in> set h. good_item k"
    using queue_okD(5) [OF ok'] by blast
  moreover have "r \<noteq> JDict [] \<longrightarrow> unused_from us m (the_uid r)"
    using queue_okD(12) [OF ok'] by blast
  ultimately show ?thesis
    using queue_okD(1,6) [OF ok'] q'(2) unfolding queue_ok_def by blast
qed

lemma queue_ok_clear:
  assumes ok: "queue_ok q h r D us n" and sub: "\<And>u j. D' u = Some j \<Longrightarrow> D u = Some j"
    and res: "reserved r \<Longrightarrow> D' (the_uid r) \<noteq> None" and n: "n \<le> m"
  shows "queue_ok [] h r D' us m"
proof -
  note ok' = queue_ok_next [OF ok n]
  have "\<forall>u j. D' u = Some j \<longrightarrow> good_item j \<and> the_uid j = u \<and> unused_from us m u"
    using sub queue_okD(9-11) [OF ok'] by blast
  then show ?thesis
    using queue_okD(1,5,6,12) [OF ok'] res unfolding queue_ok_def by simp
qed

lemma queue_ok_history:
  assumes "queue_ok q h r D us n" and "\<And>j. j \<in> set h' \<Longrightarrow> good_item j" and "n \<le> m"
  shows "queue_ok q h' r D us m"
  using queue_ok_next [OF assms(1,3)] assms(2) unfolding queue_ok_def by auto

lemma queue_ok_idle:
  assumes "queue_ok q h r D us n" and "n \<le> m"
  shows "queue_ok q h (JDict []) D us m"
  using queue_ok_next [OF assms] unfolding queue_ok_def
  by (auto simp: reserved_def good_running_def)

lemma queue_ok_running:
  assumes "queue_ok q h r D us n" and "good_running r'" and "unused_from us m (the_uid r')"
    and "reserved r' \<Longrightarrow> D (the_uid r') \<noteq> None \<and> the_uid r' \<notin> the_uid ` set q" and "n \<le> m"
  shows "queue_ok q h r' D us m"
  using queue_ok_next [OF assms(1,5)] assms(2-4) unfolding queue_ok_def by auto

text \<open>Removing one item from the queue, as the store does (all equal elements).\<close>

lemma queue_remove_one:
  assumes "queue_ok q h r D us n" and "j \<in> set q"
  shows "length (filter (\<lambda>x. x = j) q) = 1"
    and "the_uid j \<notin> the_uid ` set (filter (\<lambda>x. x \<noteq> j) q)"
    and "distinct (map the_uid (filter P q))"
proof -
  have d: "distinct (map the_uid q)" by (rule queue_okD(4) [OF assms(1)])
  have "filter (\<lambda>x. x = j) q = [j]"
    using distinct_uid_list [OF d] assms(2)
    by (induction q) (auto simp: filter_empty_conv)
  then show "length (filter (\<lambda>x. x = j) q) = 1" by simp
  show "the_uid j \<notin> the_uid ` set (filter (\<lambda>x. x \<noteq> j) q)"
    using queue_uid_inj [OF assms(1,2)] by auto
  show "distinct (map the_uid (filter P q))"
    using d by (rule distinct_map_filter)
qed

end
