(* ===== verification/PlanQueueSafe.thy ===== *)
theory PlanQueueSafe
  imports PlanQueueInv
begin

text \<open>
  What the basic operations of the plan queue do, as equations for their weakest
  preconditions in a well-formed state, and the preservation of the invariant by each of them.
\<close>

section \<open>Small facts about the invariant\<close>

lemma pq_wf_queue_ok:
  "pq_wf s \<Longrightarrow>
     queue_ok (queue s) (history s) (running s) (pq_uid_dict s) (pq_uuids s) (pq_next s)"
  by (simp add: pq_wf_def)

lemma pq_wf_sizes [simp]: "pq_wf (set_sizes q h r s) = pq_wf s"
  by (simp add: pq_wf_def)

lemma pq_wf_tick [simp]: "pq_wf (use_tick s) = pq_wf s"
  by (simp add: pq_wf_def)

lemma pq_wf_bump:
  assumes "pq_wf s"
  shows "pq_wf (bump_queue s)" and "pq_wf (bump_history s)" and "pq_wf (use_uuid s)"
  using assms queue_ok_next [OF pq_wf_queue_ok [OF assms], of "Suc (pq_next s)"]
  by (simp_all add: pq_wf_def)

lemma pq_wf_same_queue [simp]: "pq_wf (set_queue (queue s) s) = pq_wf s"
  by (simp add: pq_wf_def)

lemma pq_wf_running: "pq_wf s \<Longrightarrow> good_running (running s)"
  using pq_wf_queue_ok queue_okD(6) by blast

lemma pq_wf_dict:
  "pq_wf s \<Longrightarrow> pq_uid_dict s u = Some j \<Longrightarrow> good_item j \<and> the_uid j = u"
  using pq_wf_queue_ok queue_okD(9,10) by blast

lemma pq_wf_item:
  "pq_wf s \<Longrightarrow> j \<in> set (queue s) \<Longrightarrow> good_item j \<and> pq_uid_dict s (the_uid j) = Some j"
  using pq_wf_queue_ok queue_okD(2,3) by blast

lemma pq_wf_loop:
  assumes "pq_wf s"
  obtains b where "item_at (pq_mode s) ''loop'' = Inr (JBool b)"
proof -
  have *: "validate_mode_items d ks = Inr ks' \<Longrightarrow> k \<in> set ks \<Longrightarrow> k \<notin> set ks' \<Longrightarrow>
      \<exists>b. dget d k = Some (JBool b)" for d ks ks' k
    by (induction d ks rule: validate_mode_items.induct) (force split: if_splits json.splits)+
  from assms obtain ks' where "validate_mode_items (pq_mode s) [''loop'', ''ignore_failures''] = Inr ks'"
    "ks' = []"
    by (auto simp: pq_wf_def validate_plan_queue_mode_def ebind_def split: sum.splits if_splits)
  from * [OF this(1), of "''loop''"] this(2) show ?thesis using that by auto
qed

section \<open>Reading items\<close>

lemma wp_uid_is_running:
  assumes "pq_wf s"
  shows "wp (uid_is_running uid) Q E s =
     Q (running s \<noteq> JDict [] \<and> py_key uid = the_uid (running s)) s"
proof (cases "truthy (running s)")
  case True
  then have "good_item (running s)" using pq_wf_running [OF assms] good_running_cases by blast
  moreover have "running s \<noteq> JDict []" using True by auto
  ultimately show ?thesis using True by (simp add: uid_is_running_def pq_wp)
next
  case False
  then show ?thesis
    using good_running_falsy [OF pq_wf_running [OF assms]] by (simp add: uid_is_running_def pq_wp)
qed

text \<open>The list index a position parameter stands for.\<close>

definition pos_index :: "json \<Rightarrow> int option" where
  "pos_index pos =
     (if pos = JNull \<or> pos = JStr ''back'' then Some (-1)
      else if pos = JStr ''front'' then Some 0 else as_int pos)"

lemma wp_get_item_pos [pq_wp]:
  "wp (get_item_body pos JNull) Q E s =
     (case pos_index pos of
        None \<Rightarrow> E TypeError s
      | Some i \<Rightarrow> (case index_of i (queue s) of None \<Rightarrow> E IndexError s | Some j \<Rightarrow> Q j s))"
  by (auto simp: get_item_body_def pos_index_def pq_wp split: option.splits)

lemma wp_get_item_uid:
  assumes "pq_wf s" "uid \<noteq> JNull"
  shows "wp (get_item_body JNull uid) Q E s =
     (if \<not> hashable uid then E TypeError s
      else case pq_uid_dict s (py_key uid) of
          None \<Rightarrow> E IndexError s
        | Some j \<Rightarrow>
            if running s \<noteq> JDict [] \<and> py_key uid = the_uid (running s) then E IndexError s
            else Q j s)"
  using assms(2)
  by (auto simp: get_item_body_def pq_wp wp_uid_is_running [OF assms(1)] split: option.splits)

lemma wp_get_item_reads:
  assumes "pq_wf s"
  shows "wp (get_item_body pos uid) (\<lambda>j t. t = s \<and> good_item j) (\<lambda>_ t. t = s) s"
proof (cases "uid = JNull")
  case True
  then show ?thesis using pq_wf_item [OF assms]
    by (auto simp: pq_wp index_of_mem split: option.splits)
next
  case False
  show ?thesis
  proof (cases "pos = JNull")
    case True
    then show ?thesis using pq_wf_dict [OF assms]
      by (auto simp: wp_get_item_uid [OF assms False] split: option.splits)
  next
    case False
    then show ?thesis using \<open>uid \<noteq> JNull\<close> by (simp add: get_item_body_def pq_wp)
  qed
qed

section \<open>Removing an item\<close>

text \<open>The state after item \<open>j\<close> was taken out and \<open>q\<close> is left.\<close>

definition popped :: "json \<Rightarrow> json list \<Rightarrow> pq \<Rightarrow> pq" where
  "popped j q s =
     set_sizes (int (length q)) (pq_history_size s) (pq_running_info s)
       (set_dict ((pq_uid_dict s)(the_uid j := None)) (bump_queue (set_queue q s)))"

lemma view_popped [simp]:
  "queue (popped j q s) = q" "history (popped j q s) = history s"
  "running (popped j q s) = running s"
  "pq_uid_dict (popped j q s) = (pq_uid_dict s)(the_uid j := None)"
  "pq_uuids (popped j q s) = pq_uuids s" "pq_next (popped j q s) = Suc (pq_next s)"
  "pq_mode (popped j q s) = pq_mode s"
  "pq_queue_size (popped j q s) = int (length q)"
  "pq_history_size (popped j q s) = pq_history_size s"
  "pq_running_info (popped j q s) = pq_running_info s"
  "pq_has_lock (popped j q s) = pq_has_lock s" "pq_opened (popped j q s) = pq_opened s"
  by (simp_all add: popped_def)

lemma pq_wf_popped:
  assumes wf: "pq_wf s" and j: "j \<in> set (queue s)" and q: "set q \<subseteq> set (queue s)"
    and d: "distinct (map the_uid q)" and out: "the_uid j \<notin> the_uid ` set q"
  shows "pq_wf (popped j q s)"
proof -
  note ok = pq_wf_queue_ok [OF wf]
  have "reserved (running s) \<Longrightarrow> the_uid (running s) \<noteq> the_uid j"
    using queue_okD(8) [OF ok] j by auto
  then have "queue_ok q (history s) (running s) ((pq_uid_dict s)(the_uid j := None))
      (pq_uuids s) (Suc (pq_next s))"
    using queue_ok_forget [OF queue_ok_subset [OF ok q d, of "pq_next s"]] out by auto
  then show ?thesis using wf by (simp add: pq_wf_def)
qed

definition pop_at :: "json \<Rightarrow> json list \<Rightarrow> py_error + json \<times> json list" where
  "pop_at pos q =
     (if pos = JNull \<or> pos = JStr ''back'' then
        (if q = [] then Inl IndexError else Inr (last q, butlast q))
      else if pos = JStr ''front'' then (if q = [] then Inl IndexError else Inr (hd q, tl q))
      else case as_int pos of
          None \<Rightarrow> Inl ValueError
        | Some i \<Rightarrow>
            (case index_of i q of
               None \<Rightarrow> Inl IndexError | Some j \<Rightarrow> Inr (j, filter (\<lambda>x. x \<noteq> j) q)))"

lemma wp_remove_item_body:
  "wp (remove_item_body item single) Q E s =
     (let q = filter (\<lambda>x. x \<noteq> item) (queue s);
          t = set_sizes (int (length q)) (pq_history_size s) (pq_running_info s) (set_queue q s)
      in if length (filter (\<lambda>x. x = item) (queue s)) \<noteq> 1 \<and> single then E RuntimeError t else Q () t)"
  by (simp add: remove_item_body_def pq_wp Let_def)

lemma pop_at_parts:
  assumes wf: "pq_wf s" and p: "pop_at pos (queue s) = Inr (j, q)"
  shows "j \<in> set (queue s)" and "set q \<subseteq> set (queue s)" and "distinct (map the_uid q)"
    and "the_uid j \<notin> the_uid ` set q" and "length (queue s) = Suc (length q)"
proof -
  note ok = pq_wf_queue_ok [OF wf]
  note d = queue_okD(4) [OF ok]
  have main: "j \<in> set (queue s) \<and> set q \<subseteq> set (queue s) \<and> distinct (map the_uid q) \<and>
      the_uid j \<notin> the_uid ` set q \<and> length (queue s) = Suc (length q)"
  proof (cases "\<exists>i. as_int pos = Some i \<and> index_of i (queue s) = Some j \<and>
                    q = filter (\<lambda>x. x \<noteq> j) (queue s)")
    case True
    then have j: "j \<in> set (queue s)" by (auto dest: index_of_mem)
    have "length (filter (\<lambda>x. x = j) (queue s)) + length (filter (\<lambda>x. x \<noteq> j) (queue s))
        = length (queue s)" by (rule sum_length_filter_compl)
    then show ?thesis using True j queue_remove_one [OF ok j] by auto
  next
    case False
    then consider "queue s = q @ [j]" | "queue s = j # q"
      using p by (auto simp: pop_at_def split: if_splits option.splits)
    then show ?thesis using d by cases auto
  qed
  then show "j \<in> set (queue s)" "set q \<subseteq> set (queue s)" "distinct (map the_uid q)"
    "the_uid j \<notin> the_uid ` set q" "length (queue s) = Suc (length q)" by blast+
qed

lemma wp_pop_tail:
  assumes wf: "pq_wf s" and j: "j \<in> set (queue s)"
    and t: "\<exists>n. t = set_sizes n (pq_history_size s) (pq_running_info s) (set_queue q s) \<or>
                t = set_queue q s"
  shows "wp (sq (when_do (truthy j) (bnd (lift (py_getitem j ''item_uid'')) uid_dict_remove))
              (sq refresh_queue_size (bnd (gets pq_queue_size) (\<lambda>n. ret (j, n))))) Q E t =
         Q (j, int (length q)) (popped j q s)"
proof -
  have "good_item j" "pq_uid_dict s (the_uid j) = Some j" using pq_wf_item [OF wf j] by auto
  then show ?thesis using t by (auto simp: pq_wp popped_def)
qed

lemma wp_pop_pos:
  assumes wf: "pq_wf s"
  shows "wp (pop_item_from_queue_body pos JNull) Q E s =
     (case pop_at pos (queue s) of
        Inl e \<Rightarrow> E e s
      | Inr (j, q) \<Rightarrow> Q (j, int (length q)) (popped j q s))"
proof (cases "pop_at pos (queue s)")
  case (Inl e)
  then show ?thesis
    by (auto simp: pop_item_from_queue_body_def pq_wp pop_at_def Let_def pos_index_def
        split: if_splits option.splits list.splits)
next
  case (Inr jq)
  obtain j q where jq: "jq = (j, q)" by (cases jq)
  note parts = pop_at_parts [OF wf Inr [unfolded jq]]
  note tail = wp_pop_tail [OF wf parts(1)]
  have one: "length (filter (\<lambda>x. x = j) (queue s)) = 1"
    by (rule queue_remove_one [OF pq_wf_queue_ok [OF wf] parts(1)])
  have t: "truthy j" using pq_wf_item [OF wf parts(1)] by auto
  show ?thesis
  proof (cases "pos = JNull \<or> pos = JStr ''back'' \<or> pos = JStr ''front''")
    case True
    then have "wp (pop_item_from_queue_body pos JNull) Q E s =
        wp (sq (when_do (truthy j) (bnd (lift (py_getitem j ''item_uid'')) uid_dict_remove))
              (sq refresh_queue_size (bnd (gets pq_queue_size) (\<lambda>n. ret (j, n))))) Q E (set_queue q s)"
    proof (cases "pos = JStr ''front''")
      case True
      then have "queue s = j # q" using Inr jq by (auto simp: pop_at_def split: if_splits)
      then show ?thesis using True
        by (simp add: pop_item_from_queue_body_def wp_rules wp_queue_pop_front Let_def)
    next
      case False
      then have "queue s \<noteq> [] \<and> j = last (queue s) \<and> q = butlast (queue s)"
        using True Inr jq by (auto simp: pop_at_def split: if_splits)
      then show ?thesis using True False
        by (auto simp: pop_item_from_queue_body_def wp_rules wp_queue_pop_back Let_def)
    qed
    then show ?thesis using tail [of "set_queue q s" q] Inr jq by auto
  next
    case False
    then obtain i where i: "as_int pos = Some i" "index_of i (queue s) = Some j"
      "q = filter (\<lambda>x. x \<noteq> j) (queue s)" "pos_index pos = Some i"
      using Inr jq by (auto simp: pop_at_def pos_index_def split: if_splits option.splits)
    let ?t = "set_sizes (int (length q)) (pq_history_size s) (pq_running_info s) (set_queue q s)"
    have "wp (pop_item_from_queue_body pos JNull) Q E s =
        wp (sq (when_do (truthy j) (bnd (lift (py_getitem j ''item_uid'')) uid_dict_remove))
              (sq refresh_queue_size (bnd (gets pq_queue_size) (\<lambda>n. ret (j, n))))) Q E ?t"
      using False i one t
      by (simp add: pop_item_from_queue_body_def wp_rules wp_get_item_pos wp_remove_item_body
          Let_def)
    then show ?thesis using tail [of ?t q] Inr jq by auto
  qed
qed

end
