(* ===== verification/PlanQueueKeep.thy ===== *)
theory PlanQueueKeep
  imports PlanQueueSafe
begin

text \<open>
  The plan queue's insertion, replacement, move and execution operations: what they do to
  the view, and that each keeps the invariant whether it returns or raises.
\<close>

section \<open>Removing by UID\<close>

text \<open>Progress: the supply of identifiers only moves forward, so arguments stay valid.\<close>

definition later :: "pq \<Rightarrow> pq \<Rightarrow> bool" where
  "later s t \<longleftrightarrow> pq_uuids t = pq_uuids s \<and> pq_next s \<le> pq_next t"

lemma later_refl [simp]: "later s s"
  by (simp add: later_def)

lemma later_trans: "later s t \<Longrightarrow> later t u \<Longrightarrow> later s u"
  by (simp add: later_def)

definition safe :: "pq \<Rightarrow> pq \<Rightarrow> bool" where
  "safe s t \<longleftrightarrow> pq_wf t \<and> later s t"


lemma wp_pop_uid:
  assumes wf: "pq_wf s" and u: "uid \<noteq> JNull"
  shows "wp (pop_item_from_queue_body JNull uid) Q E s =
     (if \<not> hashable uid then E TypeError s
      else case pq_uid_dict s (py_key uid) of
          None \<Rightarrow> E IndexError s
        | Some j \<Rightarrow>
            if running s \<noteq> JDict [] \<and> py_key uid = the_uid (running s) then E IndexError s
            else if j \<in> set (queue s) then
              (let q = filter (\<lambda>x. x \<noteq> j) (queue s)
               in Q (j, int (length q)) (popped j q s))
            else E RuntimeError
                   (set_sizes (int (length (queue s))) (pq_history_size s) (pq_running_info s)
                     (set_queue (queue s) s)))"
proof (cases "pq_uid_dict s (py_key uid)")
  case None
  then show ?thesis using u by (simp add: pop_item_from_queue_body_def pq_wp Let_def)
next
  case (Some j)
  show ?thesis
  proof (cases "j \<in> set (queue s)")
    case True
    have one: "length (filter (\<lambda>x. x = j) (queue s)) = 1"
      by (rule queue_remove_one [OF pq_wf_queue_ok [OF wf] True])
    let ?q = "filter (\<lambda>x. x \<noteq> j) (queue s)"
    let ?t = "set_sizes (int (length ?q)) (pq_history_size s) (pq_running_info s) (set_queue ?q s)"
    have "wp (pop_item_from_queue_body JNull uid) Q E s =
      (if \<not> hashable uid then E TypeError s
       else if running s \<noteq> JDict [] \<and> py_key uid = the_uid (running s) then E IndexError s
       else wp (sq (when_do (truthy j) (bnd (lift (py_getitem j ''item_uid'')) uid_dict_remove))
              (sq refresh_queue_size (bnd (gets pq_queue_size) (\<lambda>n. ret (j, n))))) Q E ?t)"
      using u Some one
      by (simp add: pop_item_from_queue_body_def wp_rules wp_is_uid_in_dict
          wp_uid_is_running [OF wf] wp_uid_dict_get_item wp_remove_item_body Let_def)
    also have "wp (sq (when_do (truthy j) (bnd (lift (py_getitem j ''item_uid'')) uid_dict_remove))
          (sq refresh_queue_size (bnd (gets pq_queue_size) (\<lambda>n. ret (j, n))))) Q E ?t
        = Q (j, int (length ?q)) (popped j ?q s)"
      by (rule wp_pop_tail [OF wf True]) blast
    finally show ?thesis using Some True by (simp add: Let_def)
  next
    case False
    then show ?thesis
      using u Some
      by (simp add: pop_item_from_queue_body_def wp_rules wp_is_uid_in_dict
          wp_uid_is_running [OF wf] wp_uid_dict_get_item wp_remove_item_body Let_def)
  qed
qed

lemma keep_pop:
  assumes wf: "pq_wf s"
  shows "wp (pop_item_from_queue_body pos uid)
     (\<lambda>(j, n) t. safe s t \<and> j \<in> set (queue s)) (\<lambda>_. safe s) s"
proof (cases "uid = JNull")
  case True
  show ?thesis
    using pq_wf_popped [OF wf] pop_at_parts [OF wf] wf True
    by (auto simp: wp_pop_pos [OF wf] safe_def later_def split: sum.splits)
next
  case False
  show ?thesis
  proof (cases "pos = JNull")
    case True
    have *: "pq_wf (popped j (filter (\<lambda>x. x \<noteq> j) (queue s)) s)" if "j \<in> set (queue s)" for j
      by (rule pq_wf_popped [OF wf that])
        (use queue_remove_one [OF pq_wf_queue_ok [OF wf] that] in auto)
    show ?thesis
      unfolding True wp_pop_uid [OF wf False] using * wf
      by (auto simp: Let_def safe_def later_def split: option.splits)
  next
    case False
    then show ?thesis using wf \<open>uid \<noteq> JNull\<close>
      by (simp add: pop_item_from_queue_body_def pq_wp safe_def)
  qed
qed

section \<open>Submitted items\<close>

text \<open>
  What the operations assume of a submitted item: a dictionary has distinct keys, the fields
  \<open>properties\<close> and \<open>result\<close> hold dictionaries if present, and a UID chosen by the caller is
  not one that \<open>uuid4\<close> is still to produce.
\<close>

definition item_arg_ok :: "(nat \<Rightarrow> string) \<Rightarrow> nat \<Rightarrow> json \<Rightarrow> bool" where
  "item_arg_ok us n item = (case item of
     JDict d \<Rightarrow>
       wf_dict d \<and> dict_field d ''properties'' \<and> dict_field d ''result'' \<and>
       (case dget d ''item_uid'' of None \<Rightarrow> True | Some u \<Rightarrow> unused_from us n (py_key u))
   | _ \<Rightarrow> True)"

lemma item_arg_ok_mono: "item_arg_ok us n item \<Longrightarrow> n \<le> m \<Longrightarrow> item_arg_ok us m item"
  by (auto simp: item_arg_ok_def unused_from_def split: json.splits option.splits)

lemma later_arg: "item_arg_ok (pq_uuids s) (pq_next s) item \<Longrightarrow> later s t \<Longrightarrow>
    item_arg_ok (pq_uuids t) (pq_next t) item"
  by (simp add: later_def item_arg_ok_mono)

lemma pq_wf_fresh: "pq_wf s \<Longrightarrow> pq_next s \<le> k \<Longrightarrow> pq_uid_dict s (JStr (pq_uuids s k)) = None"
  using queue_ok_fresh pq_wf_queue_ok by blast

lemma pq_wf_inj: "pq_wf s \<Longrightarrow> inj (pq_uuids s)"
  using queue_okD(1) pq_wf_queue_ok by blast

text \<open>The item that \<open>prepare_item\<close> yields, or the exception it raises.\<close>

definition prepared :: "json \<Rightarrow> bool \<Rightarrow> (json \<Rightarrow> json option) \<Rightarrow> string \<Rightarrow> py_error + json" where
  "prepared item flt D u = (case item of
     JDict d \<Rightarrow>
       (case dget d ''item_uid'' of
          None \<Rightarrow>
            (let d' = dset ''item_uid'' (JStr u) d in Inr (JDict (if flt then filtered d' else d')))
        | Some v \<Rightarrow>
            if \<not> hashable v then Inl TypeError
            else if D (py_key v) \<noteq> None then Inl RuntimeError
            else Inr (JDict (if flt then filtered d else d)))
   | _ \<Rightarrow> Inl TypeError)"

lemma wp_verify_item:
  "wp (verify_item (JDict d) ignore_uids) Q E s =
     (case dget d ''item_uid'' of
        None \<Rightarrow> E ValueError s
      | Some v \<Rightarrow>
          if py_in v ignore_uids then Q () s
          else if \<not> hashable v then E TypeError s
          else if pq_uid_dict s (py_key v) \<noteq> None then E RuntimeError s
          else Q () s)"
  by (auto simp: verify_item_def pq_wp split: option.splits)

lemma wp_verify_item_other: "\<not> is_dict item \<Longrightarrow> wp (verify_item item us) Q E s = E TypeError s"
  by (simp add: verify_item_def pq_wp)

lemma py_in_Nil [simp]: "\<not> py_in v []"
  by (simp add: py_in_def)

lemma wp_prepare_item:
  "wp (prepare_item item flt) Q E s =
     (case prepared item flt (pq_uid_dict s) (pq_uuids s (pq_next s)) of
        Inl e \<Rightarrow> E e s
      | Inr j \<Rightarrow> Q j (if (case item of JDict d \<Rightarrow> dhas d ''item_uid'' | _ \<Rightarrow> False)
                      then s else use_uuid s))"
proof (cases item)
  case (JDict d)
  then show ?thesis
    by (auto simp: prepare_item_def prepared_def pq_wp wp_verify_item Let_def split: option.splits)
next
  case (JList xs)
  then show ?thesis
    by (auto simp: prepare_item_def prepared_def pq_wp wp_verify_item_other py_contains_def)
next
  case (JStr xs)
  then show ?thesis
    by (auto simp: prepare_item_def prepared_def pq_wp wp_verify_item_other py_contains_def)
qed (simp_all add: prepare_item_def prepared_def pq_wp py_contains_def)

lemma prepared_good:
  assumes wf: "pq_wf s" and arg: "item_arg_ok (pq_uuids s) (pq_next s) item"
    and p: "prepared item flt (pq_uid_dict s) (pq_uuids s (pq_next s)) = Inr j"
  shows "good_item j" and "pq_uid_dict s (the_uid j) = None"
    and "unused_from (pq_uuids s) (Suc (pq_next s)) (the_uid j)"
    and "case item of JDict d \<Rightarrow> dhas d ''item_uid'' \<longrightarrow> unused_from (pq_uuids s) (pq_next s) (the_uid j)
           | _ \<Rightarrow> True"
proof -
  obtain d where d: "item = JDict d" using p by (auto simp: prepared_def split: json.splits)
  have main: "good_item j \<and> pq_uid_dict s (the_uid j) = None \<and>
      unused_from (pq_uuids s) (Suc (pq_next s)) (the_uid j) \<and>
      (dhas d ''item_uid'' \<longrightarrow> unused_from (pq_uuids s) (pq_next s) (the_uid j))"
  proof (cases "dget d ''item_uid''")
    case None
    let ?d = "dset ''item_uid'' (JStr (pq_uuids s (pq_next s))) d"
    have j: "j = JDict (if flt then filtered ?d else ?d)"
      using p None by (simp add: d prepared_def Let_def)
    have g: "good_item (JDict ?d)" "the_uid (JDict ?d) = JStr (pq_uuids s (pq_next s))"
      using good_item_fresh [of d] arg by (auto simp: d item_arg_ok_def)
    have "good_item j \<and> the_uid j = JStr (pq_uuids s (pq_next s))"
      using g good_item_filtered [OF g(1)] by (auto simp: j)
    then show ?thesis
      using None pq_wf_fresh [OF wf] unused_from_used [OF pq_wf_inj [OF wf], of "pq_next s"] by simp
  next
    case (Some v)
    then have v: "hashable v" "pq_uid_dict s (py_key v) = None" "j = JDict (if flt then filtered d else d)"
      using p by (auto simp: d prepared_def split: if_splits)
    have g: "good_item (JDict d)" "the_uid (JDict d) = py_key v"
      using arg v(1) Some
      by (auto simp: d item_arg_ok_def good_item_def the_uid_def raw_uid_def simp del: py_key_raw)
    have "unused_from (pq_uuids s) (pq_next s) (py_key v)"
      using arg Some by (simp add: d item_arg_ok_def)
    then show ?thesis
      using g good_item_filtered [OF g(1)] v unused_from_mono [of _ _ _ "Suc (pq_next s)"] by auto
  qed
  then show "good_item j" "pq_uid_dict s (the_uid j) = None"
    "unused_from (pq_uuids s) (Suc (pq_next s)) (the_uid j)"
    "case item of JDict d \<Rightarrow> dhas d ''item_uid'' \<longrightarrow> unused_from (pq_uuids s) (pq_next s) (the_uid j)
           | _ \<Rightarrow> True"
    by (auto simp: d)
qed

section \<open>Inserting\<close>

text \<open>Where an insertion puts the item: the new queue, or the exception.\<close>

definition place_by_uid ::
    "json \<Rightarrow> json \<Rightarrow> json \<Rightarrow> json list \<Rightarrow> json \<Rightarrow> (json \<Rightarrow> json option) \<Rightarrow> py_error + json list option" where
  "place_by_uid item before_uid after_uid q r D =
     (let uid = (if before_uid \<noteq> JNull then before_uid else after_uid);
          before = py_eq uid before_uid
      in if \<not> hashable uid then Inl TypeError
         else case D (py_key uid) of
             None \<Rightarrow> Inl IndexError
           | Some p \<Rightarrow>
               if r \<noteq> JDict [] \<and> py_key uid = the_uid r then
                 (if before then Inl IndexError else Inr (Some (item # q)))
               else Inr (insert_at_pivot (if before then Before else After) p item q))"

definition place_at_pos :: "json \<Rightarrow> json \<Rightarrow> json list \<Rightarrow> py_error + json list option" where
  "place_at_pos item pos q =
     (if pos = JStr ''back'' then Inr (Some (q @ [item]))
      else if pos = JStr ''front'' then Inr (Some (item # q))
      else case as_int pos of
          None \<Rightarrow> Inl ValueError
        | Some p \<Rightarrow>
            (case index_of (if p > 0 then p else p + 1) q of
               None \<Rightarrow> Inl IndexError
             | Some ref \<Rightarrow> Inr (insert_at_pivot Before ref item q)))"

definition placed :: "json list option \<Rightarrow> pq \<Rightarrow> pq" where
  "placed r s = (case r of None \<Rightarrow> s | Some q \<Rightarrow> set_queue q s)"

definition placed_size :: "json list option \<Rightarrow> int" where
  "placed_size r = (case r of None \<Rightarrow> -1 | Some q \<Rightarrow> int (length q))"

lemma wp_insert_next_to_uid:
  assumes wf: "pq_wf s"
  shows "wp (insert_next_to_uid item before_uid after_uid) Q E s =
     (case place_by_uid item before_uid after_uid (queue s) (running s) (pq_uid_dict s) of
        Inl e \<Rightarrow> E e s | Inr r \<Rightarrow> Q (placed_size r) (placed r s))"
  by (auto simp: insert_next_to_uid_def place_by_uid_def pq_wp wp_uid_is_running [OF wf] Let_def
      placed_def placed_size_def add.commute split: option.splits)

lemma wp_insert_at_pos:
  assumes wf: "pq_wf s"
  shows "wp (insert_at_pos item pos) Q E s =
     (case place_at_pos item pos (queue s) of
        Inl e \<Rightarrow> E e s | Inr r \<Rightarrow> Q (placed_size r) (placed r s))"
proof -
  have "truthy j" if "index_of i (queue s) = Some j" for i j
    using pq_wf_item [OF wf index_of_mem [OF that]] by auto
  then show ?thesis
    by (auto simp: insert_at_pos_def place_at_pos_def pq_wp Let_def placed_def placed_size_def
        pos_index_def add.commute split: option.splits)
qed

lemma place_parts:
  assumes "place_by_uid item b a q r D = Inr (Some q') \<or> place_at_pos item pos q = Inr (Some q')"
  shows "\<exists>as bs. q = as @ bs \<and> q' = as @ item # bs"
proof -
  consider "q' = item # q" | "q' = q @ [item]"
    | w p where "insert_at_pivot w p item q = Some q'"
    using assms
    by (auto simp: place_by_uid_def place_at_pos_def Let_def split: if_splits option.splits)
  then show ?thesis
  proof cases
    case 1
    then have "q = [] @ q \<and> q' = [] @ item # q" by simp
    then show ?thesis by blast
  next
    case 2
    then have "q = q @ [] \<and> q' = q @ item # []" by simp
    then show ?thesis by blast
  next
    case 3
    then show ?thesis by (rule insert_at_pivot_parts)
  qed
qed

text \<open>The state after item \<open>j\<close> was added, with the queue's new content if the reference was found.\<close>

definition added :: "json \<Rightarrow> json list option \<Rightarrow> pq \<Rightarrow> pq" where
  "added j r s =
     set_sizes (placed_size r) (pq_history_size s) (pq_running_info s)
       (set_dict ((pq_uid_dict s)(the_uid j \<mapsto> j)) (bump_queue (placed r s)))"

lemma view_placed [simp]:
  "queue (placed r s) = (case r of None \<Rightarrow> queue s | Some q \<Rightarrow> q)"
  "history (placed r s) = history s" "running (placed r s) = running s"
  "pq_uid_dict (placed r s) = pq_uid_dict s" "pq_uuids (placed r s) = pq_uuids s"
  "pq_next (placed r s) = pq_next s" "pq_mode (placed r s) = pq_mode s"
  "pq_history_size (placed r s) = pq_history_size s"
  "pq_running_info (placed r s) = pq_running_info s"
  "pq_has_lock (placed r s) = pq_has_lock s" "pq_opened (placed r s) = pq_opened s"
  by (simp_all add: placed_def split: option.splits)

lemma view_added [simp]:
  "queue (added j r s) = (case r of None \<Rightarrow> queue s | Some q \<Rightarrow> q)"
  "history (added j r s) = history s" "running (added j r s) = running s"
  "pq_uid_dict (added j r s) = (pq_uid_dict s)(the_uid j \<mapsto> j)"
  "pq_uuids (added j r s) = pq_uuids s" "pq_next (added j r s) = Suc (pq_next s)"
  "pq_mode (added j r s) = pq_mode s" "pq_queue_size (added j r s) = placed_size r"
  "pq_history_size (added j r s) = pq_history_size s"
  "pq_running_info (added j r s) = pq_running_info s"
  "pq_has_lock (added j r s) = pq_has_lock s" "pq_opened (added j r s) = pq_opened s"
  by (simp_all add: added_def)

lemma pq_wf_added:
  assumes wf: "pq_wf s" and j: "good_item j" "pq_uid_dict s (the_uid j) = None"
    "unused_from (pq_uuids s) (pq_next s) (the_uid j)"
    and r: "\<And>q. r = Some q \<Longrightarrow> \<exists>as bs. queue s = as @ bs \<and> q = as @ j # bs"
  shows "pq_wf (added j r s)"
proof -
  note ok = pq_wf_queue_ok [OF wf]
  let ?q = "case r of None \<Rightarrow> queue s | Some q \<Rightarrow> q"
  have new: "the_uid j \<notin> the_uid ` set (queue s)"
    using queue_okD(3) [OF ok] j(2) by (metis imageE option.distinct(1))
  have d: "distinct (map the_uid (queue s))" by (rule queue_okD(4) [OF ok])
  have "set ?q \<subseteq> insert j (set (queue s)) \<and> distinct (map the_uid ?q)"
  proof (cases r)
    case None
    then show ?thesis using d by auto
  next
    case (Some q)
    from r [OF this] obtain as bs where "queue s = as @ bs" "q = as @ j # bs" by blast
    then show ?thesis using Some d new by auto
  qed
  then have "queue_ok ?q (history s) (running s) ((pq_uid_dict s)(the_uid j \<mapsto> j)) (pq_uuids s)
      (Suc (pq_next s))"
    using queue_ok_add [OF ok j(1,2) unused_from_mono [OF j(3)], of "Suc (pq_next s)" ?q]
    by simp
  then show ?thesis using wf by (simp add: pq_wf_def)
qed

text \<open>Where \<open>_add_item_to_queue\<close> puts an item.\<close>

definition place_item ::
    "json \<Rightarrow> json \<Rightarrow> json \<Rightarrow> json \<Rightarrow> json list \<Rightarrow> json \<Rightarrow> (json \<Rightarrow> json option) \<Rightarrow>
     py_error + json list option" where
  "place_item item pos before_uid after_uid q r D =
     (if before_uid \<noteq> JNull \<or> after_uid \<noteq> JNull then place_by_uid item before_uid after_uid q r D
      else place_at_pos item
             (clip_pos (int (length q)) (if pos \<noteq> JNull then pos else JStr ''back'')) q)"

definition prep_state :: "json \<Rightarrow> pq \<Rightarrow> pq" where
  "prep_state item s =
     (if (case item of JDict d \<Rightarrow> dhas d ''item_uid'' | _ \<Rightarrow> False) then s else use_uuid s)"

lemma view_prep_state [simp]:
  "queue (prep_state item s) = queue s" "history (prep_state item s) = history s"
  "running (prep_state item s) = running s" "pq_uid_dict (prep_state item s) = pq_uid_dict s"
  "pq_uuids (prep_state item s) = pq_uuids s" "pq_mode (prep_state item s) = pq_mode s"
  "pq_next s \<le> pq_next (prep_state item s)"
  "pq_has_lock (prep_state item s) = pq_has_lock s" "pq_opened (prep_state item s) = pq_opened s"
  by (simp_all add: prep_state_def)

lemma pq_wf_prep_state: "pq_wf s \<Longrightarrow> pq_wf (prep_state item s)"
  by (simp add: prep_state_def pq_wf_bump)

lemma prepared_unused:
  assumes "pq_wf s" "item_arg_ok (pq_uuids s) (pq_next s) item"
    "prepared item flt (pq_uid_dict s) (pq_uuids s (pq_next s)) = Inr j"
  shows "unused_from (pq_uuids s) (pq_next (prep_state item s)) (the_uid j)"
  using prepared_good(3,4) [OF assms] by (auto simp: prep_state_def split: json.splits)

lemma wp_add_item:
  assumes wf: "pq_wf s" and arg: "item_arg_ok (pq_uuids s) (pq_next s) item"
  shows "wp (add_item_to_queue_body item pos before_uid after_uid flt) Q E s =
    (if pos \<noteq> JNull \<and> (before_uid \<noteq> JNull \<or> after_uid \<noteq> JNull) \<or>
        before_uid \<noteq> JNull \<and> after_uid \<noteq> JNull then E ValueError s
     else case prepared item flt (pq_uid_dict s) (pq_uuids s (pq_next s)) of
         Inl e \<Rightarrow> E e s
       | Inr j \<Rightarrow>
           (case place_item j pos before_uid after_uid (queue s) (running s) (pq_uid_dict s) of
              Inl e \<Rightarrow> E e (prep_state item s)
            | Inr r \<Rightarrow> Q (j, placed_size r) (added j r (prep_state item s))))"
proof (cases "prepared item flt (pq_uid_dict s) (pq_uuids s (pq_next s))")
  case (Inl e)
  then show ?thesis by (auto simp: add_item_to_queue_body_def pq_wp wp_prepare_item)
next
  case (Inr j)
  note good = prepared_good(1,2) [OF wf arg Inr]
  have add: "wp (uid_dict_add j) Q' E t =
      Q' () (set_dict ((pq_uid_dict s)(the_uid j \<mapsto> j)) (bump_queue t))"
    if "pq_uid_dict t = pq_uid_dict s" for Q' t
    using good that by (simp add: uid_dict_add_def pq_wp uid_dict_put_def) (simp add: set_dict_def)
  show ?thesis
    using Inr pq_wf_prep_state [OF wf]
    by (simp add: add_item_to_queue_body_def pq_wp wp_prepare_item prep_state_def [symmetric]
        wp_insert_next_to_uid wp_insert_at_pos place_item_def add added_def split: sum.splits)
qed

lemma place_item_parts:
  assumes "place_item j pos b a q r D = Inr (Some q')"
  shows "\<exists>as bs. q = as @ bs \<and> q' = as @ j # bs"
  using assms place_parts unfolding place_item_def by (metis (no_types, lifting))

lemma pq_wf_added_item:
  assumes wf: "pq_wf s" and arg: "item_arg_ok (pq_uuids s) (pq_next s) item"
    and p: "prepared item flt (pq_uid_dict s) (pq_uuids s (pq_next s)) = Inr j"
    and r: "place_item j pos b a (queue s) (running s) (pq_uid_dict s) = Inr r"
  shows "pq_wf (added j r (prep_state item s))"
proof (rule pq_wf_added [OF pq_wf_prep_state [OF wf]])
  fix q
  assume "r = Some q"
  then show "\<exists>as bs. queue (prep_state item s) = as @ bs \<and> q = as @ j # bs"
    using place_item_parts r by simp
qed (use prepared_good(1,2) [OF wf arg p] prepared_unused [OF wf arg p] in simp_all)

lemma keep_add:
  assumes "pq_wf s" "item_arg_ok (pq_uuids s) (pq_next s) item"
  shows "wp (add_item_to_queue_body item pos b a flt) (\<lambda>(j, n) t. safe s t \<and> good_item j)
     (\<lambda>_. safe s) s"
proof -
  have "later s (prep_state item s)" by (simp add: later_def)
  moreover have "later s (added j r (prep_state item s))" for j r
    by (simp add: later_def le_SucI)
  ultimately show ?thesis
    using pq_wf_added_item [OF assms] pq_wf_prep_state [OF assms(1)] assms
      prepared_good(1) [OF assms]
    by (auto simp: wp_add_item [OF assms] safe_def split: sum.splits)
qed

section \<open>Composing steps that keep the invariant\<close>

lemma safe_refl [simp]: "safe s s \<longleftrightarrow> pq_wf s"
  by (simp add: safe_def)

lemma safe_trans: "safe s t \<Longrightarrow> safe t u \<Longrightarrow> safe s u"
  by (auto simp: safe_def intro: later_trans)

lemma safe_wf: "safe s t \<Longrightarrow> pq_wf t"
  by (simp add: safe_def)

lemma safe_sizes [simp]: "safe s (set_sizes q h r t) = safe s t"
  by (simp add: safe_def later_def)

lemma safe_bump: "safe s t \<Longrightarrow> safe s (bump_queue t)" "safe s t \<Longrightarrow> safe s (bump_history t)"
  "safe s t \<Longrightarrow> safe s (use_uuid t)" "safe s t \<Longrightarrow> safe s (use_tick t)"
  by (simp_all add: safe_def later_def pq_wf_bump le_SucI)

lemma safe_arg: "item_arg_ok (pq_uuids s) (pq_next s) item \<Longrightarrow> safe s t \<Longrightarrow>
    item_arg_ok (pq_uuids t) (pq_next t) item"
  by (simp add: safe_def later_arg)

text \<open>
  \<open>keeps s m\<close>: from every safe successor of \<open>s\<close>, program \<open>m\<close> ends in a safe successor, by
  return or by exception. The rules in \<open>keep_rules\<close> follow the structure of programs.
\<close>

definition keeps :: "pq \<Rightarrow> 'a pqm \<Rightarrow> bool" where
  "keeps s m \<longleftrightarrow> (\<forall>t. safe s t \<longrightarrow> wp m (\<lambda>_. safe s) (\<lambda>_. safe s) t)"

named_theorems keep_rules "programs that keep the invariant"

lemma keepsI: "(\<And>t. safe s t \<Longrightarrow> wp m (\<lambda>_. safe s) (\<lambda>_. safe s) t) \<Longrightarrow> keeps s m"
  by (simp add: keeps_def)

lemma keepsD: "keeps s m \<Longrightarrow> safe s t \<Longrightarrow> wp m (\<lambda>_. safe s) (\<lambda>_. safe s) t"
  by (simp add: keeps_def)

lemma keeps_start: "keeps s m \<Longrightarrow> pq_wf s \<Longrightarrow> wp m (\<lambda>_. safe s) (\<lambda>_. safe s) s"
  by (simp add: keepsD)

lemma keeps_local:
  assumes "\<And>t. safe s t \<Longrightarrow> wp m (\<lambda>x u. safe t u \<and> P x u) (\<lambda>_. safe t) t"
  shows "keeps s m"
proof (rule keepsI)
  fix t
  assume "safe s t"
  show "wp m (\<lambda>_. safe s) (\<lambda>_. safe s) t"
    by (rule wp_mono [OF assms [OF \<open>safe s t\<close>]]) (use safe_trans [OF \<open>safe s t\<close>] in auto)
qed

lemma keeps_pure:
  "keeps s (ret x)" "keeps s (raise e)" "keeps s (gets f)" "keeps s (lift r)"
  "keeps s (fail_if b e)"
  by (auto simp: keeps_def wp_rules split: sum.splits)

lemma keeps_bnd:
  assumes "keeps s m" and "\<And>x. keeps s (f x)"
  shows "keeps s (bnd m f)"
  unfolding keeps_def wp_bnd
proof (intro allI impI)
  fix t
  assume "safe s t"
  show "wp m (\<lambda>x. wp (f x) (\<lambda>_. safe s) (\<lambda>_. safe s)) (\<lambda>_. safe s) t"
    by (rule wp_mono [OF keepsD [OF assms(1) \<open>safe s t\<close>]]) (use keepsD [OF assms(2)] in auto)
qed

lemma keeps_bnd_value:
  assumes "\<And>t. safe s t \<Longrightarrow> wp m (\<lambda>x u. safe s u \<and> P x) (\<lambda>_. safe s) t"
    and "\<And>x. P x \<Longrightarrow> keeps s (f x)"
  shows "keeps s (bnd m f)"
  unfolding keeps_def wp_bnd
proof (intro allI impI)
  fix t
  assume "safe s t"
  show "wp m (\<lambda>x. wp (f x) (\<lambda>_. safe s) (\<lambda>_. safe s)) (\<lambda>_. safe s) t"
    by (rule wp_mono [OF assms(1) [OF \<open>safe s t\<close>]]) (use keepsD [OF assms(2)] in auto)
qed

lemma keeps_sq: "keeps s m \<Longrightarrow> keeps s n \<Longrightarrow> keeps s (sq m n)"
  unfolding sq_def by (rule keeps_bnd)

lemma keeps_catch:
  assumes "keeps s m" and "\<And>e. keeps s (h e)"
  shows "keeps s (catch m h)"
  unfolding keeps_def wp_catch
proof (intro allI impI)
  fix t
  assume "safe s t"
  show "wp m (\<lambda>_. safe s) (\<lambda>e. wp (h e) (\<lambda>_. safe s) (\<lambda>_. safe s)) t"
    by (rule wp_mono [OF keepsD [OF assms(1) \<open>safe s t\<close>]]) (use keepsD [OF assms(2)] in auto)
qed

lemma keeps_cond:
  "(b \<Longrightarrow> keeps s m) \<Longrightarrow> (\<not> b \<Longrightarrow> keeps s n) \<Longrightarrow> keeps s (if b then m else n)"
  "(b \<Longrightarrow> keeps s u) \<Longrightarrow> keeps s (when_do b u)"
  "(x = None \<Longrightarrow> keeps s m) \<Longrightarrow> (\<And>y. x = Some y \<Longrightarrow> keeps s (g y)) \<Longrightarrow>
   keeps s (case x of None \<Rightarrow> m | Some y \<Rightarrow> g y)"
  "(\<And>a b. p = (a, b) \<Longrightarrow> keeps s (k a b)) \<Longrightarrow> keeps s (case p of (a, b) \<Rightarrow> k a b)"
  by (auto simp: when_do_def keeps_pure split: option.splits prod.splits)

lemma keeps_mapP: "(\<And>x. x \<in> set xs \<Longrightarrow> keeps s (f x)) \<Longrightarrow> keeps s (mapP f xs)"
  unfolding keeps_def by (auto intro: wp_mapP_invariant)

lemma keeps_eachP: "(\<And>x. x \<in> set xs \<Longrightarrow> keeps s (f x)) \<Longrightarrow> keeps s (eachP f xs)"
  unfolding keeps_def by (auto intro: wp_eachP_invariant)

lemma keeps_primitives:
  "keeps s refresh_queue_size" "keeps s refresh_history_size" "keeps s refresh_running_info"
  "keeps s renew_queue_uid" "keeps s renew_history_uid" "keeps s (is_uid_in_dict uid)"
  "keeps s get_queue_body" "keeps s get_queue_size_body" "keeps s get_history_size_body"
  "keeps s get_history_body" "keeps s get_running_item_info_body" "keeps s is_item_running_body"
  "keeps s (set_new_item_uuid item)" "keeps s time_time" "keeps s (uid_dict_get_item uid)"
  by (auto simp: keeps_def pq_wp safe_bump split: option.splits json.splits)

lemma keeps_with_lock: "keeps s m \<Longrightarrow> keeps s (with_lock m)"
  by (auto simp: keeps_def pq_wp)

lemma keeps_ignore_result: "keeps s m \<Longrightarrow> keeps s (ignore_result m)"
  by (auto simp: keeps_def pq_wp)

lemma keeps_get_item: "keeps s (get_item_body pos uid)"
proof (rule keepsI)
  fix t
  assume t: "safe s t"
  show "wp (get_item_body pos uid) (\<lambda>_. safe s) (\<lambda>_. safe s) t"
    by (rule wp_mono [OF wp_get_item_reads [OF safe_wf [OF t]]]) (use t in auto)
qed

lemma keeps_pop: "keeps s (pop_item_from_queue_body pos uid)"
  by (rule keeps_local [where P = "\<lambda>_ _. True"])
    (rule wp_mono [OF keep_pop [OF safe_wf]], assumption, auto)

lemma keeps_add:
  "item_arg_ok (pq_uuids s) (pq_next s) item \<Longrightarrow> keeps s (add_item_to_queue_body item pos b a flt)"
  by (rule keeps_local [where P = "\<lambda>_ _. True"])
    (rule wp_mono [OF keep_add [OF safe_wf safe_arg]], assumption+, auto)

lemmas keep_structure [keep_rules] = keeps_pure keeps_bnd keeps_sq keeps_catch keeps_cond
  keeps_mapP keeps_eachP keeps_primitives keeps_with_lock keeps_ignore_result keeps_get_item
  keeps_pop keeps_add

lemma keeps_check_repeated [keep_rules]: "keeps s (check_repeated us)"
  unfolding check_repeated_def by (intro keep_rules)

lemma keeps_check_missing [keep_rules]: "keeps s (check_missing us)"
  unfolding check_missing_def by (intro keep_rules)

section \<open>Batches\<close>

lemma keeps_pop_uids [keep_rules]: "keeps s (pop_uids us)"
proof (induction us)
  case Nil
  show ?case unfolding pop_uids.simps by (intro keep_rules)
next
  case (Cons u us)
  show ?case unfolding pop_uids.simps by (intro keep_rules Cons.IH)
qed

lemma keeps_pop_batch [keep_rules]: "keeps s (pop_item_from_queue_batch_body uids im)"
  unfolding pop_item_from_queue_batch_body_def by (intro keep_rules)

lemma keeps_add_batch_loop:
  assumes "\<forall>item \<in> set items. item_arg_ok (pq_uuids s) (pq_next s) item"
  shows "keeps s (add_batch_loop pos b a flt us items)"
  using assms
proof (induction items arbitrary: us)
  case Nil
  show ?case unfolding add_batch_loop.simps by (intro keep_rules)
next
  case (Cons item items)
  have arg: "item_arg_ok (pq_uuids s) (pq_next s) item" using Cons.prems by simp
  have rest: "keeps s (add_batch_loop pos b a flt vs items)" for vs
    using Cons by simp
  show ?case unfolding add_batch_loop.simps by (intro keep_rules arg rest)
qed

lemma keeps_undo [keep_rules]: "keeps s (undo_added us)"
  unfolding undo_added_def by (intro keep_rules)

lemma keeps_add_batch [keep_rules]:
  "\<forall>item \<in> set items. item_arg_ok (pq_uuids s) (pq_next s) item \<Longrightarrow>
   keeps s (add_batch_to_queue_body items pos b a flt)"
  unfolding add_batch_to_queue_body_def Let_def by (intro keep_rules keeps_add_batch_loop)

end
