(* ===== verification/PlanQueueKeep2.thy ===== *)
theory PlanQueueKeep2
  imports PlanQueueKeep
begin

text \<open>
  Replacement, moves, clearing, history and the execution cycle of the plan queue keep the
  invariant; so does every public operation.
\<close>

section \<open>Replacing\<close>

definition swapped :: "json \<Rightarrow> json \<Rightarrow> json list \<Rightarrow> pq \<Rightarrow> pq" where
  "swapped old item q s =
     set_sizes (int (length q)) (pq_history_size s) (pq_running_info s)
       (set_dict ((pq_uid_dict s)(the_uid old := None, the_uid item \<mapsto> item))
         (bump_queue (bump_queue (set_queue q s))))"

lemma view_swapped [simp]:
  "queue (swapped old item q s) = q" "history (swapped old item q s) = history s"
  "running (swapped old item q s) = running s"
  "pq_uid_dict (swapped old item q s) = (pq_uid_dict s)(the_uid old := None, the_uid item \<mapsto> item)"
  "pq_uuids (swapped old item q s) = pq_uuids s"
  "pq_next (swapped old item q s) = Suc (Suc (pq_next s))"
  "pq_mode (swapped old item q s) = pq_mode s"
  "pq_queue_size (swapped old item q s) = int (length q)"
  "pq_history_size (swapped old item q s) = pq_history_size s"
  "pq_running_info (swapped old item q s) = pq_running_info s"
  "pq_has_lock (swapped old item q s) = pq_has_lock s" "pq_opened (swapped old item q s) = pq_opened s"
  by (simp_all add: swapped_def)

text \<open>
  The exchange succeeds exactly when the old item is stored and the new one differs from it;
  otherwise every copy of the old item is removed and the call raises.
\<close>

lemma wp_swap_item:
  assumes wf: "pq_wf s" and old: "pq_uid_dict s (py_key uid) = Some old" "hashable uid"
    and f: "good_item f" "the_uid f = py_key uid \<or> pq_uid_dict s (the_uid f) = None"
  shows "wp (swap_item old f uid) Q E s =
    (if old \<notin> set (queue s) then
       E RuntimeError (set_sizes (int (length (queue s))) (pq_history_size s) (pq_running_info s)
                         (set_queue (queue s) s))
     else if f = old then
       E RuntimeError
         (let q = filter (\<lambda>x. x \<noteq> old) (queue s) in
          set_sizes (int (length q)) (pq_history_size s) (pq_running_info s) (set_queue q s))
     else let q = map (\<lambda>x. if x = old then f else x) (queue s)
          in Q (f, int (length q)) (swapped old f q s))"
proof (cases "old \<in> set (queue s)")
  case False
  then show ?thesis
    by (simp add: swap_item_def pq_wp wp_remove_item_body insert_at_pivot_None [THEN iffD2] Let_def)
next
  case True
  then obtain as bs where q: "queue s = as @ old # bs" "old \<notin> set as" by (meson split_list_first)
  have d: "distinct (queue s)"
    by (rule distinct_uid_list [OF queue_okD(4) [OF pq_wf_queue_ok [OF wf]]])
  then have nin: "old \<notin> set bs" using q by auto
  have ins: "insert_at_pivot After old f (queue s) = Some (as @ old # f # bs)"
    using q by (simp add: insert_at_pivot_split)
  have mp: "map (\<lambda>x. if x = old then f else x) xs = xs" if "old \<notin> set xs" for xs
    using that by (induction xs) auto
  have uold: "the_uid old = py_key uid" using pq_wf_dict [OF wf old(1)] by simp
  show ?thesis
  proof (cases "f = old")
    case True
    then show ?thesis using ins q nin \<open>old \<in> set (queue s)\<close>
      by (simp add: swap_item_def pq_wp wp_remove_item_body Let_def)
        (simp add: set_queue_def set_list_def name_defs)?
  next
    case False
    have free: "((pq_uid_dict s)(py_key uid := None)) (the_uid f) = None"
      using f(2) by auto
    have add: "wp (uid_dict_add f) Q' E t =
        Q' () (set_dict ((pq_uid_dict t)(the_uid f \<mapsto> f)) (bump_queue t))"
      if "pq_uid_dict t = (pq_uid_dict s)(py_key uid := None)" for Q' t
      using f(1) free that
      by (simp add: uid_dict_add_def pq_wp uid_dict_put_def) (simp add: set_dict_def)
    show ?thesis using ins q nin False old uold \<open>old \<in> set (queue s)\<close>
      by (simp add: swap_item_def pq_wp wp_remove_item_body Let_def add mp swapped_def)
  qed
qed

lemma pq_wf_swapped:
  assumes wf: "pq_wf s" and old: "old \<in> set (queue s)"
    and f: "good_item f" "the_uid f = the_uid old \<or> pq_uid_dict s (the_uid f) = None"
    and u: "unused_from (pq_uuids s) (pq_next s) (the_uid f)"
  shows "pq_wf (swapped old f (map (\<lambda>x. if x = old then f else x) (queue s)) s)"
proof -
  let ?left = "filter (\<lambda>x. x \<noteq> old) (queue s)"
  let ?q = "map (\<lambda>x. if x = old then f else x) (queue s)"
  let ?D = "(pq_uid_dict s)(the_uid old := None)"
  note ok = pq_wf_queue_ok [OF wf]
  note rem = queue_remove_one [OF ok old]
  have res: "reserved (running s) \<Longrightarrow> the_uid (running s) \<noteq> the_uid old"
    using queue_okD(8) [OF ok] old by auto
  have ok0: "queue_ok ?left (history s) (running s) ?D (pq_uuids s) (pq_next s)"
    by (rule queue_ok_forget [OF queue_ok_subset [OF ok _ rem(3) order_refl] rem(2) res order_refl]) auto
  have free: "?D (the_uid f) = None" using f(2) by auto
  have new: "the_uid f \<notin> the_uid ` set ?left"
    using queue_okD(3) [OF ok0] free by fastforce
  obtain as bs where q: "queue s = as @ old # bs" using old by (meson split_list)
  have d: "distinct (map the_uid (queue s))" by (rule queue_okD(4) [OF ok])
  then have nin: "old \<notin> set as" "old \<notin> set bs" using q by auto
  have mp: "map (\<lambda>x. if x = old then f else x) xs = xs" if "old \<notin> set xs" for xs
    using that by (induction xs) auto
  have "?left = as @ bs" "?q = as @ f # bs" using q nin by (simp_all add: mp)
  then have "distinct (map the_uid ?q)" "set ?q \<subseteq> insert f (set ?left)"
    using rem(3) [of "\<lambda>x. x \<noteq> old"] new by auto
  then have "queue_ok ?q (history s) (running s) (?D(the_uid f \<mapsto> f)) (pq_uuids s)
      (Suc (Suc (pq_next s)))"
    using queue_ok_add [where D = ?D, OF ok0 f(1) _ unused_from_mono [OF u]] free by fastforce
  then show ?thesis using wf by (simp add: pq_wf_def)
qed

lemma safe_removed:
  assumes "safe s t"
  shows "safe s (set_queue (filter P (queue t)) t)"
proof -
  note ok = pq_wf_queue_ok [OF safe_wf [OF assms]]
  have "queue_ok (filter P (queue t)) (history t) (running t) (pq_uid_dict t) (pq_uuids t) (pq_next t)"
    using queue_ok_subset [OF ok, of "filter P (queue t)"] queue_okD(4) [OF ok]
    by (simp add: distinct_map_filter)
  then show ?thesis using assms by (simp add: safe_def later_def pq_wf_def)
qed

lemma safe_same_queue: "safe s t \<Longrightarrow> safe s (set_queue (queue t) t)"
  using safe_removed [of s t "\<lambda>_. True"] by simp

lemma keep_swap:
  assumes t: "safe s t"
    and old: "pq_uid_dict t (py_key uid) = Some old" "hashable uid"
    and f: "good_item f" "the_uid f = py_key uid \<or> pq_uid_dict t (the_uid f) = None"
    and u: "unused_from (pq_uuids t) (pq_next t) (the_uid f)"
  shows "wp (swap_item old f uid) (\<lambda>_. safe s) (\<lambda>_. safe s) t"
proof -
  have "the_uid old = py_key uid" using pq_wf_dict [OF safe_wf [OF t] old(1)] by simp
  then have "safe s (swapped old f (map (\<lambda>x. if x = old then f else x) (queue t)) t)"
    if "old \<in> set (queue t)"
    using pq_wf_swapped [OF safe_wf [OF t] that f(1) _ u] f(2) t
    by (auto simp: safe_def later_def)
  then show ?thesis
    using t by (simp add: wp_swap_item [OF safe_wf [OF t] old f] Let_def safe_removed safe_same_queue)
qed

lemma keep_replace_dict:
  assumes t: "safe s t" and d: "good_item (JDict d)"
    and u: "the_uid (JDict d) = py_key uid \<or> unused_from (pq_uuids t) (pq_next t) (the_uid (JDict d))"
    and old: "pq_uid_dict t (py_key uid) = Some old" "hashable uid"
  shows "wp (sq (verify_item (JDict d) [uid])
               (bnd (lift (filter_item_parameters (JDict d))) (\<lambda>item. swap_item old item uid)))
           (\<lambda>_. safe s) (\<lambda>_. safe s) t"
proof -
  obtain v where v: "dget d ''item_uid'' = Some v" "hashable v" "the_uid (JDict d) = py_key v"
    using d by (auto elim!: good_itemE)
  note fl = good_item_filtered [OF d]
  have un: "unused_from (pq_uuids t) (pq_next t) (the_uid (JDict d))"
    using u queue_okD(11) [OF pq_wf_queue_ok [OF safe_wf [OF t]] old(1)] by auto
  have "wp (swap_item old (JDict (filtered d)) uid) (\<lambda>_. safe s) (\<lambda>_. safe s) t"
    if "py_in v [uid] \<or> pq_uid_dict t (py_key v) = None"
    using keep_swap [OF t old fl(1)] that un v fl(2) old(2) by (auto simp: py_in_def py_eq_key)
  then show ?thesis using v t by (simp add: wp_rules wp_verify_item)
qed

lemma keeps_replace [keep_rules]:
  assumes "item_arg_ok (pq_uuids s) (pq_next s) item"
  shows "keeps s (replace_item_body item uid)"
proof (rule keepsI)
  fix t
  assume t: "safe s t"
  note arg = safe_arg [OF assms t]
  note t' = safe_bump(3) [OF t]
  have run: "truthy (running t) \<Longrightarrow> good_item (running t)"
    using good_running_cases [OF pq_wf_running [OF safe_wf [OF t]]] by blast
  show "wp (replace_item_body item uid) (\<lambda>_. safe s) (\<lambda>_. safe s) t"
  proof (cases item)
    case (JDict d)
    show ?thesis
    proof (cases "dget d ''item_uid''")
      case None
      let ?d = "dset ''item_uid'' (JStr (pq_uuids t (pq_next t))) d"
      have g: "good_item (JDict ?d)" "the_uid (JDict ?d) = JStr (pq_uuids t (pq_next t))"
        using good_item_fresh [of d] arg by (auto simp: JDict item_arg_ok_def)
      have un: "unused_from (pq_uuids (use_uuid t)) (pq_next (use_uuid t)) (the_uid (JDict ?d))"
        using unused_from_used [OF pq_wf_inj [OF safe_wf [OF t]], of "pq_next t"] g by simp
      note step = keep_replace_dict [OF t' g(1) disjI2 [OF un]]
      show ?thesis
        using JDict None run step t t'
        by (simp add: replace_item_body_def wp_rules wp_get_running_item_info_body wp_is_uid_in_dict
            wp_set_new_item_uuid wp_uid_dict_get_item wp_get_queue_size_body split: option.splits)
    next
      case (Some v)
      have step: "wp (sq (verify_item (JDict d) [uid])
               (bnd (lift (filter_item_parameters (JDict d))) (\<lambda>item. swap_item old item uid)))
           (\<lambda>_. safe s) (\<lambda>_. safe s) t"
        if "pq_uid_dict t (py_key uid) = Some old" "hashable uid" for old
      proof (cases "hashable v")
        case True
        then have "good_item (JDict d)" "the_uid (JDict d) = py_key v"
          using arg Some
          by (auto simp: JDict item_arg_ok_def good_item_def the_uid_def raw_uid_def
              simp del: py_key_raw)
        then show ?thesis
          using keep_replace_dict [OF t _ _ that] arg Some by (auto simp: JDict item_arg_ok_def)
      next
        case False
        then have "\<not> py_in v [uid]" using that(2) by (auto simp: py_in_def py_eq_key2)
            (metis hashable_py_key)
        then show ?thesis using False Some t by (simp add: wp_rules wp_verify_item)
      qed
      show ?thesis
        using JDict Some run step t
        by (simp add: replace_item_body_def wp_rules wp_get_running_item_info_body wp_is_uid_in_dict
            wp_uid_dict_get_item wp_get_queue_size_body split: option.splits)
    qed
  qed (use run t in \<open>auto simp: replace_item_body_def pq_wp py_contains_def wp_verify_item_other
         split: option.splits\<close>)
qed

section \<open>Moving and clearing\<close>

lemma good_item_arg: "good_item j \<Longrightarrow> unused_from us n (the_uid j) \<Longrightarrow> item_arg_ok us n j"
  by (erule good_itemE) (simp add: item_arg_ok_def)

lemma queue_item_unused:
  assumes "pq_wf s" and "j \<in> set (queue s)"
  shows "unused_from (pq_uuids s) (pq_next s) (the_uid j)"
  using pq_wf_item [OF assms] queue_okD(11) [OF pq_wf_queue_ok [OF assms(1)]] by blast

lemma keeps_reinsert [keep_rules]: "keeps s (reinsert_item uid b a)"
proof (rule keepsI)
  fix t
  assume t: "safe s t"
  have add: "wp (add_item_to_queue_body j JNull b a False) (\<lambda>_. safe s) (\<lambda>_. safe s) u"
    if "safe t u" "j \<in> set (queue t)" for j u
  proof -
    have "item_arg_ok (pq_uuids t) (pq_next t) j"
      using pq_wf_item [OF safe_wf [OF t] that(2)] queue_item_unused [OF safe_wf [OF t] that(2)]
      by (auto intro: good_item_arg)
    from keeps_add [OF this] that(1)
    have "wp (add_item_to_queue_body j JNull b a False) (\<lambda>_. safe t) (\<lambda>_. safe t) u"
      by (rule keepsD)
    then show ?thesis by (rule wp_mono) (use safe_trans [OF t] in auto)
  qed
  show "wp (reinsert_item uid b a) (\<lambda>_. safe s) (\<lambda>_. safe s) t"
    unfolding reinsert_item_def wp_bnd wp_case_prod
    by (rule wp_mono [OF keep_pop [OF safe_wf [OF t]]])
      (use add safe_trans [OF t] in \<open>auto split: prod.splits\<close>)
qed

lemma keeps_get_index [keep_rules]: "keeps s (get_index_by_uid uid)"
  unfolding get_index_by_uid_def by (intro keep_rules)

lemma keeps_get_index_batch [keep_rules]: "keeps s (get_index_by_uid_batch us)"
  unfolding get_index_by_uid_batch_def by (intro keep_rules)

lemma keeps_set_queue_size [keep_rules]: "keeps s (upd (\<lambda>t. t\<lparr>pq_queue_size := n\<rparr>))"
  by (simp add: keeps_def wp_rules)

lemma keeps_move_item [keep_rules]: "keeps s (move_item_body pos uid pd b a)"
  unfolding move_item_body_def move_destination_def to_index_error_def Let_def
  by (intro keep_rules)

lemma keeps_move_uids [keep_rules]: "keeps s (move_uids pd b a l us)"
proof (induction us arbitrary: l)
  case Nil
  show ?case unfolding move_uids.simps by (intro keep_rules)
next
  case (Cons u us)
  show ?case unfolding move_uids.simps by (intro keep_rules Cons.IH)
qed

lemma keeps_move_batch [keep_rules]: "keeps s (move_batch_body uids pd b a r)"
  unfolding move_batch_body_def Let_def by (intro keep_rules)

text \<open>After clearing, only the running item is registered, if it was.\<close>

lemma keeps_clear_queue [keep_rules]: "keeps s clear_queue_body"
proof (rule keepsI)
  fix t
  assume t: "safe s t"
  note wf = safe_wf [OF t]
  note ok = pq_wf_queue_ok [OF wf]
  let ?t = "\<lambda>D. set_dict D (bump_queue (drop_key (name_plan_queue t) (bump_queue t)))"
  have wf1: "pq_wf (?t D)"
    if "reserved (running t) \<Longrightarrow> D (the_uid (running t)) \<noteq> None"
      "\<And>u j. D u = Some j \<Longrightarrow> pq_uid_dict t u = Some j" for D
    using queue_ok_clear [where D' = D, OF ok that(2) that(1), of "Suc (Suc (pq_next t))"] wf
    by (simp add: pq_wf_def)
  have wf0: "pq_wf (drop_key (name_plan_queue t) (bump_queue t))"
    using queue_ok_clear [where D' = "pq_uid_dict t", OF ok _ queue_okD(7) [OF ok],
        of "Suc (pq_next t)"] wf
    by (simp add: pq_wf_def)
  show "wp clear_queue_body (\<lambda>_. safe s) (\<lambda>_. safe s) t"
  proof (cases "truthy (running t)")
    case False
    then have "running t = JDict []" using good_running_falsy [OF pq_wf_running [OF wf]] by simp
    then have "pq_wf (?t (\<lambda>_. None))" by (intro wf1) (auto simp: reserved_def)
    then show ?thesis using False t by (simp add: clear_queue_body_def pq_wp safe_def later_def)
  next
    case True
    then have g: "good_item (running t)" using good_running_cases pq_wf_running [OF wf] by blast
    show ?thesis
    proof (cases "pq_uid_dict t (the_uid (running t))")
      case None
      then show ?thesis using True g wf0 t
        by (simp add: clear_queue_body_def pq_wp safe_def later_def)
    next
      case (Some j)
      have j: "good_item j" "the_uid j = the_uid (running t)"
        using pq_wf_dict [OF wf Some] by auto
      have "pq_wf (?t [the_uid j \<mapsto> j])"
        by (intro wf1) (use Some j in \<open>auto split: if_splits\<close>)
      then have "pq_wf (set_dict [the_uid j \<mapsto> j]
          (bump_queue (bump_queue (drop_key (name_plan_queue t) (bump_queue t)))))"
        using pq_wf_bump(1) by fastforce
      then show ?thesis using True g Some j t
        by (simp add: clear_queue_body_def pq_wp uid_dict_add_def uid_dict_put_def
            set_dict_def [symmetric] safe_def later_def)
    qed
  qed
qed

end
