(* ===== verification/PlanQueueCycle.thy ===== *)
theory PlanQueueCycle
  imports PlanQueueKeep2
begin

text \<open>
  The execution cycle of the plan queue keeps the invariant: starting a plan, completing it,
  stopping it, processing instructions; the history operations, the queue mode and start-up.
\<close>

section \<open>Edits of the nested dictionaries\<close>

definition sub_dict :: "dict \<Rightarrow> string \<Rightarrow> dict" where
  "sub_dict d k = (case dget d k of Some (JDict p) \<Rightarrow> p | _ \<Rightarrow> [])"

lemma props_of_sub: "props_of (JDict d) = sub_dict d ''properties''"
  by (simp add: props_of_def sub_dict_def)

lemma dict_field_cases:
  assumes "dict_field d k"
  obtains "dget d k = None" "sub_dict d k = []"
    | p where "dget d k = Some (JDict p)" "sub_dict d k = p"
  using assms by (auto simp: dict_field_def sub_dict_def split: option.splits elim: is_dict.elims)

text \<open>An item with a new dictionary under \<open>properties\<close> or \<open>result\<close> stays well formed.\<close>

lemma good_item_put:
  assumes "good_item (JDict d)" and "k = ''properties'' \<or> k = ''result''"
  shows "good_item (JDict (dset k (JDict p) d))" and "the_uid (JDict (dset k (JDict p) d)) = the_uid (JDict d)"
    and "raw_uid (JDict (dset k (JDict p) d)) = raw_uid (JDict d)"
  using assms
  by (auto simp: good_item_def the_uid_def raw_uid_def dict_simps dict_field_dset
      simp del: py_key_raw split: option.splits)

lemma good_item_drop:
  assumes "good_item (JDict d)" and "k = ''properties'' \<or> k = ''result''"
  shows "good_item (JDict (ddel k d))" and "the_uid (JDict (ddel k d)) = the_uid (JDict d)"
    and "raw_uid (JDict (ddel k d)) = raw_uid (JDict d)"
  using assms
  by (auto simp: good_item_def the_uid_def raw_uid_def dict_simps dict_field_def
      simp del: py_key_raw split: option.splits)

lemma set_sub_dict:
  assumes "dget d k = Some (JDict p)"
  shows "set_sub (JDict d) k k2 v = Inr (JDict (dset k (JDict (dset k2 v p)) d))"
  using assms by (simp add: set_sub_def)

lemma dset_dset [simp]: "dset k v (dset k w d) = dset k v d"
  by (induction k w d rule: dset.induct) auto

text \<open>Setting a property: the item with the extended dictionary.\<close>

definition with_property :: "string \<Rightarrow> json \<Rightarrow> json \<Rightarrow> json" where
  "with_property k v item = (case item of
     JDict d \<Rightarrow> JDict (dset ''properties'' (JDict (dset k v (sub_dict d ''properties''))) d)
   | _ \<Rightarrow> item)"

lemma set_property_good:
  assumes "good_item j"
  shows "set_property k v j = Inr (with_property k v j)" and "good_item (with_property k v j)"
    and "the_uid (with_property k v j) = the_uid j"
    and "props_of (with_property k v j) = dset k v (props_of j)"
proof -
  obtain d where d: "j = JDict d" "dict_field d ''properties''" using assms by (auto elim!: good_itemE)
  show "set_property k v j = Inr (with_property k v j)"
    using d(2)
    by (rule dict_field_cases)
      (auto simp: d(1) set_property_def setdefault_dict_def with_property_def set_sub_dict dict_simps)
  show "good_item (with_property k v j)" "the_uid (with_property k v j) = the_uid j"
    using assms good_item_put [of d] by (auto simp: d(1) with_property_def)
  show "props_of (with_property k v j) = dset k v (props_of j)"
    by (simp add: d(1) with_property_def props_of_sub sub_dict_def dict_simps)
qed

definition cleaned :: "json \<Rightarrow> json" where
  "cleaned item = (case item of
     JDict d \<Rightarrow>
       if dhas d ''properties'' then
         (let p = ddel ''time_start'' (ddel ''immediate_execution'' (sub_dict d ''properties''))
          in if p \<noteq> [] then JDict (dset ''properties'' (JDict p) d) else JDict (ddel ''properties'' d))
       else item
   | _ \<Rightarrow> item)"

lemma ddel_absent [simp]: "\<not> dhas d k \<Longrightarrow> ddel k d = d"
  by (induction d) (auto simp: ddel_def split: if_splits)

lemma del_if_present_dict [simp]: "del_if_present k (JDict p) = Inr (JDict (ddel k p))"
  by (simp add: del_if_present_def)

lemma clean_item_good:
  assumes "good_item j"
  shows "clean_item_properties j = Inr (cleaned j)" and "good_item (cleaned j)"
    and "the_uid (cleaned j) = the_uid j" and "raw_uid (cleaned j) = raw_uid j"
    and "is_immediate (cleaned j) = False"
proof -
  obtain d where d: "j = JDict d" "dict_field d ''properties''" using assms by (auto elim!: good_itemE)
  from d(2) show "clean_item_properties j = Inr (cleaned j)"
    by (rule dict_field_cases)
      (simp_all add: d(1) clean_item_properties_def cleaned_def Let_def)
  show "good_item (cleaned j)" "the_uid (cleaned j) = the_uid j" "raw_uid (cleaned j) = raw_uid j"
    using assms good_item_put [of d] good_item_drop [of d] by (auto simp: d(1) cleaned_def Let_def)
  show "is_immediate (cleaned j) = False"
    by (auto simp: d(1) cleaned_def is_immediate_def props_of_sub sub_dict_def Let_def dict_simps)
qed

text \<open>The \<open>result\<close> of a finished item.\<close>

definition with_result ::
    "json \<Rightarrow> json \<Rightarrow> json \<Rightarrow> json \<Rightarrow> json \<Rightarrow> json \<Rightarrow> json \<Rightarrow> rat \<Rightarrow> json" where
  "with_result item time_start exit_status run_uids scan_ids err_msg err_tb t = (case item of
     JDict d \<Rightarrow>
       JDict (dset ''result'' (JDict
         (dset ''traceback'' err_tb (dset ''msg'' err_msg (dset ''time_stop'' (JFloat t)
         (dset ''time_start'' time_start (dset ''scan_ids'' scan_ids (dset ''run_uids'' run_uids
         (dset ''exit_status'' exit_status (sub_dict d ''result'')))))))))
         d)
   | _ \<Rightarrow> item)"

lemma set_subs_dict:
  "dget d k = Some (JDict p) \<Longrightarrow>
   set_subs (JDict d) k kvs = Inr (JDict (if kvs = [] then d else dset k (JDict (dupdate p kvs)) d))"
proof (induction kvs arbitrary: d p)
  case Nil
  then show ?case by (simp add: set_subs_def)
next
  case (Cons kv kvs)
  obtain k2 v where kv: "kv = (k2, v)" by (cases kv)
  let ?d = "dset k (JDict (dset k2 v p)) d"
  have "set_subs (JDict d) k (kv # kvs) = set_subs (JDict ?d) k kvs"
    using Cons.prems by (simp add: set_subs_def kv set_sub_dict)
  also have "\<dots> = Inr (JDict (if kvs = [] then ?d else dset k (JDict (dupdate (dset k2 v p) kvs)) ?d))"
    by (rule Cons.IH) (simp add: dict_simps)
  finally show ?case by (simp add: dupdate_def kv)
qed

lemma wp_add_result:
  assumes "good_item j"
  shows "wp (add_result j ts es ru si em et) Q E s =
     Q (with_result j ts es ru si em et (pq_clock s (pq_tick s))) (use_tick s)"
proof -
  obtain d where d: "j = JDict d" "dict_field d ''result''" using assms by (auto elim!: good_itemE)
  have sd: "setdefault_dict j ''result'' = Inr (JDict (dset ''result'' (JDict (sub_dict d ''result'')) d))"
    if "dget d ''result'' = None"
    using that by (simp add: d(1) setdefault_dict_def sub_dict_def)
  from d(2) show ?thesis
  proof (rule dict_field_cases)
    assume n: "dget d ''result'' = None" "sub_dict d ''result'' = []"
    then show ?thesis
      by (simp add: add_result_def wp_rules wp_time_time sd [unfolded d(1)]
          set_subs_dict [where p = "[]"]
          set_subs_dict dict_simps dupdate_def with_result_def d(1))
  next
    fix p
    assume p: "dget d ''result'' = Some (JDict p)" "sub_dict d ''result'' = p"
    then have "setdefault_dict j ''result'' = Inr (JDict d)"
      by (simp add: d(1) setdefault_dict_def)
    then show ?thesis using p
      by (simp add: add_result_def wp_rules wp_time_time set_subs_dict [where p = p]
          set_subs_dict dict_simps dupdate_def with_result_def d(1))
  qed
qed

lemma with_result_good:
  assumes "good_item j"
  shows "good_item (with_result j ts es ru si em et t)"
    and "the_uid (with_result j ts es ru si em et t) = the_uid j"
proof -
  obtain d where "j = JDict d" using assms by (auto elim!: good_itemE)
  then show "good_item (with_result j ts es ru si em et t)"
    "the_uid (with_result j ts es ru si em et t) = the_uid j"
    using assms good_item_put [of d "''result''"] by (simp_all add: with_result_def)
qed

section \<open>Starting a plan\<close>

definition item_type_of :: "json \<Rightarrow> json option" where
  "item_type_of j = (case j of JDict d \<Rightarrow> dget d ''item_type'' | _ \<Rightarrow> None)"

text \<open>The plan as it is recorded when it starts, and the state then.\<close>

definition timed :: "json \<Rightarrow> pq \<Rightarrow> json" where
  "timed j s = with_property ''time_start'' (JFloat (pq_clock s (pq_tick s))) j"

definition started :: "json \<Rightarrow> pq \<Rightarrow> pq" where
  "started r s =
     bump_queue (set_sizes (pq_queue_size s) (pq_history_size s) r (set_running r (use_tick s)))"

lemma view_started [simp]:
  "queue (started r s) = queue s" "history (started r s) = history s"
  "running (started r s) = r" "pq_uid_dict (started r s) = pq_uid_dict s"
  "pq_uuids (started r s) = pq_uuids s" "pq_next (started r s) = Suc (pq_next s)"
  "pq_mode (started r s) = pq_mode s" "pq_running_info (started r s) = r"
  "pq_queue_size (started r s) = pq_queue_size s"
  "pq_history_size (started r s) = pq_history_size s"
  "pq_has_lock (started r s) = pq_has_lock s" "pq_opened (started r s) = pq_opened s"
  by (simp_all add: started_def)

lemma wp_start_plan:
  assumes wf: "pq_wf s" and j: "imm \<Longrightarrow> good_item j"
  shows "wp (start_plan imm j) Q E s =
    (if running s \<noteq> JDict [] then E BareException s
     else case (if imm then Some (j, queue s)
                else (case queue s of [] \<Rightarrow> None | x # xs \<Rightarrow> Some (x, xs))) of
         None \<Rightarrow> E IndexError s
       | Some (x, xs) \<Rightarrow>
           (case item_type_of x of
              None \<Rightarrow> E BareException s
            | Some ty \<Rightarrow>
                if \<not> py_eq ty (JStr ''plan'') then E RuntimeError s
                else Q (timed x s) (started (timed x s) (if imm then s else set_queue xs s))))"
proof (cases "running s = JDict []")
  case False
  then have "truthy (running s)" using good_running_falsy [OF pq_wf_running [OF wf]] by simp
  then show ?thesis using False by (simp add: start_plan_def pq_wp)
next
  case True
  have main: "wp (bnd (lift (py_contains ''item_type'' x)) (\<lambda>has.
       sq (fail_if (\<not> has) BareException)
      (bnd (lift (py_getitem x ''item_type'')) (\<lambda>item_type.
       sq (fail_if (\<not> py_eq item_type (JStr ''plan'')) RuntimeError)
      (sq (when_do (\<not> imm) (bnd (st (\<lambda>s. store_pop_front (name_plan_queue s))) (\<lambda>_. ret ())))
      (bnd time_time (\<lambda>t.
       bnd (lift (set_property ''time_start'' (JFloat t) x)) (\<lambda>plan.
       sq (set_running_item_info plan) (sq renew_queue_uid (ret plan)))))))))) Q E s =
     (case item_type_of x of
        None \<Rightarrow> E BareException s
      | Some ty \<Rightarrow>
          if \<not> py_eq ty (JStr ''plan'') then E RuntimeError s
          else Q (timed x s) (started (timed x s) (if imm then s else set_queue xs s)))"
    if x: "good_item x" "imm \<or> queue s = x # xs" for x xs
  proof -
    obtain d where d: "x = JDict d" using x(1) by (auto elim!: good_itemE)
    have sp: "set_property k v x = Inr (with_property k v x)" for k v
      by (rule set_property_good(1) [OF x(1)])
    show ?thesis using x(2) sp
      by (cases imm)
        (auto simp: d pq_wp item_type_of_def timed_def started_def split: option.splits)
  qed
  show ?thesis
  proof (cases imm)
    case True
    then show ?thesis using main [of j] j \<open>running s = JDict []\<close>
      by (simp add: start_plan_def wp_is_item_running_body wp_rules del: wp_lift)
  next
    case False
    show ?thesis
    proof (cases "queue s")
      case Nil
      then show ?thesis using False True
        by (simp add: start_plan_def pq_wp pos_index_def)
    next
      case (Cons x xs)
      have x: "good_item x" using pq_wf_item [OF wf, of x] Cons by simp
      show ?thesis using main [OF x] x Cons True False
        by (simp add: start_plan_def pq_wp pos_index_def)
    qed
  qed
qed

lemma timed_good:
  assumes "good_item j"
  shows "good_item (timed j s)" and "the_uid (timed j s) = the_uid j" and "good_running (timed j s)"
    and "is_immediate (timed j s) = is_immediate j"
proof -
  note g = set_property_good [OF assms, of "''time_start''" "JFloat (pq_clock s (pq_tick s))"]
  show "good_item (timed j s)" "the_uid (timed j s) = the_uid j"
    using g by (simp_all add: timed_def)
  show "good_running (timed j s)"
    using g by (simp add: timed_def good_running_def dict_simps)
  show "is_immediate (timed j s) = is_immediate j"
    using g by (simp add: timed_def is_immediate_def dict_simps)
qed

lemma pq_wf_started_queue:
  assumes wf: "pq_wf s" and q: "queue s = j # xs"
  shows "pq_wf (started (timed j s) (set_queue xs s))"
proof -
  note ok = pq_wf_queue_ok [OF wf]
  have j: "good_item j" "pq_uid_dict s (the_uid j) = Some j" using pq_wf_item [OF wf, of j] q by auto
  have d: "distinct (map the_uid (j # xs))" using queue_okD(4) [OF ok] q by simp
  have ok1: "queue_ok xs (history s) (running s) (pq_uid_dict s) (pq_uuids s) (Suc (pq_next s))"
    by (rule queue_ok_subset [OF ok]) (use q d in auto)
  have "queue_ok xs (history s) (timed j s) (pq_uid_dict s) (pq_uuids s) (Suc (pq_next s))"
    by (rule queue_ok_running [OF ok1])
      (use timed_good [OF j(1), of s] j d queue_okD(11) [OF ok1] in auto)
  then show ?thesis using wf by (simp add: pq_wf_def)
qed

lemma pq_wf_started_immediate:
  assumes wf: "pq_wf s" and j: "good_item j" "is_immediate j"
    and u: "unused_from (pq_uuids s) (pq_next s) (the_uid j)"
  shows "pq_wf (started (timed j s) s)"
proof -
  have "queue_ok (queue s) (history s) (timed j s) (pq_uid_dict s) (pq_uuids s) (Suc (pq_next s))"
    by (rule queue_ok_running [OF pq_wf_queue_ok [OF wf]])
      (use timed_good [OF j(1), of s] j unused_from_mono [OF u, of "Suc (pq_next s)"]
       in \<open>auto simp: reserved_def\<close>)
  then show ?thesis using wf by (simp add: pq_wf_def)
qed

lemma later_started: "later s t \<Longrightarrow> later s (started r t)"
  by (simp add: later_def le_SucI)

lemma keep_start_plan:
  assumes t: "safe s t" and "imm \<Longrightarrow> good_item j \<and> is_immediate j \<and>
      unused_from (pq_uuids t) (pq_next t) (the_uid j)"
  shows "wp (start_plan imm j) (\<lambda>_. safe s) (\<lambda>_. safe s) t"
proof -
  note wf = safe_wf [OF t]
  have l: "later s (started r t)" "later s (started r (set_queue xs t))" for r xs
    using t by (simp_all add: safe_def later_def le_SucI)
  show ?thesis
    using assms(2) t l pq_wf_started_queue [OF wf] pq_wf_started_immediate [OF wf]
    by (cases imm) (auto simp: wp_start_plan [OF wf] safe_def split: option.splits list.splits)
qed

lemma keeps_refresh [keep_rules]: "keeps s refresh_running" "keeps s refresh_all"
  unfolding refresh_running_def refresh_all_def by (intro keep_rules)+

lemma immediate_flag:
  assumes "good_item j"
  shows "is_immediate (with_property ''immediate_execution'' (JBool True) j)"
  using set_property_good(4) [OF assms] by (simp add: is_immediate_def dict_simps)

text \<open>
  An item for immediate execution: a submitted item whose UID, if it has one, can be a
  dictionary key.
\<close>

definition immediate_arg_ok :: "(nat \<Rightarrow> string) \<Rightarrow> nat \<Rightarrow> json \<Rightarrow> bool" where
  "immediate_arg_ok us n item \<longleftrightarrow> item_arg_ok us n item \<and>
     (case item of
        JDict d \<Rightarrow> (case dget d ''item_uid'' of Some u \<Rightarrow> hashable u | None \<Rightarrow> True)
      | _ \<Rightarrow> True)"

definition runnable :: "(nat \<Rightarrow> string) \<Rightarrow> nat \<Rightarrow> json \<Rightarrow> bool" where
  "runnable us n j \<longleftrightarrow> good_item j \<and> unused_from us n (the_uid j)"

lemma runnable_mono: "runnable us n j \<Longrightarrow> n \<le> m \<Longrightarrow> runnable us m j"
  by (auto simp: runnable_def intro: unused_from_mono)

lemma wp_with_item_uid:
  assumes wf: "pq_wf t" and arg: "immediate_arg_ok (pq_uuids t) (pq_next t) item"
    and Q: "\<And>j u. \<not> is_dict j \<or> runnable (pq_uuids u) (pq_next u) j \<Longrightarrow>
              u = t \<or> u = use_uuid t \<Longrightarrow> Q j u" and E: "\<And>e. E e t"
  shows "wp (with_item_uid item) Q E t"
proof (cases "is_dict item")
  case True
  then obtain d where d: "item = JDict d" by (cases item) auto
  show ?thesis
  proof (cases "dget d ''item_uid''")
    case None
    let ?j = "JDict (dset ''item_uid'' (JStr (pq_uuids t (pq_next t))) d)"
    have "good_item ?j" "the_uid ?j = JStr (pq_uuids t (pq_next t))"
      using good_item_fresh [of d] arg(1) by (auto simp: d item_arg_ok_def immediate_arg_ok_def)
    then show ?thesis
      using None Q [of ?j "use_uuid t"] unused_from_used [OF pq_wf_inj [OF wf], of "pq_next t"]
      by (simp add: with_item_uid_def pq_wp d runnable_def)
  next
    case (Some v)
    then have "good_item item" "the_uid item = py_key v"
      using arg(1) by (auto simp: d item_arg_ok_def immediate_arg_ok_def good_item_def the_uid_def
          raw_uid_def simp del: py_key_raw)
    then show ?thesis using Some Q [where j = item and u = t] arg(1)
      by (simp add: with_item_uid_def pq_wp d item_arg_ok_def immediate_arg_ok_def runnable_def)
  qed
next
  case False
  then show ?thesis using E Q [where j = item and u = t]
    by (cases item) (auto simp: with_item_uid_def pq_wp py_contains_def split: if_splits)
qed

lemma keeps_start_queue [keep_rules]: "keeps s (start_plan False j)"
  by (rule keepsI, rule keep_start_plan) simp_all

lemma catch_start_keeps:
  assumes "wp (start_plan imm j) (\<lambda>_. safe s) (\<lambda>_. safe s) t"
  shows "wp (bnd (catch (start_plan imm j)
                  (\<lambda>e. if e = RuntimeError then raise e else ret (JDict [])))
               (\<lambda>plan. sq refresh_running (ret plan))) (\<lambda>_. safe s) (\<lambda>_. safe s) t"
proof -
  have r: "keeps s (sq refresh_running (ret plan))" for plan by (intro keep_rules)
  have h: "keeps s (if e = RuntimeError then raise e else ret (JDict []))" for e
    by (intro keep_rules)
  have "wp (catch (start_plan imm j)
                  (\<lambda>e. if e = RuntimeError then raise e else ret (JDict []))) (\<lambda>_. safe s) (\<lambda>_. safe s) t"
    unfolding wp_catch by (rule wp_mono [OF assms]) (use keepsD [OF h] in auto)
  then show ?thesis unfolding wp_bnd by (rule wp_mono) (use keepsD [OF r] in auto)
qed

lemma keep_set_next_runnable:
  assumes t: "safe s t" and j: "runnable (pq_uuids t) (pq_next t) j"
  shows "wp (bnd (lift (set_property ''immediate_execution'' (JBool True) j)) (\<lambda>item.
           bnd (catch (start_plan True item)
                  (\<lambda>e. if e = RuntimeError then raise e else ret (JDict [])))
             (\<lambda>plan. sq refresh_running (ret plan)))) (\<lambda>_. safe s) (\<lambda>_. safe s) t"
proof -
  have good: "good_item j" using j by (simp add: runnable_def)
  note sp = set_property_good [OF good, of "''immediate_execution''" "JBool True"]
  have "wp (start_plan True (with_property ''immediate_execution'' (JBool True) j))
      (\<lambda>_. safe s) (\<lambda>_. safe s) t"
    by (rule keep_start_plan [OF t]) (use sp j immediate_flag [OF good] in \<open>auto simp: runnable_def\<close>)
  from catch_start_keeps [OF this] show ?thesis
    using sp(1) by (simp add: wp_bnd [of "lift _"] wp_lift)
qed

lemma keeps_set_next_null [keep_rules]: "keeps s (set_next_item_as_running_body JNull)"
  unfolding set_next_item_as_running_body_def Let_def truthy.simps if_False by (intro keep_rules)

lemma keep_set_next:
  assumes t: "safe s t" and arg: "immediate_arg_ok (pq_uuids t) (pq_next t) item"
  shows "wp (set_next_item_as_running_body item) (\<lambda>_. safe s) (\<lambda>_. safe s) t"
proof (cases "truthy item")
  case False
  have "keeps s (set_next_item_as_running_body item)"
    unfolding set_next_item_as_running_body_def Let_def using False by (simp, intro keep_rules)
  then show ?thesis using t by (rule keepsD)
next
  case True
  have "wp (with_item_uid item)
      (\<lambda>j u. wp (bnd (lift (set_property ''immediate_execution'' (JBool True) j)) (\<lambda>item.
           bnd (catch (start_plan True item)
                  (\<lambda>e. if e = RuntimeError then raise e else ret (JDict [])))
             (\<lambda>plan. sq refresh_running (ret plan)))) (\<lambda>_. safe s) (\<lambda>_. safe s) u) (\<lambda>_. safe s) t"
  proof (rule wp_with_item_uid [OF safe_wf [OF t] arg])
    fix j u
    assume j: "\<not> is_dict j \<or> runnable (pq_uuids u) (pq_next u) j" and u: "u = t \<or> u = use_uuid t"
    then have su: "safe s u" using t safe_bump(3) [OF t] by auto
    show "wp (bnd (lift (set_property ''immediate_execution'' (JBool True) j)) (\<lambda>item.
           bnd (catch (start_plan True item)
                  (\<lambda>e. if e = RuntimeError then raise e else ret (JDict [])))
             (\<lambda>plan. sq refresh_running (ret plan)))) (\<lambda>_. safe s) (\<lambda>_. safe s) u"
    proof (cases "is_dict j")
      case True
      then show ?thesis using keep_set_next_runnable [OF su] j by simp
    next
      case False
      then have "set_property ''immediate_execution'' (JBool True) j = Inl AttributeError"
        by (cases j) (simp_all add: set_property_def setdefault_dict_def)
      then show ?thesis using su by (simp add: wp_rules)
    qed
  qed (use t in simp)
  then show ?thesis using True
    by (simp add: set_next_item_as_running_body_def wp_bnd wp_if)
qed

lemma immediate_arg_mono:
  "immediate_arg_ok us n item \<Longrightarrow> n \<le> m \<Longrightarrow> immediate_arg_ok us m item"
  by (auto simp: immediate_arg_ok_def item_arg_ok_mono)

lemma keeps_set_next [keep_rules]:
  assumes "immediate_arg_ok (pq_uuids s) (pq_next s) item"
  shows "keeps s (set_next_item_as_running_body item)"
proof (rule keepsI)
  fix t
  assume t: "safe s t"
  then have "immediate_arg_ok (pq_uuids t) (pq_next t) item"
    using immediate_arg_mono [OF assms] by (simp add: safe_def later_def)
  then show "wp (set_next_item_as_running_body item) (\<lambda>_. safe s) (\<lambda>_. safe s) t"
    by (rule keep_set_next [OF t])
qed

lemma runnable_arg:
  assumes "runnable us n j"
  shows "immediate_arg_ok us n j"
proof -
  have g: "good_item j" and "item_arg_ok us n j"
    using assms good_item_arg by (auto simp: runnable_def)
  from g obtain d u where "j = JDict d" "dget d ''item_uid'' = Some u" "hashable u"
    by (rule good_itemE)
  then show ?thesis using \<open>item_arg_ok us n j\<close> by (simp add: immediate_arg_ok_def)
qed

lemma keep_set_next_item:
  assumes "safe s t" and "\<not> is_dict j \<or> runnable (pq_uuids t) (pq_next t) j"
  shows "wp (set_next_item_as_running_body j) (\<lambda>_. safe s) (\<lambda>_. safe s) t"
proof -
  have "immediate_arg_ok (pq_uuids t) (pq_next t) j"
    using assms(2) by (cases j) (auto simp: immediate_arg_ok_def item_arg_ok_def dest: runnable_arg)
  then show ?thesis by (rule keep_set_next [OF assms(1)])
qed

section \<open>Processing the next item\<close>

lemma fresh_item_runnable:
  assumes wf: "pq_wf t" and j: "good_item (JDict d)"
  shows "runnable (pq_uuids t) (Suc (pq_next t))
           (JDict (dset ''item_uid'' (JStr (pq_uuids t (pq_next t))) d))"
  using good_item_fresh [of d "pq_uuids t (pq_next t)"] j
    unused_from_used [OF pq_wf_inj [OF wf], of "pq_next t"]
  by (auto simp: runnable_def good_item_def split: option.splits)

lemma keep_add_runnable:
  assumes "safe s t" and "runnable (pq_uuids t) (pq_next t) j"
  shows "wp (add_item_to_queue_body j pos b a flt) (\<lambda>_. safe s) (\<lambda>_. safe s) t"
proof -
  have "item_arg_ok (pq_uuids t) (pq_next t) j"
    using runnable_arg [OF assms(2)] by (simp add: immediate_arg_ok_def)
  from keep_add [OF safe_wf [OF assms(1)] this] show ?thesis
    by (rule wp_mono) (use safe_trans [OF assms(1)] in auto)
qed

lemma keep_requeue:
  assumes t: "safe s t" and j: "good_item j"
  shows "wp (bnd (set_new_item_uuid j) (\<lambda>i. bnd (add_item_to_queue_body i pos b a flt) (\<lambda>_. ret ())))
     (\<lambda>_. safe s) (\<lambda>_. safe s) t"
proof -
  obtain d where d: "j = JDict d" using j by (rule good_itemE)
  have "wp (add_item_to_queue_body (JDict (dset ''item_uid'' (JStr (pq_uuids t (pq_next t))) d))
      pos b a flt) (\<lambda>_. safe s) (\<lambda>_. safe s) (use_uuid t)"
    by (rule keep_add_runnable [OF safe_bump(3) [OF t]])
      (use fresh_item_runnable [OF safe_wf [OF t] j [unfolded d]] in simp)
  then show ?thesis by (simp add: d wp_bnd wp_set_new_item_uuid wp_ret)
qed

text \<open>What \<open>_process_next_item\<close> does with the item it read, by the item's type.\<close>

lemma keep_process_instruction:
  assumes t: "safe s t" and j: "good_item j"
  shows "wp (bnd (pop_item_from_queue_body (JStr ''front'') JNull) (\<lambda>_.
           sq (when_do b (bnd (set_new_item_uuid j) (\<lambda>item_to_add.
                 bnd (add_item_to_queue_body item_to_add JNull JNull JNull True) (\<lambda>_. ret ()))))
             (ret j))) (\<lambda>_. safe s) (\<lambda>_. safe s) t"
  unfolding wp_bnd [of "pop_item_from_queue_body _ _"] wp_sq wp_when_do wp_ret
  by (rule wp_mono [OF keepsD [OF keeps_pop t]]) (use keep_requeue [OF _ j] in auto)

lemma keep_process_item:
  assumes t: "safe s t" and j: "\<not> is_dict j \<or> runnable (pq_uuids t) (pq_next t) j"
    and imm: "\<not> imm \<Longrightarrow> good_item j"
  shows "wp (process_item imm loop_mode j) (\<lambda>_. safe s) (\<lambda>_. safe s) t"
  using keep_set_next_item [OF t j] keepsD [OF keeps_set_next_null t]
    keep_process_instruction [OF t, of j "truthy loop_mode"] imm t
  by (auto simp: process_item_def wp_bnd [of "lift _"] wp_lift wp_ret split: sum.splits)

lemma keeps_process_next [keep_rules]:
  assumes arg: "immediate_arg_ok (pq_uuids s) (pq_next s) item"
  shows "keeps s (process_next_item_body item)"
proof (rule keepsI)
  fix t
  assume t: "safe s t"
  note wf = safe_wf [OF t]
  have arg': "immediate_arg_ok (pq_uuids t) (pq_next t) item"
    using immediate_arg_mono [OF arg] t by (simp add: safe_def later_def)
  have fin: "keeps s (sq refresh_running (ret x))" for x :: json by (intro keep_rules)
  have step: "wp (bnd (process_item imm l j) (\<lambda>x. sq refresh_running (ret x))) (\<lambda>_. safe s) (\<lambda>_. safe s) u"
    if "safe s u" "\<not> is_dict j \<or> runnable (pq_uuids u) (pq_next u) j" "\<not> imm \<Longrightarrow> good_item j" for u j imm l
    unfolding wp_bnd
    by (rule wp_mono [OF keep_process_item [OF that(1,2)]]) (use that(3) keepsD [OF fin] in auto)
  obtain b where loop: "item_at (pq_mode t) ''loop'' = Inr (JBool b)" using pq_wf_loop [OF wf] .
  show "wp (process_next_item_body item) (\<lambda>_. safe s) (\<lambda>_. safe s) t"
  proof (cases "truthy item")
    case True
    have "wp (with_item_uid item) (\<lambda>j u. safe s u \<and> (\<not> is_dict j \<or> runnable (pq_uuids u) (pq_next u) j))
        (\<lambda>_. safe s) t"
      by (rule wp_with_item_uid [OF wf arg']) (use t safe_bump(3) [OF t] in auto)
    then have "wp (bnd (with_item_uid item) (\<lambda>j. bnd (process_item True (JBool b) j)
        (\<lambda>x. sq refresh_running (ret x)))) (\<lambda>_. safe s) (\<lambda>_. safe s) t"
      unfolding wp_bnd [of "with_item_uid _"] by (rule wp_mono) (use step [of _ _ True] in auto)
    then show ?thesis using True loop
      by (simp add: process_next_item_body_def wp_bnd [of "gets _"] wp_gets wp_bnd [of "lift _"] wp_lift)
  next
    case False
    have front: "runnable (pq_uuids t) (pq_next t) j \<and> good_item j" if "index_of 0 (queue t) = Some j" for j
      using pq_wf_item [OF wf index_of_mem [OF that]] queue_item_unused [OF wf index_of_mem [OF that]]
      by (simp add: runnable_def)
    have "wp (get_item_body (JStr ''front'') JNull)
        (\<lambda>j u. u = t \<and> runnable (pq_uuids t) (pq_next t) j \<and> good_item j) (\<lambda>_. safe s) t"
      using front t by (auto simp: wp_get_item_pos pos_index_def split: option.splits)
    then have "wp (bnd (get_item_body (JStr ''front'') JNull) (\<lambda>j. bnd (process_item False (JBool b) j)
        (\<lambda>x. sq refresh_running (ret x)))) (\<lambda>_. safe s) (\<lambda>_. safe s) t"
      unfolding wp_bnd [of "get_item_body _ _"] by (rule wp_mono) (use step [of _ _ False] t in auto)
    then show ?thesis using False loop
      by (simp add: process_next_item_body_def wp_bnd [of "gets _"] wp_gets wp_bnd [of "lift _"] wp_lift)
  qed
qed

section \<open>Completing and stopping\<close>

text \<open>The history entry of the running item, and the copy that goes back to the queue.\<close>

definition start_time :: "json \<Rightarrow> json" where
  "start_time r = (case dget (props_of r) ''time_start'' of Some t \<Rightarrow> t | None \<Rightarrow> JNull)"

definition finished ::
    "json \<Rightarrow> json \<Rightarrow> json \<Rightarrow> json \<Rightarrow> json \<Rightarrow> pq \<Rightarrow> json" where
  "finished es ru si em et s =
     with_result (cleaned (running s)) (start_time (running s)) es ru si em et
       (pq_clock s (pq_tick s))"

definition with_uid :: "string \<Rightarrow> json \<Rightarrow> json" where
  "with_uid u j = (case j of JDict d \<Rightarrow> JDict (dset ''item_uid'' (JStr u) d) | _ \<Rightarrow> j)"

text \<open>The view of a state, as a relation with the components one by one.\<close>

definition has_view ::
    "pq \<Rightarrow> pq \<Rightarrow> json list \<Rightarrow> json list \<Rightarrow> json \<Rightarrow> (json \<Rightarrow> json option) \<Rightarrow> bool" where
  "has_view s t q h r D \<longleftrightarrow>
     queue t = q \<and> history t = h \<and> running t = r \<and> pq_uid_dict t = D \<and>
     pq_queue_size t = int (length q) \<and> pq_history_size t = int (length h) \<and>
     pq_running_info t = r \<and> pq_mode t = pq_mode s \<and>
     pq_uuids t = pq_uuids s \<and> pq_next s < pq_next t \<and>
     pq_has_lock t = pq_has_lock s \<and> pq_opened t = pq_opened s"

lemma good_running_dict:
  assumes "good_running r" and "r \<noteq> JDict []"
  obtains d p where "r = JDict d" "good_item r" "dget d ''properties'' = Some (JDict p)"
    "props_of r = p" "dget p ''time_start'' = Some (start_time r)"
proof -
  have g: "good_item r" "dhas (props_of r) ''time_start''"
    using assms by (auto simp: good_running_def)
  from g(1) obtain d where d: "r = JDict d" "dict_field d ''properties''" by (rule good_itemE)
  from d(2) obtain p where "dget d ''properties'' = Some (JDict p)" "sub_dict d ''properties'' = p"
    by (rule dict_field_cases) (use g(2) d(1) in \<open>simp_all add: props_of_sub\<close>)
  then show ?thesis using that [of d p] g d(1) by (auto simp: props_of_sub start_time_def)
qed

lemma cleaned_dict:
  assumes "good_item j"
  obtains d where "cleaned j = JDict d" "good_item (JDict d)"
proof -
  have g: "good_item (cleaned j)" by (rule clean_item_good(2) [OF assms])
  from g obtain d where "cleaned j = JDict d" by (rule good_itemE)
  then show ?thesis using that g by simp
qed

lemma wp_completed:
  assumes wf: "pq_wf s" and loop: "item_at (pq_mode s) ''loop'' = Inr (JBool b)"
    and r: "running s \<noteq> JDict []"
  shows "wp (set_processed_item_as_completed_body es ru si em et)
     (\<lambda>x t. x = finished es ru si em et s \<and>
        (let u = the_uid (running s); im = is_immediate (running s);
             c = with_uid (pq_uuids s (pq_next s)) (cleaned (running s))
         in has_view s t
              (if b \<and> \<not> im then queue s @ [c] else queue s)
              (history s @ [finished es ru si em et s])
              (JDict [])
              (if im then pq_uid_dict s
               else if b then (pq_uid_dict s)(u := None, JStr (pq_uuids s (pq_next s)) \<mapsto> c)
               else (pq_uid_dict s)(u := None))))
     (\<lambda>_ _. False) s"
proof -
  obtain d p where d: "running s = JDict d" "good_item (running s)"
    "dget d ''properties'' = Some (JDict p)" "props_of (running s) = p"
    "dget p ''time_start'' = Some (start_time (running s))"
    using pq_wf_running [OF wf] r by (rule good_running_dict)
  obtain d' where d': "cleaned (running s) = JDict d'" "good_item (JDict d')"
    using d(2) by (rule cleaned_dict)
  have im: "truthy (case dget p ''immediate_execution'' of None \<Rightarrow> JBool False | Some w \<Rightarrow> w)
      = is_immediate (running s)"
    by (simp add: is_immediate_def d(4) split: option.splits)
  let ?c = "JDict (dset ''item_uid'' (JStr (pq_uuids s (pq_next s))) d')"
  have c: "good_item ?c" "the_uid ?c = JStr (pq_uuids s (pq_next s))"
    using good_item_fresh [of d'] d'(2) by (auto simp: good_item_def split: option.splits)
  have cl: "clean_item_properties (running s) = Inr (JDict d')"
    using clean_item_good(1) [OF d(2)] d'(1) by simp
  have res: "\<not> is_immediate (running s) \<Longrightarrow> pq_uid_dict s (the_uid (running s)) \<noteq> None"
    using queue_okD(7) [OF pq_wf_queue_ok [OF wf]] r by (simp add: reserved_def)
  have fresh: "pq_uid_dict s (JStr (pq_uuids s (pq_next s))) = None"
    by (rule pq_wf_fresh [OF wf order_refl])
  have t: "truthy (running s)" using d(2) by simp
  have gp: "py_getitem (running s) ''properties'' = Inr (JDict p)" using d(1,3) by simp
  show ?thesis
  proof (cases "is_immediate (running s)")
    case True
    then show ?thesis
      using loop r t gp d(2,5) im cl
      by (simp add: set_processed_item_as_completed_body_def pq_wp wp_add_result [OF d'(2)]
          add_to_history_def refresh_all_def has_view_def finished_def d' Let_def)
  next
    case False
    note res = res [OF False]
    show ?thesis
    proof (cases b)
      case True
      then show ?thesis
        using False loop r t gp d(2,5) im cl res fresh c
        by (simp add: set_processed_item_as_completed_body_def pq_wp wp_add_result [OF d'(2)]
            add_to_history_def refresh_all_def has_view_def finished_def with_uid_def d' Let_def)
    next
      case False
      then show ?thesis
        using \<open>\<not> is_immediate (running s)\<close> loop r t gp d(2,5) im cl res
        by (simp add: set_processed_item_as_completed_body_def pq_wp wp_add_result [OF d'(2)]
            add_to_history_def refresh_all_def has_view_def finished_def d' Let_def)
    qed
  qed
qed

text \<open>A well-formed item with a UID that is not registered goes to the front.\<close>

lemma wp_add_front:
  assumes wf: "pq_wf s" and j: "runnable (pq_uuids s) (pq_next s) j" "pq_uid_dict s (the_uid j) = None"
  shows "wp (add_item_to_queue_body j (JStr ''front'') JNull JNull False) Q E s =
     Q (j, int (length (queue s)) + 1) (added j (Some (j # queue s)) s)"
proof -
  have g: "good_item j" using j(1) by (simp add: runnable_def)
  obtain d u where d: "j = JDict d" "dget d ''item_uid'' = Some u" "hashable u" "the_uid j = py_key u"
    using g by (rule good_itemE)
  have arg: "item_arg_ok (pq_uuids s) (pq_next s) j"
    using runnable_arg [OF j(1)] by (simp add: immediate_arg_ok_def)
  have "prepared j False (pq_uid_dict s) (pq_uuids s (pq_next s)) = Inr j"
    using d j(2) by (simp add: prepared_def)
  moreover have "place_item j (JStr ''front'') JNull JNull (queue s) (running s) (pq_uid_dict s)
      = Inr (Some (j # queue s))"
    by (simp add: place_item_def clip_pos_def place_at_pos_def)
  moreover have "prep_state j s = s" using d by (simp add: prep_state_def)
  ultimately show ?thesis by (simp add: wp_add_item [OF wf arg] placed_size_def add.commute)
qed

lemma wp_stopped:
  assumes wf: "pq_wf s" and r: "running s \<noteq> JDict []" and es: "\<not> py_eq es (JStr ''stopped'')"
  shows "wp (set_processed_item_as_stopped_body es ru si em et)
     (\<lambda>x t. x = finished es ru si em et s \<and>
        (let u = the_uid (running s); im = is_immediate (running s);
             n = pq_uuids s (Suc (Suc (pq_next s)));
             c = with_uid n (finished es ru si em et s)
         in has_view s t
              (if im then queue s else c # queue s)
              (history s @ [finished es ru si em et s])
              (JDict [])
              (if im then pq_uid_dict s else (pq_uid_dict s)(u := None, JStr n \<mapsto> c)) \<and>
            (im \<or> Suc (Suc (pq_next s)) < pq_next t)))
     (\<lambda>_ _. False) s"
proof -
  obtain d p where d: "running s = JDict d" "good_item (running s)"
    "dget d ''properties'' = Some (JDict p)" "props_of (running s) = p"
    "dget p ''time_start'' = Some (start_time (running s))"
    using pq_wf_running [OF wf] r by (rule good_running_dict)
  obtain d' where d': "cleaned (running s) = JDict d'" "good_item (JDict d')"
    using d(2) by (rule cleaned_dict)
  have im: "truthy (case dget p ''immediate_execution'' of None \<Rightarrow> JBool False | Some w \<Rightarrow> w)
      = is_immediate (running s)"
    by (simp add: is_immediate_def d(4) split: option.splits)
  let ?f = "finished es ru si em et s"
  have f: "good_item ?f" by (simp add: finished_def d' with_result_good [OF d'(2)])
  obtain df where df: "?f = JDict df" using f by (rule good_itemE)
  have fin: "with_result (JDict d') (start_time (running s)) es ru si em et (pq_clock s (pq_tick s)) = ?f"
    by (simp add: finished_def d')
  have cl: "clean_item_properties (running s) = Inr (JDict d')"
    using clean_item_good(1) [OF d(2)] d'(1) by simp
  have t: "truthy (running s)" using d(2) by simp
  have gp: "py_getitem (running s) ''properties'' = Inr (JDict p)"
    "py_get (running s) ''properties'' (JDict []) = Inr (JDict p)" using d(1,3) by simp_all
  note base = r t gp d(2,5) im cl es
  show ?thesis
  proof (cases "is_immediate (running s)")
    case True
    then show ?thesis
      using base
      by (simp add: set_processed_item_as_stopped_body_def pq_wp wp_add_result [OF d'(2)] fin
          add_to_history_def refresh_all_def has_view_def Let_def)
  next
    case False
    let ?u = "the_uid (running s)"
    have res: "pq_uid_dict s ?u \<noteq> None" "?u \<notin> the_uid ` set (queue s)"
      using queue_okD(7,8) [OF pq_wf_queue_ok [OF wf]] r False by (simp_all add: reserved_def)
    let ?n = "Suc (Suc (pq_next s))"
    let ?c = "JDict (dset ''item_uid'' (JStr (pq_uuids s ?n)) df)"
    let ?D = "(pq_uid_dict s)(?u := None)"
    let ?t = "use_uuid (bump_queue (set_running (JDict [])
                (set_history (history s @ [?f]) (bump_history (use_tick s)))))"
    have "queue_ok (queue s) (history s @ [?f]) (JDict []) ?D (pq_uuids s) (Suc ?n)"
    proof (rule queue_ok_forget [where n = "pq_next s"])
      show "queue_ok (queue s) (history s @ [?f]) (JDict []) (pq_uid_dict s) (pq_uuids s) (pq_next s)"
        by (rule queue_ok_idle [OF queue_ok_history [OF pq_wf_queue_ok [OF wf]]])
          (use f queue_okD(5) [OF pq_wf_queue_ok [OF wf]] in auto)
    qed (use res in \<open>auto simp: reserved_def\<close>)
    then have wft: "pq_wf (set_dict ?D ?t)" using wf by (simp add: pq_wf_def)
    have c: "good_item ?c" "the_uid ?c = JStr (pq_uuids s ?n)"
      using good_item_fresh [of df] f df by (auto simp: good_item_def split: option.splits)
    have run: "runnable (pq_uuids (set_dict ?D ?t)) (pq_next (set_dict ?D ?t)) ?c"
      using c unused_from_used [OF pq_wf_inj [OF wf], of ?n "Suc ?n"] by (simp add: runnable_def)
    have none: "pq_uid_dict (set_dict ?D ?t) (the_uid ?c) = None"
      using c pq_wf_fresh [OF wf, of ?n] by simp
    note add = wp_add_front [OF wft run none]
    have add': "wp (add_item_to_queue_body ?c (JStr ''front'') JNull JNull False) Q E
        (set_sizes a b c' (set_dict ?D ?t)) =
        Q (?c, int (length (queue s)) + 1) (added ?c (Some (?c # queue s)) (set_sizes a b c' (set_dict ?D ?t)))"
      for Q E a b c'
      using wp_add_front [of "set_sizes a b c' (set_dict ?D ?t)" ?c] wft run none by simp
    show ?thesis
      using base False res c(2)
      by (simp add: set_processed_item_as_stopped_body_def pq_wp wp_add_result [OF d'(2)] fin
          add_to_history_def refresh_all_def has_view_def Let_def df add' [unfolded df] with_uid_def)
  qed
qed

lemma finished_good:
  assumes "pq_wf s" "running s \<noteq> JDict []"
  shows "good_item (finished es ru si em et s)"
    and "the_uid (finished es ru si em et s) = the_uid (running s)"
proof -
  have g: "good_item (running s)"
    using assms(2) pq_wf_running [OF assms(1)] by (simp add: good_running_def)
  show "good_item (finished es ru si em et s)"
    "the_uid (finished es ru si em et s) = the_uid (running s)"
    using with_result_good [OF clean_item_good(2) [OF g]] clean_item_good(3) [OF g]
    by (simp_all add: finished_def)
qed

lemma with_uid_good:
  assumes "good_item j"
  shows "good_item (with_uid u j)" and "the_uid (with_uid u j) = JStr u"
proof -
  obtain d where "j = JDict d" using assms by (rule good_itemE)
  then show "good_item (with_uid u j)" "the_uid (with_uid u j) = JStr u"
    using good_item_fresh [of d u] assms by (auto simp: with_uid_def good_item_def split: option.splits)
qed

text \<open>The bookkeeping of the cycle: the running item left, with or without a copy put back.\<close>

lemma queue_ok_finished:
  assumes wf: "pq_wf s" and r: "running s \<noteq> JDict []" and f: "good_item f"
    and n: "pq_next s \<le> m"
  shows "queue_ok (queue s) (history s @ [f]) (JDict []) (pq_uid_dict s) (pq_uuids s) m"
    and "\<not> is_immediate (running s) \<Longrightarrow>
      queue_ok (queue s) (history s @ [f]) (JDict [])
        ((pq_uid_dict s)(the_uid (running s) := None)) (pq_uuids s) m"
proof -
  note ok = pq_wf_queue_ok [OF wf]
  show 1: "queue_ok (queue s) (history s @ [f]) (JDict []) (pq_uid_dict s) (pq_uuids s) m"
    by (rule queue_ok_idle [OF queue_ok_history [OF ok _ order_refl] n])
      (use f queue_okD(5) [OF ok] in auto)
  assume "\<not> is_immediate (running s)"
  then have "the_uid (running s) \<notin> the_uid ` set (queue s)"
    using queue_okD(8) [OF ok] r by (simp add: reserved_def)
  then show "queue_ok (queue s) (history s @ [f]) (JDict [])
      ((pq_uid_dict s)(the_uid (running s) := None)) (pq_uuids s) m"
    by (rule queue_ok_forget [OF 1]) (simp_all add: reserved_def)
qed

lemma queue_ok_requeued:
  assumes wf: "pq_wf s" and r: "running s \<noteq> JDict []" and f: "good_item f" and j: "good_item j"
    and imm: "\<not> is_immediate (running s)" and k: "pq_next s \<le> k" "k < m"
    and q: "q = j' # queue s \<or> q = queue s @ [j']" "j' = with_uid (pq_uuids s k) j"
  shows "queue_ok q (history s @ [f]) (JDict [])
      ((pq_uid_dict s)(the_uid (running s) := None, JStr (pq_uuids s k) \<mapsto> j')) (pq_uuids s) m"
proof -
  let ?D = "(pq_uid_dict s)(the_uid (running s) := None)"
  have ok: "queue_ok (queue s) (history s @ [f]) (JDict []) ?D (pq_uuids s) (pq_next s)"
    by (rule queue_ok_finished(2) [OF wf r f order_refl imm])
  have g: "good_item j'" "the_uid j' = JStr (pq_uuids s k)"
    using with_uid_good [OF j] q(2) by simp_all
  have free: "?D (the_uid j') = None" using g(2) pq_wf_fresh [OF wf k(1)] by simp
  have new: "the_uid j' \<notin> the_uid ` set (queue s)"
    using queue_okD(3) [OF ok] free by fastforce
  have "queue_ok q (history s @ [f]) (JDict []) (?D(the_uid j' \<mapsto> j')) (pq_uuids s) m"
    by (rule queue_ok_add [OF ok g(1) free])
      (use g(2) q new queue_okD(4) [OF ok] k unused_from_used [OF pq_wf_inj [OF wf] k(2)]
        in \<open>auto\<close>)
  then show ?thesis by (simp add: g(2))
qed

lemma safe_has_view:
  assumes "pq_wf s" "has_view s t q h r D" "queue_ok q h r D (pq_uuids s) (pq_next t)"
  shows "safe s t"
  using assms by (auto simp: has_view_def safe_def later_def pq_wf_def)

lemma has_view_next: "has_view s t q h r D \<Longrightarrow> pq_next s < pq_next t"
  by (simp add: has_view_def)

lemma keep_completed:
  assumes wf: "pq_wf s"
  shows "wp (set_processed_item_as_completed_body es ru si em et) (\<lambda>_. safe s) (\<lambda>_. safe s) s"
proof -
  obtain b where loop: "item_at (pq_mode s) ''loop'' = Inr (JBool b)" using pq_wf_loop [OF wf] .
  show ?thesis
  proof (cases "running s = JDict []")
    case True
    then show ?thesis using loop wf
      by (simp add: set_processed_item_as_completed_body_def pq_wp refresh_all_def)
  next
    case False
    have g: "good_item (cleaned (running s))"
      using pq_wf_running [OF wf] False clean_item_good(2) by (simp add: good_running_def)
    note f = finished_good(1) [OF wf False]
    show ?thesis
    proof (rule wp_mono [OF wp_completed [OF wf loop False]])
      fix x t
      assume v: "x = finished es ru si em et s \<and>
        (let u = the_uid (running s); im = is_immediate (running s);
             c = with_uid (pq_uuids s (pq_next s)) (cleaned (running s))
         in has_view s t
              (if b \<and> \<not> im then queue s @ [c] else queue s)
              (history s @ [finished es ru si em et s])
              (JDict [])
              (if im then pq_uid_dict s
               else if b then (pq_uid_dict s)(u := None, JStr (pq_uuids s (pq_next s)) \<mapsto> c)
               else (pq_uid_dict s)(u := None)))"
      then have n: "pq_next s < pq_next t" using has_view_next by (metis (no_types, lifting))
      show "safe s t"
        using v queue_ok_finished [OF wf False f less_imp_le [OF n]]
          queue_ok_requeued [OF wf False f g _ order_refl n disjI2 [OF refl] refl]
        by (cases "is_immediate (running s)"; cases b)
          (auto simp: Let_def intro: safe_has_view [OF wf])
    qed simp
  qed
qed

lemma keep_stopped:
  assumes wf: "pq_wf s"
  shows "wp (set_processed_item_as_stopped_body es ru si em et) (\<lambda>_. safe s) (\<lambda>_. safe s) s"
proof (cases "py_eq es (JStr ''stopped'')")
  case True
  have "keeps s (sq refresh_all (ret x))" for x :: json by (intro keep_rules)
  from keepsD [OF this] show ?thesis
    using True wp_mono [OF keep_completed [OF wf, of es ru si em et]]
    by (simp add: set_processed_item_as_stopped_body_def wp_bnd)
next
  case es: False
  show ?thesis
  proof (cases "running s = JDict []")
    case True
    then show ?thesis using es wf
      by (simp add: set_processed_item_as_stopped_body_def pq_wp refresh_all_def)
  next
    case False
    note f = finished_good(1) [OF wf False]
    show ?thesis
    proof (rule wp_mono [OF wp_stopped [OF wf False es]])
      fix x t
      assume v: "x = finished es ru si em et s \<and>
        (let u = the_uid (running s); im = is_immediate (running s);
             n = pq_uuids s (Suc (Suc (pq_next s)));
             c = with_uid n (finished es ru si em et s)
         in has_view s t
              (if im then queue s else c # queue s)
              (history s @ [finished es ru si em et s])
              (JDict [])
              (if im then pq_uid_dict s else (pq_uid_dict s)(u := None, JStr n \<mapsto> c)) \<and>
            (im \<or> Suc (Suc (pq_next s)) < pq_next t))"
      then have n: "pq_next s < pq_next t"
        using has_view_next unfolding Let_def by blast
      show "safe s t"
      proof (cases "is_immediate (running s)")
        case True
        then show ?thesis
          using v queue_ok_finished(1) [OF wf False f less_imp_le [OF n]]
          by (auto simp: Let_def intro: safe_has_view [OF wf])
      next
        case imm: False
        then have "Suc (Suc (pq_next s)) < pq_next t" using v by (simp add: Let_def)
        from queue_ok_requeued [OF wf False f f imm _ this disjI1 [OF refl] refl] show ?thesis
          using v imm by (auto simp: Let_def intro: safe_has_view [OF wf])
      qed
    qed simp
  qed
qed

end
