(* ===== verification/PlanQueueReach.thy ===== *)
theory PlanQueueReach
  imports PlanQueueCycle
begin

text \<open>
  The life of a plan queue: start-up on a store, public operations in any order with any
  outcome, restarts of the manager. The step relation, and the invariant on every reachable
  state.
\<close>

section \<open>History, mode and reset\<close>

lemma pq_wf_history:
  assumes "pq_wf s" and "\<And>j. j \<in> set h \<Longrightarrow> j \<in> set (history s)"
  shows "pq_wf (set_history h s)"
  using assms queue_ok_history [OF pq_wf_queue_ok [OF assms(1)], of h] queue_okD(5) [OF pq_wf_queue_ok [OF assms(1)]]
  by (simp add: pq_wf_def)

lemma set_range_of: "set (range_of a b xs) \<subseteq> set xs"
  by (auto simp: range_of_def resolve_range_def Let_def dest!: in_set_takeD in_set_dropD split: if_splits)

lemma keeps_trim_store [keep_rules]: "keeps s (st (\<lambda>s. store_trim (name_plan_history s) a b))"
proof (rule keepsI)
  fix t
  assume t: "safe s t"
  have "pq_wf (set_history (range_of a b (history t)) t)"
    by (rule pq_wf_history [OF safe_wf [OF t]]) (rule subsetD [OF set_range_of])
  then show "wp (st (\<lambda>s. store_trim (name_plan_history s) a b)) (\<lambda>_. safe s) (\<lambda>_. safe s) t"
    using t by (simp add: pq_wp safe_def later_def)
qed

lemma keeps_trim_history [keep_rules]: "keeps s (trim_history_body n uid)"
  unfolding trim_history_body_def Let_def by (intro keep_rules)

lemma pq_wf_drop_history: "pq_wf s \<Longrightarrow> pq_wf (drop_key (name_plan_history s) s)"
  using queue_ok_history [OF pq_wf_queue_ok, of s "[]"] by (simp add: pq_wf_def)

lemma keeps_clear_history [keep_rules]: "keeps s clear_history_body"
proof (rule keepsI)
  fix t
  assume t: "safe s t"
  have "pq_wf (drop_key (name_plan_history t) (bump_history t))"
    using pq_wf_drop_history [OF pq_wf_bump(2) [OF safe_wf [OF t]]] by simp
  then show "wp clear_history_body (\<lambda>_. safe s) (\<lambda>_. safe s) t"
    using t by (simp add: clear_history_body_def pq_wp safe_def later_def)
qed

lemma queue_ok_empty: "inj us \<Longrightarrow> queue_ok [] [] (JDict []) (\<lambda>_. None) us n"
  by (simp add: queue_ok_def good_running_def reserved_def)

lemma mode_store_view [simp]:
  "queue (s\<lparr>pq_store := snd (store_set (name_plan_queue_mode s) m (pq_store s))\<rparr>) = queue s"
  "history (s\<lparr>pq_store := snd (store_set (name_plan_queue_mode s) m (pq_store s))\<rparr>) = history s"
  "running (s\<lparr>pq_store := snd (store_set (name_plan_queue_mode s) m (pq_store s))\<rparr>) = running s"
  by (simp_all add: queue_def history_def running_def store_set_def)

lemma keeps_store_mode:
  "keeps s (st (\<lambda>s. store_set (name_plan_queue_mode s) m))"
  by (auto simp: keeps_def wp_st split_beta safe_def later_def pq_wf_def)

lemma keeps_set_mode_field:
  "validate_plan_queue_mode (JDict m) = Inr () \<Longrightarrow> keeps s (upd (\<lambda>s. s\<lparr>pq_mode := m\<rparr>))"
  by (auto simp: keeps_def wp_upd safe_def later_def pq_wf_def queue_def history_def running_def
      name_defs)

lemma keeps_set_mode [keep_rules]: "keeps s (set_plan_queue_mode m u)"
proof -
  have val: "keeps s (sq (lift (validate_plan_queue_mode (JDict d)))
      (with_lock (sq (upd (\<lambda>s. s\<lparr>pq_mode := d\<rparr>)) (st (\<lambda>s. store_set (name_plan_queue_mode s) (JDict d))))))"
    for d
  proof (cases "validate_plan_queue_mode (JDict d)")
    case (Inl e)
    then show ?thesis by (auto simp: keeps_def wp_rules)
  next
    case (Inr x)
    then have "validate_plan_queue_mode (JDict d) = Inr ()" by simp
    then show ?thesis
      by (intro keep_rules keeps_set_mode_field keeps_store_mode)
  qed
  show ?thesis unfolding set_plan_queue_mode_def Let_def by (intro keep_rules val)
qed

lemma wp_delete_key: "wp (st (\<lambda>s. store_delete [f s])) Q E s = Q () (drop_key (f s) s)"
  by (simp add: wp_st drop_key_def split_beta)

lemma keeps_delete_pool [keep_rules]: "keeps s delete_pool_entries_body"
proof (rule keepsI)
  fix t
  assume t: "safe s t"
  have "pq_wf u"
    if "queue u = []" "history u = []" "running u = JDict []" "pq_uid_dict u = (\<lambda>_. None)"
      "pq_uuids u = pq_uuids t" "pq_mode u = pq_mode t" for u
    using that queue_ok_empty [OF pq_wf_inj [OF safe_wf [OF t]]] safe_wf [OF t]
    by (simp add: pq_wf_def)
  then show "wp delete_pool_entries_body (\<lambda>_. safe s) (\<lambda>_. safe s) t"
    using t by (simp add: delete_pool_entries_body_def wp_delete_key pq_wp refresh_all_def safe_def later_def)
qed

section \<open>Public operations\<close>

text \<open>What is assumed of the arguments of an operation: only the shape of submitted items.\<close>

fun op_args_ok :: "(nat \<Rightarrow> string) \<Rightarrow> nat \<Rightarrow> pq_op \<Rightarrow> bool" where
  "op_args_ok us n (Op_add_item item _ _ _ _) = item_arg_ok us n item"
| "op_args_ok us n (Op_add_batch items _ _ _ _) = list_all (item_arg_ok us n) items"
| "op_args_ok us n (Op_replace_item item _) = item_arg_ok us n item"
| "op_args_ok us n (Op_process_next item) = immediate_arg_ok us n item"
| "op_args_ok us n (Op_set_next_running item) = immediate_arg_ok us n item"
| "op_args_ok us n _ = True"

lemma keep_locked:
  "wp m (\<lambda>_. safe s) (\<lambda>_. safe s) s \<Longrightarrow> pq_wf s \<Longrightarrow>
   wp (ignore_result (with_lock m)) (\<lambda>_. safe s) (\<lambda>_. safe s) s"
  by (simp add: wp_with_lock wp_ignore_result)

lemma run_op_keeps:
  assumes wf: "pq_wf s" and args: "op_args_ok (pq_uuids s) (pq_next s) op"
  shows "wp (run_op op) (\<lambda>_. safe s) (\<lambda>_. safe s) s"
proof (cases "\<exists>a b c d e. op = Op_completed a b c d e \<or> op = Op_stopped a b c d e")
  case True
  then show ?thesis
    using keep_completed [OF wf] keep_stopped [OF wf]
    by (auto simp: keep_locked wf public_defs)
next
  case False
  have "keeps s (run_op op)"
    using False args
    by (cases op) (auto simp: list_all_iff public_defs get_queue_full_body_def intro!: keep_rules)
  then show ?thesis using wf by (rule keeps_start)
qed

section \<open>Start-up\<close>

text \<open>The UIDs of the stored items are registered one by one.\<close>

definition registered :: "json list \<Rightarrow> json \<Rightarrow> json option" where
  "registered js = map_of (map (\<lambda>j. (the_uid j, j)) js)"

lemma registered_Some:
  "distinct (map the_uid js) \<Longrightarrow> registered js u = Some j \<longleftrightarrow> j \<in> set js \<and> the_uid j = u"
  unfolding registered_def by (subst map_of_eq_Some_iff) (auto simp: comp_def)

lemma registered_None: "registered js u = None \<longleftrightarrow> u \<notin> the_uid ` set js"
  unfolding registered_def by (force simp: map_of_eq_None_iff image_iff)

definition same_but_dict :: "pq \<Rightarrow> pq \<Rightarrow> bool" where
  "same_but_dict s t \<longleftrightarrow> queue t = queue s \<and> history t = history s \<and> running t = running s \<and>
     pq_mode t = pq_mode s \<and> pq_opened t = pq_opened s \<and> pq_has_lock t = pq_has_lock s \<and> later s t"

lemma wp_register_all:
  assumes "\<And>j. j \<in> set js \<Longrightarrow> good_item j" and "distinct (map the_uid js)"
    and "\<And>j. j \<in> set js \<Longrightarrow> pq_uid_dict s (the_uid j) = None"
  shows "wp (eachP uid_dict_add js)
     (\<lambda>_ t. same_but_dict s t \<and> pq_uid_dict t = pq_uid_dict s ++ registered js) (\<lambda>_ _. False) s"
  using assms
proof (induction js arbitrary: s)
  case Nil
  then show ?case by (simp add: wp_rules same_but_dict_def registered_def)
next
  case (Cons j js)
  let ?s = "set_dict ((pq_uid_dict s)(the_uid j \<mapsto> j)) (bump_queue s)"
  have "wp (eachP uid_dict_add js)
     (\<lambda>_ t. same_but_dict ?s t \<and> pq_uid_dict t = pq_uid_dict ?s ++ registered js) (\<lambda>_ _. False) ?s"
  proof (rule Cons.IH)
    fix k
    assume k: "k \<in> set js"
    then show "good_item k" using Cons.prems(1) by simp
    have "the_uid k \<in> the_uid ` set js" "the_uid j \<notin> the_uid ` set js"
      using k Cons.prems(2) by simp_all
    then have "the_uid k \<noteq> the_uid j" by metis
    then show "pq_uid_dict ?s (the_uid k) = None" using k Cons.prems(3) by simp
  qed (use Cons.prems(2) in simp)
  then have "wp (eachP uid_dict_add js)
     (\<lambda>_ t. same_but_dict s t \<and> pq_uid_dict t = pq_uid_dict s ++ registered (j # js)) (\<lambda>_ _. False) ?s"
  proof (rule wp_mono)
    fix t
    assume t: "same_but_dict ?s t \<and> pq_uid_dict t = pq_uid_dict ?s ++ registered js"
    have "the_uid j \<notin> dom (registered js)"
      using Cons.prems(2) by (simp add: domIff registered_None)
    then have "(pq_uid_dict s)(the_uid j \<mapsto> j) ++ registered js = pq_uid_dict s ++ registered (j # js)"
      by (auto simp: registered_def map_add_def fun_eq_iff split: option.splits)
    then show "same_but_dict s t \<and> pq_uid_dict t = pq_uid_dict s ++ registered (j # js)"
      using t by (simp add: same_but_dict_def later_def)
  qed simp
  then show ?case using Cons.prems by (simp add: pq_wp)
qed

lemma queue_ok_registered:
  assumes inj: "inj us" and q: "\<And>j. j \<in> set q \<Longrightarrow> good_item j \<and> unused_from us n (the_uid j)"
    and d: "distinct (map the_uid q)" and h: "\<And>j. j \<in> set h \<Longrightarrow> good_item j" and r: "good_running r"
    and u: "r \<noteq> JDict [] \<Longrightarrow> unused_from us n (the_uid r)"
    and res: "reserved r \<Longrightarrow> the_uid r \<notin> the_uid ` set q"
  shows "r = JDict [] \<or> \<not> reserved r \<Longrightarrow> queue_ok q h r (registered q) us n"
    and "r \<noteq> JDict [] \<Longrightarrow> the_uid r \<notin> the_uid ` set q \<Longrightarrow>
      queue_ok q h r ((registered q)(the_uid r \<mapsto> r)) us n"
proof -
  have reg: "\<forall>j \<in> set q. registered q (the_uid j) = Some j"
    using registered_Some [OF d] by blast
  have inv: "\<forall>u j. registered q u = Some j \<longrightarrow> good_item j \<and> the_uid j = u \<and> unused_from us n u"
    using q by (simp add: registered_Some [OF d]) blast
  show "queue_ok q h r (registered q) us n" if "r = JDict [] \<or> \<not> reserved r"
  proof -
    have "\<not> reserved r" using that by (auto simp: reserved_def)
    moreover have "\<forall>j \<in> set q. good_item j" "\<forall>j \<in> set h. good_item j" using q h by blast+
    ultimately show ?thesis
      using inj d r u reg inv unfolding queue_ok_def by blast
  qed
  assume n: "r \<noteq> JDict []" "the_uid r \<notin> the_uid ` set q"
  have g: "good_item r" using r n(1) by (simp add: good_running_def)
  have "\<forall>j \<in> set q. ((registered q)(the_uid r \<mapsto> r)) (the_uid j) = Some j"
  proof
    fix j
    assume j: "j \<in> set q"
    then have "the_uid j \<noteq> the_uid r" using n(2) by (metis imageI)
    then show "((registered q)(the_uid r \<mapsto> r)) (the_uid j) = Some j" using bspec [OF reg j] by simp
  qed
  moreover have "\<forall>v j. ((registered q)(the_uid r \<mapsto> r)) v = Some j \<longrightarrow>
      good_item j \<and> the_uid j = v \<and> unused_from us n v"
  proof (intro allI impI)
    fix v j
    assume "((registered q)(the_uid r \<mapsto> r)) v = Some j"
    then have "v = the_uid r \<and> j = r \<or> registered q v = Some j" by (auto split: if_splits)
    then show "good_item j \<and> the_uid j = v \<and> unused_from us n v"
      using inv g u n(1) by blast
  qed
  moreover have "\<forall>j \<in> set q. good_item j" "\<forall>j \<in> set h. good_item j" using q h by blast+
  moreover have "((registered q)(the_uid r \<mapsto> r)) (the_uid r) \<noteq> None" by simp
  ultimately show "queue_ok q h r ((registered q)(the_uid r \<mapsto> r)) us n"
    using inj d r u n(2) unfolding queue_ok_def by blast
qed

text \<open>
  What start-up needs of the store: what a previous manager left there, whatever its
  memory held.
\<close>

definition store_ok :: "pq \<Rightarrow> bool" where
  "store_ok s \<longleftrightarrow>
     inj (pq_uuids s) \<and>
     (\<forall>j \<in> set (queue s). good_item j \<and> unused_from (pq_uuids s) (pq_next s) (the_uid j)) \<and>
     distinct (map the_uid (queue s)) \<and> (\<forall>j \<in> set (history s). good_item j) \<and>
     good_running (running s) \<and>
     (running s \<noteq> JDict [] \<longrightarrow> unused_from (pq_uuids s) (pq_next s) (the_uid (running s))) \<and>
     (reserved (running s) \<longrightarrow> the_uid (running s) \<notin> the_uid ` set (queue s))"

lemma pq_wf_store_ok: "pq_wf s \<Longrightarrow> store_ok s"
  using queue_okD [OF pq_wf_queue_ok, of s] queue_item_unused [of s]
  unfolding store_ok_def by blast

definition mode_ok :: "pq \<Rightarrow> bool" where
  "mode_ok s \<longleftrightarrow> validate_plan_queue_mode (JDict (pq_mode s)) = Inr ()"

lemma wp_uid_dict_initialize:
  assumes ok: "store_ok s" and m: "mode_ok s"
  shows "wp uid_dict_initialize (\<lambda>_ t. pq_wf t \<and> same_but_dict s t) (\<lambda>_. pq_wf) s"
proof -
  let ?q = "queue s" and ?r = "running s"
  let ?s = "set_dict (\<lambda>_. None) (bump_queue s)"
  have q: "\<And>j. j \<in> set ?q \<Longrightarrow> good_item j" and d: "distinct (map the_uid ?q)"
    using ok by (auto simp: store_ok_def)
  have reg: "wp (eachP uid_dict_add ?q)
     (\<lambda>_ t. same_but_dict ?s t \<and> pq_uid_dict t = registered ?q) (\<lambda>_ _. False) ?s"
    using wp_register_all [OF q d, of ?s] by simp
  have fin: "wp (when_do (truthy ?r) (uid_dict_add ?r)) (\<lambda>_ t. pq_wf t \<and> same_but_dict s t) (\<lambda>_. pq_wf) t"
    if t: "same_but_dict ?s t" "pq_uid_dict t = registered ?q" for t
  proof -
    have l: "pq_uuids t = pq_uuids s" "pq_next s \<le> pq_next t" "pq_mode t = pq_mode s"
      using t(1) by (auto simp: same_but_dict_def later_def)
    have v: "queue t = ?q" "history t = history s" "running t = ?r"
      using t(1) by (auto simp: same_but_dict_def)
    have un: "unused_from (pq_uuids s) m u" if "unused_from (pq_uuids s) (pq_next s) u" "pq_next t \<le> m" for u m
      using that l(2) by (auto simp: unused_from_def)
    have base: "r = JDict [] \<or> \<not> reserved r \<Longrightarrow> r = ?r \<Longrightarrow> pq_wf t" for r
      using queue_ok_registered(1) [of "pq_uuids s" ?q "pq_next t" "history s" ?r] ok un l v t(2) m
      by (auto simp: pq_wf_def store_ok_def mode_ok_def)
    have sb: "same_but_dict s t" using t(1) by (auto simp: same_but_dict_def later_def)
    show ?thesis
    proof (cases "?r = JDict []")
      case True
      then show ?thesis using base sb by (simp add: wp_rules)
    next
      case False
      have g: "good_item ?r" using ok False by (simp add: store_ok_def good_running_def)
      show ?thesis
      proof (cases "the_uid ?r \<in> the_uid ` set ?q")
        case True
        then have "registered ?q (the_uid ?r) \<noteq> None" "\<not> reserved ?r"
          using registered_None ok by (auto simp: store_ok_def)
        then show ?thesis using g t(2) base by (simp add: pq_wp)
      next
        case out: False
        let ?u = "set_dict ((registered ?q)(the_uid ?r \<mapsto> ?r)) (bump_queue t)"
        have "queue_ok ?q (history s) ?r ((registered ?q)(the_uid ?r \<mapsto> ?r)) (pq_uuids s) (Suc (pq_next t))"
          by (rule queue_ok_registered(2))
            (use ok out False un in \<open>auto simp: store_ok_def\<close>)
        then have "pq_wf ?u" using l v m by (simp add: pq_wf_def mode_ok_def)
        moreover have "same_but_dict s ?u" using sb by (auto simp: same_but_dict_def later_def)
        moreover have "registered ?q (the_uid ?r) = None" using out by (simp add: registered_None)
        ultimately show ?thesis using g t(2) by (simp add: pq_wp)
      qed
    qed
  qed
  have run: "running t = ?r" if "same_but_dict ?s t" for t
    using that by (simp add: same_but_dict_def)
  show ?thesis
    unfolding uid_dict_initialize_def wp_bnd [of get_queue_body] wp_get_queue_body split_conv wp_sq
      wp_uid_dict_clear wp_bnd [of get_running_item_info_body] wp_get_running_item_info_body
    by (rule wp_mono [OF reg]) (use fin run in auto)
qed

lemma wp_verify_all:
  assumes "\<And>j. j \<in> set js \<Longrightarrow> good_item j"
  shows "wp (mapP (\<lambda>item. bnd (lift (py_contains ''item_uid'' item)) (\<lambda>ok. ret (item, ok))) js) Q E s
     = Q (map (\<lambda>j. (j, True)) js) s"
  using assms
proof (induction js arbitrary: Q)
  case Nil
  then show ?case by (simp add: wp_rules)
next
  case (Cons j js)
  then show ?case by (simp add: wp_rules)
qed

lemma wp_queue_clean:
  assumes ok: "store_ok s"
  shows "wp queue_clean Q E s =
     Q () (set_sizes (int (length (queue s))) (pq_history_size s) (running s) s)"
proof -
  have q: "\<And>j. j \<in> set (queue s) \<Longrightarrow> good_item j" using ok by (simp add: store_ok_def)
  have "truthy (running s) \<Longrightarrow> good_item (running s)"
    using ok good_running_cases by (simp add: store_ok_def)
  then show ?thesis
    by (simp add: queue_clean_def pq_wp wp_verify_all [OF q] refresh_running_def)
qed

lemma default_mode_valid: "validate_plan_queue_mode (JDict plan_queue_mode_default) = Inr ()"
  by (simp add: validate_plan_queue_mode_def plan_queue_mode_default_def)

lemma pq_mode_view [simp]:
  "queue (s\<lparr>pq_mode := m\<rparr>) = queue s" "history (s\<lparr>pq_mode := m\<rparr>) = history s"
  "running (s\<lparr>pq_mode := m\<rparr>) = running s"
  by (simp_all add: queue_def history_def running_def name_defs)

lemma keeps_load_mode [keep_rules]: "keeps s load_plan_queue_mode"
proof -
  have get: "keeps s (st (\<lambda>s. store_get (name_plan_queue_mode s)))"
    by (auto simp: keeps_def wp_st store_get_def)
  have load: "keeps s (sq (lift (validate_plan_queue_mode m))
      (upd (\<lambda>s. s\<lparr>pq_mode := (case m of JDict d \<Rightarrow> d | _ \<Rightarrow> [])\<rparr>)))" for m
  proof (cases "validate_plan_queue_mode m")
    case (Inl e)
    then show ?thesis by (auto simp: keeps_def wp_rules)
  next
    case (Inr x)
    then obtain d where "m = JDict d" by (cases m) (simp_all add: validate_plan_queue_mode_def)
    then show ?thesis using Inr by (auto simp: keeps_def wp_rules safe_def later_def pq_wf_def)
  qed
  have dflt: "keeps s (upd (\<lambda>s. s\<lparr>pq_mode := plan_queue_mode_default\<rparr>))"
    by (rule keeps_set_mode_field [OF default_mode_valid])
  show ?thesis unfolding load_plan_queue_mode_def Let_def by (intro keep_rules get load dflt)
qed

text \<open>
  Start-up on a well-formed store: the invariant holds afterwards, also when the call raises
  because a plan left running by the immediate execution shares its UID with a queued item.
\<close>

lemma wp_pq_start:
  assumes ok: "store_ok s" and m: "mode_ok s" and closed: "\<not> pq_opened s"
  shows "wp (pq_start (Inr ())) (\<lambda>_. pq_wf) (\<lambda>_. pq_wf) s"
proof -
  let ?s = "s\<lparr>pq_has_lock := True, pq_opened := True\<rparr>"
  have v: "queue ?s = queue s" "history ?s = history s" "running ?s = running s"
    "queue (s\<lparr>pq_has_lock := True\<rparr>) = queue s"
    by (simp_all add: queue_def history_def running_def name_defs)
  have ok': "store_ok ?s" using ok by (simp add: store_ok_def v)
  let ?t = "set_sizes (int (length (queue ?s))) (pq_history_size ?s) (running ?s) ?s"
  have ok2: "store_ok ?t" "mode_ok ?t" using ok' m by (simp_all add: store_ok_def mode_ok_def)
  have rest: "wp (sq load_plan_queue_mode (sq refresh_all (sq renew_queue_uid renew_history_uid)))
      (\<lambda>_. pq_wf) (\<lambda>_. pq_wf) t" if "pq_wf t" for t
  proof -
    have "keeps t (sq load_plan_queue_mode (sq refresh_all (sq renew_queue_uid renew_history_uid)))"
      by (intro keep_rules)
    from keeps_start [OF this that] show ?thesis by (rule wp_mono) (auto simp: safe_def)
  qed
  note init = wp_uid_dict_initialize [OF ok2]
  have "wp uid_dict_initialize
      (\<lambda>_. wp (sq load_plan_queue_mode (sq refresh_all (sq renew_queue_uid renew_history_uid)))
        (\<lambda>_. pq_wf) (\<lambda>_. pq_wf)) (\<lambda>_. pq_wf) ?t"
    by (rule wp_mono [OF init]) (use rest in auto)
  then have "wp uid_dict_initialize
      (\<lambda>_. wp load_plan_queue_mode (\<lambda>_. wp refresh_all (\<lambda>_. wp renew_queue_uid (\<lambda>_. wp renew_history_uid
        (\<lambda>_. pq_wf) (\<lambda>_. pq_wf)) (\<lambda>_. pq_wf)) (\<lambda>_. pq_wf)) (\<lambda>_. pq_wf)) (\<lambda>_. pq_wf) ?t"
    by (simp add: wp_sq_fun)
  then show ?thesis
    using closed
    by (simp add: pq_start_def wp_sq_fun wp_bnd wp_gets wp_when_do wp_upd wp_lift
        wp_queue_clean [OF ok'] v)
qed

section \<open>Reachable states\<close>

text \<open>A new manager process on the same store: all memory is lost, the identifiers are new.\<close>

definition restarted :: "pq \<Rightarrow> pq" where
  "restarted s =
     (pq_init [] (pq_store s) (pq_uuids s) (pq_next s) (pq_clock s) (pq_tick s))
       \<lparr>pq_prefix := pq_prefix s\<rparr>"

inductive pq_reach :: "pq \<Rightarrow> bool" where
  first_start:
    "inj us \<Longrightarrow> pq_start (Inr ()) (pq_init name empty_store us 0 ck 0) = (r, s) \<Longrightarrow> pq_reach s"
| operation:
    "pq_reach s \<Longrightarrow> op_args_ok (pq_uuids s) (pq_next s) op \<Longrightarrow> run_op op s = (r, t) \<Longrightarrow> pq_reach t"
| restart:
    "pq_reach s \<Longrightarrow> pq_start (Inr ()) (restarted s) = (r, t) \<Longrightarrow> pq_reach t"
| stop_start:
    "pq_reach s \<Longrightarrow> pq_start (Inr ()) (snd (pq_stop s)) = (r, t) \<Longrightarrow> pq_reach t"

inductive_cases pq_reachE: "pq_reach s"

lemma wp_both: "wp m (\<lambda>_. P) (\<lambda>_. P) s \<Longrightarrow> m s = (r, t) \<Longrightarrow> P t"
  by (cases r) (auto simp: wp_def)

lemma view_restarted [simp]:
  "queue (restarted s) = queue s" "history (restarted s) = history s"
  "running (restarted s) = running s" "pq_uuids (restarted s) = pq_uuids s"
  "pq_next (restarted s) = pq_next s + 2" "pq_opened (restarted s) = False"
  "pq_mode (restarted s) = plan_queue_mode_default"
  by (simp_all add: restarted_def pq_init_def queue_def history_def running_def name_defs)

lemma store_ok_later:
  assumes "store_ok s" and "queue t = queue s" "history t = history s" "running t = running s"
    "pq_uuids t = pq_uuids s" "pq_next s \<le> pq_next t"
  shows "store_ok t"
  using assms unused_from_mono [of "pq_uuids s" "pq_next s" _ "pq_next t"] by (simp add: store_ok_def)

lemma pq_reach_wf: "pq_reach s \<Longrightarrow> pq_wf s"
proof (induction rule: pq_reach.induct)
  case (first_start us name ck r s)
  let ?i = "pq_init name empty_store us 0 ck 0"
  have "store_ok ?i"
    using first_start(1)
    by (simp add: store_ok_def pq_init_def empty_store_def queue_def history_def running_def
        good_running_def reserved_def)
  moreover have "mode_ok ?i" "\<not> pq_opened ?i"
    by (simp_all add: mode_ok_def pq_init_def default_mode_valid)
  ultimately show ?case using wp_both [OF wp_pq_start first_start(2)] by blast
next
  case (operation s op r t)
  then show ?case using wp_both [OF run_op_keeps] by (auto simp: safe_def)
next
  case (restart s r t)
  have "store_ok (restarted s)"
    by (rule store_ok_later [OF pq_wf_store_ok [OF restart(3)]]) simp_all
  moreover have "mode_ok (restarted s)" by (simp add: mode_ok_def default_mode_valid)
  ultimately show ?case using wp_both [OF wp_pq_start restart(2)] by simp
next
  case (stop_start s r t)
  have v: "snd (pq_stop s) = s\<lparr>pq_opened := False\<rparr>" by (simp add: pq_stop_def upd_def)
  have "store_ok (snd (pq_stop s))" unfolding v
    by (rule store_ok_later [OF pq_wf_store_ok [OF stop_start(3)]])
      (simp_all add: queue_def history_def running_def name_defs)
  moreover have "mode_ok (snd (pq_stop s))" using stop_start(3) by (simp add: v mode_ok_def pq_wf_def)
  ultimately show ?case using wp_both [OF wp_pq_start stop_start(2)] by (simp add: v)
qed

end
