(* ===== verification/PlanQueueProps.thy ===== *)
theory PlanQueueProps
  imports PlanQueueReach
begin

text \<open>
  The properties of the plan queue that its users rely on, each with a concrete instance.
\<close>

section \<open>A concrete queue for the instances\<close>

definition demo_uuid :: "nat \<Rightarrow> string" where
  "demo_uuid n = replicate n (CHR ''u'')"

definition demo_dict :: "string \<Rightarrow> dict" where
  "demo_dict u = [(''item_uid'', JStr u), (''item_type'', JStr ''plan''), (''name'', JStr ''count'')]"

definition demo_item :: "string \<Rightarrow> json" where
  "demo_item u = JDict (demo_dict u)"

definition demo_running :: "string \<Rightarrow> json" where
  "demo_running u = JDict [(''item_uid'', JStr u), (''item_type'', JStr ''plan''),
     (''properties'', JDict [(''time_start'', JFloat 7)])]"

definition demo_pq :: "string list \<Rightarrow> string option \<Rightarrow> bool \<Rightarrow> pq" where
  "demo_pq us run loop =
     \<lparr>pq_store = \<lparr>st_kv = (case run of None \<Rightarrow> (\<lambda>_. None)
                               | Some r \<Rightarrow> [''qs_running_plan'' \<mapsto> demo_running r]),
                  st_lists = (\<lambda>k. if k = ''qs_plan_queue'' then map demo_item us else [])\<rparr>,
      pq_prefix = ''qs_'',
      pq_uid_dict = (\<lambda>u. case u of
          JStr v \<Rightarrow> (if v \<in> set us then Some (demo_item v)
                     else if run = Some v then Some (demo_running v) else None)
        | _ \<Rightarrow> None),
      pq_opened = True, pq_has_lock = True, pq_queue_uid = [], pq_history_uid = [],
      pq_queue_size = int (length us), pq_history_size = 0,
      pq_running_info = (case run of None \<Rightarrow> JDict [] | Some r \<Rightarrow> demo_running r),
      pq_mode = [(''loop'', JBool loop), (''ignore_failures'', JBool False)],
      pq_uuids = demo_uuid, pq_next = 2, pq_clock = (\<lambda>n. rat_of_nat n), pq_tick = 9\<rparr>"

lemma inj_demo_uuid: "inj demo_uuid"
  by (metis demo_uuid_def injI length_replicate)

lemma demo_uid_unused:
  assumes "u = CHR ''i'' # v"
  shows "unused_from demo_uuid n (JStr u)"
  unfolding unused_from_def demo_uuid_def
proof (intro allI impI)
  fix k
  show "JStr u \<noteq> JStr (replicate k CHR ''u'')" using assms by (cases k) auto
qed

lemma demo_item_good [simp]:
  "good_item (demo_item u)" "the_uid (demo_item u) = JStr u"
  "good_item (demo_running u)" "the_uid (demo_running u) = JStr u"
  "good_running (demo_running u)" "is_immediate (demo_running u) = False"
  by (simp_all add: demo_item_def demo_dict_def demo_running_def good_item_def wf_dict_def dict_field_def the_uid_def
      raw_uid_def good_running_def is_immediate_def props_of_def del: py_key_raw)

lemma idle_good: "good_running (JDict [])"
  by (simp add: good_running_def)

lemma demo_view [simp]:
  "queue (demo_pq us run loop) = map demo_item us" "history (demo_pq us run loop) = []"
  "running (demo_pq us run loop) = (case run of None \<Rightarrow> JDict [] | Some r \<Rightarrow> demo_running r)"
  "pq_uuids (demo_pq us run loop) = demo_uuid" "pq_next (demo_pq us run loop) = 2"
  "pq_mode (demo_pq us run loop) = [(''loop'', JBool loop), (''ignore_failures'', JBool False)]"
  by (simp_all add: demo_pq_def queue_def history_def running_def name_defs split: option.splits)

lemma demo_wf:
  assumes "distinct us" and "\<forall>u \<in> set us. hd u = CHR ''i'' \<and> u \<noteq> []"
    and "case run of None \<Rightarrow> True | Some r \<Rightarrow> r \<notin> set us \<and> hd r = CHR ''i'' \<and> r \<noteq> []"
  shows "pq_wf (demo_pq us run loop)"
proof -
  have un: "unused_from demo_uuid 2 (JStr u)" if "hd u = CHR ''i''" "u \<noteq> []" for u
    using that demo_uid_unused [of u "tl u"] by (cases u) auto
  have d: "distinct (map the_uid (map demo_item us))"
    using assms(1) by (simp add: comp_def distinct_map inj_on_def)
  let ?D = "pq_uid_dict (demo_pq us run loop)"
  have D: "?D u = Some j \<Longrightarrow> \<exists>v. u = JStr v \<and> (v \<in> set us \<and> j = demo_item v \<or>
      run = Some v \<and> j = demo_running v)" for u j
    by (auto simp: demo_pq_def split: json.splits if_splits)
  have in_D: "?D (JStr v) = Some (demo_item v)" if "v \<in> set us" for v
    using that by (simp add: demo_pq_def)
  have run_D: "?D (JStr v) \<noteq> None" if "run = Some v" for v
    using that by (simp add: demo_pq_def)
  have "\<forall>u j. ?D u = Some j \<longrightarrow> good_item j \<and> the_uid j = u \<and> unused_from demo_uuid 2 u"
  proof (intro allI impI)
    fix u j
    assume "?D u = Some j"
    from D [OF this] obtain v where v: "u = JStr v" "v \<in> set us \<and> j = demo_item v \<or>
      run = Some v \<and> j = demo_running v" by blast
    then show "good_item j \<and> the_uid j = u \<and> unused_from demo_uuid 2 u"
      using un [of v] assms(2,3) by auto
  qed
  then have "queue_ok (map demo_item us) [] (case run of None \<Rightarrow> JDict [] | Some r \<Rightarrow> demo_running r)
      ?D demo_uuid 2"
    using inj_demo_uuid d in_D run_D assms(3) un
    unfolding queue_ok_def by (cases run) (auto simp: reserved_def idle_good)
  then show ?thesis
    by (simp add: pq_wf_def validate_plan_queue_mode_def)
qed

lemma demo_arg: "hd u = CHR ''i'' \<Longrightarrow> u \<noteq> [] \<Longrightarrow> item_arg_ok demo_uuid n (demo_item u)"
  using good_item_arg [of "demo_item u" demo_uuid n] demo_uid_unused [of u "tl u" n]
  by (cases u) auto

section \<open>Reachable states\<close>

text \<open>
  C1: in every state reachable through start-up, any sequence of public operations with any
  outcome, restarts and stop/start cycles, the items in the queue have pairwise distinct
  UIDs, each is registered in the UID dictionary with exactly the content that is stored, and
  the UID of a plan taken from the queue for execution stays reserved and is not in the queue.
\<close>

theorem reachable_queue_consistent:
  assumes "pq_reach s"
  shows "distinct (map the_uid (queue s)) \<and>
     (\<forall>j \<in> set (queue s). pq_uid_dict s (the_uid j) = Some j) \<and>
     (reserved (running s) \<longrightarrow>
        pq_uid_dict s (the_uid (running s)) \<noteq> None \<and> the_uid (running s) \<notin> the_uid ` set (queue s))"
  using queue_okD(3,4,7,8) [OF pq_wf_queue_ok [OF pq_reach_wf [OF assms]]] by blast

text \<open>A run: start on an empty store and add two items.\<close>

definition demo_started :: pq where
  "demo_started = snd (pq_start (Inr ()) (pq_init ''qs'' empty_store demo_uuid 0 (\<lambda>n. rat_of_nat n) 0))"

definition demo_added :: pq where
  "demo_added = snd (run_op (Op_add_item (demo_item ''i1'') JNull JNull JNull True) demo_started)"

lemma demo_added_reach: "pq_reach demo_added"
proof -
  have s: "pq_reach demo_started"
    unfolding demo_started_def by (rule first_start [OF inj_demo_uuid prod.collapse [symmetric]])
  have "op_args_ok (pq_uuids demo_started) (pq_next demo_started)
      (Op_add_item (demo_item ''i1'') JNull JNull JNull True)"
  proof -
    have "pq_uuids demo_started = demo_uuid"
      by (simp add: demo_started_def pq_start_def run_simps queue_clean_def uid_dict_initialize_def
          load_plan_queue_mode_def refresh_all_def refresh_running_def renew_queue_uid_def
          renew_history_uid_def new_item_uid_def get_queue_body_def refresh_queue_size_def
          refresh_history_size_def refresh_running_info_def get_queue_size_body_def
          get_history_size_body_def get_running_item_info_body_def uid_dict_clear_def
          store_defs pq_init_def empty_store_def name_defs Let_def default_mode_valid
          range_of_def resolve_range_def del: size_updates)
    then show ?thesis using demo_arg [of "''i1''"] by simp
  qed
  from operation [OF s this] show ?thesis unfolding demo_added_def by (metis prod.collapse)
qed

theorem reachable_queue_consistent_instance:
  "distinct (map the_uid (queue demo_added)) \<and>
   list_all (\<lambda>j. pq_uid_dict demo_added (the_uid j) = Some j) (queue demo_added)"
  using reachable_queue_consistent [OF demo_added_reach] by (simp add: list_all_iff)

section \<open>Positions\<close>

text \<open>The list index at which \<open>add_item_to_queue\<close> puts an item for an integer position.\<close>

definition add_index :: "int \<Rightarrow> nat \<Rightarrow> nat" where
  "add_index p n =
     (if p = 0 \<or> p < - int n then 0
      else if p = -1 \<or> p \<ge> int n then n
      else if p > 0 then nat p else nat (int n + p + 1))"

lemma insert_before_nth:
  assumes "k < length q" and "distinct q"
  shows "insert_at_pivot Before (q ! k) v q = Some (take k q @ v # drop k q)"
proof -
  have q: "q = take k q @ q ! k # drop (Suc k) q" by (rule id_take_nth_drop [OF assms(1)])
  then have "q ! k \<notin> set (take k q)" using assms(2) by (metis distinct_append disjoint_iff list.set_intros(1))
  then have "insert_at_pivot Before (q ! k) v (take k q @ q ! k # drop (Suc k) q)
      = Some (take k q @ v # q ! k # drop (Suc k) q)" by (simp add: insert_at_pivot_split)
  then show ?thesis using q assms(1) by (metis Cons_nth_drop_Suc)
qed

lemma place_item_index:
  assumes d: "distinct q"
  shows "place_item j (JInt p) JNull JNull q r D =
     Inr (Some (take (add_index p (length q)) q @ j # drop (add_index p (length q)) q))"
proof -
  let ?n = "int (length q)"
  consider "p = 0 \<or> p < - ?n" | "p = -1 \<or> p \<ge> ?n" "\<not> (p = 0 \<or> p < - ?n)"
    | "0 < p" "p < ?n" | "- ?n \<le> p" "p < -1" by linarith
  then show ?thesis
  proof cases
    case 1
    then show ?thesis by (auto simp: place_item_def clip_pos_def place_at_pos_def add_index_def)
  next
    case 2
    then show ?thesis by (auto simp: place_item_def clip_pos_def place_at_pos_def add_index_def)
  next
    case 3
    then have "index_of p q = Some (q ! nat p)" "nat p < length q"
      by (auto simp: index_of_def Let_def)
    then show ?thesis using 3 insert_before_nth [OF _ d, of "nat p" j]
      by (simp add: place_item_def clip_pos_def place_at_pos_def add_index_def)
  next
    case 4
    then have "index_of (p + 1) q = Some (q ! nat (?n + p + 1))" "nat (?n + p + 1) < length q"
      by (auto simp: index_of_def Let_def algebra_simps)
    then show ?thesis using 4 insert_before_nth [OF _ d, of "nat (?n + p + 1)" j]
      by (auto simp: place_item_def clip_pos_def place_at_pos_def add_index_def)
  qed
qed

lemma pq_wf_distinct: "pq_wf s \<Longrightarrow> distinct (queue s)"
  using distinct_uid_list queue_okD(4) pq_wf_queue_ok by blast

text \<open>
  C22: adding an item with a new UID at an integer position. The call returns the item with
  only the allowed parameters; it stands at the documented position (0 or beyond the front:
  first; -1 or beyond the back: last; other negative positions count from the back), the
  other items keep their order, the returned size is the length of the queue, and the UID is
  registered with the stored item.
\<close>

theorem add_item_at_position:
  assumes wf: "pq_wf s" and arg: "item_arg_ok (pq_uuids s) (pq_next s) (JDict d)"
    and uid: "dget d ''item_uid'' = Some v" "hashable v" "pq_uid_dict s (py_key v) = None"
  shows "wp (add_item_to_queue_body (JDict d) (JInt p) JNull JNull True)
     (\<lambda>(item, qsize) t.
        item = JDict (filter (\<lambda>kv. fst kv \<in> set allowed_item_parameters) d) \<and>
        queue t = take (add_index p (length (queue s))) (queue s) @ item #
                  drop (add_index p (length (queue s))) (queue s) \<and>
        qsize = int (length (queue t)) \<and> pq_queue_size t = qsize \<and>
        pq_uid_dict t = (pq_uid_dict s)(py_key v \<mapsto> item) \<and>
        history t = history s \<and> running t = running s)
     (\<lambda>_ _. False) s"
proof -
  let ?f = "JDict (filtered d)"
  have p: "prepared (JDict d) True (pq_uid_dict s) (pq_uuids s (pq_next s)) = Inr ?f"
    using uid by (simp add: prepared_def)
  have "good_item (JDict d)" using arg uid by (auto simp: item_arg_ok_def good_item_def)
  then have "the_uid ?f = the_uid (JDict d)" by (rule good_item_filtered)
  then have u: "the_uid ?f = py_key v" using uid by (simp add: the_uid_def raw_uid_def del: py_key_raw)
  have "prep_state (JDict d) s = s" using uid by (simp add: prep_state_def)
  then show ?thesis
    using p u place_item_index [OF pq_wf_distinct [OF wf]]
    by (simp add: wp_add_item [OF wf arg] filtered_def placed_size_def)
qed

theorem add_item_at_position_instance:
  "wp (add_item_to_queue_body (demo_item ''i9'') (JInt (-2)) JNull JNull True)
     (\<lambda>(item, qsize) t. queue t = map demo_item [''i1'', ''i2'', ''i9'', ''i3''] \<and> qsize = 4)
     (\<lambda>_ _. False) (demo_pq [''i1'', ''i2'', ''i3''] None False)"
proof -
  let ?s = "demo_pq [''i1'', ''i2'', ''i3''] None False"
  have wf: "pq_wf ?s" by (rule demo_wf) auto
  have arg: "item_arg_ok (pq_uuids ?s) (pq_next ?s) (demo_item ''i9'')"
    using demo_arg [of "''i9''" 2] by simp
  have new: "pq_uid_dict ?s (py_key (JStr ''i9'')) = None" by (simp add: demo_pq_def)
  have flt: "JDict (filter (\<lambda>kv. fst kv \<in> set allowed_item_parameters) (demo_dict ''i9'')) = demo_item ''i9''"
    by (simp add: demo_item_def demo_dict_def allowed_item_parameters_def)
  have ix: "add_index (-2) (Suc (Suc (Suc 0))) = Suc (Suc 0)" by (simp add: add_index_def)
  have uid: "dget (demo_dict ''i9'') ''item_uid'' = Some (JStr ''i9'')" by (simp add: demo_dict_def)
  show ?thesis
    unfolding demo_item_def [of "''i9''"]
    by (rule wp_mono [OF add_item_at_position [OF wf arg [unfolded demo_item_def] uid _ new]])
      (auto simp: flt ix demo_item_def [symmetric])
qed

section \<open>Taking items out\<close>

lemma index_of_Some: "index_of i q = Some x \<Longrightarrow>
   (let k = nat (if i < 0 then int (length q) + i else i) in k < length q \<and> x = q ! k)"
  by (auto simp: index_of_def Let_def split: if_splits)

lemma filter_nth_out:
  assumes "distinct q" "k < length q"
  shows "filter (\<lambda>x. x \<noteq> q ! k) q = take k q @ drop (Suc k) q"
proof -
  have q: "q = take k q @ q ! k # drop (Suc k) q" by (rule id_take_nth_drop [OF assms(2)])
  have "distinct (take k q @ q ! k # drop (Suc k) q)" by (subst q [symmetric]) (rule assms(1))
  then have "q ! k \<notin> set (take k q)" "q ! k \<notin> set (drop (Suc k) q)" by simp_all
  then have "filter (\<lambda>x. x \<noteq> q ! k) (take k q @ q ! k # drop (Suc k) q) = take k q @ drop (Suc k) q"
    by simp
  then show ?thesis by (subst (asm) q [symmetric])
qed

text \<open>
  popping by an integer position in range returns the item that stands there (negative
  positions count from the back), leaves the other items in their order, frees its UID and
  reports the new length; nothing else changes.
\<close>

theorem pop_item_at_position:
  assumes wf: "pq_wf s" and p: "- int (length (queue s)) \<le> p" "p < int (length (queue s))"
  shows "let k = nat (if p < 0 then int (length (queue s)) + p else p) in
     wp (pop_item_from_queue_body (JInt p) JNull)
       (\<lambda>(item, qsize) t.
          item = queue s ! k \<and> queue t = take k (queue s) @ drop (Suc k) (queue s) \<and>
          qsize = int (length (queue s)) - 1 \<and> pq_queue_size t = qsize \<and>
          pq_uid_dict t = (pq_uid_dict s)(the_uid item := None) \<and>
          history t = history s \<and> running t = running s)
       (\<lambda>_ _. False) s"
proof -
  let ?k = "nat (if p < 0 then int (length (queue s)) + p else p)"
  have k: "?k < length (queue s)" "index_of p (queue s) = Some (queue s ! ?k)"
    using p by (auto simp: index_of_def Let_def)
  have "pop_at (JInt p) (queue s) = Inr (queue s ! ?k, take ?k (queue s) @ drop (Suc ?k) (queue s))"
    using k filter_nth_out [OF pq_wf_distinct [OF wf] k(1)] by (simp add: pop_at_def)
  then show ?thesis unfolding Let_def
    using k(1) by (simp add: wp_pop_pos [OF wf] min_def of_nat_diff)
qed

theorem pop_item_at_position_instance:
  "wp (pop_item_from_queue_body (JInt (-3)) JNull)
     (\<lambda>(item, qsize) t. item = demo_item ''i1'' \<and> queue t = map demo_item [''i2'', ''i3''])
     (\<lambda>_ _. False) (demo_pq [''i1'', ''i2'', ''i3''] None False)"
proof -
  have wf: "pq_wf (demo_pq [''i1'', ''i2'', ''i3''] None False)" by (rule demo_wf) auto
  show ?thesis
    by (rule wp_mono [OF pop_item_at_position [OF wf, of "-3", unfolded Let_def]]) auto
qed

text \<open>
  adding an item and popping it by its UID restores the queue and the UID dictionary,
  wherever the item was put (unless the item that runs outside the queue has the same UID).
\<close>

theorem add_then_pop:
  assumes wf: "pq_wf s" and arg: "item_arg_ok (pq_uuids s) (pq_next s) (JDict d)"
    and uid: "dget d ''item_uid'' = Some v" "hashable v" "pq_uid_dict s (py_key v) = None" "v \<noteq> JNull"
    and run: "running s \<noteq> JDict [] \<Longrightarrow> the_uid (running s) \<noteq> py_key v"
  shows "wp (bnd (add_item_to_queue_body (JDict d) (JInt p) JNull JNull flt)
               (\<lambda>_. pop_item_from_queue_body JNull v))
     (\<lambda>(item, qsize) t. the_uid item = py_key v \<and> queue t = queue s \<and>
        pq_uid_dict t = pq_uid_dict s \<and> history t = history s \<and> running t = running s)
     (\<lambda>_ _. False) s"
proof -
  let ?f = "JDict (if flt then filtered d else d)"
  have p: "prepared (JDict d) flt (pq_uid_dict s) (pq_uuids s (pq_next s)) = Inr ?f"
    using uid by (simp add: prepared_def)
  have g: "good_item (JDict d)" using arg uid by (auto simp: item_arg_ok_def good_item_def)
  have "the_uid ?f = the_uid (JDict d)" using good_item_filtered [OF g] by simp
  then have u: "the_uid ?f = py_key v" using uid by (simp add: the_uid_def raw_uid_def del: py_key_raw)
  have ps: "prep_state (JDict d) s = s" using uid by (simp add: prep_state_def)
  let ?k = "add_index p (length (queue s))"
  let ?q = "take ?k (queue s) @ ?f # drop ?k (queue s)"
  note place = place_item_index [OF pq_wf_distinct [OF wf], of ?f p "running s" "pq_uid_dict s"]
  let ?t = "added ?f (Some ?q) s"
  have wft: "pq_wf ?t" using pq_wf_added_item [OF wf arg p place] ps by simp
  have "?f \<notin> set (queue s)" using queue_okD(3) [OF pq_wf_queue_ok [OF wf]] u uid(3) by fastforce
  then have "?f \<notin> set (take ?k (queue s))" "?f \<notin> set (drop ?k (queue s))"
    using in_set_takeD in_set_dropD by metis+
  then have fq: "filter (\<lambda>x. x \<noteq> ?f) ?q = queue s" by simp
  have "(pq_uid_dict s)(py_key v := None) = pq_uid_dict s" using uid(3) by (simp add: fun_upd_idem)
  moreover have run': "running s = JDict [] \<or> py_key v \<noteq> the_uid (running s)" using run by auto
  ultimately show ?thesis
    using p ps place u fq uid run'
    by (simp add: wp_bnd wp_add_item [OF wf arg] wp_pop_uid [OF wft uid(4)] Let_def)
qed

theorem add_then_pop_instance:
  "wp (bnd (add_item_to_queue_body (JDict (demo_dict ''i9'')) (JInt 1) JNull JNull True)
         (\<lambda>_. pop_item_from_queue_body JNull (JStr ''i9'')))
     (\<lambda>(item, qsize) t. queue t = map demo_item [''i1'', ''i2''])
     (\<lambda>_ _. False) (demo_pq [''i1'', ''i2''] (Some ''i5'') False)"
proof -
  let ?s = "demo_pq [''i1'', ''i2''] (Some ''i5'') False"
  have wf: "pq_wf ?s" by (rule demo_wf) auto
  have arg: "item_arg_ok (pq_uuids ?s) (pq_next ?s) (JDict (demo_dict ''i9''))"
    using demo_arg [of "''i9''" 2] by (simp add: demo_item_def)
  have new: "pq_uid_dict ?s (py_key (JStr ''i9'')) = None" by (simp add: demo_pq_def)
  have uid: "dget (demo_dict ''i9'') ''item_uid'' = Some (JStr ''i9'')" by (simp add: demo_dict_def)
  show ?thesis
    by (rule wp_mono [OF add_then_pop [OF wf arg uid _ new]]) auto
qed

section \<open>Replacing\<close>

lemma map_swap_nth:
  assumes "distinct q" "k < length q"
  shows "map (\<lambda>x. if x = q ! k then f else x) q = q[k := f]"
  using assms by (auto simp: list_eq_iff_nth_eq nth_list_update nth_eq_iff_index_eq)

text \<open>
  replacing a queued item that is not running by a different dictionary keeps its place:
  exactly that position changes, to the submitted item without the parameters that are not
  allowed; the size stays and the UID dictionary follows the new UID.
\<close>

theorem replace_item_in_place:
  assumes wf: "pq_wf s" and arg: "item_arg_ok (pq_uuids s) (pq_next s) (JDict d)"
    and uid: "dget d ''item_uid'' = Some v" "hashable v"
    and new: "py_key v = the_uid (queue s ! k) \<or> pq_uid_dict s (py_key v) = None"
    and k: "k < length (queue s)"
    and run: "running s \<noteq> JDict [] \<Longrightarrow> the_uid (running s) \<noteq> the_uid (queue s ! k)"
    and diff: "\<not> py_eq (JDict d) (queue s ! k)" "JDict (filtered d) \<noteq> queue s ! k"
  shows "wp (replace_item_body (JDict d) (raw_uid (queue s ! k)))
     (\<lambda>(item, qsize) t.
        item = JDict (filter (\<lambda>kv. fst kv \<in> set allowed_item_parameters) d) \<and>
        queue t = (queue s)[k := item] \<and> qsize = int (length (queue s)) \<and>
        pq_uid_dict t = (pq_uid_dict s)(the_uid (queue s ! k) := None, py_key v \<mapsto> item) \<and>
        history t = history s \<and> running t = running s)
     (\<lambda>_ _. False) s"
proof -
  let ?old = "queue s ! k"
  have old: "?old \<in> set (queue s)" "good_item ?old" "pq_uid_dict s (the_uid ?old) = Some ?old"
    using k pq_wf_item [OF wf nth_mem [OF k]] by auto
  have g: "good_item (JDict d)" using arg uid by (auto simp: item_arg_ok_def good_item_def)
  have vd: "the_uid (JDict d) = py_key v" using uid by (simp add: the_uid_def raw_uid_def del: py_key_raw)
  note fl = good_item_filtered [OF g, unfolded vd]
  have free: "the_uid (JDict (filtered d)) = py_key (raw_uid ?old) \<or>
      pq_uid_dict s (the_uid (JDict (filtered d))) = None"
    using new fl(2) by simp
  have old': "pq_uid_dict s (py_key (raw_uid ?old)) = Some ?old" using old(3) by simp
  note swap = wp_swap_item [OF wf old' good_item_hashable [OF old(2)] fl(1) free]
  have rn: "truthy (running s) \<Longrightarrow> good_item (running s) \<and> the_uid (running s) \<noteq> the_uid ?old"
    using run good_running_cases [OF pq_wf_running [OF wf]] good_item_not_empty by metis
  have chk: "py_in v [raw_uid ?old] \<or> pq_uid_dict s (py_key v) = None"
    using new old(2) by (auto simp: py_in_def)
  show ?thesis
    using uid old rn chk diff fl k map_swap_nth [OF pq_wf_distinct [OF wf] k, of "JDict (filtered d)"]
    by (auto simp: replace_item_body_def wp_rules wp_get_running_item_info_body wp_is_uid_in_dict
        wp_uid_dict_get_item wp_verify_item swap Let_def filtered_def [symmetric] split: option.splits)
qed

theorem replace_item_in_place_instance:
  "wp (replace_item_body (JDict (demo_dict ''i9'')) (raw_uid (demo_item ''i2'')))
     (\<lambda>(item, qsize) t. queue t = map demo_item [''i1'', ''i9'', ''i3''] \<and> qsize = 3)
     (\<lambda>_ _. False) (demo_pq [''i1'', ''i2'', ''i3''] None False)"
proof -
  let ?s = "demo_pq [''i1'', ''i2'', ''i3''] None False"
  have wf: "pq_wf ?s" by (rule demo_wf) auto
  have arg: "item_arg_ok (pq_uuids ?s) (pq_next ?s) (JDict (demo_dict ''i9''))"
    using demo_arg [of "''i9''" 2] by (simp add: demo_item_def)
  have uid: "dget (demo_dict ''i9'') ''item_uid'' = Some (JStr ''i9'')" by (simp add: demo_dict_def)
  have flt: "filtered (demo_dict ''i9'') = demo_dict ''i9''"
    by (simp add: filtered_def demo_dict_def allowed_item_parameters_def)
  have new: "py_key (JStr ''i9'') = the_uid (queue ?s ! 1) \<or> pq_uid_dict ?s (py_key (JStr ''i9'')) = None"
    by (simp add: demo_pq_def)
  have diff: "\<not> py_eq (JDict (demo_dict ''i9'')) (queue ?s ! 1)"
    "JDict (filtered (demo_dict ''i9'')) \<noteq> queue ?s ! 1"
    unfolding flt by (simp_all add: demo_dict_def demo_item_def)
  have "wp (replace_item_body (JDict (demo_dict ''i9'')) (raw_uid (queue ?s ! 1)))
     (\<lambda>(item, qsize) t. queue t = map demo_item [''i1'', ''i9'', ''i3''] \<and> qsize = 3)
     (\<lambda>_ _. False) ?s"
    by (rule wp_mono [OF replace_item_in_place [OF wf arg uid _ new _ _ diff]])
      (auto simp: flt [unfolded filtered_def] demo_item_def)
  then show ?thesis by simp
qed

end
