(* ===== verification/PlanQueueProps2.thy ===== *)
theory PlanQueueProps2
  imports PlanQueueProps
begin

text \<open>
  Properties of the plan queue's execution cycle, history, mode and resets, each with a
  concrete instance; and the cases in which an operation loses track of an item.
\<close>

section \<open>The execution cycle\<close>

lemma demo_plan_type: "item_type_of (demo_item u) = Some (JStr ''plan'')"
  by (simp add: item_type_of_def demo_item_def demo_dict_def)

text \<open>
  C25: \<open>set_next_item_as_running\<close> on an idle queue whose front item is a plan takes exactly
  that item, adds its start time, and keeps its UID reserved: an attempt to add an item with
  the same UID right afterwards raises RuntimeError and changes neither queue nor running
  item.
\<close>

theorem running_uid_is_reserved:
  assumes wf: "pq_wf s" and q: "queue s = j # js" and idle: "running s = JDict []"
    and plan: "item_type_of j = Some (JStr ''plan'')"
    and item: "dget d ''item_uid'' = Some v" "py_key v = the_uid j"
  shows "wp (bnd (set_next_item_as_running_body JNull) (\<lambda>plan.
               add_item_to_queue_body (JDict d) pos JNull JNull flt))
     (\<lambda>_ _. False)
     (\<lambda>e t. e = RuntimeError \<and> queue t = js \<and> running t = timed j s \<and>
        pq_uid_dict t = pq_uid_dict s) s"
proof -
  have j: "good_item j" "pq_uid_dict s (the_uid j) = Some j" using pq_wf_item [OF wf, of j] q by auto
  have "hashable v" using item(2) the_uid_hashable [OF j(1)] by (metis hashable_py_key)
  then show ?thesis
    using q idle plan item j
    by (simp add: set_next_item_as_running_body_def wp_bnd wp_catch wp_start_plan [OF wf] wp_sq
        wp_ret wp_refresh_queue_size wp_refresh_running_info refresh_running_def
        add_item_to_queue_body_def wp_fail_if prepare_item_def wp_lift wp_if wp_verify_item)
qed

theorem running_uid_is_reserved_instance:
  "wp (bnd (set_next_item_as_running_body JNull) (\<lambda>plan.
         add_item_to_queue_body (JDict (demo_dict ''i1'')) JNull JNull JNull True))
     (\<lambda>_ _. False)
     (\<lambda>e t. e = RuntimeError \<and> queue t = [demo_item ''i2''])
     (demo_pq [''i1'', ''i2''] None False)"
proof -
  have wf: "pq_wf (demo_pq [''i1'', ''i2''] None False)" by (rule demo_wf) auto
  show ?thesis
    by (rule wp_mono [OF running_uid_is_reserved [OF wf _ _ demo_plan_type, of "''i1''"
          "[demo_item ''i2'']" "demo_dict ''i1''" "JStr ''i1''"]])
      (auto simp: demo_dict_def)
qed

text \<open>
  C20: completing a plan that came from the queue moves it to the end of the history, with
  its UID and the reported exit status, and clears the running item. In loop mode a copy
  with a fresh UID, without the temporary properties, goes to the back of the queue and is
  registered; otherwise the queue stays. In both cases the UID of the finished item is free
  again and the cached sizes equal the stored ones.
\<close>

theorem complete_plan:
  assumes wf: "pq_wf s" and loop: "dget (pq_mode s) ''loop'' = Some (JBool b)"
    and r: "running s \<noteq> JDict []" "\<not> is_immediate (running s)"
  shows "wp (set_processed_item_as_completed_body es ru si em et)
     (\<lambda>entry t.
        the_uid entry = the_uid (running s) \<and> history t = history s @ [entry] \<and>
        (\<exists>d res. entry = JDict d \<and> dget d ''result'' = Some (JDict res) \<and>
           dget res ''exit_status'' = Some es \<and> dget res ''run_uids'' = Some ru) \<and>
        running t = JDict [] \<and>
        queue t = (if b then queue s @ [with_uid (pq_uuids s (pq_next s)) (cleaned (running s))]
                   else queue s) \<and>
        pq_uid_dict t (the_uid (running s)) = None \<and>
        (b \<longrightarrow> pq_uid_dict t (JStr (pq_uuids s (pq_next s))) = Some (last (queue t))) \<and>
        pq_queue_size t = int (length (queue t)) \<and> pq_history_size t = int (length (history t)))
     (\<lambda>_ _. False) s"
proof -
  have l: "item_at (pq_mode s) ''loop'' = Inr (JBool b)" using loop by simp
  have g: "good_item (running s)" using pq_wf_running [OF wf] r by (simp add: good_running_def)
  obtain d where d: "cleaned (running s) = JDict d" using cleaned_dict [OF g] by blast
  have res: "\<exists>d res. finished es ru si em et s = JDict d \<and> dget d ''result'' = Some (JDict res) \<and>
           dget res ''exit_status'' = Some es \<and> dget res ''run_uids'' = Some ru"
    by (simp add: finished_def d with_result_def dict_simps)
  have u: "unused_from (pq_uuids s) (pq_next s) (the_uid (running s))"
    using queue_okD(12) [OF pq_wf_queue_ok [OF wf]] r by simp
  then have ne: "JStr (pq_uuids s (pq_next s)) \<noteq> the_uid (running s)"
    by (auto simp: unused_from_def)
  show ?thesis
    by (rule wp_mono [OF wp_completed [OF wf l r(1)]])
      (use r ne finished_good(2) [OF wf r(1)] res in \<open>auto simp: Let_def has_view_def\<close>)
qed

theorem complete_plan_instance:
  "wp (set_processed_item_as_completed_body (JStr ''completed'') (JList []) (JList []) (JStr []) (JStr []))
     (\<lambda>entry t. the_uid entry = JStr ''i5'' \<and> length (queue t) = 2 \<and> history t = [entry])
     (\<lambda>_ _. False) (demo_pq [''i1''] (Some ''i5'') True)"
proof -
  have wf: "pq_wf (demo_pq [''i1''] (Some ''i5'') True)" by (rule demo_wf) auto
  have ne: "demo_running ''i5'' \<noteq> JDict []" by (simp add: demo_running_def)
  show ?thesis
    by (rule wp_mono [OF complete_plan [OF wf, of True]]) (use ne in auto)
qed

text \<open>
  a plan from the queue that fails, is aborted or halted is recorded in the history under
  its UID and returns to the front of the queue with a fresh UID and its result, whether or
  not the loop mode is on; its old UID is free, the new one is registered.
\<close>

theorem failed_plan_returns:
  assumes wf: "pq_wf s" and r: "running s \<noteq> JDict []" "\<not> is_immediate (running s)"
    and es: "\<not> py_eq es (JStr ''stopped'')"
  shows "wp (set_processed_item_as_stopped_body es ru si em et)
     (\<lambda>entry t.
        the_uid entry = the_uid (running s) \<and> history t = history s @ [entry] \<and>
        running t = JDict [] \<and>
        (\<exists>n. queue t = with_uid (pq_uuids s n) entry # queue s \<and> pq_next s \<le> n \<and>
           pq_uid_dict t (JStr (pq_uuids s n)) = Some (with_uid (pq_uuids s n) entry)) \<and>
        pq_uid_dict t (the_uid (running s)) = None \<and>
        pq_queue_size t = int (length (queue s)) + 1 \<and>
        pq_history_size t = int (length (history s)) + 1)
     (\<lambda>_ _. False) s"
proof -
  have u: "unused_from (pq_uuids s) (pq_next s) (the_uid (running s))"
    using queue_okD(12) [OF pq_wf_queue_ok [OF wf]] r by simp
  moreover have "pq_next s \<le> Suc (Suc (pq_next s))" by simp
  ultimately have ne: "JStr (pq_uuids s (Suc (Suc (pq_next s)))) \<noteq> the_uid (running s)"
    unfolding unused_from_def by metis
  show ?thesis
    by (rule wp_mono [OF wp_stopped [OF wf r(1) es]])
      (use r ne finished_good(2) [OF wf r(1)] in
        \<open>auto simp: Let_def has_view_def intro!: exI [of _ "Suc (Suc (pq_next s))"]\<close>)
qed

theorem failed_plan_returns_instance:
  "wp (set_processed_item_as_stopped_body (JStr ''failed'') (JList []) (JList []) (JStr []) (JStr []))
     (\<lambda>entry t. the_uid entry = JStr ''i5'' \<and> length (queue t) = 2 \<and> history t = [entry])
     (\<lambda>_ _. False) (demo_pq [''i1''] (Some ''i5'') True)"
proof -
  have wf: "pq_wf (demo_pq [''i1''] (Some ''i5'') True)" by (rule demo_wf) auto
  have ne: "demo_running ''i5'' \<noteq> JDict []" by (simp add: demo_running_def)
  show ?thesis
    by (rule wp_mono [OF failed_plan_returns [OF wf]]) (use ne in auto)
qed

section \<open>History and mode\<close>

lemma history_uid_effects [simp]:
  "pq_history_uid (set_sizes q h r s) = pq_history_uid s"
  "pq_history_uid (set_history xs s) = pq_history_uid s"
  "pq_history_uid (bump_history s) = pq_uuids s (pq_next s)"
  by (simp_all add: effect_defs del: size_updates)

text \<open>
  trimming the history to a size keeps exactly the most recent entries, at most that
  many (none for a negative size); a size that is not smaller changes nothing. The queue and
  the running item are untouched, and the history UID changes exactly when entries go.
\<close>

theorem trim_history_keeps_recent:
  "wp (trim_history_body (Some n) JNull)
     (\<lambda>_ t. history t = drop (length (history s) - min (nat n) (length (history s))) (history s) \<and>
        pq_history_size t = int (length (history t)) \<and>
        queue t = queue s \<and> running t = running s \<and> pq_uid_dict t = pq_uid_dict s \<and>
        pq_history_uid t = (if n < int (length (history s)) then pq_uuids s (pq_next s) else pq_history_uid s))
     (\<lambda>_ _. False) s"
proof (cases "n < int (length (history s))")
  case True
  let ?m = "max (min n (int (length (history s)))) 0"
  have "range_of (int (length (history s)) - ?m) (-1) (history s)
      = drop (length (history s) - min (nat n) (length (history s))) (history s)"
    using True by (subst range_of_suffix) (auto simp: nat_diff_distrib max_def min_def)
  then show ?thesis using True
    by (simp add: trim_history_body_def pq_wp Let_def)
next
  case False
  then show ?thesis by (simp add: trim_history_body_def pq_wp)
qed

text \<open>
  setting the queue mode either makes the validated mode current and stores it, or
  raises and leaves the whole state as it was; a mode is accepted only if it is complete,
  boolean-valued and free of unknown parameters.
\<close>

theorem set_mode_validates:
  assumes "pq_has_lock s"
  shows "wp (set_plan_queue_mode m u)
     (\<lambda>_ t. validate_plan_queue_mode (JDict (pq_mode t)) = Inr () \<and>
        pq_mode t = (if m = JStr ''default'' then plan_queue_mode_default
                     else case m of JDict d \<Rightarrow> (if u then dupdate (pq_mode s) d else d) | _ \<Rightarrow> []) \<and>
        st_kv (pq_store t) (name_plan_queue_mode t) = Some (JDict (pq_mode t)) \<and>
        queue t = queue s \<and> history t = history s \<and> running t = running s \<and>
        pq_uid_dict t = pq_uid_dict s)
     (\<lambda>_ t. t = s) s"
proof -
  have m: "\<not> (\<not> is_dict m \<and> m \<noteq> JStr ''default'') \<Longrightarrow> m = JStr ''default'' \<or> (\<exists>d. m = JDict d)"
    by (cases m) auto
  let ?v = "\<lambda>d s. s\<lparr>pq_mode := d, pq_store := snd (store_set (name_plan_queue_mode s) (JDict d) (pq_store s))\<rparr>"
  have v: "queue (?v d s) = queue s" "history (?v d s) = history s" "running (?v d s) = running s"
    "st_kv (pq_store (?v d s)) (name_plan_queue_mode (?v d s)) = Some (JDict d)" for d
    by (simp_all add: queue_def history_def running_def name_defs store_set_def)
  show ?thesis
    using assms m
    by (auto simp: set_plan_queue_mode_def wp_rules wp_with_lock wp_st split_beta v Let_def
        validate_plan_queue_mode_def name_defs store_set_def queue_def history_def running_def
        split: sum.splits json.splits)
qed

theorem set_mode_validates_instance:
  "wp (set_plan_queue_mode (JDict [(''loop'', JBool True)]) True)
     (\<lambda>_ t. dget (pq_mode t) ''loop'' = Some (JBool True)) (\<lambda>_ t. t = demo_pq [] None False)
     (demo_pq [] None False)"
  by (rule wp_mono [OF set_mode_validates]) (auto simp: demo_pq_def dupdate_def)

end
