(* ===== verification/DeviceRegistry.thy ===== *)
theory DeviceRegistry
  imports PyValue
begin

text \<open>
  The in-memory device registry of the configuration service (\<open>models.py\<close>, class
  \<open>DeviceRegistry\<close>): devices, their instantiation specifications and the index from EPICS
  PVs to owning devices, with the re-homing of shared and standalone PVs. Dictionaries keep
  insertion order, because re-homing takes the first other device that lists a PV.
\<close>

section \<open>Data\<close>

datatype device_label = MOTOR | DETECTOR | SIGNAL | FLYER | READABLE | DEVICE

record device =
  dev_name :: string
  dev_label :: device_label
  dev_ophyd_class :: string
  dev_module :: "string option"
  is_movable :: bool
  is_flyable :: bool
  is_readable :: bool
  is_triggerable :: bool
  is_stageable :: bool
  is_configurable :: bool
  is_pausable :: bool
  is_stoppable :: bool
  is_subscribable :: bool
  is_checkable :: bool
  writes_external_assets :: bool
  dev_pvs :: "(string \<times> string) list"
  dev_hints :: "dict option"
  read_attrs :: "string list"
  configuration_attrs :: "string list"
  dev_parent :: "string option"
  dev_labels :: "string list"
  beamline :: "string option"
  location_group :: "string option"
  functional_group :: "string option"
  documentation :: "string option"

datatype framework = Ophyd_sync | Ophyd_async

record spec =
  spec_name :: string
  device_class :: string
  spec_args :: "json list"
  spec_kwargs :: dict
  active :: bool
  spec_framework :: "framework option"

record pv_meta =
  pv :: string
  connected :: bool
  dtype :: "string option"
  units :: "string option"
  precision :: "int option"
  enum_strs :: "string list option"
  upper_ctrl_limit :: "rat option"
  lower_ctrl_limit :: "rat option"
  pv_device :: "string option"
  pv_component :: "string option"

definition new_pv :: "string \<Rightarrow> string option \<Rightarrow> string option \<Rightarrow> pv_meta" where
  "new_pv p d c = \<lparr>pv = p, connected = False, dtype = None, units = None, precision = None,
     enum_strs = None, upper_ctrl_limit = None, lower_ctrl_limit = None,
     pv_device = d, pv_component = c\<rparr>"

record registry =
  devices :: "(string \<times> device) list"
  pv_index :: "(string \<times> pv_meta) list"
  specs :: "(string \<times> spec) list"
  standalone :: "string list"

definition empty_registry :: registry where
  "empty_registry = \<lparr>devices = [], pv_index = [], specs = [], standalone = []\<rparr>"

text \<open>Printable ASCII without whitespace, and for device names without \<open>/\<close>.\<close>

definition printable_ascii :: "string \<Rightarrow> bool" where
  "printable_ascii s \<longleftrightarrow>
     s \<noteq> [] \<and> list_all (\<lambda>c. (of_char c :: nat) \<ge> 33 \<and> (of_char c :: nat) \<le> 126) s"

definition validate_device_name :: "string \<Rightarrow> py_error + string" where
  "validate_device_name s =
     (if \<not> printable_ascii s \<or> CHR ''/'' \<in> set s then Inl ValueError else Inr s)"

definition validate_pv_value :: "string \<Rightarrow> py_error + string" where
  "validate_pv_value s = (if \<not> printable_ascii s then Inl ValueError else Inr s)"

section \<open>Lookups\<close>

definition get_device :: "string \<Rightarrow> registry \<Rightarrow> device option" where
  "get_device n r = dget (devices r) n"

definition get_pv :: "string \<Rightarrow> registry \<Rightarrow> pv_meta option" where
  "get_pv p r = dget (pv_index r) p"

definition get_instantiation_spec :: "string \<Rightarrow> registry \<Rightarrow> spec option" where
  "get_instantiation_spec n r = dget (specs r) n"

definition list_instantiation_specs :: "bool \<Rightarrow> registry \<Rightarrow> (string \<times> spec) list" where
  "list_instantiation_specs active_only r =
     (if active_only then filter (\<lambda>ns. active (snd ns)) (specs r) else specs r)"

section \<open>Changes\<close>

text \<open>The PVs of a device are indexed one by one; an indexed PV changes hands.\<close>

definition index_pv :: "string \<Rightarrow> string \<times> string \<Rightarrow> (string \<times> pv_meta) list \<Rightarrow> (string \<times> pv_meta) list" where
  "index_pv name cp idx =
     (case dget idx (snd cp) of
        None \<Rightarrow> dset (snd cp) (new_pv (snd cp) (Some name) (Some (fst cp))) idx
      | Some m \<Rightarrow> dset (snd cp) (m\<lparr>pv_device := Some name, pv_component := Some (fst cp)\<rparr>) idx)"

definition add_device :: "device \<Rightarrow> spec option \<Rightarrow> registry \<Rightarrow> registry" where
  "add_device d sp r =
     r\<lparr>devices := dset (dev_name d) d (devices r),
       specs := (case sp of None \<Rightarrow> specs r | Some s \<Rightarrow> dset (dev_name d) s (specs r)),
       pv_index := fold (index_pv (dev_name d)) (dev_pvs d) (pv_index r)\<rparr>"

definition add_standalone_pv :: "string \<Rightarrow> registry \<Rightarrow> registry" where
  "add_standalone_pv p r =
     r\<lparr>standalone := List.insert p (standalone r),
       pv_index := (case dget (pv_index r) p of
          None \<Rightarrow> dset p (new_pv p None None) (pv_index r) | Some _ \<Rightarrow> pv_index r)\<rparr>"

definition remove_standalone_pv :: "string \<Rightarrow> registry \<Rightarrow> registry" where
  "remove_standalone_pv p r =
     r\<lparr>standalone := removeAll p (standalone r),
       pv_index := (case dget (pv_index r) p of
          Some m \<Rightarrow> (if pv_device m = None then ddel p (pv_index r) else pv_index r)
        | None \<Rightarrow> pv_index r)\<rparr>"

text \<open>The first component of a device that stands for the PV.\<close>

fun component_of :: "string \<Rightarrow> (string \<times> string) list \<Rightarrow> string option" where
  "component_of p [] = None"
| "component_of p ((c, q) # cs) = (if q = p then Some c else component_of p cs)"

fun new_owner :: "string \<Rightarrow> string \<Rightarrow> (string \<times> device) list \<Rightarrow> (string \<times> string) option" where
  "new_owner name p [] = None"
| "new_owner name p ((n, d) # ds) =
     (if n = name then new_owner name p ds
      else case component_of p (dev_pvs d) of
          Some c \<Rightarrow> Some (n, c)
        | None \<Rightarrow> new_owner name p ds)"

definition release_pv :: "string \<Rightarrow> string \<Rightarrow> registry \<Rightarrow> registry" where
  "release_pv name p r =
     (case dget (pv_index r) p of
        None \<Rightarrow> r
      | Some m \<Rightarrow>
          (case new_owner name p (devices r) of
             Some (n, c) \<Rightarrow>
               r\<lparr>pv_index := dset p (m\<lparr>pv_device := Some n, pv_component := Some c\<rparr>) (pv_index r)\<rparr>
           | None \<Rightarrow>
               if p \<in> set (standalone r)
               then r\<lparr>pv_index := dset p (m\<lparr>pv_device := None, pv_component := None\<rparr>) (pv_index r)\<rparr>
               else r\<lparr>pv_index := ddel p (pv_index r)\<rparr>))"

definition release_pv_ownership :: "string \<Rightarrow> registry \<Rightarrow> registry" where
  "release_pv_ownership name r =
     fold (release_pv name)
       (map fst (filter (\<lambda>pm. pv_device (snd pm) = Some name) (pv_index r))) r"

definition remove_device :: "string \<Rightarrow> registry \<Rightarrow> bool \<times> registry" where
  "remove_device name r =
     (if dget (devices r) name = None then (False, r)
      else (let r1 = release_pv_ownership name r
            in (True, r1\<lparr>specs := ddel name (specs r1), devices := ddel name (devices r1)\<rparr>)))"

definition update_device :: "device \<Rightarrow> spec option \<Rightarrow> registry \<Rightarrow> bool \<times> registry" where
  "update_device d sp r =
     (if dget (devices r) (dev_name d) = None then (False, r)
      else (True, add_device d sp (release_pv_ownership (dev_name d) r)))"

section \<open>The PV index\<close>

definition lists_pv :: "string \<Rightarrow> (string \<times> string) list \<Rightarrow> bool" where
  "lists_pv p cs \<longleftrightarrow> p \<in> snd ` set cs"

text \<open>
  The index is exact: an owned entry names a registered device and a component of it that
  stands for the PV; an unowned one is a standalone PV that no device lists; and every PV of
  a device and every standalone PV has an entry. Except for the PVs in \<open>X\<close>, whose entries
  may be in any state.
\<close>

definition entry_ok :: "registry \<Rightarrow> string \<Rightarrow> bool" where
  "entry_ok r p \<longleftrightarrow>
     (case dget (pv_index r) p of
        None \<Rightarrow> p \<notin> set (standalone r) \<and> (\<forall>nd \<in> set (devices r). \<not> lists_pv p (dev_pvs (snd nd)))
      | Some m \<Rightarrow>
          (case pv_device m of
             None \<Rightarrow> p \<in> set (standalone r) \<and> (\<forall>nd \<in> set (devices r). \<not> lists_pv p (dev_pvs (snd nd)))
           | Some n \<Rightarrow> (\<exists>d c. dget (devices r) n = Some d \<and> pv_component m = Some c \<and>
                          (c, p) \<in> set (dev_pvs d))))"

definition reg_inv :: "registry \<Rightarrow> bool" where
  "reg_inv r \<longleftrightarrow> wf_dict (devices r) \<and> wf_dict (pv_index r) \<and> wf_dict (specs r) \<and>
     (\<forall>nd \<in> set (devices r). dev_name (snd nd) = fst nd) \<and> (\<forall>p. entry_ok r p)"

lemma dget_mem: "wf_dict d \<Longrightarrow> (k, v) \<in> set d \<longleftrightarrow> dget d k = Some v"
  by (simp add: wf_dict_def)

lemma set_dset:
  "wf_dict d \<Longrightarrow> set (dset k v d) = insert (k, v) {kv \<in> set d. fst kv \<noteq> k}"
  using wf_dset [of d k v] by (auto simp: dget_mem dget_dset split: if_splits)

lemma set_ddel: "set (ddel k d) = {kv \<in> set d. fst kv \<noteq> k}"
  by (auto simp: ddel_def)

lemma component_of_Some: "component_of p cs = Some c \<Longrightarrow> (c, p) \<in> set cs"
  by (induction p cs rule: component_of.induct) (auto split: if_splits)

lemma component_of_None: "component_of p cs = None \<longleftrightarrow> \<not> lists_pv p cs"
  by (induction p cs rule: component_of.induct) (auto simp: lists_pv_def)

lemma new_owner_Some:
  "new_owner name p ds = Some (n, c) \<Longrightarrow> n \<noteq> name \<and> (\<exists>d. (n, d) \<in> set ds \<and> (c, p) \<in> set (dev_pvs d))"
  by (induction name p ds rule: new_owner.induct)
    (auto split: if_splits option.splits dest: component_of_Some)

lemma new_owner_None:
  "new_owner name p ds = None \<longleftrightarrow> (\<forall>(n, d) \<in> set ds. n \<noteq> name \<longrightarrow> \<not> lists_pv p (dev_pvs d))"
  by (induction name p ds rule: new_owner.induct)
    (auto split: option.splits simp: component_of_None [symmetric])

text \<open>What happens to one owned entry when its owner gives it up.\<close>

definition released :: "string \<Rightarrow> string \<Rightarrow> registry \<Rightarrow> pv_meta option" where
  "released name p r =
     (case dget (pv_index r) p of
        None \<Rightarrow> None
      | Some m \<Rightarrow>
          (case new_owner name p (devices r) of
             Some (n, c) \<Rightarrow> Some (m\<lparr>pv_device := Some n, pv_component := Some c\<rparr>)
           | None \<Rightarrow>
               if p \<in> set (standalone r) then Some (m\<lparr>pv_device := None, pv_component := None\<rparr>)
               else None))"

lemma release_pv_frame [simp]:
  "devices (release_pv name p r) = devices r" "standalone (release_pv name p r) = standalone r"
  "specs (release_pv name p r) = specs r"
  by (simp_all add: release_pv_def split: option.splits)

lemma dget_release_pv:
  "dget (pv_index (release_pv name p r)) q =
     (if q = p then released name p r else dget (pv_index r) q)"
  by (auto simp: release_pv_def released_def dict_simps split: option.splits)

lemma wf_release_pv: "wf_dict (pv_index r) \<Longrightarrow> wf_dict (pv_index (release_pv name p r))"
  by (auto simp: release_pv_def split: option.splits)

lemma release_fold:
  "distinct ps \<Longrightarrow>
   dget (pv_index (fold (release_pv name) ps r)) q =
     (if q \<in> set ps then released name q r else dget (pv_index r) q) \<and>
   devices (fold (release_pv name) ps r) = devices r \<and>
   standalone (fold (release_pv name) ps r) = standalone r \<and>
   specs (fold (release_pv name) ps r) = specs r"
proof (induction ps arbitrary: r)
  case (Cons p ps)
  have "released name q (release_pv name p r) = released name q r" if "q \<noteq> p"
    using that by (simp add: released_def dget_release_pv cong: option.case_cong)
  then show ?case using Cons by (auto simp: dget_release_pv)
qed simp

lemma wf_release_fold:
  "wf_dict (pv_index r) \<Longrightarrow> wf_dict (pv_index (fold (release_pv name) ps r))"
  by (induction ps arbitrary: r) (auto intro: wf_release_pv)

lemma release_ownership:
  assumes "wf_dict (pv_index r)"
  shows "dget (pv_index (release_pv_ownership name r)) q =
     (case dget (pv_index r) q of
        Some m \<Rightarrow> if pv_device m = Some name then released name q r else Some m
      | None \<Rightarrow> None)"
    and "devices (release_pv_ownership name r) = devices r"
    and "standalone (release_pv_ownership name r) = standalone r"
    and "specs (release_pv_ownership name r) = specs r"
    and "wf_dict (pv_index (release_pv_ownership name r))"
proof -
  let ?ps = "map fst (filter (\<lambda>pm. pv_device (snd pm) = Some name) (pv_index r))"
  have d: "distinct ?ps" using assms by (simp add: wf_dict_def distinct_map_filter)
  have mem: "q \<in> set ?ps \<longleftrightarrow> (\<exists>m. dget (pv_index r) q = Some m \<and> pv_device m = Some name)"
    using dget_mem [OF assms] by force
  note f = release_fold [OF d, of name r q]
  show "dget (pv_index (release_pv_ownership name r)) q =
     (case dget (pv_index r) q of
        Some m \<Rightarrow> if pv_device m = Some name then released name q r else Some m
      | None \<Rightarrow> None)"
    unfolding release_pv_ownership_def using f mem by (auto split: option.splits)
  show "devices (release_pv_ownership name r) = devices r"
    "standalone (release_pv_ownership name r) = standalone r"
    "specs (release_pv_ownership name r) = specs r"
    using f by (simp_all add: release_pv_ownership_def)
  show "wf_dict (pv_index (release_pv_ownership name r))"
    unfolding release_pv_ownership_def by (rule wf_release_fold [OF assms])
qed

text \<open>After a device gave up its PVs, the index is exact for the registry without it.\<close>

lemma released_entry_ok:
  assumes inv: "reg_inv r"
  shows "entry_ok ((release_pv_ownership name r)\<lparr>devices := ddel name (devices r)\<rparr>) p"
proof -
  have wf: "wf_dict (devices r)" "wf_dict (pv_index r)" and e: "entry_ok r p"
    using inv by (auto simp: reg_inv_def)
  note rel = release_ownership [OF wf(2)]
  have others: "(\<forall>nd \<in> set (ddel name (devices r)). \<not> lists_pv p (dev_pvs (snd nd)))
      \<longleftrightarrow> new_owner name p (devices r) = None"
    by (auto simp: new_owner_None set_ddel)
  show ?thesis
  proof (cases "dget (pv_index r) p")
    case None
    then show ?thesis using e by (auto simp: entry_ok_def rel set_ddel)
  next
    case (Some m)
    show ?thesis
    proof (cases "pv_device m = Some name")
      case True
      show ?thesis
      proof (cases "new_owner name p (devices r)")
        case None
        then show ?thesis using Some True others
          by (auto simp: entry_ok_def rel released_def)
      next
        case (Some nc)
        obtain n c where nc: "nc = (n, c)" by (cases nc)
        obtain d where "n \<noteq> name" "dget (devices r) n = Some d" "(c, p) \<in> set (dev_pvs d)"
          using new_owner_Some [OF Some [unfolded nc]] dget_mem [OF wf(1)] by blast
        then show ?thesis using Some nc True \<open>dget (pv_index r) p = Some m\<close>
          by (auto simp: entry_ok_def rel released_def dict_simps)
      qed
    next
      case False
      then show ?thesis using e Some
        by (auto simp: entry_ok_def rel dict_simps set_ddel split: option.splits)
    qed
  qed
qed

lemma wf_index_fold: "wf_dict idx \<Longrightarrow> wf_dict (fold (index_pv n) cps idx)"
  by (induction cps arbitrary: idx) (auto simp: index_pv_def split: option.splits)

lemma dget_index_fold:
  "(lists_pv q cps \<longrightarrow> (\<exists>m c. dget (fold (index_pv n) cps idx) q = Some m \<and> pv_device m = Some n \<and>
       pv_component m = Some c \<and> (c, q) \<in> set cps)) \<and>
   (\<not> lists_pv q cps \<longrightarrow> dget (fold (index_pv n) cps idx) q = dget idx q)"
proof (induction cps rule: rev_induct)
  case Nil
  then show ?case by (simp add: lists_pv_def)
next
  case (snoc cp cps)
  obtain c p where cp: "cp = (c, p)" by (cases cp)
  show ?case
  proof (cases "p = q")
    case True
    then show ?thesis
      by (auto simp: cp index_pv_def dict_simps lists_pv_def new_pv_def split: option.splits)
  next
    case False
    then have "dget (fold (index_pv n) (cps @ [cp]) idx) q = dget (fold (index_pv n) cps idx) q"
      by (auto simp: cp index_pv_def dict_simps split: option.splits)
    moreover have "lists_pv q (cps @ [cp]) = lists_pv q cps" using False by (auto simp: cp lists_pv_def)
    ultimately show ?thesis using snoc by auto
  qed
qed

lemma add_device_entry_ok:
  assumes wf: "wf_dict (devices r)"
    and e: "entry_ok (r\<lparr>devices := ddel (dev_name d) (devices r)\<rparr>) p"
  shows "entry_ok (add_device d sp r) p"
proof -
  let ?n = "dev_name d"
  have ds: "set (dset ?n d (devices r)) = insert (?n, d) (set (ddel ?n (devices r)))"
    by (auto simp: set_dset [OF wf] set_ddel)
  show ?thesis
  proof (cases "lists_pv p (dev_pvs d)")
    case True
    then show ?thesis using dget_index_fold [of p "dev_pvs d" ?n "pv_index r"]
      by (auto simp: entry_ok_def add_device_def dict_simps)
  next
    case False
    then have "dget (pv_index (add_device d sp r)) p = dget (pv_index r) p"
      using dget_index_fold [of p "dev_pvs d" ?n "pv_index r"] by (simp add: add_device_def)
    moreover have "devices (add_device d sp r) = dset ?n d (devices r)"
      "standalone (add_device d sp r) = standalone r" by (simp_all add: add_device_def)
    ultimately show ?thesis using e False
      by (auto simp: entry_ok_def ds dict_simps split: option.splits if_splits)
  qed
qed

lemma ddel_id: "dget d k = None \<Longrightarrow> ddel k d = d"
  by (induction d) (auto simp: ddel_def split: if_splits)

section \<open>Every operation keeps the index exact\<close>

lemma add_device_inv:
  assumes "reg_inv r" and "dget (devices r) (dev_name d) = None"
  shows "reg_inv (add_device d sp r)"
proof -
  have wf: "wf_dict (devices r)" using assms(1) by (simp add: reg_inv_def)
  have "entry_ok (add_device d sp r) p" for p
    by (rule add_device_entry_ok [OF wf])
      (use assms in \<open>simp add: ddel_id reg_inv_def\<close>)
  then show ?thesis using assms(1) set_dset [OF wf, of "dev_name d" d]
    by (auto simp: reg_inv_def add_device_def intro: wf_index_fold split: option.splits)
qed

lemma remove_device_inv:
  assumes "reg_inv r"
  shows "reg_inv (snd (remove_device name r))"
proof (cases "dget (devices r) name")
  case None
  then show ?thesis using assms by (simp add: remove_device_def)
next
  case (Some d)
  have wf: "wf_dict (pv_index r)" using assms by (simp add: reg_inv_def)
  note rel = release_ownership [OF wf, of name]
  have "snd (remove_device name r) =
      (release_pv_ownership name r)\<lparr>devices := ddel name (devices r)\<rparr>
        \<lparr>specs := ddel name (specs r)\<rparr>"
    using Some rel by (simp add: remove_device_def Let_def)
  moreover have "entry_ok (r'\<lparr>specs := x\<rparr>) p = entry_ok r' p" for r' x p
    by (simp add: entry_ok_def cong: option.case_cong)
  ultimately show ?thesis using assms released_entry_ok [OF assms] rel(5)
    by (auto simp: reg_inv_def set_ddel)
qed

lemma update_device_inv:
  assumes "reg_inv r"
  shows "reg_inv (snd (update_device d sp r))"
proof (cases "dget (devices r) (dev_name d)")
  case None
  then show ?thesis using assms by (simp add: update_device_def)
next
  case (Some old)
  have wf: "wf_dict (pv_index r)" "wf_dict (devices r)" "wf_dict (specs r)"
    using assms by (auto simp: reg_inv_def)
  note rel = release_ownership [OF wf(1), of "dev_name d"]
  let ?r = "release_pv_ownership (dev_name d) r"
  have "entry_ok (?r\<lparr>devices := ddel (dev_name d) (devices ?r)\<rparr>) p" for p
    using released_entry_ok [OF assms, of "dev_name d" p] rel(2) by simp
  then have "entry_ok (add_device d sp ?r) p" for p
    by (intro add_device_entry_ok) (use rel(2) wf in simp_all)
  then show ?thesis
    using Some assms rel set_dset [OF wf(2), of "dev_name d" d]
    by (auto simp: update_device_def reg_inv_def add_device_def intro: wf_index_fold split: option.splits)
qed

lemma add_standalone_inv: "reg_inv r \<Longrightarrow> reg_inv (add_standalone_pv p r)"
  unfolding reg_inv_def
proof (intro conjI allI; (elim conjE)?)
  fix q
  assume "\<forall>q. entry_ok r q"
  then have "entry_ok r q" by blast
  then show "entry_ok (add_standalone_pv p r) q"
    by (cases "q = p")
      (auto simp: entry_ok_def add_standalone_pv_def dict_simps new_pv_def split: option.splits)
qed (auto simp: add_standalone_pv_def split: option.splits)

lemma remove_standalone_inv: "reg_inv r \<Longrightarrow> reg_inv (remove_standalone_pv p r)"
  unfolding reg_inv_def
proof (intro conjI allI; (elim conjE)?)
  fix q
  assume "\<forall>q. entry_ok r q"
  then have "entry_ok r q" by blast
  then show "entry_ok (remove_standalone_pv p r) q"
    by (cases "q = p")
      (auto simp: entry_ok_def remove_standalone_pv_def dict_simps split: option.splits)
qed (auto simp: remove_standalone_pv_def split: option.splits)

inductive reg_step :: "registry \<Rightarrow> registry \<Rightarrow> bool" where
  create: "dget (devices r) (dev_name d) = None \<Longrightarrow> reg_step r (add_device d sp r)"
| update: "reg_step r (snd (update_device d sp r))"
| remove: "reg_step r (snd (remove_device n r))"
| add_pv: "reg_step r (add_standalone_pv p r)"
| drop_pv: "reg_step r (remove_standalone_pv p r)"

inductive_cases reg_stepE: "reg_step r r'"

lemma reg_step_inv: "reg_step r r' \<Longrightarrow> reg_inv r \<Longrightarrow> reg_inv r'"
  by (erule reg_stepE)
    (auto intro: add_device_inv update_device_inv remove_device_inv add_standalone_inv
      remove_standalone_inv)

lemma reg_steps_inv: "reg_step\<^sup>*\<^sup>* r r' \<Longrightarrow> reg_inv r \<Longrightarrow> reg_inv r'"
  by (induction rule: rtranclp_induct) (auto intro: reg_step_inv)

lemma empty_reg_inv: "reg_inv empty_registry"
  by (simp add: reg_inv_def empty_registry_def wf_dict_def entry_ok_def)

text \<open>A small registry for the instances: two motors that share a PV, and a standalone PV.\<close>

definition demo_device :: "string \<Rightarrow> (string \<times> string) list \<Rightarrow> device" where
  "demo_device n cs =
     \<lparr>dev_name = n, dev_label = MOTOR, dev_ophyd_class = ''EpicsMotor'', dev_module = None,
      is_movable = True, is_flyable = False, is_readable = True, is_triggerable = False,
      is_stageable = False, is_configurable = False, is_pausable = False, is_stoppable = False,
      is_subscribable = False, is_checkable = False, writes_external_assets = False,
      dev_pvs = cs, dev_hints = None, read_attrs = [], configuration_attrs = [],
      dev_parent = None, dev_labels = [], beamline = None, location_group = None,
      functional_group = None, documentation = None\<rparr>"

definition demo_spec :: "string \<Rightarrow> bool \<Rightarrow> spec" where
  "demo_spec n act = \<lparr>spec_name = n, device_class = ''ophyd.EpicsMotor'', spec_args = [],
     spec_kwargs = [], active = act, spec_framework = None\<rparr>"

definition demo_registry :: registry where
  "demo_registry =
     add_device (demo_device ''m2'' [(''rbv'', ''X.RBV'')]) (Some (demo_spec ''m2'' True))
    (add_device (demo_device ''m1'' [(''rbv'', ''X.RBV''), (''val'', ''X.VAL'')])
       (Some (demo_spec ''m1'' True))
    (add_standalone_pv ''X.VAL'' empty_registry))"

lemma demo_registry_reachable: "reg_step\<^sup>*\<^sup>* empty_registry demo_registry"
proof -
  let ?r1 = "add_standalone_pv ''X.VAL'' empty_registry"
  let ?r2 = "add_device (demo_device ''m1'' [(''rbv'', ''X.RBV''), (''val'', ''X.VAL'')])
       (Some (demo_spec ''m1'' True)) ?r1"
  have "reg_step empty_registry ?r1" by (rule add_pv)
  moreover have "reg_step ?r1 ?r2"
    by (rule create) (simp add: empty_registry_def add_standalone_pv_def demo_device_def)
  moreover have "reg_step ?r2 demo_registry"
    unfolding demo_registry_def
    by (rule create)
      (simp add: empty_registry_def add_standalone_pv_def add_device_def demo_device_def)
  ultimately show ?thesis
    by (rule rtranclp.rtrancl_into_rtrancl
        [OF rtranclp.rtrancl_into_rtrancl [OF r_into_rtranclp]])
qed

lemma index_of_steps:
  assumes "reg_step\<^sup>*\<^sup>* empty_registry r"
  shows "(get_pv p r \<noteq> None \<longleftrightarrow>
        (\<exists>n d. get_device n r = Some d \<and> lists_pv p (dev_pvs d)) \<or> p \<in> set (standalone r)) \<and>
     (\<forall>m. get_pv p r = Some m \<longrightarrow>
        (case pv_device m of
           Some n \<Rightarrow> (\<exists>d c. get_device n r = Some d \<and> pv_component m = Some c \<and> (c, p) \<in> set (dev_pvs d))
         | None \<Rightarrow> p \<in> set (standalone r) \<and> \<not> (\<exists>n d. get_device n r = Some d \<and> lists_pv p (dev_pvs d))))"
proof -
  have inv: "reg_inv r" by (rule reg_steps_inv [OF assms empty_reg_inv])
  then have e: "entry_ok r p" and wf: "wf_dict (devices r)" by (auto simp: reg_inv_def)
  have listed: "(\<exists>n d. get_device n r = Some d \<and> lists_pv p (dev_pvs d)) \<longleftrightarrow>
      \<not> (\<forall>nd \<in> set (devices r). \<not> lists_pv p (dev_pvs (snd nd)))"
    by (simp add: get_device_def dget_mem [OF wf, symmetric] Bex_def)
  have owned: "lists_pv p (dev_pvs d)" if "(c, p) \<in> set (dev_pvs d)" for c d
    using that by (force simp: lists_pv_def)
  show ?thesis
  proof (cases "dget (pv_index r) p")
    case None
    then show ?thesis using e listed by (simp add: entry_ok_def get_pv_def)
  next
    case (Some m)
    show ?thesis
    proof (cases "pv_device m")
      case None
      then show ?thesis using e listed Some by (simp add: entry_ok_def get_pv_def)
    next
      case (Some n)
      then obtain d c where "get_device n r = Some d" "pv_component m = Some c" "(c, p) \<in> set (dev_pvs d)"
        using e \<open>dget (pv_index r) p = Some m\<close> by (auto simp: entry_ok_def get_device_def)
      then show ?thesis using Some \<open>dget (pv_index r) p = Some m\<close> owned by (auto simp: get_pv_def)
    qed
  qed
qed

text \<open>
  C28: however a registry was built from the empty one by creating, updating and removing
  devices and standalone PVs, the PV index is exact: a PV is indexed exactly when some device
  lists it or it is registered as standalone; an owned entry names a registered device that
  lists the PV under the recorded component; an unowned one is standalone and no device lists it.
\<close>

theorem pv_index_exact:
  assumes "reg_step\<^sup>*\<^sup>* empty_registry r"
  shows "(get_pv p r \<noteq> None \<longleftrightarrow>
        (\<exists>n d. get_device n r = Some d \<and> lists_pv p (dev_pvs d)) \<or> p \<in> set (standalone r)) \<and>
     (\<forall>m. get_pv p r = Some m \<longrightarrow>
        (case pv_device m of
           Some n \<Rightarrow> (\<exists>d c. get_device n r = Some d \<and> pv_component m = Some c \<and> (c, p) \<in> set (dev_pvs d))
         | None \<Rightarrow> p \<in> set (standalone r) \<and> \<not> (\<exists>n d. get_device n r = Some d \<and> lists_pv p (dev_pvs d))))"
  by (rule index_of_steps [OF assms])

theorem pv_index_exact_instance:
  "get_pv ''X.VAL'' demo_registry \<noteq> None \<longleftrightarrow>
     (\<exists>n d. get_device n demo_registry = Some d \<and> lists_pv ''X.VAL'' (dev_pvs d)) \<or>
     ''X.VAL'' \<in> set (standalone demo_registry)"
  using pv_index_exact [OF demo_registry_reachable, of "''X.VAL''"] by blast

text \<open>
  removing a device never takes a PV away from anyone else: a PV that another device
  lists stays indexed and belongs to a device that lists it (to the same one as before if the
  removed device did not own it); a standalone PV that no other device lists becomes
  unowned again; a PV that nobody else claims disappears. The other devices stay.
\<close>

theorem remove_device_rehomes:
  assumes "reg_step\<^sup>*\<^sup>* empty_registry r" and "get_device name r = Some d"
    and "lists_pv p (dev_pvs d)"
  shows "let r' = snd (remove_device name r) in
     fst (remove_device name r) \<and>
     (\<forall>n. get_device n r' = (if n = name then None else get_device n r)) \<and>
     (if \<exists>n e. n \<noteq> name \<and> get_device n r = Some e \<and> lists_pv p (dev_pvs e) then
        (\<exists>m n e. get_pv p r' = Some m \<and> pv_device m = Some n \<and> n \<noteq> name \<and>
           get_device n r = Some e \<and> lists_pv p (dev_pvs e) \<and>
           (\<forall>m0. get_pv p r = Some m0 \<and> pv_device m0 \<noteq> Some name \<longrightarrow> m = m0))
      else if p \<in> set (standalone r) then (\<exists>m. get_pv p r' = Some m \<and> pv_device m = None)
      else get_pv p r' = None)"
proof -
  let ?r' = "snd (remove_device name r)"
  have inv: "reg_inv r" by (rule reg_steps_inv [OF assms(1) empty_reg_inv])
  then have wf: "wf_dict (pv_index r)" by (simp add: reg_inv_def)
  note rel = release_ownership [OF wf, of name]
  have r': "devices ?r' = ddel name (devices r)" "pv_index ?r' = pv_index (release_pv_ownership name r)"
    "standalone ?r' = standalone r" "fst (remove_device name r)"
    using assms(2) rel by (simp_all add: remove_device_def get_device_def Let_def)
  have steps: "reg_step\<^sup>*\<^sup>* empty_registry ?r'"
    using assms(1) remove by (rule rtranclp.rtrancl_into_rtrancl)
  have dev: "get_device n ?r' = (if n = name then None else get_device n r)" for n
    by (simp add: get_device_def r' dict_simps)
  note ex = index_of_steps [OF steps, of p]
  have same: "m = m0" if "get_pv p r = Some m0" "pv_device m0 \<noteq> Some name" "get_pv p ?r' = Some m" for m m0
    using that rel(1) [of p] by (simp add: get_pv_def r')
  show ?thesis
  proof (cases "\<exists>n e. n \<noteq> name \<and> get_device n r = Some e \<and> lists_pv p (dev_pvs e)")
    case True
    then have listed: "\<exists>n e. get_device n ?r' = Some e \<and> lists_pv p (dev_pvs e)" using dev by auto
    then obtain m where m: "get_pv p ?r' = Some m" using ex by auto
    then obtain n e c where n: "pv_device m = Some n" "get_device n ?r' = Some e" "(c, p) \<in> set (dev_pvs e)"
      using ex listed by (cases "pv_device m") auto
    moreover have "n \<noteq> name" "get_device n r = Some e" using n(2) dev [of n] by (auto split: if_splits)
    moreover have "lists_pv p (dev_pvs e)" using n(3) by (force simp: lists_pv_def)
    ultimately show ?thesis using True m dev r'(4) same by (auto simp: Let_def)
  next
    case False
    then have none: "\<not> (\<exists>n e. get_device n ?r' = Some e \<and> lists_pv p (dev_pvs e))"
      using dev by (auto split: if_splits)
    have unowned: "pv_device m = None" if "get_pv p ?r' = Some m" for m
      using ex none that by (cases "pv_device m") (force simp: lists_pv_def)+
    show ?thesis
    proof (cases "p \<in> set (standalone r)")
      case True
      then obtain m where "get_pv p ?r' = Some m" using ex r'(3) by auto
      then show ?thesis using False True dev r'(4) unowned by (auto simp: Let_def)
    next
      case out: False
      then have "get_pv p ?r' = None" using ex none r'(3) by auto
      then show ?thesis using False out dev r'(4) by (auto simp: Let_def)
    qed
  qed
qed

theorem remove_device_rehomes_instance:
  "fst (remove_device ''m1'' demo_registry) \<and>
   (\<exists>m. get_pv ''X.VAL'' (snd (remove_device ''m1'' demo_registry)) = Some m \<and> pv_device m = None)"
proof -
  have d: "get_device ''m1'' demo_registry = Some (demo_device ''m1'' [(''rbv'', ''X.RBV''), (''val'', ''X.VAL'')])"
    "get_device n demo_registry = Some e \<Longrightarrow> n = ''m1'' \<or> e = demo_device ''m2'' [(''rbv'', ''X.RBV'')]" for n e
    by (auto simp: demo_registry_def add_device_def get_device_def add_standalone_pv_def
        empty_registry_def demo_device_def split: if_splits)
  have l: "lists_pv ''X.VAL'' (dev_pvs (demo_device ''m1'' [(''rbv'', ''X.RBV''), (''val'', ''X.VAL'')]))"
    "\<not> lists_pv ''X.VAL'' (dev_pvs (demo_device ''m2'' [(''rbv'', ''X.RBV'')]))"
    by (auto simp: lists_pv_def demo_device_def)
  have s: "''X.VAL'' \<in> set (standalone demo_registry)"
    by (simp add: demo_registry_def add_device_def add_standalone_pv_def empty_registry_def)
  have no: "\<not> (\<exists>n e. n \<noteq> ''m1'' \<and> get_device n demo_registry = Some e \<and> lists_pv ''X.VAL'' (dev_pvs e))"
    using d(2) l(2) by blast
  show ?thesis
    using remove_device_rehomes [OF demo_registry_reachable d(1) l(1)] no s by (simp add: Let_def)
qed

end
