(* ===== verification/RegistryStore.thy ===== *)
theory RegistryStore
  imports DeviceRegistry "HOL-Library.List_Lexorder" "HOL-Library.Char_ord"
begin

text \<open>
  The persistent device registry of the configuration service (\<open>device_registry_store.py\<close>,
  class \<open>DeviceRegistryStore\<close>): one row per device, an append-only audit log whose ids are
  the versions of the change feed, and the \<open>seeded\<close> mark. Rows and details hold the values
  their JSON texts denote. Each method body is one transaction; the database hands out
  increasing ids and never reuses one (\<open>db.py\<close>). \<open>ORDER BY name\<close> is SQLite's order by
  character codes. Logging is left out.
\<close>

section \<open>Tables\<close>

record reg_row =
  rw_metadata :: device
  rw_spec :: "spec option"
  rw_created :: rat
  rw_updated :: rat

record audit_entry =
  al_id :: nat
  al_device :: string
  al_op :: string
  al_time :: rat
  al_details :: "json option"

text \<open>\<open>st_seeded\<close> is the time whose text is the value of the \<open>seeded\<close> key.\<close>

record reg_store =
  st_rows :: "(string \<times> reg_row) list"
  st_audit :: "audit_entry list"
  st_seeded :: "rat option"
  st_next :: nat

definition empty_store :: reg_store where
  "empty_store = \<lparr>st_rows = [], st_audit = [], st_seeded = None, st_next = 1\<rparr>"

section \<open>Methods\<close>

definition log_audit :: "string \<Rightarrow> string \<Rightarrow> rat \<Rightarrow> json option \<Rightarrow> reg_store \<Rightarrow> reg_store" where
  "log_audit name operation now details s =
     s\<lparr>st_audit := st_audit s @ [\<lparr>al_id = st_next s, al_device = name, al_op = operation,
                                   al_time = now, al_details = details\<rparr>],
       st_next := Suc (st_next s)\<rparr>"

definition is_seeded :: "reg_store \<Rightarrow> bool" where
  "is_seeded s = (st_seeded s \<noteq> None)"

text \<open>A plain INSERT fails on an existing primary key, which undoes the whole transaction.\<close>

fun seed_devices :: "(string \<times> device) list \<Rightarrow> registry \<Rightarrow> rat \<Rightarrow> reg_store \<Rightarrow> reg_store option" where
  "seed_devices [] r now s = Some s"
| "seed_devices ((n, d) # ds) r now s =
     (if dhas (st_rows s) n then None
      else seed_devices ds r now
        (log_audit n ''seed'' now (Some (JDict [(''source'', JStr ''profile'')]))
          (s\<lparr>st_rows := dset n \<lparr>rw_metadata = d, rw_spec = dget (specs r) n,
                                 rw_created = now, rw_updated = now\<rparr> (st_rows s)\<rparr>)))"

definition seed_from_registry :: "registry \<Rightarrow> rat \<Rightarrow> reg_store \<Rightarrow> reg_store option" where
  "seed_from_registry r now s =
     map_option (\<lambda>t. t\<lparr>st_seeded := Some now\<rparr>) (seed_devices (devices r) r now s)"

definition load_all_devices :: "reg_store \<Rightarrow> registry" where
  "load_all_devices s =
     fold (\<lambda>nr r. add_device (rw_metadata (snd nr)) (rw_spec (snd nr)) r)
       (sort_key fst (st_rows s)) empty_registry"

text \<open>\<open>json.dumps(details) if details else None\<close>.\<close>

definition dump_details :: "dict option \<Rightarrow> json option" where
  "dump_details d = (case d of None \<Rightarrow> None | Some e \<Rightarrow> if e = [] then None else Some (JDict e))"

definition save_device ::
    "string \<Rightarrow> device \<Rightarrow> spec option \<Rightarrow> string \<Rightarrow> dict option \<Rightarrow> rat \<Rightarrow> reg_store \<Rightarrow> reg_store" where
  "save_device name m sp operation details now s =
     log_audit name operation now (dump_details details)
       (s\<lparr>st_rows := dset name
            (case dget (st_rows s) name of
               None \<Rightarrow> \<lparr>rw_metadata = m, rw_spec = sp, rw_created = now, rw_updated = now\<rparr>
             | Some row \<Rightarrow> row\<lparr>rw_metadata := m, rw_spec := sp, rw_updated := now\<rparr>) (st_rows s)\<rparr>)"

definition delete_device :: "string \<Rightarrow> dict option \<Rightarrow> rat \<Rightarrow> reg_store \<Rightarrow> bool \<times> reg_store" where
  "delete_device name details now s =
     (if dhas (st_rows s) name
      then (True, log_audit name ''delete'' now (dump_details details)
                    (s\<lparr>st_rows := ddel name (st_rows s)\<rparr>))
      else (False, s))"

definition get_row :: "string \<Rightarrow> reg_store \<Rightarrow> reg_row option" where
  "get_row name s = dget (st_rows s) name"

definition get_audit_log :: "string option \<Rightarrow> nat \<Rightarrow> reg_store \<Rightarrow> audit_entry list" where
  "get_audit_log name limit s =
     take limit (rev (sort_key al_id
       (case name of
          None \<Rightarrow> st_audit s
        | Some n \<Rightarrow> if n = [] then st_audit s else filter (\<lambda>e. al_device e = n) (st_audit s))))"

text \<open>Two transactions: the wipe, recorded first, and the new seed.\<close>

definition clear_and_reseed :: "registry \<Rightarrow> rat \<Rightarrow> rat \<Rightarrow> reg_store \<Rightarrow> bool \<times> reg_store" where
  "clear_and_reseed r now now2 s =
     (let s1 = (log_audit ''*'' ''reset'' now (Some (JDict [(''reason'', JStr ''manual_reset'')])) s)
                 \<lparr>st_rows := [], st_seeded := None\<rparr>
      in case seed_from_registry r now2 s1 of None \<Rightarrow> (False, s1) | Some s2 \<Rightarrow> (True, s2))"

definition log_lock_event :: "string list \<Rightarrow> string \<Rightarrow> json option \<Rightarrow> rat \<Rightarrow> reg_store \<Rightarrow> reg_store" where
  "log_lock_event names operation details now s =
     fold (\<lambda>n. log_audit n operation now details) names s"

definition device_count :: "reg_store \<Rightarrow> nat" where
  "device_count s = length (st_rows s)"

section \<open>The change feed\<close>

definition change_feed_ops :: "string list" where
  "change_feed_ops = [''seed'', ''add'', ''update'', ''delete'', ''enable'', ''disable'']"

datatype device_change =
    Upsert (ch_name: string) (ch_version: nat) device "spec option"
  | Delete (ch_name: string) (ch_version: nat)

record feed =
  current_version :: nat
  service_epoch :: "rat option"
  reset_occurred :: bool
  changes :: "device_change list"

definition max_id :: "audit_entry list \<Rightarrow> nat" where
  "max_id es = foldr (\<lambda>e. max (al_id e)) es 0"

text \<open>The ids of the latest change per device, \<open>GROUP BY device_name\<close>.\<close>

definition feed_entries :: "nat \<Rightarrow> reg_store \<Rightarrow> audit_entry list" where
  "feed_entries since s =
     filter (\<lambda>e. since < al_id e \<and> al_op e \<in> set change_feed_ops \<and> al_device e \<noteq> ''*'') (st_audit s)"

definition latest_ids :: "nat \<Rightarrow> reg_store \<Rightarrow> nat list" where
  "latest_ids since s =
     map (\<lambda>n. max_id (filter (\<lambda>e. al_device e = n) (feed_entries since s)))
       (remdups (map al_device (feed_entries since s)))"

text \<open>One row of the join of the log with the registry.\<close>

definition change_of :: "reg_store \<Rightarrow> audit_entry \<Rightarrow> device_change" where
  "change_of s e =
     (case dget (st_rows s) (al_device e) of
        None \<Rightarrow> Delete (al_device e) (al_id e)
      | Some row \<Rightarrow>
          if al_op e = ''delete'' then Delete (al_device e) (al_id e)
          else Upsert (al_device e) (al_id e) (rw_metadata row) (rw_spec row))"

definition get_changes_since :: "nat \<Rightarrow> reg_store \<Rightarrow> feed" where
  "get_changes_since since s =
     (let cv = max_id (st_audit s) in
      if cv \<le> since then
        \<lparr>current_version = cv, service_epoch = st_seeded s, reset_occurred = False, changes = []\<rparr>
      else
        \<lparr>current_version = cv, service_epoch = st_seeded s,
         reset_occurred = list_ex (\<lambda>e. since < al_id e \<and> al_op e = ''reset'') (st_audit s),
         changes = map (change_of s)
           (sort_key al_id (filter (\<lambda>e. al_id e \<in> set (latest_ids since s)) (st_audit s)))\<rparr>)"

end
