(* ===== verification/RegistryFeed.thy ===== *)
theory RegistryFeed
  imports RegistryStore
begin

text \<open>
  The change feed is a faithful delta: a client that holds the registry of some version and
  applies what the feed reports since that version holds the current registry, unless the
  feed tells it that a reset happened.
\<close>

section \<open>What a client reads\<close>

text \<open>A device as clients see it: its metadata and specification.\<close>

definition stored :: "reg_store \<Rightarrow> string \<Rightarrow> (device \<times> spec option) option" where
  "stored s n = map_option (\<lambda>row. (rw_metadata row, rw_spec row)) (dget (st_rows s) n)"

fun apply_change ::
    "device_change \<Rightarrow> (string \<Rightarrow> (device \<times> spec option) option) \<Rightarrow>
     string \<Rightarrow> (device \<times> spec option) option" where
  "apply_change (Upsert n v m sp) copy = copy(n \<mapsto> (m, sp))"
| "apply_change (Delete n v) copy = copy(n := None)"

definition version :: "reg_store \<Rightarrow> nat" where
  "version s = max_id (st_audit s)"

text \<open>The store after the operations of the service; every write is logged.\<close>

datatype store_op =
    Seed_from registry rat
  | Save string device "spec option" string "dict option" rat
  | Delete_dev string "dict option" rat
  | Log_lock "string list" string "json option" rat
  | Wipe registry rat rat

fun run_store :: "store_op \<Rightarrow> reg_store \<Rightarrow> reg_store" where
  "run_store (Seed_from r t) s = (case seed_from_registry r t s of None \<Rightarrow> s | Some s' \<Rightarrow> s')"
| "run_store (Save n m sp p d t) s = save_device n m sp p d t s"
| "run_store (Delete_dev n d t) s = snd (delete_device n d t s)"
| "run_store (Log_lock ns p d t) s = log_lock_event ns p d t s"
| "run_store (Wipe r t t2) s = snd (clear_and_reseed r t t2 s)"

text \<open>The operation names the service passes to the store.\<close>

definition write_ops :: "string list" where
  "write_ops = [''add'', ''update'', ''enable'', ''disable'']"

definition lock_ops :: "string list" where
  "lock_ops = [''lock'', ''unlock'', ''force_unlock'']"

fun proper_op :: "store_op \<Rightarrow> bool" where
  "proper_op (Save n m sp p d t) = (p \<in> set write_ops)"
| "proper_op (Log_lock ns p d t) = (p \<in> set lock_ops)"
| "proper_op _ = True"

section \<open>Invariant\<close>

definition feed_entry :: "audit_entry \<Rightarrow> string \<Rightarrow> bool" where
  "feed_entry e n \<longleftrightarrow> al_device e = n \<and> al_op e \<in> set change_feed_ops"

definition is_last :: "reg_store \<Rightarrow> string \<Rightarrow> audit_entry \<Rightarrow> bool" where
  "is_last s n e \<longleftrightarrow> e \<in> set (st_audit s) \<and> feed_entry e n \<and>
     (\<forall>x \<in> set (st_audit s). feed_entry x n \<longrightarrow> al_id x \<le> al_id e)"

text \<open>
  Ids increase, and a device whose last logged change is a deletion has no row.
\<close>

definition store_ok :: "reg_store \<Rightarrow> bool" where
  "store_ok s \<longleftrightarrow> sorted_wrt (\<lambda>a b. al_id a < al_id b) (st_audit s) \<and>
     (\<forall>e \<in> set (st_audit s). 0 < al_id e \<and> al_id e < st_next s) \<and> 0 < st_next s \<and>
     (\<forall>n e. is_last s n e \<longrightarrow> al_op e = ''delete'' \<longrightarrow> dget (st_rows s) n = None)"

text \<open>
  Since the store was \<open>s0\<close>: the log only grew, all new ids are later than its, and every
  device that differs has a logged change, unless a reset was logged.
\<close>

definition evolved :: "reg_store \<Rightarrow> reg_store \<Rightarrow> bool" where
  "evolved s0 s \<longleftrightarrow>
     (\<exists>new. st_audit s = st_audit s0 @ new \<and> (\<forall>e \<in> set new. st_next s0 \<le> al_id e) \<and>
        st_next s0 \<le> st_next s \<and>
        ((\<exists>e \<in> set new. al_op e = ''reset'') \<or>
         (\<forall>n. stored s n \<noteq> stored s0 n \<longrightarrow> (\<exists>e \<in> set new. feed_entry e n))))"

lemma evolved_refl: "evolved s s"
  by (simp add: evolved_def)

lemma evolved_trans:
  assumes "evolved s0 s1" "evolved s1 s2"
  shows "evolved s0 s2"
proof -
  obtain a where a: "st_audit s1 = st_audit s0 @ a" "\<forall>e \<in> set a. st_next s0 \<le> al_id e"
      "st_next s0 \<le> st_next s1"
      "(\<exists>e \<in> set a. al_op e = ''reset'') \<or>
         (\<forall>n. stored s1 n \<noteq> stored s0 n \<longrightarrow> (\<exists>e \<in> set a. feed_entry e n))"
    using assms(1) by (auto simp: evolved_def)
  obtain b where b: "st_audit s2 = st_audit s1 @ b" "\<forall>e \<in> set b. st_next s1 \<le> al_id e"
      "st_next s1 \<le> st_next s2"
      "(\<exists>e \<in> set b. al_op e = ''reset'') \<or>
         (\<forall>n. stored s2 n \<noteq> stored s1 n \<longrightarrow> (\<exists>e \<in> set b. feed_entry e n))"
    using assms(2) by (auto simp: evolved_def)
  have d: "stored s1 n \<noteq> stored s0 n \<or> stored s2 n \<noteq> stored s1 n" if "stored s2 n \<noteq> stored s0 n" for n
    using that by auto
  have "(\<exists>e \<in> set (a @ b). al_op e = ''reset'') \<or>
         (\<forall>n. stored s2 n \<noteq> stored s0 n \<longrightarrow> (\<exists>e \<in> set (a @ b). feed_entry e n))"
    using a(4) b(4) d by (metis UnCI set_append)
  moreover have "\<forall>e \<in> set (a @ b). st_next s0 \<le> al_id e" using a(2,3) b(2) by auto
  ultimately show ?thesis
    unfolding evolved_def using a(1,3) b(1,3) by (intro exI [of _ "a @ b"]) auto
qed

text \<open>A write with its log entry, the only way the service changes a row.\<close>

lemma logged_write:
  assumes ok: "store_ok s"
    and rows: "\<And>q. q \<noteq> n \<Longrightarrow> dget rs q = dget (st_rows s) q"
    and p: "p \<in> set change_feed_ops" and del: "p = ''delete'' \<Longrightarrow> dget rs n = None"
  shows "store_ok (log_audit n p t d (s\<lparr>st_rows := rs\<rparr>)) \<and> evolved s (log_audit n p t d (s\<lparr>st_rows := rs\<rparr>))"
proof -
  let ?e = "\<lparr>al_id = st_next s, al_device = n, al_op = p, al_time = t, al_details = d\<rparr>"
  let ?s = "log_audit n p t d (s\<lparr>st_rows := rs\<rparr>)"
  have au: "st_audit ?s = st_audit s @ [?e]" "st_rows ?s = rs" "st_next ?s = Suc (st_next s)"
    by (simp_all add: log_audit_def)
  have feed: "feed_entry ?e q \<longleftrightarrow> q = n" for q using p by (auto simp: feed_entry_def)
  have last_n: "x = ?e" if "is_last ?s n x" for x
    using that ok by (fastforce simp: is_last_def au feed store_ok_def)
  have last_q: "is_last s q x" if "is_last ?s q x" "q \<noteq> n" for q x
    using that by (auto simp: is_last_def au feed)
  have "dget rs q = None" if "is_last ?s q x" "al_op x = ''delete''" for q x
  proof (cases "q = n")
    case True
    then have "x = ?e" using that(1) last_n by simp
    then show ?thesis using that(2) del True by simp
  next
    case False
    then show ?thesis using last_q [OF that(1)] that(2) ok rows by (auto simp: store_ok_def)
  qed
  then have "store_ok ?s" using ok by (auto simp: store_ok_def au sorted_wrt_append)
  moreover have "evolved s ?s"
  proof -
    have "q = n" if "stored ?s q \<noteq> stored s q" for q
      using that rows [of q] by (cases "q = n") (auto simp: stored_def au)
    then show ?thesis
      unfolding evolved_def by (intro exI [of _ "[?e]"]) (auto simp: au feed)
  qed
  ultimately show ?thesis by blast
qed

text \<open>An entry outside the feed.\<close>

lemma logged_note:
  assumes ok: "store_ok s" and p: "p \<notin> set change_feed_ops"
  shows "store_ok (log_audit n p t d s) \<and> evolved s (log_audit n p t d s)"
proof -
  let ?e = "\<lparr>al_id = st_next s, al_device = n, al_op = p, al_time = t, al_details = d\<rparr>"
  let ?s = "log_audit n p t d s"
  have au: "st_audit ?s = st_audit s @ [?e]" "st_rows ?s = st_rows s" "st_next ?s = Suc (st_next s)"
    by (simp_all add: log_audit_def)
  have "\<not> feed_entry ?e q" for q using p by (auto simp: feed_entry_def)
  then have last_q: "is_last s q x" if "is_last ?s q x" for q x
    using that by (auto simp: is_last_def au)
  then have "\<forall>q x. is_last ?s q x \<longrightarrow> al_op x = ''delete'' \<longrightarrow> dget (st_rows s) q = None"
    using ok unfolding store_ok_def by blast
  then have "store_ok ?s" using ok by (auto simp: store_ok_def au sorted_wrt_append)
  moreover have "evolved s ?s"
    unfolding evolved_def by (intro exI [of _ "[?e]"]) (auto simp: au stored_def)
  ultimately show ?thesis by blast
qed

text \<open>The wipe empties the table and logs the reset.\<close>

lemma logged_reset:
  assumes ok: "store_ok s"
  shows "store_ok ((log_audit n ''reset'' t d s)\<lparr>st_rows := [], st_seeded := None\<rparr>) \<and>
    evolved s ((log_audit n ''reset'' t d s)\<lparr>st_rows := [], st_seeded := None\<rparr>)"
proof -
  have "sorted_wrt (\<lambda>a b. al_id a < al_id b) (st_audit (log_audit n ''reset'' t d s))"
    using ok by (auto simp: store_ok_def log_audit_def sorted_wrt_append)
  then have "store_ok ((log_audit n ''reset'' t d s)\<lparr>st_rows := [], st_seeded := None\<rparr>)"
    using ok by (auto simp: store_ok_def log_audit_def)
  moreover have "evolved s ((log_audit n ''reset'' t d s)\<lparr>st_rows := [], st_seeded := None\<rparr>)"
    unfolding evolved_def by (auto simp: log_audit_def)
  ultimately show ?thesis by blast
qed

lemma seed_devices_ok:
  "seed_devices ds r t s = Some s' \<Longrightarrow> store_ok s \<Longrightarrow> store_ok s' \<and> evolved s s'"
proof (induction ds r t s arbitrary: s' rule: seed_devices.induct)
  case (1 r now s)
  then show ?case by (auto intro: evolved_refl)
next
  case (2 n d ds r now s)
  let ?s1 = "log_audit n ''seed'' now (Some (JDict [(''source'', JStr ''profile'')]))
          (s\<lparr>st_rows := dset n \<lparr>rw_metadata = d, rw_spec = dget (specs r) n,
                                 rw_created = now, rw_updated = now\<rparr> (st_rows s)\<rparr>)"
  have "store_ok ?s1 \<and> evolved s ?s1"
    using "2.prems"(2) by (intro logged_write) (auto simp: dget_dset change_feed_ops_def)
  then show ?case using 2 evolved_trans by (auto split: if_splits)
qed

lemma seeded_frame:
  "store_ok (s\<lparr>st_seeded := x\<rparr>) = store_ok s" "evolved s0 (s\<lparr>st_seeded := x\<rparr>) = evolved s0 s"
  by (simp_all add: store_ok_def is_last_def evolved_def stored_def)

lemma seed_ok:
  "seed_from_registry r t s = Some s' \<Longrightarrow> store_ok s \<Longrightarrow> store_ok s' \<and> evolved s s'"
  using seed_devices_ok by (fastforce simp: seed_from_registry_def seeded_frame)

lemma run_store_ok:
  assumes "store_ok s" "proper_op w"
  shows "store_ok (run_store w s) \<and> evolved s (run_store w s)"
proof (cases w)
  case (Seed_from r t)
  then show ?thesis
    using assms(1) seed_ok by (auto intro: evolved_refl split: option.splits)
next
  case (Save n m sp p d t)
  moreover have "p \<in> set change_feed_ops" "p \<noteq> ''delete''"
    using Save assms(2) by (auto simp: write_ops_def change_feed_ops_def)
  ultimately show ?thesis
    unfolding Save run_store.simps save_device_def
    using assms(1) by (intro logged_write) (auto simp: dget_dset)
next
  case (Delete_dev n d t)
  have "store_ok (log_audit n ''delete'' t (dump_details d) (s\<lparr>st_rows := ddel n (st_rows s)\<rparr>)) \<and>
      evolved s (log_audit n ''delete'' t (dump_details d) (s\<lparr>st_rows := ddel n (st_rows s)\<rparr>))"
    using assms(1) by (intro logged_write) (auto simp: dget_ddel change_feed_ops_def)
  then show ?thesis using assms(1) evolved_refl by (auto simp: Delete_dev delete_device_def)
next
  case (Log_lock ns p d t)
  then have p: "p \<notin> set change_feed_ops"
    using assms(2) by (auto simp: lock_ops_def change_feed_ops_def)
  have "store_ok s \<Longrightarrow> store_ok (fold (\<lambda>n. log_audit n p t dt) ns s) \<and>
      evolved s (fold (\<lambda>n. log_audit n p t dt) ns s)" for ns s dt
  proof (induction ns arbitrary: s)
    case (Cons n ns)
    then show ?case
      using logged_note [OF Cons.prems p] evolved_trans by auto blast
  qed (simp add: evolved_refl)
  then show ?thesis using assms(1) by (simp add: Log_lock log_lock_event_def)
next
  case (Wipe r t t2)
  let ?s1 = "(log_audit ''*'' ''reset'' t (Some (JDict [(''reason'', JStr ''manual_reset'')])) s)
                 \<lparr>st_rows := [], st_seeded := None\<rparr>"
  have s1: "store_ok ?s1 \<and> evolved s ?s1" by (rule logged_reset [OF assms(1)])
  show ?thesis
  proof (cases "seed_from_registry r t2 ?s1")
    case None
    then show ?thesis using s1 by (simp add: Wipe clear_and_reseed_def Let_def)
  next
    case (Some s2)
    then show ?thesis
      using s1 seed_ok [OF Some] evolved_trans by (auto simp: Wipe clear_and_reseed_def Let_def)
  qed
qed

lemma run_stores_ok:
  "store_ok s \<Longrightarrow> list_all proper_op ws \<Longrightarrow>
   store_ok (fold run_store ws s) \<and> evolved s (fold run_store ws s)"
proof (induction ws arbitrary: s)
  case (Cons w ws)
  then show ?case using run_store_ok [of s w] evolved_trans by auto
qed (simp add: evolved_refl)

lemma empty_store_ok: "store_ok empty_store"
  by (simp add: store_ok_def empty_store_def is_last_def)

section \<open>What the feed reports\<close>

lemma max_id_ge: "e \<in> set es \<Longrightarrow> al_id e \<le> max_id es"
  by (induction es) (auto simp: max_id_def)

lemma max_id_in: "es \<noteq> [] \<Longrightarrow> \<exists>e \<in> set es. al_id e = max_id es"
proof (induction es)
  case (Cons e es)
  then show ?case by (cases "es = []") (auto simp: max_id_def max_def)
qed simp

text \<open>In a consistent store the log is in id order and an id determines the entry.\<close>

lemma ids_inj:
  assumes "store_ok s" "a \<in> set (st_audit s)" "b \<in> set (st_audit s)" "al_id a = al_id b"
  shows "a = b"
proof -
  have "sorted_wrt (<) (map al_id (st_audit s))" using assms(1) by (simp add: store_ok_def sorted_wrt_map)
  then have "inj_on al_id (set (st_audit s))" by (simp add: strict_sorted_iff distinct_map)
  then show ?thesis using assms(2-4) by (auto simp: inj_on_def)
qed

definition candidate :: "nat \<Rightarrow> reg_store \<Rightarrow> string \<Rightarrow> audit_entry \<Rightarrow> bool" where
  "candidate v s n e \<longleftrightarrow> e \<in> set (st_audit s) \<and> v < al_id e \<and> feed_entry e n \<and> n \<noteq> ''*''"

lemma latest_entry:
  assumes "store_ok s" "e \<in> set (st_audit s)"
  shows "al_id e \<in> set (latest_ids v s) \<longleftrightarrow>
    (\<exists>n. candidate v s n e \<and> (\<forall>x. candidate v s n x \<longrightarrow> al_id x \<le> al_id e))"
proof -
  let ?c = "\<lambda>n. filter (\<lambda>e. al_device e = n) (feed_entries v s)"
  have mem: "x \<in> set (?c n) \<longleftrightarrow> candidate v s n x" for n x
    by (auto simp: feed_entries_def candidate_def feed_entry_def)
  have "al_id e \<in> set (latest_ids v s) \<longleftrightarrow> (\<exists>n. ?c n \<noteq> [] \<and> al_id e = max_id (?c n))"
    by (auto simp: latest_ids_def filter_empty_conv image_iff)
  also have "\<dots> \<longleftrightarrow> (\<exists>n. e \<in> set (?c n) \<and> (\<forall>x \<in> set (?c n). al_id x \<le> al_id e))"
  proof
    assume "\<exists>n. ?c n \<noteq> [] \<and> al_id e = max_id (?c n)"
    then obtain n where n: "?c n \<noteq> []" "al_id e = max_id (?c n)" by blast
    obtain x where x: "x \<in> set (?c n)" "al_id x = max_id (?c n)" using max_id_in [OF n(1)] by blast
    then have "x \<in> set (st_audit s)" by (simp add: feed_entries_def)
    then have "x = e" using ids_inj [OF assms(1) _ assms(2)] x(2) n(2) by simp
    then show "\<exists>n. e \<in> set (?c n) \<and> (\<forall>x \<in> set (?c n). al_id x \<le> al_id e)"
      using x n(2) max_id_ge by (metis (no_types, lifting))
  next
    assume "\<exists>n. e \<in> set (?c n) \<and> (\<forall>x \<in> set (?c n). al_id x \<le> al_id e)"
    then obtain n where n: "e \<in> set (?c n)" "\<forall>x \<in> set (?c n). al_id x \<le> al_id e" by blast
    then have "?c n \<noteq> []" by (metis empty_iff empty_set)
    moreover have "al_id e = max_id (?c n)"
      using n max_id_ge [OF n(1)] max_id_in [OF \<open>?c n \<noteq> []\<close>] by (metis le_antisym)
    ultimately show "\<exists>n. ?c n \<noteq> [] \<and> al_id e = max_id (?c n)" by blast
  qed
  finally show ?thesis by (simp add: mem [symmetric])
qed

lemma latest_unique:
  assumes "store_ok s" "\<forall>x. candidate v s n x \<longrightarrow> al_id x \<le> al_id a" "candidate v s n a"
    "\<forall>x. candidate v s n x \<longrightarrow> al_id x \<le> al_id b" "candidate v s n b"
  shows "a = b"
proof (rule ids_inj [OF assms(1)])
  show "a \<in> set (st_audit s)" "b \<in> set (st_audit s)" using assms by (simp_all add: candidate_def)
  show "al_id a = al_id b" using assms by (meson le_antisym)
qed

lemma candidate_exists:
  assumes "candidate v s n e"
  shows "\<exists>a. candidate v s n a \<and> (\<forall>x. candidate v s n x \<longrightarrow> al_id x \<le> al_id a)"
proof -
  let ?c = "filter (\<lambda>x. candidate v s n x) (st_audit s)"
  have "?c \<noteq> []" using assms by (auto simp: filter_empty_conv candidate_def)
  from max_id_in [OF this] obtain a where "a \<in> set ?c" "al_id a = max_id ?c" by blast
  then show ?thesis using max_id_ge [of _ ?c] by (auto simp: candidate_def)
qed

text \<open>Applying changes for distinct devices: each device gets its own change.\<close>

lemma apply_changes_other:
  "n \<notin> ch_name ` set cs \<Longrightarrow> fold apply_change cs copy n = copy n"
proof (induction cs arbitrary: copy)
  case (Cons c cs)
  then show ?case by (cases c) auto
qed simp

lemma apply_changes_one:
  assumes "distinct (map ch_name cs)" "c \<in> set cs"
  shows "fold apply_change cs copy (ch_name c) =
    (case c of Upsert _ _ m sp \<Rightarrow> Some (m, sp) | Delete _ _ \<Rightarrow> None)"
  using assms
proof (induction cs arbitrary: copy)
  case (Cons d cs)
  show ?case
  proof (cases "c = d")
    case True
    then show ?thesis
      using Cons.prems(1) apply_changes_other [of "ch_name d" cs] by (cases d) auto
  next
    case False
    then show ?thesis using Cons by auto
  qed
qed simp

lemma ch_name_change_of [simp]: "ch_name (change_of s e) = al_device e"
  by (simp add: change_of_def split: option.splits)

lemma change_current:
  assumes "store_ok s" "is_last s n e" "al_device e = n"
  shows "(case change_of s e of Upsert _ _ m sp \<Rightarrow> Some (m, sp) | Delete _ _ \<Rightarrow> None) = stored s n"
  using assms by (auto simp: change_of_def stored_def store_ok_def split: option.splits)

lemma distinct_key:
  assumes "distinct xs" "\<And>a b. a \<in> set xs \<Longrightarrow> b \<in> set xs \<Longrightarrow> f a = f b \<Longrightarrow> a = b"
  shows "distinct (map f xs)"
  using assms by (auto simp: distinct_map inj_on_def)

lemma changes_of_range:
  assumes ok: "store_ok s" and v: "v < version s"
  defines "cs \<equiv> changes (get_changes_since v s)"
  shows "distinct (map ch_name cs)"
    and "candidate v s n e \<Longrightarrow> \<exists>a. is_last s n a \<and> al_device a = n \<and> change_of s a \<in> set cs"
    and "\<forall>e. \<not> candidate v s n e \<Longrightarrow> n \<notin> ch_name ` set cs"
proof -
  let ?sel = "filter (\<lambda>e. al_id e \<in> set (latest_ids v s)) (st_audit s)"
  have cs: "cs = map (change_of s) (sort_key al_id ?sel)"
    using v by (simp add: cs_def get_changes_since_def Let_def version_def)
  have dist: "distinct (st_audit s)"
  proof -
    have "sorted_wrt (<) (map al_id (st_audit s))" using ok by (simp add: store_ok_def sorted_wrt_map)
    then show ?thesis by (simp add: strict_sorted_iff distinct_map)
  qed
  have sel: "a \<in> set ?sel \<longleftrightarrow> candidate v s (al_device a) a \<and>
      (\<forall>x. candidate v s (al_device a) x \<longrightarrow> al_id x \<le> al_id a)" for a
    using latest_entry [OF ok, of a v]
    by (auto simp: candidate_def feed_entry_def)
  show "distinct (map ch_name cs)"
  proof -
    have "distinct (map al_device (sort_key al_id ?sel))"
    proof (rule distinct_key)
      show "distinct (sort_key al_id ?sel)" using dist by simp
    next
      fix a b assume "a \<in> set (sort_key al_id ?sel)" "b \<in> set (sort_key al_id ?sel)"
        "al_device a = al_device b"
      then show "a = b" using sel [of a] sel [of b] latest_unique [OF ok, of v "al_device a" a b] by auto
    qed
    then show ?thesis by (simp add: cs comp_def)
  qed
  show "\<exists>a. is_last s n a \<and> al_device a = n \<and> change_of s a \<in> set cs" if c: "candidate v s n e"
  proof -
    obtain a where a: "candidate v s n a" "\<forall>x. candidate v s n x \<longrightarrow> al_id x \<le> al_id a"
      using candidate_exists [OF c] by blast
    then have n: "al_device a = n" by (simp add: candidate_def feed_entry_def)
    have "is_last s n a"
      unfolding is_last_def
    proof (intro conjI ballI impI)
      fix x assume "x \<in> set (st_audit s)" "feed_entry x n"
      then show "al_id x \<le> al_id a"
        using a by (cases "v < al_id x") (auto simp: candidate_def)
    qed (use a(1) in \<open>auto simp: candidate_def\<close>)
    moreover have "a \<in> set ?sel" using a n sel by auto
    ultimately show ?thesis using n cs by auto
  qed
  show "n \<notin> ch_name ` set cs" if "\<forall>e. \<not> candidate v s n e"
    using that sel by (auto simp: cs image_iff)
qed

lemma feed_is_delta:
  assumes ok0: "store_ok s0" and ok: "store_ok s" and ev: "evolved s0 s" and n: "n \<noteq> ''*''"
    and no: "\<not> reset_occurred (get_changes_since (version s0) s)"
  shows "fold apply_change (changes (get_changes_since (version s0) s)) (stored s0) n = stored s n"
proof -
  obtain new where new: "st_audit s = st_audit s0 @ new" "\<forall>e \<in> set new. st_next s0 \<le> al_id e"
      "(\<exists>e \<in> set new. al_op e = ''reset'') \<or>
         (\<forall>n. stored s n \<noteq> stored s0 n \<longrightarrow> (\<exists>e \<in> set new. feed_entry e n))"
    using ev by (auto simp: evolved_def)
  have v0: "version s0 < st_next s0"
  proof (cases "st_audit s0 = []")
    case True
    then show ?thesis using ok0 by (simp add: version_def max_id_def store_ok_def)
  next
    case False
    from max_id_in [OF this] show ?thesis using ok0 by (auto simp: version_def store_ok_def)
  qed
  have later: "version s0 < al_id e" if "e \<in> set new" for e using that new(2) v0 by fastforce
  have old: "\<not> version s0 < al_id e" if "e \<in> set (st_audit s0)" for e
    using max_id_ge [OF that] by (simp add: version_def)
  show ?thesis
  proof (cases "version s0 < version s")
    case False
    have "new = []"
    proof (rule ccontr)
      assume "new \<noteq> []"
      then obtain e where "e \<in> set new" by (cases new) auto
      then have "al_id e \<le> version s" using new(1) max_id_ge [of e "st_audit s"] by (simp add: version_def)
      then show False using later [OF \<open>e \<in> set new\<close>] False by simp
    qed
    then have "stored s n = stored s0 n" using new(3) by auto
    then show ?thesis using False by (simp add: get_changes_since_def Let_def version_def)
  next
    case True
    have quiet: "\<not> (\<exists>e \<in> set new. al_op e = ''reset'')"
      using no True later new(1)
      by (auto simp: get_changes_since_def Let_def version_def list_ex_iff)
    show ?thesis
    proof (cases "\<exists>e. candidate (version s0) s n e")
      case True
      then obtain a where a: "is_last s n a" "al_device a = n"
          "change_of s a \<in> set (changes (get_changes_since (version s0) s))"
        using changes_of_range(2) [OF ok \<open>version s0 < version s\<close>] by blast
      have "fold apply_change (changes (get_changes_since (version s0) s)) (stored s0)
            (ch_name (change_of s a)) =
          (case change_of s a of Upsert _ _ m sp \<Rightarrow> Some (m, sp) | Delete _ _ \<Rightarrow> None)"
        using changes_of_range(1) [OF ok \<open>version s0 < version s\<close>] a(3) by (rule apply_changes_one)
      then show ?thesis using change_current [OF ok a(1,2)] a(2) by simp
    next
      case False
      then have "stored s n = stored s0 n"
        using new quiet later n by (fastforce simp: candidate_def)
      then show ?thesis
        using False apply_changes_other changes_of_range(3) [OF ok \<open>version s0 < version s\<close>, of n]
        by simp
    qed
  qed
qed

section \<open>The promise of the feed\<close>

fun is_wipe :: "store_op \<Rightarrow> bool" where
  "is_wipe (Wipe r t t2) = True"
| "is_wipe _ = False"

definition grows :: "reg_store \<Rightarrow> reg_store \<Rightarrow> bool \<Rightarrow> bool" where
  "grows s s' b \<longleftrightarrow> (\<exists>new. st_audit s' = st_audit s @ new \<and> ((\<exists>e \<in> set new. al_op e = ''reset'') = b))"

lemma grows_refl: "grows s s False"
  by (simp add: grows_def)

lemma grows_trans: "grows s0 s1 b \<Longrightarrow> grows s1 s2 c \<Longrightarrow> grows s0 s2 (b \<or> c)"
  unfolding grows_def by (elim exE conjE) (rule exI, rule conjI, simp, auto)

lemma log_grows: "st_audit s1 = st_audit s \<Longrightarrow> grows s (log_audit n p t d s1) (p = ''reset'')"
  by (simp add: grows_def log_audit_def)

lemma seed_grows: "seed_devices ds r t s = Some s' \<Longrightarrow> grows s s' False"
proof (induction ds r t s arbitrary: s' rule: seed_devices.induct)
  case (1 r now s)
  then show ?case by (simp add: grows_refl)
next
  case (2 n d ds r now s)
  let ?s1 = "log_audit n ''seed'' now (Some (JDict [(''source'', JStr ''profile'')]))
          (s\<lparr>st_rows := dset n \<lparr>rw_metadata = d, rw_spec = dget (specs r) n,
                                 rw_created = now, rw_updated = now\<rparr> (st_rows s)\<rparr>)"
  have "grows s ?s1 False" using log_grows [of _ s n "''seed''"] by simp
  moreover have "grows ?s1 s' False" using 2 by (simp split: if_splits)
  ultimately show ?case using grows_trans by fastforce
qed

lemma seed_from_grows: "seed_from_registry r t s = Some s' \<Longrightarrow> grows s s' False"
  using seed_grows by (fastforce simp: seed_from_registry_def grows_def)

lemma lock_log_grows: "p \<noteq> ''reset'' \<Longrightarrow> grows s (fold (\<lambda>n. log_audit n p t d) ns s) False"
proof (induction ns arbitrary: s)
  case (Cons n ns)
  have "grows s (log_audit n p t d s) False" using log_grows [of s s n p t d] Cons.prems by simp
  then show ?case using Cons grows_trans by fastforce
qed (simp add: grows_refl)

lemma wipe_grows: "grows s (snd (clear_and_reseed r t t2 s)) True"
proof -
  let ?s1 = "(log_audit ''*'' ''reset'' t (Some (JDict [(''reason'', JStr ''manual_reset'')])) s)
                 \<lparr>st_rows := [], st_seeded := None\<rparr>"
  have "grows s ?s1 True" by (simp add: grows_def log_audit_def)
  then show ?thesis
    using seed_from_grows [of r t2 ?s1] grows_trans [of s ?s1 True]
    by (fastforce simp: clear_and_reseed_def Let_def split: option.splits)
qed

lemma run_store_grows:
  assumes "proper_op w"
  shows "grows s (run_store w s) (is_wipe w)"
proof (cases w)
  case (Seed_from r t)
  then show ?thesis using seed_from_grows grows_refl by (auto split: option.splits)
next
  case (Save n m sp p d t)
  moreover have "p \<noteq> ''reset''" using Save assms by (auto simp: write_ops_def)
  ultimately show ?thesis
    using log_grows [of _ s n p] by (simp add: save_device_def)
next
  case (Delete_dev n d t)
  then show ?thesis
    using log_grows [of _ s n "''delete''"] grows_refl by (simp add: delete_device_def)
next
  case (Log_lock ns p d t)
  moreover have "p \<noteq> ''reset''" using Log_lock assms by (auto simp: lock_ops_def)
  ultimately show ?thesis using lock_log_grows by (simp add: log_lock_event_def)
next
  case (Wipe r t t2)
  then show ?thesis using wipe_grows by simp
qed

lemma run_stores_grow: "list_all proper_op ws \<Longrightarrow> grows s (fold run_store ws s) (list_ex is_wipe ws)"
proof (induction ws arbitrary: s)
  case (Cons w ws)
  then show ?case using grows_trans run_store_grows [of w s] by fastforce
qed (simp add: grows_refl)

lemma max_id_mono: "prefix es fs \<Longrightarrow> max_id es \<le> max_id fs"
proof (cases "es = []")
  case False
  assume p: "prefix es fs"
  obtain e where "e \<in> set es" "al_id e = max_id es" using max_id_in [OF False] by blast
  then show ?thesis using max_id_ge [of e fs] set_mono_prefix [OF p] by auto
qed (simp add: max_id_def)

lemma version_old: "store_ok s \<Longrightarrow> version s < st_next s"
  using max_id_in [of "st_audit s"] by (cases "st_audit s = []") (auto simp: version_def store_ok_def max_id_def)

lemma feed_reset:
  assumes ok: "store_ok s0" and ev: "evolved s0 s" and gr: "grows s0 s b"
  shows "reset_occurred (get_changes_since (version s0) s) = b"
proof -
  obtain new where new: "st_audit s = st_audit s0 @ new" "(\<exists>e \<in> set new. al_op e = ''reset'') = b"
    using gr by (auto simp: grows_def)
  have later: "\<forall>e \<in> set new. version s0 < al_id e"
    using ev new(1) version_old [OF ok] by (force simp: evolved_def)
  have old: "\<forall>e \<in> set (st_audit s0). \<not> version s0 < al_id e"
    using max_id_ge by (force simp: version_def)
  have small: "new = []" if "max_id (st_audit s) \<le> version s0"
  proof (rule ccontr)
    assume "new \<noteq> []"
    then obtain e where e: "e \<in> set new" by (cases new) auto
    then show False
      using later that max_id_ge [of e "st_audit s"] new(1) by fastforce
  qed
  show ?thesis
    using new(2) later old small
    by (auto simp: get_changes_since_def Let_def list_ex_iff new(1))
qed

lemma feed_version: "current_version (get_changes_since v s) = version s"
  by (simp add: get_changes_since_def version_def Let_def)

text \<open>
  C18: The change feed is exact. Take any history of the store, a client that holds the registry
  as it was after the first part of it, and the feed from that version after the whole history.
  The feed announces a reset exactly when the registry was wiped in between; if not, applying
  its changes to the client's copy yields, for every device, the current metadata and
  specification or its absence; and the new cursor is the current version.
\<close>

theorem change_feed_exact:
  assumes "list_all proper_op (before @ after)" and "n \<noteq> ''*''"
  shows "let s0 = fold run_store before empty_store; s = fold run_store after s0;
             r = get_changes_since (version s0) s
         in current_version r = version s \<and> reset_occurred r = list_ex is_wipe after \<and>
            (list_ex is_wipe after \<or> fold apply_change (changes r) (stored s0) n = stored s n)"
proof -
  let ?old = "fold run_store before empty_store"
  let ?s = "fold run_store after ?old"
  have ok0: "store_ok ?old" using run_stores_ok [OF empty_store_ok, of before] assms(1) by auto
  have ok: "store_ok ?s" "evolved ?old ?s" using run_stores_ok [OF ok0, of after] assms(1) by auto
  have "reset_occurred (get_changes_since (version ?old) ?s) = list_ex is_wipe after"
    using assms(1) by (intro feed_reset [OF ok0 ok(2)] run_stores_grow) simp
  then show ?thesis
    using feed_is_delta [OF ok0 ok assms(2)] by (auto simp: Let_def feed_version)
qed

text \<open>
  Versions are never reused: the audit ids of every reachable store are positive, strictly
  increasing in the order of the writes and below the next id, and a longer history only adds
  entries behind, so no cursor a client holds ever comes to mean another state.
\<close>

theorem versions_increase:
  assumes "list_all proper_op (before @ after)"
  shows "let s0 = fold run_store before empty_store; s = fold run_store after s0
         in sorted_wrt (<) (0 # map al_id (st_audit s) @ [st_next s]) \<and>
            prefix (st_audit s0) (st_audit s) \<and> version s0 \<le> version s"
proof -
  let ?old = "fold run_store before empty_store"
  let ?s = "fold run_store after ?old"
  have ok0: "store_ok ?old" using run_stores_ok [OF empty_store_ok, of before] assms by auto
  have ok: "store_ok ?s" "evolved ?old ?s" using run_stores_ok [OF ok0, of after] assms by auto
  have pre: "prefix (st_audit ?old) (st_audit ?s)" using ok(2) by (auto simp: evolved_def)
  then have "version ?old \<le> version ?s"
    unfolding version_def by (rule max_id_mono)
  then show ?thesis
    using pre ok(1) by (auto simp: Let_def store_ok_def sorted_wrt_append sorted_wrt_map)
qed

text \<open>
  C39: A device called \<open>*\<close> escapes the feed: the name passes the validation of device names, but
  whatever happens to such a device, no change of it is ever reported, because the feed takes
  the name for the mark of registry-wide entries.
\<close>

theorem star_device_unreported:
  assumes "list_all proper_op ws"
  shows "validate_device_name ''*'' = Inr ''*'' \<and>
    ''*'' \<notin> set (map ch_name (changes (get_changes_since v (fold run_store ws empty_store))))"
proof -
  let ?s = "fold run_store ws empty_store"
  have ok: "store_ok ?s" using run_stores_ok [OF empty_store_ok] assms by auto
  have "validate_device_name ''*'' = Inr ''*''"
    by (simp add: validate_device_name_def printable_ascii_def)
  moreover have "''*'' \<notin> ch_name ` set (changes (get_changes_since v ?s))"
  proof (cases "v < version ?s")
    case True
    then show ?thesis by (intro changes_of_range(3) [OF ok]) (simp_all add: candidate_def)
  next
    case False
    then show ?thesis by (simp add: get_changes_since_def version_def Let_def)
  qed
  ultimately show ?thesis by simp
qed

section \<open>Instances\<close>

definition demo_history :: "store_op list" where
  "demo_history =
     [Seed_from demo_registry 1,
      Save ''d3'' (demo_device ''d3'' []) (Some (demo_spec ''d3'' True)) ''add'' None 2]"

definition demo_changes :: "store_op list" where
  "demo_changes =
     [Log_lock [''m1''] ''lock'' None 3,
      Delete_dev ''m2'' None 4,
      Save ''m1'' (demo_device ''m1'' []) (Some (demo_spec ''m1'' False)) ''disable'' None 5,
      Save ''d4'' (demo_device ''d4'' []) (Some (demo_spec ''d4'' True)) ''add'' None 6,
      Delete_dev ''d4'' None 7]"

lemmas history_simps = demo_history_def demo_changes_def write_ops_def lock_ops_def

theorem change_feed_exact_instance:
  "let s0 = fold run_store demo_history empty_store; s = fold run_store demo_changes s0
   in fold apply_change (changes (get_changes_since (version s0) s)) (stored s0) ''m1'' = stored s ''m1''"
proof -
  have "list_all proper_op (demo_history @ demo_changes)" by (simp add: history_simps)
  moreover have "\<not> list_ex is_wipe demo_changes" by (simp add: demo_changes_def)
  ultimately show ?thesis
    using change_feed_exact [of demo_history demo_changes "''m1''"] by (simp add: Let_def)
qed

theorem versions_increase_instance:
  "let s0 = fold run_store demo_history empty_store; s = fold run_store demo_changes s0
   in prefix (st_audit s0) (st_audit s)"
proof -
  have "list_all proper_op (demo_history @ demo_changes)" by (simp add: history_simps)
  then show ?thesis using versions_increase [of demo_history demo_changes] by (simp add: Let_def)
qed

theorem star_device_unreported_instance:
  "''*'' \<notin> set (map ch_name (changes (get_changes_since 0
      (fold run_store [Save ''*'' (demo_device ''*'' []) None ''add'' None 1] empty_store))))"
  using star_device_unreported [of "[Save ''*'' (demo_device ''*'' []) None ''add'' None 1]" 0]
  by (simp add: write_ops_def)

end
