(* ===== verification/LockManager.thy ===== *)
theory LockManager
  imports DeviceRegistry "HOL-Library.List_Lexorder" "HOL-Library.Char_ord"
begin

text \<open>
  The device lock manager of the configuration service (\<open>lock_manager.py\<close>, class
  \<open>DeviceLockManager\<close>): all-or-nothing acquisition, leases that lapse unless renewed,
  release by the owner, forced release, and the lock_all availability policy. Every method
  runs to its end without suspending; the clock readings of one call are taken to be one
  instant, the parameter \<open>now\<close>. Times are seconds; the lock table keeps insertion order.
\<close>

section \<open>State\<close>

record device_lock =
  lk_device :: string
  lk_locked :: bool
  lk_plan :: string
  lk_item :: string
  lk_service :: string
  lk_at :: rat
  lk_id :: string
  lk_expires :: "rat option"

datatype conflict_reason = Not_found | Spec_missing | Disabled | Already_locked

record lock_conflict =
  lc_device :: string
  lc_reason :: conflict_reason
  lc_plan :: "string option"
  lc_at :: "rat option"

record lock_result =
  lr_success :: bool
  lr_lock_id :: "string option"
  lr_devices :: "string list"
  lr_pvs :: "string list"
  lr_conflicts :: "lock_conflict list"
  lr_error_code :: int
  lr_expires :: "rat option"

record renew_result =
  rr_success :: bool
  rr_renewed :: "string list"
  rr_lost :: "string list"
  rr_conflicts :: "string list"
  rr_expires :: "rat option"

record lock_mgr =
  lm_locks :: "(string \<times> device_lock) list"
  lm_version :: nat
  lm_lock_all :: bool
  lm_ttl :: rat
  lm_epoch :: string
  lm_uuids :: "nat \<Rightarrow> string"
  lm_next :: nat

definition new_lock_mgr :: "bool \<Rightarrow> rat \<Rightarrow> (nat \<Rightarrow> string) \<Rightarrow> nat \<Rightarrow> lock_mgr" where
  "new_lock_mgr lock_all ttl us n =
     \<lparr>lm_locks = [], lm_version = 0, lm_lock_all = lock_all, lm_ttl = ttl, lm_epoch = us n,
      lm_uuids = us, lm_next = Suc n\<rparr>"

definition is_expired :: "device_lock \<Rightarrow> rat \<Rightarrow> bool" where
  "is_expired l now = (case lk_expires l of None \<Rightarrow> False | Some e \<Rightarrow> e \<le> now)"

definition next_expiry :: "lock_mgr \<Rightarrow> rat \<Rightarrow> rat option" where
  "next_expiry m now = (if lm_ttl m \<le> 0 then None else Some (now + lm_ttl m))"

definition active_lock :: "lock_mgr \<Rightarrow> string \<Rightarrow> rat \<Rightarrow> device_lock option" where
  "active_lock m name now =
     (case dget (lm_locks m) name of
        None \<Rightarrow> None
      | Some l \<Rightarrow> if \<not> lk_locked l then None else if is_expired l now then None else Some l)"

section \<open>Operations\<close>

definition check_device :: "lock_mgr \<Rightarrow> registry \<Rightarrow> rat \<Rightarrow> string \<Rightarrow> lock_conflict list" where
  "check_device m r now name =
     (case get_device name r of
        None \<Rightarrow> [\<lparr>lc_device = name, lc_reason = Not_found, lc_plan = None, lc_at = None\<rparr>]
      | Some d \<Rightarrow>
          (case get_instantiation_spec name r of
             None \<Rightarrow> [\<lparr>lc_device = name, lc_reason = Spec_missing, lc_plan = None, lc_at = None\<rparr>]
           | Some sp \<Rightarrow>
               if \<not> active sp then
                 [\<lparr>lc_device = name, lc_reason = Disabled, lc_plan = None, lc_at = None\<rparr>]
               else (case active_lock m name now of
                   None \<Rightarrow> []
                 | Some l \<Rightarrow> [\<lparr>lc_device = name, lc_reason = Already_locked,
                                lc_plan = Some (lk_plan l), lc_at = Some (lk_at l)\<rparr>])))"

definition conflict_code :: "conflict_reason set \<Rightarrow> int" where
  "conflict_code reasons =
     (if Spec_missing \<in> reasons then 500
      else if Not_found \<in> reasons then 404
      else if Disabled \<in> reasons then 422
      else 409)"

definition get_device_pvs :: "string list \<Rightarrow> registry \<Rightarrow> string list" where
  "get_device_pvs names r =
     sort (remdups (concat (map (\<lambda>n. case get_device n r of
        None \<Rightarrow> [] | Some d \<Rightarrow> map snd (dev_pvs d)) names)))"

definition acquire_locks ::
    "string list \<Rightarrow> string \<Rightarrow> string \<Rightarrow> string \<Rightarrow> registry \<Rightarrow> rat \<Rightarrow> lock_mgr \<Rightarrow>
     lock_result \<times> lock_mgr" where
  "acquire_locks names item plan service r now m =
     (let conflicts = concat (map (check_device m r now) names) in
      if conflicts \<noteq> [] then
        (\<lparr>lr_success = False, lr_lock_id = None, lr_devices = [], lr_pvs = [],
          lr_conflicts = conflicts, lr_error_code = conflict_code (lc_reason ` set conflicts),
          lr_expires = None\<rparr>, m)
      else
        let lock_id = lm_uuids m (lm_next m);
            expires = next_expiry m now;
            lock = (\<lambda>n. \<lparr>lk_device = n, lk_locked = True, lk_plan = plan, lk_item = item,
                          lk_service = service, lk_at = now, lk_id = lock_id, lk_expires = expires\<rparr>)
        in (\<lparr>lr_success = True, lr_lock_id = Some lock_id, lr_devices = names,
             lr_pvs = get_device_pvs names r, lr_conflicts = [], lr_error_code = 200,
             lr_expires = expires\<rparr>,
            m\<lparr>lm_locks := fold (\<lambda>n ls. dset n (lock n) ls) names (lm_locks m),
              lm_version := lm_version m + 1, lm_next := Suc (lm_next m)\<rparr>))"

text \<open>One device of a heartbeat: the new table and in which of the three lists it goes.\<close>

datatype renew_outcome = Renewed | Lost | Conflict

definition renew_one ::
    "string \<Rightarrow> rat \<Rightarrow> rat option \<Rightarrow> string \<Rightarrow> (string \<times> device_lock) list \<Rightarrow>
     renew_outcome \<times> (string \<times> device_lock) list" where
  "renew_one item now expires name locks =
     (case dget locks name of
        None \<Rightarrow> (Lost, locks)
      | Some l \<Rightarrow>
          if \<not> lk_locked l \<or> is_expired l now then (Lost, locks)
          else if lk_item l \<noteq> item then (Conflict, locks)
          else (Renewed, dset name (l\<lparr>lk_expires := expires\<rparr>) locks))"

fun renew_all ::
    "string \<Rightarrow> rat \<Rightarrow> rat option \<Rightarrow> string list \<Rightarrow> (string \<times> device_lock) list \<Rightarrow>
     (string \<times> renew_outcome) list \<times> (string \<times> device_lock) list" where
  "renew_all item now expires [] locks = ([], locks)"
| "renew_all item now expires (n # ns) locks =
     (case renew_one item now expires n locks of (out, locks1) \<Rightarrow>
      case renew_all item now expires ns locks1 of (outs, locks2) \<Rightarrow> ((n, out) # outs, locks2))"

definition names_with :: "renew_outcome \<Rightarrow> (string \<times> renew_outcome) list \<Rightarrow> string list" where
  "names_with o' outs = map fst (filter (\<lambda>x. snd x = o') outs)"

definition renew_locks ::
    "string list \<Rightarrow> string \<Rightarrow> rat \<Rightarrow> lock_mgr \<Rightarrow> renew_result \<times> lock_mgr" where
  "renew_locks names item now m =
     (let expires = next_expiry m now in
      case renew_all item now expires names (lm_locks m) of (outs, locks) \<Rightarrow>
        (\<lparr>rr_success = (names_with Lost outs = [] \<and> names_with Conflict outs = []),
          rr_renewed = names_with Renewed outs, rr_lost = names_with Lost outs,
          rr_conflicts = names_with Conflict outs, rr_expires = expires\<rparr>,
         m\<lparr>lm_locks := locks\<rparr>))"

text \<open>Deleting the held locks of the named devices, and which of them were held.\<close>

fun drop_held ::
    "string list \<Rightarrow> (string \<times> device_lock) list \<Rightarrow> string list \<times> (string \<times> device_lock) list" where
  "drop_held [] locks = ([], locks)"
| "drop_held (n # ns) locks =
     (case dget locks n of
        Some l \<Rightarrow>
          if lk_locked l then (case drop_held ns (ddel n locks) of (us, ls) \<Rightarrow> (n # us, ls))
          else drop_held ns locks
      | None \<Rightarrow> drop_held ns locks)"

definition release_locks ::
    "string list \<Rightarrow> string \<Rightarrow> rat \<Rightarrow> lock_mgr \<Rightarrow> (bool \<times> string list) \<times> lock_mgr" where
  "release_locks names item now m =
     (if list_ex (\<lambda>n. case active_lock m n now of None \<Rightarrow> False | Some l \<Rightarrow> lk_item l \<noteq> item) names
      then ((False, []), m)
      else (case drop_held names (lm_locks m) of (unlocked, locks) \<Rightarrow>
              ((True, unlocked),
               m\<lparr>lm_locks := locks,
                 lm_version := (if unlocked \<noteq> [] then lm_version m + 1 else lm_version m)\<rparr>)))"

text \<open>\<open>list(dict.fromkeys(names))\<close>: the first occurrence of each name.\<close>

fun dedup :: "string list \<Rightarrow> string list" where
  "dedup [] = []"
| "dedup (n # ns) = n # filter (\<lambda>x. x \<noteq> n) (dedup ns)"

definition force_unlock ::
    "string list \<Rightarrow> registry \<Rightarrow> lock_mgr \<Rightarrow> (string list \<times> string list) \<times> lock_mgr" where
  "force_unlock names r m =
     (let ns = dedup names;
          not_found = filter (\<lambda>n. get_device n r = None \<and> dget (lm_locks m) n = None) ns
      in if not_found \<noteq> [] then (([], not_found), m)
         else ((ns, []),
               m\<lparr>lm_locks := snd (drop_held ns (lm_locks m)),
                 lm_version := (if ns \<noteq> [] then lm_version m + 1 else lm_version m)\<rparr>))"

definition clear_all :: "lock_mgr \<Rightarrow> string list \<times> lock_mgr" where
  "clear_all m =
     (let cleared = map fst (filter (\<lambda>nl. lk_locked (snd nl)) (lm_locks m))
      in (cleared, m\<lparr>lm_locks := [],
            lm_version := (if cleared \<noteq> [] then lm_version m + 1 else lm_version m)\<rparr>))"

definition is_device_locked :: "string \<Rightarrow> rat \<Rightarrow> lock_mgr \<Rightarrow> bool" where
  "is_device_locked name now m = (active_lock m name now \<noteq> None)"

definition get_device_lock :: "string \<Rightarrow> rat \<Rightarrow> lock_mgr \<Rightarrow> device_lock option" where
  "get_device_lock name now m = active_lock m name now"

definition get_all_locks :: "rat \<Rightarrow> lock_mgr \<Rightarrow> (string \<times> device_lock) list" where
  "get_all_locks now m =
     filter (\<lambda>nl. lk_locked (snd nl) \<and> \<not> is_expired (snd nl) now) (lm_locks m)"

definition set_lock_all :: "bool \<Rightarrow> lock_mgr \<Rightarrow> lock_mgr" where
  "set_lock_all b m =
     (if b \<noteq> lm_lock_all m then m\<lparr>lm_lock_all := b, lm_version := lm_version m + 1\<rparr> else m)"

text \<open>\<open>min\<close> returns the first of several minimal elements.\<close>

fun earliest :: "device_lock list \<Rightarrow> device_lock option" where
  "earliest [] = None"
| "earliest (l # ls) =
     (case earliest ls of None \<Rightarrow> Some l | Some k \<Rightarrow> if lk_at k < lk_at l then Some k else Some l)"

definition global_lock_holder :: "rat \<Rightarrow> lock_mgr \<Rightarrow> device_lock option" where
  "global_lock_holder now m = earliest (map snd (get_all_locks now m))"

definition effective_lock :: "string \<Rightarrow> rat \<Rightarrow> lock_mgr \<Rightarrow> device_lock option" where
  "effective_lock name now m =
     (case get_device_lock name now m of
        Some l \<Rightarrow> Some l
      | None \<Rightarrow> if lm_lock_all m then global_lock_holder now m else None)"

section \<open>Facts about the operations\<close>

lemma dget_lock_fold:
  "dget (fold (\<lambda>n ls. dset n (f n) ls) ns ls) q = (if q \<in> set ns then Some (f q) else dget ls q)"
  by (induction ns arbitrary: ls) (auto simp: dict_simps)

lemma next_expiry_future: "next_expiry m now = Some e \<Longrightarrow> now < e"
  by (auto simp: next_expiry_def split: if_splits)

lemma check_device_ok:
  "check_device m r now n = [] \<longleftrightarrow>
     (\<exists>d sp. get_device n r = Some d \<and> get_instantiation_spec n r = Some sp \<and> active sp) \<and>
     active_lock m n now = None"
  by (auto simp: check_device_def split: option.splits)

lemma check_device_reason:
  "lc_reason ` set (check_device m r now n) =
     (if get_device n r = None then {Not_found}
      else case get_instantiation_spec n r of
          None \<Rightarrow> {Spec_missing}
        | Some sp \<Rightarrow> if \<not> active sp then {Disabled}
                     else if active_lock m n now \<noteq> None then {Already_locked} else {})"
  by (auto simp: check_device_def split: option.splits)

lemma reasons_union:
  "lc_reason ` set (concat (map (check_device m r now) names)) =
   (\<Union>n \<in> set names. lc_reason ` set (check_device m r now n))"
  by auto

lemma dget_drop_held:
  "dget (snd (drop_held ns ls)) q =
     (if q \<in> set ns \<and> (case dget ls q of None \<Rightarrow> False | Some l \<Rightarrow> lk_locked l) then None else dget ls q)"
proof (induction ns arbitrary: ls)
  case (Cons n ns)
  show ?case
    by (cases "dget ls n")
      (auto simp: Cons split_beta dict_simps split: option.splits)
qed simp

lemma fst_drop_held:
  "set (fst (drop_held ns ls)) = {n \<in> set ns. case dget ls n of None \<Rightarrow> False | Some l \<Rightarrow> lk_locked l}"
proof (induction ns arbitrary: ls)
  case (Cons n ns)
  show ?case
    by (cases "dget ls n")
      (auto simp: Cons split_beta dict_simps split: option.splits if_splits)
qed simp

lemma drop_held_nothing: "fst (drop_held ns ls) = [] \<Longrightarrow> snd (drop_held ns ls) = ls"
  by (induction ns ls rule: drop_held.induct) (auto split: option.splits if_splits prod.splits)

lemma set_dedup [simp]: "set (dedup ns) = set ns"
  by (induction ns) auto

lemma distinct_dedup: "distinct (dedup ns)"
  by (induction ns) auto

text \<open>A device can be renewed by an item that holds a live lock on it.\<close>

definition renewable :: "string \<Rightarrow> rat \<Rightarrow> device_lock option \<Rightarrow> bool" where
  "renewable item now x =
     (case x of None \<Rightarrow> False | Some l \<Rightarrow> lk_locked l \<and> \<not> is_expired l now \<and> lk_item l = item)"

definition renewed_lock :: "string \<Rightarrow> rat \<Rightarrow> rat option \<Rightarrow> device_lock option \<Rightarrow> device_lock option" where
  "renewed_lock item now e x =
     (if renewable item now x then map_option (\<lambda>l. l\<lparr>lk_expires := e\<rparr>) x else x)"

lemma dget_renew_one:
  "dget (snd (renew_one item now e n ls)) q =
     (if q = n then renewed_lock item now e (dget ls q) else dget ls q)"
  by (auto simp: renew_one_def renewed_lock_def renewable_def dict_simps split: option.splits)

lemma renewed_idem:
  "(\<And>x. e = Some x \<Longrightarrow> now < x) \<Longrightarrow>
   renewed_lock item now e (renewed_lock item now e x) = renewed_lock item now e x"
  by (cases x) (auto simp: renewed_lock_def)

lemma dget_renew_all:
  assumes "\<And>x. e = Some x \<Longrightarrow> now < x"
  shows "dget (snd (renew_all item now e ns ls)) q =
     (if q \<in> set ns then renewed_lock item now e (dget ls q) else dget ls q)"
proof (induction ns arbitrary: ls)
  case (Cons n ns)
  show ?case
    using Cons [of "snd (renew_one item now e n ls)"] renewed_idem [OF assms]
    by (auto simp: split_beta dget_renew_one)
qed simp

definition outcome_of :: "string \<Rightarrow> rat \<Rightarrow> device_lock option \<Rightarrow> renew_outcome" where
  "outcome_of item now x =
     (case x of
        None \<Rightarrow> Lost
      | Some l \<Rightarrow> if \<not> lk_locked l \<or> is_expired l now then Lost
                  else if lk_item l \<noteq> item then Conflict else Renewed)"

lemma outcome_renewed:
  assumes "\<And>x. e = Some x \<Longrightarrow> now < x"
  shows "outcome_of item now (renewed_lock item now e x) = outcome_of item now x"
proof (cases x)
  case (Some l)
  have "\<not> is_expired (l\<lparr>lk_expires := e\<rparr>) now"
    using assms by (cases e) (auto simp: is_expired_def)
  then show ?thesis using Some by (auto simp: outcome_of_def renewed_lock_def renewable_def)
qed (simp add: outcome_of_def renewed_lock_def renewable_def)

lemma renew_all_outcomes:
  assumes "\<And>x. e = Some x \<Longrightarrow> now < x"
  shows "fst (renew_all item now e ns ls) = map (\<lambda>n. (n, outcome_of item now (dget ls n))) ns"
proof (induction ns arbitrary: ls)
  case (Cons n ns)
  have one: "fst (renew_one item now e n ls) = outcome_of item now (dget ls n)"
    by (auto simp: renew_one_def outcome_of_def split: option.splits)
  have "outcome_of item now (dget (snd (renew_one item now e n ls)) q) = outcome_of item now (dget ls q)" for q
    by (simp add: dget_renew_one outcome_renewed [OF assms])
  then show ?case using Cons [of "snd (renew_one item now e n ls)"] one by (simp add: split_beta)
qed simp

end
