(* ===== verification/StandalonePVs.thy ===== *)
theory StandalonePVs
  imports DeviceRegistry "HOL-Library.List_Lexorder" "HOL-Library.Char_ord"
begin

text \<open>
  The store of standalone PVs (\<open>standalone_pv_store.py\<close>, class \<open>StandalonePVStore\<close>): EPICS
  PVs registered without a device. One row per PV name; the JSON text of the labels is the
  list it denotes, and \<open>ORDER BY pv_name\<close> is SQLite's order by character codes.
\<close>

datatype pv_protocol = CA | PVA

datatype pv_access = Read_only | Read_write

record spv =
  sp_name :: string
  sp_description :: "string option"
  sp_protocol :: pv_protocol
  sp_access :: pv_access
  sp_labels :: "string list"
  sp_source :: string
  sp_created_by :: "string option"
  sp_created :: rat
  sp_updated :: rat

type_synonym spv_store = "(string \<times> spv) list"

text \<open>The upsert keeps \<open>created_at\<close> and \<open>created_by\<close> of an existing row.\<close>

definition save_pv ::
    "string \<Rightarrow> string option \<Rightarrow> pv_protocol \<Rightarrow> pv_access \<Rightarrow> string list option \<Rightarrow> string \<Rightarrow>
     string option \<Rightarrow> rat \<Rightarrow> spv_store \<Rightarrow> spv_store" where
  "save_pv name desc proto access labels source by now s =
     (let ls = (case labels of None \<Rightarrow> [] | Some l \<Rightarrow> l) in
      dset name
        (case dget s name of
           None \<Rightarrow> \<lparr>sp_name = name, sp_description = desc, sp_protocol = proto, sp_access = access,
                     sp_labels = ls, sp_source = source, sp_created_by = by, sp_created = now,
                     sp_updated = now\<rparr>
         | Some row \<Rightarrow> row\<lparr>sp_description := desc, sp_protocol := proto, sp_access := access,
                           sp_labels := ls, sp_source := source, sp_updated := now\<rparr>) s)"

definition delete_pv :: "string \<Rightarrow> spv_store \<Rightarrow> bool \<times> spv_store" where
  "delete_pv name s = (dhas s name, ddel name s)"

definition get_spv :: "string \<Rightarrow> spv_store \<Rightarrow> spv option" where
  "get_spv name s = dget s name"

definition get_all_pvs :: "string list \<Rightarrow> spv_store \<Rightarrow> spv list" where
  "get_all_pvs labels s =
     (let pvs = map snd (sort_key fst s) in
      if labels = [] then pvs
      else filter (\<lambda>p. list_all (\<lambda>l. l \<in> set (sp_labels p)) labels) pvs)"

definition get_all_labels :: "spv_store \<Rightarrow> string list" where
  "get_all_labels s = sort (remdups (concat (map (sp_labels \<circ> snd) s)))"

definition clear_all_pvs :: "spv_store \<Rightarrow> nat \<times> spv_store" where
  "clear_all_pvs s = (length s, [])"

definition spv_ok :: "spv_store \<Rightarrow> bool" where
  "spv_ok s \<longleftrightarrow> wf_dict s \<and> (\<forall>(n, p) \<in> set s. sp_name p = n)"

lemma ok_save: "spv_ok s \<Longrightarrow> spv_ok (save_pv n d p a l src b t s)"
  unfolding spv_ok_def save_pv_def Let_def
  by (auto simp: set_dset dget_mem dest: map_of_SomeD split: option.splits)

lemma ok_delete: "spv_ok s \<Longrightarrow> spv_ok (snd (delete_pv n s))"
  by (auto simp: spv_ok_def delete_pv_def set_ddel)

lemma dget_save: "dget (save_pv n d p a l src b t s) q \<noteq> None \<longleftrightarrow> q = n \<or> dget s q \<noteq> None"
  by (auto simp: save_pv_def Let_def dget_dset)

lemmas dget_save_ex = dget_save [unfolded not_None_eq]

lemma dget_delete: "dget (snd (delete_pv n s)) q = (if q = n then None else dget s q)"
  by (simp add: delete_pv_def dget_ddel)

text \<open>The names of all rows, as the startup code reads them.\<close>

lemma names_of_all:
  assumes "spv_ok s"
  shows "sp_name ` set (get_all_pvs [] s) = {n. dget s n \<noteq> None}"
proof -
  have "sp_name ` set (get_all_pvs [] s) = (\<lambda>np. sp_name (snd np)) ` set s"
    by (auto simp: get_all_pvs_def Let_def image_image)
  also have "\<dots> = fst ` set s" using assms by (force simp: spv_ok_def)
  also have "\<dots> = {n. dget s n \<noteq> None}" by (auto simp: dom_map_of_conv_image_fst [symmetric])
  finally show ?thesis .
qed

end
