(* ===== verification/ConfigService.thy ===== *)
theory ConfigService
  imports LockManager RegistryFeed StandalonePVs
begin

text \<open>
  The request handlers of the configuration service that change its state (\<open>main.py\<close>): the
  registry in memory, its persistent copy, the standalone PVs and the device locks change
  together. A handler returns the HTTP status and the new state. \<open>db\<close> says whether the
  database accepts the writes of the request; a refused write raises, which is status 500.
  The registry lock serialises the handlers, so each is one step.
\<close>

record config =
  cf_reg :: registry
  cf_store :: reg_store
  cf_pvs :: spv_store
  cf_locks :: lock_mgr

section \<open>Startup\<close>

definition apply_standalone_pvs :: "spv_store \<Rightarrow> registry \<Rightarrow> registry" where
  "apply_standalone_pvs pvs r = fold (\<lambda>p. add_standalone_pv (sp_name p)) (get_all_pvs [] pvs) r"

text \<open>
  A start of the service over the stored tables, with the profile's registry as the loader
  returns it and a new lock manager. A failing seed stops the start (\<open>None\<close>).
\<close>

definition startup :: "registry \<Rightarrow> rat \<Rightarrow> lock_mgr \<Rightarrow> reg_store \<Rightarrow> spv_store \<Rightarrow> config option" where
  "startup profile now lm s pvs =
     (if is_seeded s
      then Some \<lparr>cf_reg = apply_standalone_pvs pvs (load_all_devices s), cf_store = s,
                 cf_pvs = pvs, cf_locks = lm\<rparr>
      else case seed_from_registry profile now s of
          None \<Rightarrow> None
        | Some s' \<Rightarrow> Some \<lparr>cf_reg = apply_standalone_pvs pvs profile, cf_store = s',
                          cf_pvs = pvs, cf_locks = lm\<rparr>)"

section \<open>Devices\<close>

definition device_class_allowed :: "string \<Rightarrow> string list \<Rightarrow> bool" where
  "device_class_allowed path allowlist =
     (allowlist = [] \<or> list_ex (\<lambda>pre. prefix pre path) allowlist)"

fun label_text :: "device_label \<Rightarrow> string" where
  "label_text MOTOR = ''motor''"
| "label_text DETECTOR = ''detector''"
| "label_text SIGNAL = ''signal''"
| "label_text FLYER = ''flyer''"
| "label_text READABLE = ''readable''"
| "label_text DEVICE = ''device''"

definition device_details :: "device \<Rightarrow> dict" where
  "device_details d =
     [(''device_label'', JStr (label_text (dev_label d))), (''ophyd_class'', JStr (dev_ophyd_class d))]"

text \<open>The field validators of the request models.\<close>

definition valid_request :: "device \<Rightarrow> spec \<Rightarrow> bool" where
  "valid_request d sp \<longleftrightarrow>
     validate_device_name (dev_name d) = Inr (dev_name d) \<and>
     validate_device_name (spec_name sp) = Inr (spec_name sp) \<and>
     list_all (\<lambda>cp. validate_pv_value (snd cp) = Inr (snd cp)) (dev_pvs d)"

definition create_device ::
    "string list \<Rightarrow> bool \<Rightarrow> rat \<Rightarrow> device \<Rightarrow> spec \<Rightarrow> config \<Rightarrow> int \<times> config" where
  "create_device allowlist db now d sp c =
     (let name = dev_name d in
      if \<not> valid_request d sp then (422, c)
      else if name \<noteq> spec_name sp then (400, c)
      else if \<not> device_class_allowed (device_class sp) allowlist then (422, c)
      else if get_device name (cf_reg c) \<noteq> None then (409, c)
      else if \<not> db then (500, c)
      else (201, c\<lparr>cf_store := save_device name d (Some sp) ''add'' (Some (device_details d)) now (cf_store c),
                   cf_reg := add_device d (Some sp) (cf_reg c)\<rparr>))"

text \<open>
  The fields a client sent, merged over the dump of the stored model and validated again.
  Dumping and validating a model is pydantic's: parameters.
\<close>

definition apply_partial_update ::
    "('m \<Rightarrow> dict) \<Rightarrow> (dict \<Rightarrow> 'm option) \<Rightarrow> 'm \<Rightarrow> dict \<Rightarrow> 'm option" where
  "apply_partial_update dump validate existing sent = validate (dupdate (dump existing) sent)"

record models =
  dump_device :: "device \<Rightarrow> dict"
  valid_device :: "dict \<Rightarrow> device option"
  dump_spec :: "spec \<Rightarrow> dict"
  valid_spec :: "dict \<Rightarrow> spec option"

text \<open>
  The body of an update: the sent fields of the metadata and of the specification, \<open>None\<close> when
  that part is absent. A name that is sent and not null has to be the name in the path.
\<close>

definition name_mismatch :: "string \<Rightarrow> dict option \<Rightarrow> bool" where
  "name_mismatch name sent =
     (case sent of
        None \<Rightarrow> False
      | Some f \<Rightarrow> (case dget f ''name'' of
            None \<Rightarrow> False | Some JNull \<Rightarrow> False | Some v \<Rightarrow> v \<noteq> JStr name))"

definition class_refused :: "string list \<Rightarrow> dict option \<Rightarrow> bool" where
  "class_refused allowlist sent =
     (case sent of
        None \<Rightarrow> False
      | Some f \<Rightarrow> (case dget f ''device_class'' of
            Some (JStr path) \<Rightarrow> \<not> device_class_allowed path allowlist | _ \<Rightarrow> False))"

definition merge_spec :: "models \<Rightarrow> spec option \<Rightarrow> dict option \<Rightarrow> spec option option" where
  "merge_spec p existing sent =
     (case sent of
        None \<Rightarrow> Some existing
      | Some f \<Rightarrow> map_option Some
          (case existing of
             Some sp \<Rightarrow> apply_partial_update (dump_spec p) (valid_spec p) sp f
           | None \<Rightarrow> valid_spec p f))"

definition changed_fields :: "dict option \<Rightarrow> dict option \<Rightarrow> json list" where
  "changed_fields md sd =
     (case md of None \<Rightarrow> [] | Some f \<Rightarrow> map (JStr \<circ> fst) f) @
     (case sd of None \<Rightarrow> [] | Some f \<Rightarrow> map (\<lambda>kv. JStr (''spec.'' @ fst kv)) f)"

definition update_device_request ::
    "models \<Rightarrow> string list \<Rightarrow> bool \<Rightarrow> rat \<Rightarrow> string \<Rightarrow> dict option \<Rightarrow> dict option \<Rightarrow> config \<Rightarrow>
     int \<times> config" where
  "update_device_request p allowlist db now name md sd c =
     (if name_mismatch name md \<or> name_mismatch name sd then (400, c)
      else if class_refused allowlist sd then (422, c)
      else case get_device name (cf_reg c) of
          None \<Rightarrow> (404, c)
        | Some existing \<Rightarrow>
            if is_device_locked name now (cf_locks c) then (409, c)
            else (case (case md of None \<Rightarrow> Some existing
                        | Some f \<Rightarrow> apply_partial_update (dump_device p) (valid_device p) existing f) of
                None \<Rightarrow> (422, c)
              | Some d \<Rightarrow>
                  (case merge_spec p (get_instantiation_spec name (cf_reg c)) sd of
                     None \<Rightarrow> (422, c)
                   | Some sp \<Rightarrow>
                       if \<not> db then (500, c)
                       else (200, c\<lparr>cf_store := save_device name d sp ''update''
                               (if changed_fields md sd = [] then None
                                else Some [(''changed_fields'', JList (changed_fields md sd))])
                               now (cf_store c),
                             cf_reg := snd (update_device d sp (cf_reg c))\<rparr>))))"

definition delete_device_request :: "bool \<Rightarrow> rat \<Rightarrow> string \<Rightarrow> config \<Rightarrow> int \<times> config" where
  "delete_device_request db now name c =
     (case get_device name (cf_reg c) of
        None \<Rightarrow> (404, c)
      | Some d \<Rightarrow>
          if is_device_locked name now (cf_locks c) then (409, c)
          else if \<not> db then (500, c)
          else (200, c\<lparr>cf_store := snd (delete_device name (Some (rev (device_details d))) now (cf_store c)),
                       cf_reg := snd (remove_device name (cf_reg c))\<rparr>))"

text \<open>Enabling and disabling differ in the flag they set.\<close>

definition set_active :: "bool \<Rightarrow> bool \<Rightarrow> rat \<Rightarrow> string \<Rightarrow> config \<Rightarrow> int \<times> config" where
  "set_active b db now name c =
     (case get_device name (cf_reg c) of
        None \<Rightarrow> (404, c)
      | Some existing \<Rightarrow>
          (case get_instantiation_spec name (cf_reg c) of
             None \<Rightarrow> (404, c)
           | Some sp \<Rightarrow>
               if active sp = b then (200, c)
               else if \<not> db then (500, c)
               else (200, c\<lparr>cf_store := save_device name existing (Some (sp\<lparr>active := b\<rparr>))
                         (if b then ''enable'' else ''disable'')
                         (Some [(''field'', JStr ''active''), (''old'', JBool (\<not> b)), (''new'', JBool b)])
                         now (cf_store c),
                       cf_reg := snd (update_device existing (Some (sp\<lparr>active := b\<rparr>)) (cf_reg c))\<rparr>)))"

definition enable_device :: "bool \<Rightarrow> rat \<Rightarrow> string \<Rightarrow> config \<Rightarrow> int \<times> config" where
  "enable_device = set_active True"

definition disable_device :: "bool \<Rightarrow> rat \<Rightarrow> string \<Rightarrow> config \<Rightarrow> int \<times> config" where
  "disable_device = set_active False"

section \<open>Reset and clear\<close>

text \<open>
  \<open>profile\<close> is the registry the loader returns, \<open>None\<close> when it raises. The wipe and the new
  seed are two transactions: when the second one is refused the wipe stays.
\<close>

definition replace_registry :: "registry \<Rightarrow> bool \<Rightarrow> bool \<Rightarrow> rat \<Rightarrow> rat \<Rightarrow> config \<Rightarrow> int \<times> config" where
  "replace_registry r db db2 now now2 c =
     (if \<not> db then (500, c)
      else let s1 = (log_audit ''*'' ''reset'' now (Some (JDict [(''reason'', JStr ''manual_reset'')]))
                       (cf_store c))\<lparr>st_rows := [], st_seeded := None\<rparr>
           in if \<not> db2 then (500, c\<lparr>cf_store := s1\<rparr>)
              else (case clear_and_reseed r now now2 (cf_store c) of (ok, s2) \<Rightarrow>
                  if \<not> ok then (500, c\<lparr>cf_store := s2\<rparr>)
                  else (200, c\<lparr>cf_store := s2, cf_reg := apply_standalone_pvs (cf_pvs c) r,
                               cf_locks := snd (clear_all (cf_locks c))\<rparr>)))"

definition reset_registry :: "registry option \<Rightarrow> bool \<Rightarrow> bool \<Rightarrow> rat \<Rightarrow> rat \<Rightarrow> config \<Rightarrow> int \<times> config" where
  "reset_registry profile db db2 now now2 c =
     (case profile of None \<Rightarrow> (500, c) | Some r \<Rightarrow> replace_registry r db db2 now now2 c)"

definition clear_registry :: "bool \<Rightarrow> bool \<Rightarrow> rat \<Rightarrow> rat \<Rightarrow> config \<Rightarrow> int \<times> config" where
  "clear_registry = replace_registry empty_registry"

section \<open>Standalone PVs\<close>

definition create_standalone ::
    "bool \<Rightarrow> rat \<Rightarrow> string \<Rightarrow> string option \<Rightarrow> pv_protocol \<Rightarrow> pv_access \<Rightarrow> string list \<Rightarrow>
     config \<Rightarrow> int \<times> config" where
  "create_standalone db now name desc proto access labels c =
     (case validate_pv_value name of
        Inl e \<Rightarrow> (422, c)
      | Inr n \<Rightarrow>
          if get_pv name (cf_reg c) \<noteq> None then (409, c)
          else if get_spv name (cf_pvs c) \<noteq> None then (409, c)
          else if \<not> db then (500, c)
          else (201, c\<lparr>cf_pvs := save_pv name desc proto access (Some labels) ''runtime'' None now (cf_pvs c),
                       cf_reg := add_standalone_pv name (cf_reg c)\<rparr>))"

text \<open>
  Updating reads the row and writes the merged row back without holding the registry lock:
  two steps, between which other handlers can run.
\<close>

definition read_standalone :: "string \<Rightarrow> config \<Rightarrow> spv option" where
  "read_standalone name c = get_spv name (cf_pvs c)"

definition write_standalone :: "bool \<Rightarrow> rat \<Rightarrow> string \<Rightarrow> spv \<Rightarrow> config \<Rightarrow> int \<times> config" where
  "write_standalone db now name merged c =
     (if \<not> db then (500, c)
      else (200, c\<lparr>cf_pvs := save_pv name (sp_description merged) (sp_protocol merged)
                     (sp_access merged) (Some (sp_labels merged)) (sp_source merged) None now (cf_pvs c)\<rparr>))"

definition update_standalone ::
    "(spv \<Rightarrow> spv) \<Rightarrow> bool \<Rightarrow> rat \<Rightarrow> string \<Rightarrow> config \<Rightarrow> int \<times> config" where
  "update_standalone merge db now name c =
     (case read_standalone name c of
        None \<Rightarrow> (404, c) | Some row \<Rightarrow> write_standalone db now name (merge row) c)"

definition delete_standalone :: "bool \<Rightarrow> string \<Rightarrow> config \<Rightarrow> int \<times> config" where
  "delete_standalone db name c =
     (if get_spv name (cf_pvs c) = None then (404, c)
      else if \<not> db then (500, c)
      else (200, c\<lparr>cf_pvs := snd (delete_pv name (cf_pvs c)),
                   cf_reg := remove_standalone_pv name (cf_reg c)\<rparr>))"

section \<open>Locks\<close>

text \<open>The lock is taken first and logged afterwards; a refused log entry is status 500.\<close>

definition lock_details :: "string \<Rightarrow> string \<Rightarrow> string \<Rightarrow> string option \<Rightarrow> json" where
  "lock_details item plan service lock_id =
     JDict [(''plan'', JStr plan), (''item_id'', JStr item), (''service'', JStr service),
            (''lock_id'', case lock_id of None \<Rightarrow> JNull | Some i \<Rightarrow> JStr i)]"

definition lock_devices ::
    "bool \<Rightarrow> rat \<Rightarrow> string list \<Rightarrow> string \<Rightarrow> string \<Rightarrow> string \<Rightarrow> config \<Rightarrow> (int \<times> lock_result) \<times> config" where
  "lock_devices db now names item plan service c =
     (case acquire_locks names item plan service (cf_reg c) now (cf_locks c) of (res, lm) \<Rightarrow>
        if \<not> lr_success res then ((lr_error_code res, res), c\<lparr>cf_locks := lm\<rparr>)
        else if \<not> db then ((500, res), c\<lparr>cf_locks := lm\<rparr>)
        else ((200, res), c\<lparr>cf_locks := lm,
               cf_store := log_lock_event (lr_devices res) ''lock''
                 (Some (lock_details item plan service (lr_lock_id res))) now (cf_store c)\<rparr>))"

definition unlock_devices :: "bool \<Rightarrow> rat \<Rightarrow> string list \<Rightarrow> string \<Rightarrow> config \<Rightarrow> int \<times> config" where
  "unlock_devices db now names item c =
     (case release_locks names item now (cf_locks c) of ((ok, freed), lm) \<Rightarrow>
        if \<not> ok then (403, c\<lparr>cf_locks := lm\<rparr>)
        else if freed = [] then (200, c\<lparr>cf_locks := lm\<rparr>)
        else if \<not> db then (500, c\<lparr>cf_locks := lm\<rparr>)
        else (200, c\<lparr>cf_locks := lm,
               cf_store := log_lock_event freed ''unlock'' (Some (JDict [(''item_id'', JStr item), (''reason'', JStr ''plan_completed'')])) now (cf_store c)\<rparr>))"

definition renew_device_locks :: "rat \<Rightarrow> string list \<Rightarrow> string \<Rightarrow> config \<Rightarrow> renew_result \<times> config" where
  "renew_device_locks now names item c =
     (case renew_locks names item now (cf_locks c) of (res, lm) \<Rightarrow> (res, c\<lparr>cf_locks := lm\<rparr>))"

definition force_unlock_devices :: "bool \<Rightarrow> rat \<Rightarrow> string list \<Rightarrow> string \<Rightarrow> config \<Rightarrow> int \<times> config" where
  "force_unlock_devices db now names reason c =
     (case force_unlock names (cf_reg c) (cf_locks c) of ((freed, unknown), lm) \<Rightarrow>
        if unknown \<noteq> [] then (404, c\<lparr>cf_locks := lm\<rparr>)
        else if freed = [] then (200, c\<lparr>cf_locks := lm\<rparr>)
        else if \<not> db then (500, c\<lparr>cf_locks := lm\<rparr>)
        else (200, c\<lparr>cf_locks := lm,
               cf_store := log_lock_event freed ''force_unlock''
                 (Some (JDict [(''reason'', JStr reason), (''admin'', JBool True)])) now (cf_store c)\<rparr>))"

definition set_lock_policy :: "bool \<Rightarrow> config \<Rightarrow> bool \<times> config" where
  "set_lock_policy b c = (b, c\<lparr>cf_locks := set_lock_all b (cf_locks c)\<rparr>)"

end
