(* ===== verification/ConfigClient.thy ===== *)
theory ConfigClient
  imports ConfigService
begin

text \<open>
  The queue server's client of the configuration service (\<open>config_service.py\<close>): settings, the
  retrying request loop, the bootstrap of an empty registry, the version cursor and the plan
  that brings the worker's devices up to date. The service is the state the requests run on;
  the network is a list of outcomes, one per attempt.
\<close>

section \<open>Settings\<close>

datatype scope = Plan_scope | Environment_scope

record settings =
  sg_enabled :: bool
  sg_url :: string
  sg_timeout :: rat
  sg_attempts :: int
  sg_backoff :: "int list"
  sg_service :: string
  sg_scope :: scope

definition default_settings :: settings where
  "default_settings = \<lparr>sg_enabled = False, sg_url = [], sg_timeout = 30, sg_attempts = 3,
     sg_backoff = [200, 400], sg_service = ''bluesky-queueserver'', sg_scope = Plan_scope\<rparr>"

text \<open>
  The section of the configuration file after YAML: the fields that are present, with values
  of their expected types (a wrong type raises before).
\<close>

record raw_settings =
  rs_enabled :: bool
  rs_url :: "string option"
  rs_timeout :: "rat option"
  rs_attempts :: "int option"
  rs_backoff :: "int list option"
  rs_service :: "string option"
  rs_scope :: "string option"

definition from_config_dict :: "raw_settings option \<Rightarrow> py_error + settings" where
  "from_config_dict section =
     (case section of
        None \<Rightarrow> Inr default_settings
      | Some r \<Rightarrow>
          if \<not> rs_enabled r then Inr (default_settings\<lparr>sg_enabled := False\<rparr>)
          else (case rs_url r of
              None \<Rightarrow> Inl ValueError
            | Some url \<Rightarrow>
                let attempts = (case rs_attempts r of None \<Rightarrow> 3 | Some a \<Rightarrow> a);
                    sc = (case rs_scope r of None \<Rightarrow> ''plan'' | Some s \<Rightarrow> s)
                in if url = [] then Inl ValueError
                   else if attempts < 1 then Inl ValueError
                   else if sc \<notin> {''plan'', ''environment''} then Inl ValueError
                   else Inr \<lparr>sg_enabled = True, sg_url = url,
                     sg_timeout = (case rs_timeout r of None \<Rightarrow> 30 | Some t \<Rightarrow> t),
                     sg_attempts = attempts,
                     sg_backoff = (case rs_backoff r of None \<Rightarrow> [200, 400] | Some b \<Rightarrow> b),
                     sg_service = (case rs_service r of None \<Rightarrow> ''bluesky-queueserver'' | Some s \<Rightarrow> s),
                     sg_scope = (if sc = ''plan'' then Plan_scope else Environment_scope)\<rparr>))"

definition backoff_for_attempt :: "int list \<Rightarrow> nat \<Rightarrow> int" where
  "backoff_for_attempt schedule attempt =
     (if schedule = [] then 0 else schedule ! min (attempt - 1) (length schedule - 1))"

section \<open>Requests\<close>

datatype cs_error =
    Unreachable
  | Http_error int
  | Not_found_error
  | Conflict_error
  | Protocol_error
  | Service_error
  | Runtime_error

text \<open>
  What can happen to one attempt: the request does not arrive; it is carried out but its
  answer is lost; a gateway in between answers 502, 503 or 504; another transport error
  (not retried), before or after the server worked; or the answer arrives.
\<close>

datatype net = Lost_request | Lost_reply | Gateway | Broken_request | Broken_reply | Fine

definition classify :: "int \<Rightarrow> 'r \<Rightarrow> cs_error + 'r" where
  "classify code body =
     (if code \<in> {200, 201, 204} then Inr body
      else if code = 404 then Inl Not_found_error
      else if code = 409 then Inl Conflict_error
      else Inl (Http_error code))"

fun attempts_loop ::
    "net list \<Rightarrow> ('s \<Rightarrow> (int \<times> 'r) \<times> 's) \<Rightarrow> 's \<Rightarrow> (cs_error + 'r) \<times> 's" where
  "attempts_loop [] oper s = (Inl Unreachable, s)"
| "attempts_loop (Lost_request # ns) oper s = attempts_loop ns oper s"
| "attempts_loop (Gateway # ns) oper s = attempts_loop ns oper s"
| "attempts_loop (Lost_reply # ns) oper s = attempts_loop ns oper (snd (oper s))"
| "attempts_loop (Broken_request # ns) oper s = (Inl Unreachable, s)"
| "attempts_loop (Broken_reply # ns) oper s = (Inl Unreachable, snd (oper s))"
| "attempts_loop (Fine # ns) oper s =
     (case oper s of ((code, body), t) \<Rightarrow> (classify code body, t))"

definition request ::
    "settings \<Rightarrow> net list \<Rightarrow> ('s \<Rightarrow> (int \<times> 'r) \<times> 's) \<Rightarrow> 's \<Rightarrow> (cs_error + 'r) \<times> 's" where
  "request st net oper s = attempts_loop (take (nat (sg_attempts st)) net) oper s"

text \<open>A read of the service.\<close>

definition query :: "settings \<Rightarrow> net list \<Rightarrow> ('s \<Rightarrow> 'r) \<Rightarrow> 's \<Rightarrow> cs_error + 'r" where
  "query st net f s = fst (request st net (\<lambda>s. ((200, f s), s)) s)"

definition get_specs :: "bool \<Rightarrow> config \<Rightarrow> (string \<times> spec) list" where
  "get_specs active_only c = list_instantiation_specs active_only (cf_reg c)"

definition get_changes :: "nat \<Rightarrow> config \<Rightarrow> feed" where
  "get_changes since c = get_changes_since since (cf_store c)"

section \<open>Bootstrap\<close>

text \<open>The worker's payload per device: metadata and, when introspection found one, the spec.\<close>

type_synonym device_data = "(string \<times> device \<times> spec option) list"

definition post_device ::
    "string list \<Rightarrow> rat \<Rightarrow> device \<Rightarrow> spec option \<Rightarrow> config \<Rightarrow> (int \<times> unit) \<times> config" where
  "post_device al now d sp c =
     (case sp of
        None \<Rightarrow> ((422, ()), c)
      | Some s \<Rightarrow> (case create_device al True now d s c of (code, c') \<Rightarrow> ((code, ()), c')))"

text \<open>
  The specification the worker's introspection produces (\<open>device_introspection.py\<close>): it has no
  framework tag, so that a partial update keeps the one the registry has.
\<close>

definition payload_spec :: "spec \<Rightarrow> dict" where
  "payload_spec sp =
     [(''name'', JStr (spec_name sp)), (''device_class'', JStr (device_class sp)),
      (''args'', JList (spec_args sp)), (''kwargs'', JDict (spec_kwargs sp)),
      (''active'', JBool (active sp))]"

definition put_device ::
    "models \<Rightarrow> string list \<Rightarrow> rat \<Rightarrow> device \<Rightarrow> spec option \<Rightarrow> config \<Rightarrow> (int \<times> unit) \<times> config" where
  "put_device p al now d sp c =
     (case update_device_request p al True now (dev_name d) (Some (dump_device p d))
             (map_option payload_spec sp) c of (code, c') \<Rightarrow> ((code, ()), c'))"

definition upsert_device ::
    "settings \<Rightarrow> models \<Rightarrow> string list \<Rightarrow> rat \<Rightarrow> net list \<Rightarrow> net list \<Rightarrow> device \<Rightarrow> spec option \<Rightarrow>
     config \<Rightarrow> (cs_error + unit) \<times> config" where
  "upsert_device st p al now net1 net2 d sp c =
     (case request st net1 (post_device al now d sp) c of
        (Inl Conflict_error, c1) \<Rightarrow> request st net2 (put_device p al now d sp) c1
      | r \<Rightarrow> r)"

text \<open>
  One pass over the devices; \<open>net n\<close> is the network during the requests for device \<open>n\<close>. The
  requests of a pass run concurrently in the code; here the server sees them in list order.
  Returns the names that failed.
\<close>

fun upsert_pass ::
    "settings \<Rightarrow> models \<Rightarrow> string list \<Rightarrow> rat \<Rightarrow> (string \<Rightarrow> net list \<times> net list) \<Rightarrow> device_data \<Rightarrow>
     config \<Rightarrow> string list \<times> config" where
  "upsert_pass st p al now net [] c = ([], c)"
| "upsert_pass st p al now net ((n, d, sp) # ds) c =
     (case upsert_device st p al now (fst (net n)) (snd (net n)) d sp c of (r, c1) \<Rightarrow>
      case upsert_pass st p al now net ds c1 of (fails, c2) \<Rightarrow>
        (case r of Inl e \<Rightarrow> (n # fails, c2) | Inr _ \<Rightarrow> (fails, c2)))"

definition bootstrap_with_retry ::
    "settings \<Rightarrow> models \<Rightarrow> string list \<Rightarrow> rat \<Rightarrow> (string \<Rightarrow> net list \<times> net list) \<Rightarrow>
     (string \<Rightarrow> net list \<times> net list) \<Rightarrow> device_data \<Rightarrow> config \<Rightarrow> (cs_error + unit) \<times> config" where
  "bootstrap_with_retry st p al now net net2 data c =
     (case upsert_pass st p al now net (sort_key fst data) c of (fails, c1) \<Rightarrow>
        if fails = [] then (Inr (), c1)
        else (case upsert_pass st p al now net2
                 (filter (\<lambda>x. fst x \<in> set fails) (sort_key fst data)) c1 of (fails2, c2) \<Rightarrow>
              if fails2 = [] then (Inr (), c2) else (Inl Service_error, c2)))"

section \<open>The version cursor\<close>

text \<open>\<open>sy_epoch\<close> is \<open>None\<close> for the initial empty text.\<close>

record sync_state =
  sy_cursor :: nat
  sy_epoch :: "rat option option"

definition initial_sync :: sync_state where
  "initial_sync = \<lparr>sy_cursor = 0, sy_epoch = None\<rparr>"

text \<open>
  The requests of one synchronisation meet the networks \<open>neti\<close> (the emptiness probe),
  \<open>netb\<close> and \<open>netb2\<close> (the two bootstrap passes) and \<open>netc\<close> (the change feed).
\<close>

definition sync_devices_on_env_open ::
    "settings \<Rightarrow> models \<Rightarrow> string list \<Rightarrow> rat \<Rightarrow> net list \<Rightarrow> (string \<Rightarrow> net list \<times> net list) \<Rightarrow>
     (string \<Rightarrow> net list \<times> net list) \<Rightarrow> net list \<Rightarrow> string list \<Rightarrow> device_data \<Rightarrow>
     (string \<times> spec) list option \<Rightarrow> config \<Rightarrow> (cs_error + sync_state) \<times> config" where
  "sync_devices_on_env_open st p al now neti netb netb2 netc expected data prefetched c =
     (if list_ex (\<lambda>n. \<not> dhas data n) expected then (Inl Service_error, c)
      else
        case (if prefetched \<noteq> None \<and> prefetched \<noteq> Some [] then Inr False
              else query st neti (\<lambda>c. devices (cf_reg c) = []) c) of
          Inl e \<Rightarrow> (Inl e, c)
        | Inr none_yet \<Rightarrow>
            (case (if none_yet then bootstrap_with_retry st p al now netb netb2 data c else (Inr (), c)) of
               (Inl e, c1) \<Rightarrow> (Inl e, c1)
             | (Inr _, c1) \<Rightarrow>
                 (case query st netc (get_changes 0) c1 of
                    Inl e \<Rightarrow> (Inl e, c1)
                  | Inr f \<Rightarrow> (Inr \<lparr>sy_cursor = current_version f, sy_epoch = Some (service_epoch f)\<rparr>, c1))))"

section \<open>The staleness plan\<close>

record staleness_plan =
  replace_overlay :: bool
  sp_upserts :: "(string \<times> spec) list"
  sp_deletes :: "string list"
  new_state :: sync_state

definition is_noop :: "staleness_plan \<Rightarrow> bool" where
  "is_noop p = (\<not> replace_overlay p \<and> sp_upserts p = [] \<and> sp_deletes p = [])"

fun sort_changes ::
    "device_change list \<Rightarrow> (string \<times> spec) list \<Rightarrow> string list \<Rightarrow>
     cs_error + (string \<times> spec) list \<times> string list" where
  "sort_changes [] ups dels = Inr (ups, dels)"
| "sort_changes (Upsert n v d None # cs) ups dels = Inl Protocol_error"
| "sort_changes (Upsert n v d (Some s) # cs) ups dels =
     (if \<not> active s then sort_changes cs ups (dels @ [n])
      else sort_changes cs (dset n s ups) dels)"
| "sort_changes (Delete n v # cs) ups dels = sort_changes cs ups (dels @ [n])"

definition build_staleness_plan :: "feed \<Rightarrow> rat option option \<Rightarrow> cs_error + staleness_plan" where
  "build_staleness_plan r saved =
     (let ns = \<lparr>sy_cursor = current_version r, sy_epoch = Some (service_epoch r)\<rparr> in
      if reset_occurred r \<or> Some (service_epoch r) \<noteq> saved then
        Inr \<lparr>replace_overlay = True, sp_upserts = [], sp_deletes = [], new_state = ns\<rparr>
      else (case sort_changes (changes r) [] [] of
          Inl e \<Rightarrow> Inl e
        | Inr (ups, dels) \<Rightarrow>
            Inr \<lparr>replace_overlay = False, sp_upserts = ups, sp_deletes = dels, new_state = ns\<rparr>))"

definition fetch_staleness_plan ::
    "settings \<Rightarrow> net list \<Rightarrow> net list \<Rightarrow> sync_state \<Rightarrow> config \<Rightarrow> cs_error + staleness_plan" where
  "fetch_staleness_plan st netc nets sy c =
     (case query st netc (get_changes (sy_cursor sy)) c of
        Inl e \<Rightarrow> Inl e
      | Inr r \<Rightarrow>
          (case build_staleness_plan r (sy_epoch sy) of
             Inl e \<Rightarrow> Inl e
           | Inr p \<Rightarrow>
               if \<not> replace_overlay p then Inr p
               else (case query st nets (get_specs True) c of
                   Inl e \<Rightarrow> Inl e | Inr ss \<Rightarrow> Inr (p\<lparr>sp_upserts := ss\<rparr>))))"

end
