(* ===== verification/LockProps.thy ===== *)
theory LockProps
  imports LockManager
begin

text \<open>
  The promises of the device lock manager: what each method does to the locks other callers
  see, and that a lock holder keeps its devices as long as its lease lasts, whatever other
  clients do in the meantime.
\<close>

section \<open>Single operations\<close>

text \<open>A device can be locked when it is registered, has an active spec and is not locked.\<close>

definition lockable :: "lock_mgr \<Rightarrow> registry \<Rightarrow> rat \<Rightarrow> string \<Rightarrow> bool" where
  "lockable m r now n =
     ((case get_device n r of None \<Rightarrow> False | Some _ \<Rightarrow> True) \<and>
      (case get_instantiation_spec n r of None \<Rightarrow> False | Some sp \<Rightarrow> active sp) \<and>
      \<not> is_device_locked n now m)"

lemma lockable_iff: "lockable m r now n \<longleftrightarrow> check_device m r now n = []"
  by (auto simp: lockable_def check_device_ok is_device_locked_def split: option.splits)

definition missing_device :: "registry \<Rightarrow> string \<Rightarrow> bool" where
  "missing_device r n = (get_device n r = None)"

definition missing_spec :: "registry \<Rightarrow> string \<Rightarrow> bool" where
  "missing_spec r n = (get_device n r \<noteq> None \<and> get_instantiation_spec n r = None)"

definition disabled_spec :: "registry \<Rightarrow> string \<Rightarrow> bool" where
  "disabled_spec r n = (get_device n r \<noteq> None \<and>
     (case get_instantiation_spec n r of None \<Rightarrow> False | Some sp \<Rightarrow> \<not> active sp))"

lemma reason_iff:
  "Not_found \<in> lc_reason ` set (check_device m r now n) \<longleftrightarrow> missing_device r n"
  "Spec_missing \<in> lc_reason ` set (check_device m r now n) \<longleftrightarrow> missing_spec r n"
  "Disabled \<in> lc_reason ` set (check_device m r now n) \<longleftrightarrow> disabled_spec r n"
  by (auto simp: check_device_reason missing_device_def missing_spec_def disabled_spec_def
      split: option.splits if_splits)

lemma active_own_lock:
  assumes "lk_expires l = next_expiry m now" "lk_locked l"
  shows "\<not> is_expired l now"
  using assms next_expiry_future [of m now] by (auto simp: is_expired_def split: option.splits)

lemma active_lock_frame:
  "dget (lm_locks m') q = dget (lm_locks m) q \<Longrightarrow> active_lock m' q now = active_lock m q now"
  by (simp add: active_lock_def)

text \<open>
  Acquisition is all or nothing. It succeeds exactly when every requested device is
  registered, enabled and not locked; then every requested device, and no other, is locked by
  the caller under one fresh lock id with a full lease, and the version goes up by one. When
  it fails nothing changes, and the status is 500 if some spec is missing, else 404 if some
  device is unknown, else 422 if some device is disabled, else 409.
\<close>

theorem acquire_all_or_nothing:
  "case acquire_locks names item plan service r now m of (res, m') \<Rightarrow>
     lr_success res = list_all (lockable m r now) names \<and>
     (if lr_success res then
        lr_error_code res = 200 \<and> lr_lock_id res = Some (lm_uuids m (lm_next m)) \<and>
        lr_devices res = names \<and> lr_expires res = next_expiry m now \<and>
        lm_version m' = Suc (lm_version m) \<and>
        (\<forall>q. get_device_lock q now m' =
               (if q \<in> set names
                then Some \<lparr>lk_device = q, lk_locked = True, lk_plan = plan, lk_item = item,
                           lk_service = service, lk_at = now, lk_id = lm_uuids m (lm_next m),
                           lk_expires = next_expiry m now\<rparr>
                else get_device_lock q now m))
      else m' = m \<and> lr_lock_id res = None \<and> lr_devices res = [] \<and>
        lr_error_code res =
          (if list_ex (missing_spec r) names then 500
           else if list_ex (missing_device r) names then 404
           else if list_ex (disabled_spec r) names then 422
           else 409))"
proof (cases "list_all (lockable m r now) names")
  case True
  then have none: "concat (map (check_device m r now) names) = []"
    by (simp add: lockable_iff list_all_iff)
  show ?thesis
    using True active_own_lock [of _ m now]
    by (auto simp: acquire_locks_def none Let_def get_device_lock_def active_lock_def
        dget_lock_fold)
next
  case False
  then have some: "concat (map (check_device m r now) names) \<noteq> []"
    by (auto simp: lockable_iff list_all_iff)
  have "Spec_missing \<in> (\<Union>n \<in> set names. lc_reason ` set (check_device m r now n))
          \<longleftrightarrow> list_ex (missing_spec r) names"
    "Not_found \<in> (\<Union>n \<in> set names. lc_reason ` set (check_device m r now n))
          \<longleftrightarrow> list_ex (missing_device r) names"
    "Disabled \<in> (\<Union>n \<in> set names. lc_reason ` set (check_device m r now n))
          \<longleftrightarrow> list_ex (disabled_spec r) names"
    by (simp_all add: reason_iff list_ex_iff del: image_iff)
  then show ?thesis
    using False some unfolding acquire_locks_def Let_def reasons_union
    by (simp add: conflict_code_def del: concat_eq_Nil_conv)
qed

lemma names_with_map: "names_with o' (map (\<lambda>n. (n, f n)) ns) = filter (\<lambda>n. f n = o') ns"
  by (induction ns) (auto simp: names_with_def)

text \<open>
  A heartbeat renews exactly the devices on which the caller holds a live lock, reports as
  lost those nobody holds (any more) and as conflicts those held live by another item, succeeds
  when it renewed all of them, gives every renewed lock a full lease from now on, and leaves
  everything else about the locks as it was.
\<close>

theorem renew_partitions:
  "case renew_locks names item now m of (res, m') \<Rightarrow>
     rr_renewed res = filter (\<lambda>n. case get_device_lock n now m of
        None \<Rightarrow> False | Some l \<Rightarrow> lk_item l = item) names \<and>
     rr_conflicts res = filter (\<lambda>n. case get_device_lock n now m of
        None \<Rightarrow> False | Some l \<Rightarrow> lk_item l \<noteq> item) names \<and>
     rr_lost res = filter (\<lambda>n. \<not> is_device_locked n now m) names \<and>
     rr_success res = (rr_renewed res = names) \<and>
     lm_version m' = lm_version m \<and>
     (\<forall>q. get_device_lock q now m' =
        (if q \<in> set (rr_renewed res)
         then map_option (\<lambda>l. l\<lparr>lk_expires := next_expiry m now\<rparr>) (get_device_lock q now m)
         else get_device_lock q now m))"
proof -
  let ?e = "next_expiry m now" and ?a = "\<lambda>n. active_lock m n now"
  have fut: "\<And>x. ?e = Some x \<Longrightarrow> now < x" by (rule next_expiry_future)
  have outs: "fst (renew_all item now ?e names (lm_locks m)) =
      map (\<lambda>n. (n, outcome_of item now (dget (lm_locks m) n))) names"
    by (rule renew_all_outcomes) (rule fut)
  have tab: "dget (snd (renew_all item now ?e names (lm_locks m))) q =
      (if q \<in> set names then renewed_lock item now ?e (dget (lm_locks m) q)
       else dget (lm_locks m) q)" for q
    by (rule dget_renew_all) (rule fut)
  have cls: "outcome_of item now (dget (lm_locks m) n) =
      (case ?a n of None \<Rightarrow> Lost | Some l \<Rightarrow> if lk_item l \<noteq> item then Conflict else Renewed)" for n
    by (auto simp: outcome_of_def active_lock_def split: option.splits)
  have new: "active_lock (m\<lparr>lm_locks := snd (renew_all item now ?e names (lm_locks m))\<rparr>) q now =
      (if q \<in> set names \<and> (case ?a q of None \<Rightarrow> False | Some l \<Rightarrow> lk_item l = item)
       then map_option (\<lambda>l. l\<lparr>lk_expires := ?e\<rparr>) (?a q) else ?a q)" for q
    using fut by (auto simp: active_lock_def tab renewed_lock_def renewable_def is_expired_def
        split: option.splits if_splits)
  show ?thesis
    by (auto simp: renew_locks_def Let_def split_beta outs names_with_map cls new
        get_device_lock_def is_device_locked_def filter_empty_conv filter_id_conv
        intro!: filter_cong split: option.splits)
      (metis not_None_eq)
qed

text \<open>
  Only the owner releases a live lock. If one of the named devices is held live by another
  item, nothing changes and the call fails. Otherwise it succeeds, none of the named devices is
  locked any more at any time, every other device's lock is as it was, the devices reported are
  those whose entry was removed, and the version goes up by one exactly when there is one.
\<close>

theorem release_only_by_owner:
  "case release_locks names item now m of ((ok, freed), m') \<Rightarrow>
     ok = list_all (\<lambda>n. case get_device_lock n now m of None \<Rightarrow> True | Some l \<Rightarrow> lk_item l = item) names \<and>
     (if ok then
        set freed = {n \<in> set names. case dget (lm_locks m) n of None \<Rightarrow> False | Some l \<Rightarrow> lk_locked l} \<and>
        (\<forall>q t. get_device_lock q t m' = (if q \<in> set names then None else get_device_lock q t m)) \<and>
        lm_version m' = (if freed = [] then lm_version m else Suc (lm_version m))
      else freed = [] \<and> m' = m)"
proof -
  have ok: "\<not> list_ex (\<lambda>n. case active_lock m n now of None \<Rightarrow> False | Some l \<Rightarrow> lk_item l \<noteq> item) names
      \<longleftrightarrow> list_all (\<lambda>n. case get_device_lock n now m of None \<Rightarrow> True | Some l \<Rightarrow> lk_item l = item) names"
    by (induction names) (auto simp: get_device_lock_def split: option.splits)
  have tab: "active_lock (m\<lparr>lm_locks := snd (drop_held names (lm_locks m)), lm_version := v\<rparr>) q t =
      (if q \<in> set names then None else active_lock m q t)" for q t v
    by (auto simp: active_lock_def dget_drop_held split: option.splits)
  show ?thesis
    unfolding release_locks_def ok [symmetric]
    by (auto simp: split_beta tab get_device_lock_def fst_drop_held list_all_iff list_ex_iff
        split: option.splits)
qed

text \<open>
  Forced release is all or nothing and ignores ownership: if one of the names is neither a
  registered device nor in the lock table, exactly those names are reported and nothing
  changes; otherwise every named device ends up free and every other device's lock is as it was.
\<close>

theorem force_unlock_all_or_nothing:
  "case force_unlock names r m of ((freed, unknown), m') \<Rightarrow>
     set unknown = {n \<in> set names. get_device n r = None \<and> dget (lm_locks m) n = None} \<and>
     distinct freed \<and> distinct unknown \<and>
     (if unknown = [] then
        set freed = set names \<and>
        (\<forall>q t. get_device_lock q t m' = (if q \<in> set names then None else get_device_lock q t m)) \<and>
        lm_version m' = (if names = [] then lm_version m else Suc (lm_version m))
      else freed = [] \<and> m' = m)"
proof -
  have tab: "active_lock (m\<lparr>lm_locks := snd (drop_held (dedup names) (lm_locks m)), lm_version := v\<rparr>) q t =
      (if q \<in> set names then None else active_lock m q t)" for q t v
    by (auto simp: active_lock_def dget_drop_held split: option.splits)
  have nil: "dedup names = [] \<longleftrightarrow> names = []" by (cases names) auto
  show ?thesis
    by (auto simp: force_unlock_def Let_def tab nil distinct_dedup get_device_lock_def
        filter_empty_conv)
qed

section \<open>Availability under lock_all\<close>

lemma earliest_None: "earliest ls = None \<longleftrightarrow> ls = []"
  by (cases ls) (auto split: option.splits)

lemma earliest_min:
  "earliest ls = Some l \<Longrightarrow> l \<in> set ls \<and> list_all (\<lambda>k. lk_at l \<le> lk_at k) ls"
  by (induction ls arbitrary: l) (force simp: earliest_None list_all_iff split: option.splits if_splits)+

text \<open>
  The lock that governs a device's availability. Without the lock_all policy it is the
  device's own live lock. With it, a device without a lock of its own is unavailable exactly
  while any device is locked, and the lock shown for it is an active one, acquired no later
  than any other.
\<close>

theorem effective_lock_lock_all:
  "case effective_lock name now m of
     None \<Rightarrow> \<not> is_device_locked name now m \<and> (\<not> lm_lock_all m \<or> get_all_locks now m = [])
   | Some l \<Rightarrow>
       get_device_lock name now m = Some l \<or>
       (get_device_lock name now m = None \<and> lm_lock_all m \<and>
        l \<in> snd ` set (get_all_locks now m) \<and>
        list_all (\<lambda>nk. lk_at l \<le> lk_at (snd nk)) (get_all_locks now m))"
  using earliest_min [of "map snd (get_all_locks now m)"]
  by (auto simp: effective_lock_def is_device_locked_def get_device_lock_def global_lock_holder_def
      earliest_None list_all_iff split: option.splits)

section \<open>Leases\<close>

text \<open>The requests clients send, with the registry as it is at that time.\<close>

datatype lock_op =
    Acquire "string list" string string string registry
  | Renew "string list" string
  | Release "string list" string
  | Force "string list" registry
  | Clear
  | Policy bool

fun run_lock :: "rat \<times> lock_op \<Rightarrow> lock_mgr \<Rightarrow> lock_mgr" where
  "run_lock (t, Acquire ns i p s r) m = snd (acquire_locks ns i p s r t m)"
| "run_lock (t, Renew ns i) m = snd (renew_locks ns i t m)"
| "run_lock (t, Release ns i) m = snd (release_locks ns i t m)"
| "run_lock (t, Force ns r) m = snd (force_unlock ns r m)"
| "run_lock (t, Clear) m = snd (clear_all m)"
| "run_lock (t, Policy b) m = set_lock_all b m"

text \<open>The requests that may legitimately end the lock of \<open>item\<close> on device \<open>d\<close>.\<close>

fun may_end :: "string \<Rightarrow> string \<Rightarrow> lock_op \<Rightarrow> bool" where
  "may_end d item (Release ns i) = (d \<in> set ns \<and> i = item)"
| "may_end d item (Force ns r) = (d \<in> set ns)"
| "may_end d item Clear = True"
| "may_end d item _ = False"

text \<open>The lock entry of a device holder whose lease was granted or renewed at \<open>t0\<close> or later.\<close>

definition holds :: "string \<Rightarrow> string \<Rightarrow> string \<Rightarrow> rat \<Rightarrow> lock_mgr \<Rightarrow> bool" where
  "holds d item lock_id t0 m =
     (case dget (lm_locks m) d of
        None \<Rightarrow> False
      | Some l \<Rightarrow> lk_locked l \<and> lk_item l = item \<and> lk_id l = lock_id \<and>
          (if lm_ttl m \<le> 0 then lk_expires l = None
           else case lk_expires l of None \<Rightarrow> False | Some e \<Rightarrow> t0 + lm_ttl m \<le> e))"

lemma holds_active:
  assumes "holds d item i t0 m" "lm_ttl m \<le> 0 \<or> t < t0 + lm_ttl m"
  shows "\<exists>l. active_lock m d t = Some l \<and> lk_item l = item \<and> lk_id l = i"
  using assms
  by (auto simp: holds_def active_lock_def is_expired_def split: option.splits if_splits)

lemma holds_frame:
  "dget (lm_locks m') d = dget (lm_locks m) d \<Longrightarrow> lm_ttl m' = lm_ttl m \<Longrightarrow>
   holds d item i t0 m' = holds d item i t0 m"
  by (simp only: holds_def)

lemma ttl_constant: "lm_ttl (run_lock ev m) = lm_ttl m"
  by (cases "(ev, m)" rule: run_lock.cases)
    (auto simp: acquire_locks_def renew_locks_def release_locks_def force_unlock_def clear_all_def
      set_lock_all_def Let_def split_beta)

lemma acquire_keeps_holder:
  assumes "active_lock m d t = Some l"
  shows "dget (lm_locks (snd (acquire_locks ns i p s r t m))) d = dget (lm_locks m) d"
proof -
  have "check_device m r t d \<noteq> []" using assms by (simp add: check_device_ok)
  then show ?thesis
    by (cases "concat (map (check_device m r t) ns) = []")
      (auto simp: acquire_locks_def Let_def dget_lock_fold simp del: concat_eq_Nil_conv
        simp: concat_eq_Nil_conv)
qed

lemma renew_keeps_holder:
  assumes "holds d item lid t0 m" "t0 \<le> t"
  shows "holds d item lid t0 (snd (renew_locks ns i t m))"
proof -
  have fut: "\<And>x. next_expiry m t = Some x \<Longrightarrow> t < x" by (rule next_expiry_future)
  have tab: "dget (snd (renew_all i t (next_expiry m t) ns (lm_locks m))) d =
      (if d \<in> set ns then renewed_lock i t (next_expiry m t) (dget (lm_locks m) d)
       else dget (lm_locks m) d)"
    by (rule dget_renew_all) (rule fut)
  have dget: "dget (lm_locks (snd (renew_locks ns i t m))) d =
      (if d \<in> set ns then renewed_lock i t (next_expiry m t) (dget (lm_locks m) d)
       else dget (lm_locks m) d)"
    and "lm_ttl (snd (renew_locks ns i t m)) = lm_ttl m"
    by (simp_all add: renew_locks_def Let_def split_beta tab)
  then show ?thesis
    using assms
    by (auto simp: holds_def renewed_lock_def next_expiry_def split: option.splits if_splits)
qed

lemma release_keeps_holder:
  assumes "active_lock m d t = Some l" "\<not> (d \<in> set ns \<and> i = lk_item l)"
  shows "dget (lm_locks (snd (release_locks ns i t m))) d = dget (lm_locks m) d"
  using assms
  by (auto simp: release_locks_def split_beta dget_drop_held list_ex_iff split: option.splits)

lemma step_keeps_holder:
  assumes "holds d item lid t0 m" "t0 \<le> t" "lm_ttl m \<le> 0 \<or> t < t0 + lm_ttl m"
    and "\<not> may_end d item req"
  shows "holds d item lid t0 (run_lock (t, req) m)"
proof -
  obtain l where l: "active_lock m d t = Some l" "lk_item l = item"
    using holds_active [OF assms(1,3)] by blast
  note frame = holds_frame [of _ d m item lid t0, THEN iffD2, OF _ _ assms(1)]
  note ttl = ttl_constant [of "(t, req)" m]
  show ?thesis
  proof (cases req)
    case (Acquire ns i p s r)
    then show ?thesis using acquire_keeps_holder [OF l(1)] ttl by (auto intro!: frame)
  next
    case (Renew ns i)
    then show ?thesis using renew_keeps_holder [OF assms(1,2)] by simp
  next
    case (Release ns i)
    then show ?thesis
      using release_keeps_holder [OF l(1), of ns i] l(2) ttl assms(4) frame by (auto simp: Release)
  next
    case (Force ns r)
    then show ?thesis
      using ttl assms(4)
      by (auto intro!: frame simp: force_unlock_def Let_def dget_drop_held split: if_splits)
  next
    case Clear
    then show ?thesis using assms(4) by simp
  next
    case (Policy b)
    then show ?thesis using ttl by (auto intro!: frame simp: set_lock_all_def)
  qed
qed

lemma trace_keeps_holder:
  assumes "holds d item lid t0 m"
    and "list_all (\<lambda>(t, req). t0 \<le> t \<and> (lm_ttl m \<le> 0 \<or> t < t0 + lm_ttl m) \<and>
           \<not> may_end d item req) trace"
  shows "holds d item lid t0 (fold run_lock trace m) \<and> lm_ttl (fold run_lock trace m) = lm_ttl m"
  using assms
proof (induction trace arbitrary: m)
  case (Cons ev trace)
  obtain t req where "ev = (t, req)" by (cases ev)
  with Cons step_keeps_holder [of d item lid t0 m t req] ttl_constant [of ev m]
  show ?case by auto
qed simp

lemma granted_holds:
  assumes "lr_success (fst (acquire_locks ns i p s r t m))" "d \<in> set ns"
  shows "holds d i (lm_uuids m (lm_next m)) t (snd (acquire_locks ns i p s r t m))"
    and "lm_ttl (snd (acquire_locks ns i p s r t m)) = lm_ttl m"
  using assms
  by (auto simp: acquire_locks_def Let_def holds_def dget_lock_fold next_expiry_def split: if_splits)

lemma renewed_holds:
  assumes "active_lock m d t = Some l" "lk_item l = i" "d \<in> set ns"
  shows "holds d i (lk_id l) t (snd (renew_locks ns i t m))"
proof -
  have "dget (snd (renew_all i t (next_expiry m t) ns (lm_locks m))) d =
      renewed_lock i t (next_expiry m t) (dget (lm_locks m) d)"
    using assms(3) dget_renew_all [of "next_expiry m t" t i ns "lm_locks m" d] next_expiry_future
    by simp
  then show ?thesis
    using assms(1,2)
    by (auto simp: renew_locks_def Let_def split_beta holds_def renewed_lock_def renewable_def
        active_lock_def next_expiry_def split: option.splits if_splits)
qed

text \<open>
  C9: A lease protects its holder. After a successful acquisition at \<open>t0\<close>, and as long as less
  than a lease time has passed (or leases are off), no sequence of requests of other clients
  takes the device away: acquisitions, renewals, releases by other items, forced releases of
  other devices and policy changes all leave it locked by the same item under the same lock id.
\<close>

theorem lease_protects_holder:
  assumes "lr_success (fst (acquire_locks ns item plan service r t0 m))" and "d \<in> set ns"
    and "list_all (\<lambda>(t, req). t0 \<le> t \<and> (lm_ttl m \<le> 0 \<or> t < t0 + lm_ttl m) \<and>
           \<not> may_end d item req) trace"
    and "lm_ttl m \<le> 0 \<or> now < t0 + lm_ttl m"
  shows "\<exists>l. get_device_lock d now (fold run_lock trace (snd (acquire_locks ns item plan service r t0 m)))
               = Some l \<and> lk_item l = item \<and> lk_id l = lm_uuids m (lm_next m)"
  unfolding get_device_lock_def
  using granted_holds [OF assms(1,2)] assms(3,4)
    trace_keeps_holder [of d item "lm_uuids m (lm_next m)" t0
      "snd (acquire_locks ns item plan service r t0 m)" trace]
  by (intro holds_active) auto

text \<open>
  C22: A heartbeat extends the protection: a holder that renewed its live lock at \<open>t1\<close> is safe
  from \<open>t1\<close> on for a full lease time against every sequence of requests of other clients.
\<close>

theorem renewal_extends_protection:
  assumes "get_device_lock d t1 m = Some l" and "d \<in> set ns"
    and "list_all (\<lambda>(t, req). t1 \<le> t \<and> (lm_ttl m \<le> 0 \<or> t < t1 + lm_ttl m) \<and>
           \<not> may_end d (lk_item l) req) trace"
    and "lm_ttl m \<le> 0 \<or> now < t1 + lm_ttl m"
  shows "\<exists>k. get_device_lock d now (fold run_lock trace (snd (renew_locks ns (lk_item l) t1 m)))
               = Some k \<and> lk_item k = lk_item l \<and> lk_id k = lk_id l"
proof -
  let ?m = "snd (renew_locks ns (lk_item l) t1 m)"
  have ttl: "lm_ttl ?m = lm_ttl m" using ttl_constant [of "(t1, Renew ns (lk_item l))" m] by simp
  have "holds d (lk_item l) (lk_id l) t1 ?m"
    using assms(1,2) by (auto intro: renewed_holds simp: get_device_lock_def)
  then show ?thesis
    unfolding get_device_lock_def
    using trace_keeps_holder [of d "lk_item l" "lk_id l" t1 ?m trace] assms(3,4) ttl
    by (intro holds_active) auto
qed

section \<open>The version counter\<close>

text \<open>Under which lock id a device is held, lapsed leases included.\<close>

definition held_id :: "string \<Rightarrow> lock_mgr \<Rightarrow> string option" where
  "held_id d m =
     (case dget (lm_locks m) d of None \<Rightarrow> None | Some l \<Rightarrow> if lk_locked l then Some (lk_id l) else None)"

lemma held_drop:
  "fst (drop_held ns ls) = [] \<Longrightarrow> held_id d (m\<lparr>lm_locks := snd (drop_held ns ls)\<rparr>) = held_id d (m\<lparr>lm_locks := ls\<rparr>)"
  by (simp add: drop_held_nothing)

lemma held_renew:
  "held_id d (snd (renew_locks ns i t m)) = held_id d m"
proof -
  have "dget (snd (renew_all i t (next_expiry m t) ns (lm_locks m))) d =
      (if d \<in> set ns then renewed_lock i t (next_expiry m t) (dget (lm_locks m) d)
       else dget (lm_locks m) d)"
    by (rule dget_renew_all) (rule next_expiry_future)
  then show ?thesis
    by (auto simp: held_id_def renew_locks_def Let_def split_beta renewed_lock_def renewable_def
        split: option.splits)
qed

lemma held_force:
  "dedup ns = [] \<Longrightarrow> held_id d (snd (force_unlock ns r m)) = held_id d m"
  by (cases ns) (auto simp: force_unlock_def held_id_def)

lemma version_step:
  "lm_version m \<le> lm_version (run_lock ev m) \<and>
   (lm_version (run_lock ev m) = lm_version m \<longrightarrow>
      held_id d (run_lock ev m) = held_id d m \<and> lm_lock_all (run_lock ev m) = lm_lock_all m)"
proof -
  obtain t req where ev: "ev = (t, req)" by (cases ev)
  show ?thesis
  proof (cases req)
    case (Renew ns i)
    then show ?thesis
      using held_renew by (auto simp: ev renew_locks_def Let_def split_beta)
  next
    case (Release ns i)
    then show ?thesis
      using drop_held_nothing [of ns "lm_locks m"]
      by (auto simp: ev release_locks_def split_beta held_id_def)
  next
    case (Force ns r)
    then show ?thesis
      using held_force [of ns d r m] by (auto simp: ev force_unlock_def Let_def split: if_splits)
  next
    case Clear
    then show ?thesis
      by (force simp: ev clear_all_def Let_def held_id_def filter_empty_conv
          dest: map_of_SomeD split: option.splits)
  qed (auto simp: ev acquire_locks_def set_lock_all_def Let_def)
qed

text \<open>
  The version counter tells clients whether the locks changed: it never decreases, and if
  it is the same after a sequence of requests as before, every device is held under the same
  lock id (or by nobody) as before and the lock_all policy is the same. (A lease that lapses
  does not change the version.)
\<close>

theorem version_detects_changes:
  assumes "lm_version (fold run_lock trace m) = lm_version m"
  shows "held_id d (fold run_lock trace m) = held_id d m \<and>
    lm_lock_all (fold run_lock trace m) = lm_lock_all m \<and>
    list_all (\<lambda>k. lm_version (fold run_lock (take k trace) m) = lm_version m) [0..<Suc (length trace)]"
proof -
  have mono: "lm_version m \<le> lm_version (fold run_lock tr m)" for tr m
    by (induction tr arbitrary: m) (auto intro: order_trans version_step [THEN conjunct1])
  have "held_id d (fold run_lock tr m) = held_id d m \<and>
      lm_lock_all (fold run_lock tr m) = lm_lock_all m"
    if "lm_version (fold run_lock tr m) = lm_version m" for tr m
    using that
  proof (induction tr arbitrary: m)
    case (Cons ev tr)
    have "lm_version (run_lock ev m) = lm_version m"
      using mono [of "run_lock ev m" tr] version_step [of m ev d] Cons.prems by simp
    then show ?case using Cons version_step [of m ev d] by simp
  qed simp
  moreover have "lm_version (fold run_lock (take k trace) m) = lm_version m" for k
  proof -
    have "fold run_lock trace m = fold run_lock (drop k trace) (fold run_lock (take k trace) m)"
      by (metis append_take_drop_id comp_apply fold_append)
    then show ?thesis
      using mono [of m "take k trace"] mono [of "fold run_lock (take k trace) m" "drop k trace"] assms
      by simp
  qed
  ultimately show ?thesis using assms by (simp add: list_all_iff)
qed

section \<open>Instances\<close>

definition demo_locks :: lock_mgr where
  "demo_locks = new_lock_mgr False 10 (\<lambda>n. replicate n CHR ''u'') 0"

definition demo_trace :: "(rat \<times> lock_op) list" where
  "demo_trace =
     [(1, Acquire [''m1'', ''m2''] ''b'' ''count'' ''qs'' demo_registry),
      (5, Renew [''m1''] ''b''),
      (6, Release [''m1''] ''b''),
      (7, Force [''m2''] demo_registry)]"

lemma demo_registry_eval:
  "get_device ''m1'' demo_registry = Some (demo_device ''m1'' [(''rbv'', ''X.RBV''), (''val'', ''X.VAL'')])"
  "get_instantiation_spec ''m1'' demo_registry = Some (demo_spec ''m1'' True)"
  by (simp_all add: demo_registry_def add_device_def get_device_def get_instantiation_spec_def
      add_standalone_pv_def empty_registry_def demo_device_def demo_spec_def)

lemma demo_acquired:
  "lr_success (fst (acquire_locks [''m1''] ''a'' ''scan'' ''qs'' demo_registry t demo_locks))"
  by (simp add: acquire_locks_def check_device_def demo_registry_eval demo_locks_def
      new_lock_mgr_def active_lock_def Let_def demo_spec_def)

theorem lease_protects_holder_instance:
  "\<exists>l. get_device_lock ''m1'' 9 (fold run_lock demo_trace
          (snd (acquire_locks [''m1''] ''a'' ''scan'' ''qs'' demo_registry 0 demo_locks))) = Some l \<and>
        lk_item l = ''a'' \<and> lk_id l = ''u''"
proof -
  have t: "list_all (\<lambda>(t, req). 0 \<le> t \<and> (lm_ttl demo_locks \<le> 0 \<or> t < 0 + lm_ttl demo_locks) \<and>
           \<not> may_end ''m1'' ''a'' req) demo_trace"
    by (simp add: demo_trace_def demo_locks_def new_lock_mgr_def)
  show ?thesis
    using lease_protects_holder [OF demo_acquired _ t, of 9]
    by (simp add: demo_locks_def new_lock_mgr_def)
qed

text \<open>The same lock, renewed at 9, is still held at 18, though the first lease ended at 10.\<close>

definition demo_held :: lock_mgr where
  "demo_held = snd (acquire_locks [''m1''] ''a'' ''scan'' ''qs'' demo_registry 0 demo_locks)"

lemma demo_held_lock:
  "get_device_lock ''m1'' 9 demo_held =
     Some \<lparr>lk_device = ''m1'', lk_locked = True, lk_plan = ''scan'', lk_item = ''a'',
           lk_service = ''qs'', lk_at = 0, lk_id = ''u'', lk_expires = Some 10\<rparr>"
  by (simp add: demo_held_def acquire_locks_def check_device_def demo_registry_eval demo_locks_def
      new_lock_mgr_def active_lock_def Let_def demo_spec_def get_device_lock_def is_expired_def
      next_expiry_def)

theorem renewal_extends_protection_instance:
  "\<exists>k. get_device_lock ''m1'' 18 (fold run_lock
          [(11, Acquire [''m1''] ''b'' ''count'' ''qs'' demo_registry), (12, Policy True)]
          (snd (renew_locks [''m1''] ''a'' 9 demo_held))) = Some k \<and>
        lk_item k = ''a'' \<and> lk_id k = ''u''"
proof -
  have ttl: "lm_ttl demo_held = 10"
    by (simp add: demo_held_def acquire_locks_def demo_locks_def new_lock_mgr_def Let_def)
  show ?thesis
    using renewal_extends_protection [OF demo_held_lock, of "[''m1'']"
      "[(11, Acquire [''m1''] ''b'' ''count'' ''qs'' demo_registry), (12, Policy True)]" 18]
    by (simp add: ttl)
qed

theorem version_detects_changes_instance:
  "held_id ''m1'' (fold run_lock [(1, Renew [''m1''] ''a''), (2, Release [''m1''] ''b''), (3, Policy False)]
      demo_held) = held_id ''m1'' demo_held"
proof -
  have "lm_version (fold run_lock [(1, Renew [''m1''] ''a''), (2, Release [''m1''] ''b''), (3, Policy False)]
      demo_held) = lm_version demo_held"
    by (simp add: demo_held_def acquire_locks_def check_device_def demo_registry_eval demo_locks_def
      new_lock_mgr_def active_lock_def Let_def demo_spec_def is_expired_def next_expiry_def
      renew_locks_def renew_one_def release_locks_def set_lock_all_def)
  from version_detects_changes [OF this, of "''m1''"] show ?thesis by blast
qed

end
