(* ===== verification/Coordinator.thy ===== *)
theory Coordinator
  imports ConfigClient LockProps
begin

text \<open>
  The lock side of the queue server's configuration-service coordinator
  (\<open>config_service_coordinator.py\<close>): which lock it believes to hold, taking and releasing it
  around a plan or an environment, and the lease heartbeat. Its requests run on the service's
  handlers; the database of the service accepts all writes here. The device names a plan
  refers to, the lock owner ids and the results of other manager components are parameters.
\<close>

section \<open>State\<close>

record coord =
  co_item_id :: string
  co_devices :: "string list"
  co_locked_item :: string
  co_plan :: string
  co_epoch :: string
  co_ttl :: rat

definition new_coord :: "string \<Rightarrow> coord" where
  "new_coord uid = \<lparr>co_item_id = ''env:'' @ uid, co_devices = [], co_locked_item = [], co_plan = [],
     co_epoch = [], co_ttl = 0\<rparr>"

definition new_env_lock_item_id :: "string \<Rightarrow> coord \<Rightarrow> coord" where
  "new_env_lock_item_id uid co = co\<lparr>co_item_id := ''env:'' @ uid\<rparr>"

section \<open>The service's answers\<close>

text \<open>The lock epoch and lease time of a lock answer.\<close>

definition srv_lock ::
    "string \<Rightarrow> rat \<Rightarrow> string list \<Rightarrow> string \<Rightarrow> string \<Rightarrow> config \<Rightarrow> (int \<times> string \<times> rat) \<times> config" where
  "srv_lock service now names item plan c =
     (case lock_devices True now names item plan service c of
        ((code, res), c') \<Rightarrow> ((code, lm_epoch (cf_locks c'), lm_ttl (cf_locks c')), c'))"

definition srv_unlock :: "rat \<Rightarrow> string list \<Rightarrow> string \<Rightarrow> config \<Rightarrow> (int \<times> unit) \<times> config" where
  "srv_unlock now names item c =
     (case unlock_devices True now names item c of (code, c') \<Rightarrow> ((code, ()), c'))"

definition srv_force :: "rat \<Rightarrow> string list \<Rightarrow> config \<Rightarrow> (int \<times> unit) \<times> config" where
  "srv_force now names c =
     (case force_unlock_devices True now names ''queueserver manager restart recovery'' c of
        (code, c') \<Rightarrow> ((code, ()), c'))"

record renew_reply =
  rp_epoch :: string
  rp_lost :: "string list"
  rp_conflicts :: "string list"

definition srv_renew :: "rat \<Rightarrow> string list \<Rightarrow> string \<Rightarrow> config \<Rightarrow> (int \<times> renew_reply) \<times> config" where
  "srv_renew now names item c =
     (case renew_device_locks now names item c of (res, c') \<Rightarrow>
        ((200, \<lparr>rp_epoch = lm_epoch (cf_locks c'), rp_lost = rr_lost res, rp_conflicts = rr_conflicts res\<rparr>), c'))"

definition record_lock_epoch_and_lease :: "string \<times> rat \<Rightarrow> coord \<Rightarrow> coord" where
  "record_lock_epoch_and_lease resp co =
     (case resp of (epoch, ttl) \<Rightarrow>
        co\<lparr>co_epoch := (if epoch \<noteq> [] then epoch else co_epoch co), co_ttl := ttl\<rparr>)"

section \<open>Locking and unlocking\<close>

type_synonym cstate = "coord \<times> config"

definition unlock_devices_co ::
    "settings \<Rightarrow> net list \<Rightarrow> rat \<Rightarrow> bool \<Rightarrow> cstate \<Rightarrow> (cs_error + unit) \<times> cstate" where
  "unlock_devices_co st net now suppress x =
     (case x of (co, c) \<Rightarrow>
      if \<not> sg_enabled st then (Inr (), x)
      else if co_devices co = [] then (Inr (), x)
      else case request st net (srv_unlock now (co_devices co) (co_locked_item co)) c of
          (Inl e, c') \<Rightarrow> (if suppress then Inr () else Inl e, (co, c'))
        | (Inr _, c') \<Rightarrow>
            (Inr (), (co\<lparr>co_devices := [], co_locked_item := [], co_plan := []\<rparr>, c')))"

text \<open>\<open>names\<close>: the devices extracted from the plan, sorted; \<open>item\<close> and \<open>plan\<close> its uid and name.\<close>

definition lock_devices_for_plan ::
    "settings \<Rightarrow> net list \<Rightarrow> net list \<Rightarrow> net list \<Rightarrow> rat \<Rightarrow> string list \<Rightarrow> string \<Rightarrow> string \<Rightarrow>
     cstate \<Rightarrow> (cs_error + unit) \<times> cstate" where
  "lock_devices_for_plan st netu netg netl now names item plan x =
     (case (if co_locked_item (fst x) \<noteq> [] then unlock_devices_co st netu now False x else (Inr (), x)) of
        (Inl e, x1) \<Rightarrow> (Inl e, x1)
      | (Inr _, x1) \<Rightarrow>
          if names = [] then (Inr (), x1)
          else case x1 of (co, c) \<Rightarrow>
            (case query st netg (get_specs True) c of
               Inl e \<Rightarrow> (Inl Service_error, x1)
             | Inr ss \<Rightarrow>
                 let ns = filter (\<lambda>n. n \<in> fst ` set ss) names in
                 if ns = [] then (Inr (), x1)
                 else (case request st netl (srv_lock (sg_service st) now ns item plan) c of
                     (Inl e, c') \<Rightarrow> (Inl e, (co, c'))
                   | (Inr resp, c') \<Rightarrow>
                       (Inr (), (record_lock_epoch_and_lease resp
                          (co\<lparr>co_devices := ns, co_locked_item := item, co_plan := plan\<rparr>), c')))))"

definition lock_with_restart_recovery ::
    "settings \<Rightarrow> net list \<Rightarrow> net list \<Rightarrow> net list \<Rightarrow> rat \<Rightarrow> string list \<Rightarrow> string \<Rightarrow> string \<Rightarrow> config \<Rightarrow>
     (cs_error + string \<times> rat) \<times> config" where
  "lock_with_restart_recovery st net1 netf net2 now names item plan c =
     (case request st net1 (srv_lock (sg_service st) now names item plan) c of
        (Inl Conflict_error, c1) \<Rightarrow>
          (case request st netf (srv_force now names) c1 of
             (Inl e, c2) \<Rightarrow> (Inl e, c2)
           | (Inr _, c2) \<Rightarrow> request st net2 (srv_lock (sg_service st) now names item plan) c2)
      | r \<Rightarrow> r)"

text \<open>
  The locking part of \<open>sync_on_env_open\<close>: only with environment scope, and only once per
  environment; a leftover lock is released first.
\<close>

definition lock_environment ::
    "settings \<Rightarrow> net list \<Rightarrow> net list \<Rightarrow> net list \<Rightarrow> net list \<Rightarrow> rat \<Rightarrow> string list \<Rightarrow> cstate \<Rightarrow>
     (cs_error + unit) \<times> cstate" where
  "lock_environment st netu net1 netf net2 now names x =
     (if sg_scope st \<noteq> Environment_scope then (Inr (), x)
      else if co_locked_item (fst x) = co_item_id (fst x) then (Inr (), x)
      else
        case (if co_locked_item (fst x) \<noteq> [] then unlock_devices_co st netu now False x else (Inr (), x)) of
          (Inl e, x1) \<Rightarrow> (Inl e, x1)
        | (Inr _, (co, c)) \<Rightarrow>
            if names = [] then (Inr (), (co, c))
            else (case lock_with_restart_recovery st net1 netf net2 now names (co_item_id co)
                     ''__environment__'' c of
                (Inl e, c') \<Rightarrow> (Inl e, (co, c'))
              | (Inr resp, c') \<Rightarrow>
                  (Inr (), (record_lock_epoch_and_lease resp
                     (co\<lparr>co_devices := names, co_locked_item := co_item_id co,
                        co_plan := ''__environment__''\<rparr>), c'))))"

definition release_plan_scope_lock ::
    "settings \<Rightarrow> net list \<Rightarrow> rat \<Rightarrow> bool \<Rightarrow> cstate \<Rightarrow> bool \<times> cstate" where
  "release_plan_scope_lock st net now suppress x =
     (if \<not> sg_enabled st then (True, x)
      else if sg_scope st \<noteq> Plan_scope then (True, x)
      else case unlock_devices_co st net now False x of
          (Inl e, x') \<Rightarrow> (suppress, x')
        | (Inr _, x') \<Rightarrow> (True, x'))"

section \<open>The heartbeat\<close>

definition heartbeat_interval :: "rat \<Rightarrow> rat" where
  "heartbeat_interval ttl = min (max (ttl / 3) (1 / 2)) (ttl / 2)"

text \<open>
  A tick reads the bookkeeping, awaits the answer, and drops it if a plan transition changed
  the lock meanwhile: \<open>snap\<close> is what it read, \<open>co\<close> the bookkeeping after the await.
\<close>

record snapshot =
  sn_devices :: "string list"
  sn_item :: string
  sn_plan :: string
  sn_epoch :: string

definition heartbeat_snapshot :: "settings \<Rightarrow> coord \<Rightarrow> snapshot option" where
  "heartbeat_snapshot st co =
     (if \<not> sg_enabled st \<or> co_ttl co \<le> 0 then None
      else if co_devices co = [] \<or> co_locked_item co = [] then None
      else Some \<lparr>sn_devices = co_devices co, sn_item = co_locked_item co, sn_plan = co_plan co,
                 sn_epoch = co_epoch co\<rparr>)"

definition must_reacquire :: "snapshot \<Rightarrow> renew_reply \<Rightarrow> bool" where
  "must_reacquire snap r =
     (rp_conflicts r \<noteq> [] \<or> rp_lost r \<noteq> [] \<or>
      (rp_epoch r \<noteq> [] \<and> sn_epoch snap \<noteq> [] \<and> rp_epoch r \<noteq> sn_epoch snap))"

definition reacquire_after_loss ::
    "settings \<Rightarrow> net list \<Rightarrow> rat \<Rightarrow> snapshot \<Rightarrow> (coord \<Rightarrow> coord) \<Rightarrow> cstate \<Rightarrow> (cs_error + unit) \<times> cstate" where
  "reacquire_after_loss st net now snap meanwhile x =
     (case x of (co, c) \<Rightarrow>
      case request st net (srv_lock (sg_service st) now (sn_devices snap) (sn_item snap)
             (if sn_plan snap = [] then ''__reacquired__'' else sn_plan snap)) c of
        (r, c') \<Rightarrow>
          let co' = meanwhile co in
          (case r of
             Inl Conflict_error \<Rightarrow>
               (Inr (), (if co_locked_item co' = sn_item snap
                         then co'\<lparr>co_devices := [], co_locked_item := [], co_plan := []\<rparr> else co', c'))
           | Inl e \<Rightarrow> (Inl e, (co', c'))
           | Inr resp \<Rightarrow>
               (Inr (), (if co_locked_item co' = sn_item snap then record_lock_epoch_and_lease resp co'
                         else co', c'))))"

text \<open>
  \<open>m1\<close> and \<open>m2\<close> are what plan transitions do to the bookkeeping during the two awaits. An
  error of the tick is logged by the loop around it.
\<close>

definition heartbeat_once ::
    "settings \<Rightarrow> net list \<Rightarrow> net list \<Rightarrow> rat \<Rightarrow> rat \<Rightarrow> (coord \<Rightarrow> coord) \<Rightarrow> (coord \<Rightarrow> coord) \<Rightarrow>
     cstate \<Rightarrow> (cs_error + unit) \<times> cstate" where
  "heartbeat_once st netr netl now now2 m1 m2 x =
     (case x of (co, c) \<Rightarrow>
      case heartbeat_snapshot st co of
        None \<Rightarrow> (Inr (), x)
      | Some snap \<Rightarrow>
          (case request st netr (srv_renew now (sn_devices snap) (sn_item snap)) c of
             (Inl e, c') \<Rightarrow> (Inl e, (m1 co, c'))
           | (Inr r, c') \<Rightarrow>
               let co' = m1 co in
               if co_locked_item co' \<noteq> sn_item snap then (Inr (), (co', c'))
               else if must_reacquire snap r then reacquire_after_loss st netl now2 snap m2 (co', c')
               else (Inr (), (if rp_epoch r \<noteq> [] then co'\<lparr>co_epoch := rp_epoch r\<rparr> else co', c'))))"

end
