(* ===== verification/ConfigInv.thy ===== *)
theory ConfigInv
  imports ConfigService
begin

text \<open>
  The invariant of the configuration service: the registry in memory is well formed and agrees
  with the stored rows on every device and its specification, and with the stored standalone
  PVs. Each handler keeps it, whether the database accepts the writes or not.
\<close>

section \<open>Devices and specifications after registry operations\<close>

definition entry_of :: "registry \<Rightarrow> string \<Rightarrow> (device \<times> spec option) option" where
  "entry_of r n = map_option (\<lambda>d. (d, get_instantiation_spec n r)) (get_device n r)"

lemma add_device_reads:
  "get_device n (add_device d sp r) = (if n = dev_name d then Some d else get_device n r)"
  "get_instantiation_spec n (add_device d sp r) =
     (if n = dev_name d \<and> sp \<noteq> None then sp else get_instantiation_spec n r)"
  "standalone (add_device d sp r) = standalone r"
  by (auto simp: add_device_def get_device_def get_instantiation_spec_def dget_dset split: option.splits)

lemma release_reads:
  assumes "reg_inv r"
  shows "get_device n (release_pv_ownership name r) = get_device n r"
    "get_instantiation_spec n (release_pv_ownership name r) = get_instantiation_spec n r"
    "standalone (release_pv_ownership name r) = standalone r"
  using release_ownership(2,3,4) [of r name] assms
  by (simp_all add: get_device_def get_instantiation_spec_def reg_inv_def)

lemma update_device_reads:
  assumes "reg_inv r" "get_device (dev_name d) r \<noteq> None"
  shows "get_device n (snd (update_device d sp r)) = (if n = dev_name d then Some d else get_device n r)"
    "get_instantiation_spec n (snd (update_device d sp r)) =
       (if n = dev_name d \<and> sp \<noteq> None then sp else get_instantiation_spec n r)"
    "standalone (snd (update_device d sp r)) = standalone r"
proof -
  have u: "snd (update_device d sp r) = add_device d sp (release_pv_ownership (dev_name d) r)"
    using assms(2) by (auto simp: update_device_def get_device_def)
  show "get_device n (snd (update_device d sp r)) = (if n = dev_name d then Some d else get_device n r)"
    "get_instantiation_spec n (snd (update_device d sp r)) =
       (if n = dev_name d \<and> sp \<noteq> None then sp else get_instantiation_spec n r)"
    "standalone (snd (update_device d sp r)) = standalone r"
    by (auto simp: u add_device_reads release_reads [OF assms(1)])
qed

lemma remove_device_reads:
  assumes "reg_inv r"
  shows "get_device n (snd (remove_device name r)) = (if n = name then None else get_device n r)"
    "n \<noteq> name \<Longrightarrow> get_instantiation_spec n (snd (remove_device name r)) = get_instantiation_spec n r"
    "standalone (snd (remove_device name r)) = standalone r"
  using release_reads(1,2) [OF assms, of _ name] release_reads(3) [OF assms, of name]
  by (auto simp: remove_device_def get_device_def get_instantiation_spec_def Let_def dget_ddel)

lemma standalone_reads:
  "get_device n (add_standalone_pv p r) = get_device n r"
  "get_instantiation_spec n (add_standalone_pv p r) = get_instantiation_spec n r"
  "set (standalone (add_standalone_pv p r)) = insert p (set (standalone r))"
  "get_device n (remove_standalone_pv p r) = get_device n r"
  "get_instantiation_spec n (remove_standalone_pv p r) = get_instantiation_spec n r"
  "set (standalone (remove_standalone_pv p r)) = set (standalone r) - {p}"
  by (auto simp: add_standalone_pv_def remove_standalone_pv_def get_device_def get_instantiation_spec_def)

lemma apply_standalone_fold:
  "reg_inv r \<Longrightarrow> reg_inv (fold (\<lambda>p. add_standalone_pv (sp_name p)) ps r) \<and>
   entry_of (fold (\<lambda>p. add_standalone_pv (sp_name p)) ps r) = entry_of r \<and>
   set (standalone (fold (\<lambda>p. add_standalone_pv (sp_name p)) ps r)) = sp_name ` set ps \<union> set (standalone r)"
proof (induction ps arbitrary: r)
  case (Cons p ps)
  have "entry_of (add_standalone_pv (sp_name p) r) = entry_of r"
    by (rule ext) (simp add: entry_of_def standalone_reads)
  then show ?case
    using Cons.IH [OF add_standalone_inv [OF Cons.prems, of "sp_name p"]]
    by (auto simp: standalone_reads)
qed simp

lemma apply_standalone:
  assumes "reg_inv r" "spv_ok pvs" "standalone r = []"
  shows "reg_inv (apply_standalone_pvs pvs r)"
    and "entry_of (apply_standalone_pvs pvs r) = entry_of r"
    and "set (standalone (apply_standalone_pvs pvs r)) = {n. dget pvs n \<noteq> None}"
  using apply_standalone_fold [OF assms(1), of "get_all_pvs [] pvs"] names_of_all [OF assms(2)] assms(3)
  by (simp_all add: apply_standalone_pvs_def)

text \<open>Every specification belongs to a registered device.\<close>

definition specs_owned :: "registry \<Rightarrow> bool" where
  "specs_owned r \<longleftrightarrow> (\<forall>n. get_device n r = None \<longrightarrow> get_instantiation_spec n r = None)"

lemma specs_owned_add: "specs_owned r \<Longrightarrow> specs_owned (add_device d sp r)"
  by (auto simp: specs_owned_def add_device_reads)

lemma specs_owned_update:
  "specs_owned r \<Longrightarrow> reg_inv r \<Longrightarrow> specs_owned (snd (update_device d sp r))"
proof (cases "get_device (dev_name d) r = None")
  case True
  moreover assume "specs_owned r"
  ultimately show ?thesis by (simp add: update_device_def get_device_def)
next
  case False
  moreover assume "specs_owned r" "reg_inv r"
  ultimately show ?thesis by (auto simp: specs_owned_def update_device_reads)
qed

lemma specs_owned_remove:
  assumes "specs_owned r" "reg_inv r"
  shows "specs_owned (snd (remove_device name r))"
proof (cases "get_device name r = None")
  case True
  then show ?thesis using assms(1) by (simp add: remove_device_def get_device_def)
next
  case False
  then have "get_instantiation_spec name (snd (remove_device name r)) = None"
    by (auto simp: remove_device_def get_device_def get_instantiation_spec_def Let_def dget_ddel)
  then show ?thesis
    using assms unfolding specs_owned_def
    by (metis remove_device_reads(1) remove_device_reads(2))
qed

lemma specs_owned_standalone:
  "specs_owned (add_standalone_pv p r) = specs_owned r"
  "specs_owned (remove_standalone_pv p r) = specs_owned r"
  by (simp_all add: specs_owned_def standalone_reads)

lemma specs_owned_fold:
  "specs_owned (fold (\<lambda>p. add_standalone_pv (sp_name p)) ps r) = specs_owned r"
  by (induction ps arbitrary: r) (auto simp: specs_owned_standalone)

lemma specs_owned_apply: "specs_owned (apply_standalone_pvs pvs r) = specs_owned r"
  by (simp add: apply_standalone_pvs_def specs_owned_fold)

lemma specs_owned_loaded: "specs_owned (load_all_devices s)"
proof -
  have "specs_owned r \<Longrightarrow>
      specs_owned (fold (\<lambda>nr r. add_device (rw_metadata (snd nr)) (rw_spec (snd nr)) r) rows r)" for rows r
    by (induction rows arbitrary: r) (auto simp: specs_owned_add)
  moreover have "specs_owned empty_registry"
    by (simp add: specs_owned_def empty_registry_def get_instantiation_spec_def)
  ultimately show ?thesis by (simp add: load_all_devices_def)
qed

lemmas specs_owned_rules = specs_owned_add specs_owned_update specs_owned_remove
  specs_owned_standalone specs_owned_apply

section \<open>The stored rows\<close>

lemma stored_save:
  "stored (save_device n m sp p d t s) q = (if q = n then Some (m, sp) else stored s q)"
  by (auto simp: stored_def save_device_def log_audit_def dget_dset split: option.splits)

lemma stored_delete: "stored (snd (delete_device n d t s)) q = (if q = n then None else stored s q)"
  by (auto simp: stored_def delete_device_def log_audit_def dget_ddel)

lemma stored_lock_log: "st_rows (log_lock_event ns p d t s) = st_rows s"
  by (induction ns arbitrary: s) (auto simp: log_lock_event_def log_audit_def)

lemma seed_total:
  assumes "distinct (map fst ds)" "\<And>n. n \<in> fst ` set ds \<Longrightarrow> dget (st_rows s) n = None" "wf_dict (st_rows s)"
  shows "\<exists>s'. seed_devices ds r t s = Some s' \<and> wf_dict (st_rows s') \<and>
    (\<forall>n. stored s' n = (case dget ds n of Some d \<Rightarrow> Some (d, dget (specs r) n) | None \<Rightarrow> stored s n))"
  using assms
proof (induction ds arbitrary: s)
  case (Cons nd ds)
  obtain n d where nd: "nd = (n, d)" by (cases nd)
  let ?s1 = "log_audit n ''seed'' t (Some (JDict [(''source'', JStr ''profile'')]))
          (s\<lparr>st_rows := dset n \<lparr>rw_metadata = d, rw_spec = dget (specs r) n,
                                 rw_created = t, rw_updated = t\<rparr> (st_rows s)\<rparr>)"
  have rows: "st_rows ?s1 = dset n \<lparr>rw_metadata = d, rw_spec = dget (specs r) n,
                                 rw_created = t, rw_updated = t\<rparr> (st_rows s)"
    by (simp add: log_audit_def)
  obtain s' where s': "seed_devices ds r t ?s1 = Some s'" "wf_dict (st_rows s')"
    "\<forall>q. stored s' q = (case dget ds q of Some d \<Rightarrow> Some (d, dget (specs r) q) | None \<Rightarrow> stored ?s1 q)"
  proof (rule exE [OF Cons.IH])
    show "distinct (map fst ds)" using Cons.prems(1) by simp
    show "wf_dict (st_rows ?s1)" unfolding rows by (rule wf_dset) (rule Cons.prems(3))
    fix q assume "q \<in> fst ` set ds"
    then show "dget (st_rows ?s1) q = None"
      unfolding rows using Cons.prems(1,2) nd by (auto simp: dget_dset image_iff)
  qed blast
  have one: "stored ?s1 q = (if q = n then Some (d, dget (specs r) n) else stored s q)" for q
    by (simp add: stored_def rows dget_dset)
  have none: "dget (st_rows s) n = None" "dget ds n = None"
    using Cons.prems(1,2) nd by (simp_all add: map_of_eq_None_iff)
  have "stored s' q = (case dget (nd # ds) q of Some d \<Rightarrow> Some (d, dget (specs r) q) | None \<Rightarrow> stored s q)" for q
    using s'(3) one [of q] none by (cases "q = n") (simp_all add: nd cong: option.case_cong)
  moreover have "seed_devices (nd # ds) r t s = Some s'" using s'(1) none(1) by (simp add: nd)
  ultimately show ?case using s'(2) by blast
qed (auto simp: stored_def)

lemma stored_mark: "stored (s\<lparr>st_seeded := x\<rparr>) = stored s"
  by (rule ext) (simp add: stored_def)

lemma seed_from_total:
  assumes "wf_dict (devices r)" "st_rows s = []"
  shows "\<exists>s'. seed_from_registry r t s = Some s' \<and> wf_dict (st_rows s') \<and> st_seeded s' = Some t \<and>
    stored s' = entry_of r"
proof -
  obtain s' where s': "seed_devices (devices r) r t s = Some s'" "wf_dict (st_rows s')"
    "\<And>n. stored s' n = (case dget (devices r) n of Some d \<Rightarrow> Some (d, dget (specs r) n) | None \<Rightarrow> stored s n)"
    using seed_total [of "devices r" s r t] assms by (auto simp: wf_dict_def)
  have "stored s n = None" for n by (simp add: stored_def assms(2))
  then have "stored s' = entry_of r"
    by (intro ext)
      (simp add: s'(3) entry_of_def get_device_def get_instantiation_spec_def split: option.splits)
  then show ?thesis using s' by (simp add: seed_from_registry_def stored_mark)
qed

section \<open>Loading\<close>

text \<open>Adding rows for distinct device names.\<close>

lemma load_fold:
  assumes "distinct (map fst rows)" "\<And>n row. (n, row) \<in> set rows \<Longrightarrow> dev_name (rw_metadata row) = n"
    "reg_inv r" "\<And>n. n \<in> fst ` set rows \<Longrightarrow> get_device n r = None \<and> get_instantiation_spec n r = None"
  shows "reg_inv (fold (\<lambda>nr r. add_device (rw_metadata (snd nr)) (rw_spec (snd nr)) r) rows r) \<and>
    standalone (fold (\<lambda>nr r. add_device (rw_metadata (snd nr)) (rw_spec (snd nr)) r) rows r) = standalone r \<and>
    entry_of (fold (\<lambda>nr r. add_device (rw_metadata (snd nr)) (rw_spec (snd nr)) r) rows r) =
      (\<lambda>n. case dget rows n of Some row \<Rightarrow> Some (rw_metadata row, rw_spec row) | None \<Rightarrow> entry_of r n)"
  using assms
proof (induction rows arbitrary: r)
  case (Cons nr rows)
  obtain n row where nr: "nr = (n, row)" by (cases nr)
  let ?r1 = "add_device (rw_metadata row) (rw_spec row) r"
  have name: "dev_name (rw_metadata row) = n" using Cons.prems(2) nr by simp
  have fresh: "get_device n r = None" "get_instantiation_spec n r = None"
    using Cons.prems(4) nr by auto
  have inv: "reg_inv ?r1"
    using add_device_inv [OF Cons.prems(3), of "rw_metadata row"] fresh name by (simp add: get_device_def)
  have reads: "get_device q ?r1 = (if q = n then Some (rw_metadata row) else get_device q r)"
    "get_instantiation_spec q ?r1 = (if q = n then rw_spec row else get_instantiation_spec q r)" for q
    using fresh name by (auto simp: add_device_reads)
  have ih: "reg_inv (fold (\<lambda>nr r. add_device (rw_metadata (snd nr)) (rw_spec (snd nr)) r) rows ?r1) \<and>
    standalone (fold (\<lambda>nr r. add_device (rw_metadata (snd nr)) (rw_spec (snd nr)) r) rows ?r1) = standalone ?r1 \<and>
    entry_of (fold (\<lambda>nr r. add_device (rw_metadata (snd nr)) (rw_spec (snd nr)) r) rows ?r1) =
      (\<lambda>n. case dget rows n of Some row \<Rightarrow> Some (rw_metadata row, rw_spec row) | None \<Rightarrow> entry_of ?r1 n)"
  proof (rule Cons.IH)
    fix q assume "q \<in> fst ` set rows"
    then have "q \<noteq> n" using Cons.prems(1) nr by auto
    then show "get_device q ?r1 = None \<and> get_instantiation_spec q ?r1 = None"
      using Cons.prems(4) \<open>q \<in> fst ` set rows\<close> reads by auto
  qed (use Cons.prems inv in auto)
  have none: "dget rows n = None" using Cons.prems(1) nr by (simp add: map_of_eq_None_iff)
  have "(case dget rows q of Some row \<Rightarrow> Some (rw_metadata row, rw_spec row) | None \<Rightarrow> entry_of ?r1 q) =
      (case dget (nr # rows) q of Some row \<Rightarrow> Some (rw_metadata row, rw_spec row) | None \<Rightarrow> entry_of r q)" for q
    using none by (auto simp: nr entry_of_def reads split: option.splits)
  then show ?case using ih by (simp add: nr add_device_reads)
qed simp

lemma loaded:
  assumes "wf_dict (st_rows s)" "\<And>n row. dget (st_rows s) n = Some row \<Longrightarrow> dev_name (rw_metadata row) = n"
  shows "reg_inv (load_all_devices s)" "standalone (load_all_devices s) = []"
    "entry_of (load_all_devices s) = stored s"
proof -
  let ?rows = "sort_key fst (st_rows s)"
  have d: "distinct (map fst ?rows)"
    using assms(1) by (simp add: wf_dict_def distinct_map)
  have m: "dget ?rows = dget (st_rows s)"
    by (rule ext) (metis (no_types, lifting) assms(1) d dget_mem not_Some_eq set_sort wf_dict_def)
  have f: "reg_inv (load_all_devices s) \<and> standalone (load_all_devices s) = standalone empty_registry \<and>
      entry_of (load_all_devices s) =
        (\<lambda>n. case dget ?rows n of Some row \<Rightarrow> Some (rw_metadata row, rw_spec row)
             | None \<Rightarrow> entry_of empty_registry n)"
    unfolding load_all_devices_def
  proof (rule load_fold [OF d _ empty_reg_inv])
    fix n row assume "(n, row) \<in> set ?rows"
    then show "dev_name (rw_metadata row) = n" using assms by (simp add: dget_mem)
  qed (simp add: empty_registry_def get_device_def get_instantiation_spec_def)
  then show "reg_inv (load_all_devices s)" "standalone (load_all_devices s) = []"
    by (simp_all add: empty_registry_def)
  show "entry_of (load_all_devices s) = stored s"
    using f by (auto simp: m stored_def entry_of_def empty_registry_def get_device_def fun_eq_iff
        split: option.splits)
qed

end
