(* ===== verification/ConfigKeep.thy ===== *)
theory ConfigKeep
  imports ConfigInv
begin

text \<open>
  The invariant of the configuration service holds from the start on and every request keeps
  it; a restart over the stored tables brings back the same registry.
\<close>

section \<open>Agreement\<close>

definition cfg_ok :: "config \<Rightarrow> bool" where
  "cfg_ok c \<longleftrightarrow> reg_inv (cf_reg c) \<and> wf_dict (st_rows (cf_store c)) \<and> spv_ok (cf_pvs c) \<and>
     stored (cf_store c) = entry_of (cf_reg c) \<and>
     set (standalone (cf_reg c)) = {n. dget (cf_pvs c) n \<noteq> None} \<and> specs_owned (cf_reg c)"

text \<open>A registry as a profile loader returns it: well formed, without standalone PVs or stray specs.\<close>

definition profile_ok :: "registry \<Rightarrow> bool" where
  "profile_ok r \<longleftrightarrow> reg_inv r \<and> standalone r = [] \<and> specs_owned r"

text \<open>What the handlers use of pydantic: the name of a model is its field \<open>name\<close>.\<close>

definition names_kept :: "models \<Rightarrow> bool" where
  "names_kept p \<longleftrightarrow>
     (\<forall>d. dget (dump_device p d) ''name'' = Some (JStr (dev_name d))) \<and>
     (\<forall>f d. valid_device p f = Some d \<longrightarrow> dget f ''name'' = Some (JStr (dev_name d)))"

datatype request =
    Create bool rat device spec
  | Update bool rat string "dict option" "dict option"
  | Remove bool rat string
  | Enable bool rat string
  | Disable bool rat string
  | Reset "registry option" bool rat rat
  | Clear_all bool rat rat
  | Add_pv bool rat string "string option" pv_protocol pv_access "string list"
  | Edit_pv "spv \<Rightarrow> spv" bool rat string
  | Drop_pv bool string
  | Lock bool rat "string list" string string string
  | Unlock bool rat "string list" string
  | Renew_req rat "string list" string
  | Force_req bool rat "string list" string
  | Lock_policy bool

fun handle :: "models \<Rightarrow> string list \<Rightarrow> request \<Rightarrow> config \<Rightarrow> int \<times> config" where
  "handle p al (Create db t d sp) c = create_device al db t d sp c"
| "handle p al (Update db t n md sd) c = update_device_request p al db t n md sd c"
| "handle p al (Remove db t n) c = delete_device_request db t n c"
| "handle p al (Enable db t n) c = enable_device db t n c"
| "handle p al (Disable db t n) c = disable_device db t n c"
| "handle p al (Reset r db t t2) c = reset_registry r db True t t2 c"
| "handle p al (Clear_all db t t2) c = clear_registry db True t t2 c"
| "handle p al (Add_pv db t n desc pr ac ls) c = create_standalone db t n desc pr ac ls c"
| "handle p al (Edit_pv f db t n) c = update_standalone f db t n c"
| "handle p al (Drop_pv db n) c = delete_standalone db n c"
| "handle p al (Lock db t ns i pl sv) c =
     (case lock_devices db t ns i pl sv c of ((code, res), c') \<Rightarrow> (code, c'))"
| "handle p al (Unlock db t ns i) c = unlock_devices db t ns i c"
| "handle p al (Renew_req t ns i) c = (200, snd (renew_device_locks t ns i c))"
| "handle p al (Force_req db t ns reason) c = force_unlock_devices db t ns reason c"
| "handle p al (Lock_policy b) c = (200, snd (set_lock_policy b c))"

fun proper_request :: "request \<Rightarrow> bool" where
  "proper_request (Update db t n md sd) = (case md of None \<Rightarrow> True | Some f \<Rightarrow> wf_dict f)"
| "proper_request (Reset (Some r) db t t2) = profile_ok r"
| "proper_request _ = True"

lemma cfg_ok_locks: "cfg_ok (c\<lparr>cf_locks := lm\<rparr>) = cfg_ok c"
  by (simp add: cfg_ok_def)

lemma cfg_ok_rows:
  "st_rows s = st_rows (cf_store c) \<Longrightarrow> cfg_ok (c\<lparr>cf_locks := lm, cf_store := s\<rparr>) = cfg_ok c"
  by (simp add: cfg_ok_def stored_def fun_eq_iff)

lemma dev_name_get: "reg_inv r \<Longrightarrow> get_device n r = Some d \<Longrightarrow> dev_name d = n"
  by (auto simp: reg_inv_def get_device_def dest!: map_of_SomeD)

lemma dget_dupdate:
  "wf_dict e \<Longrightarrow> dget (dupdate d e) k = (case dget e k of Some v \<Rightarrow> Some v | None \<Rightarrow> dget d k)"
proof (induction e arbitrary: d)
  case (Cons kv e)
  obtain a b where kv: "kv = (a, b)" by (cases kv)
  have step: "dupdate d ((a, b) # e) = dupdate (dset a b d) e" by (simp add: dupdate_def)
  have wf: "wf_dict e" "dget e a = None"
    using Cons.prems by (auto simp: wf_dict_def kv map_of_eq_None_iff)
  show ?case
    using Cons.IH [OF wf(1), of "dset a b d"] wf(2) by (auto simp: step kv dget_dset split: option.splits)
qed (simp add: dupdate_def)

lemma wf_save: "wf_dict (st_rows s) \<Longrightarrow> wf_dict (st_rows (save_device n m sp p d t s))"
  by (simp add: save_device_def log_audit_def wf_dset)

lemma wf_delete: "wf_dict (st_rows s) \<Longrightarrow> wf_dict (st_rows (snd (delete_device n d t s)))"
  by (simp add: delete_device_def log_audit_def wf_ddel)

lemma cfg_ok_save_update:
  assumes ok: "cfg_ok c" and ex: "get_device n (cf_reg c) = Some old" and name: "dev_name d = n"
    and sp: "sp = None \<Longrightarrow> get_instantiation_spec n (cf_reg c) = None"
  shows "cfg_ok (c\<lparr>cf_store := save_device n d sp p det t (cf_store c),
                   cf_reg := snd (update_device d sp (cf_reg c))\<rparr>)"
proof -
  have inv: "reg_inv (cf_reg c)" and ag: "stored (cf_store c) = entry_of (cf_reg c)"
    using ok by (auto simp: cfg_ok_def)
  have ex': "get_device (dev_name d) (cf_reg c) \<noteq> None" using ex name by simp
  have "stored (save_device n d sp p det t (cf_store c)) q =
      entry_of (snd (update_device d sp (cf_reg c))) q" for q
    using ag sp by (auto simp: stored_save entry_of_def update_device_reads [OF inv ex'] name)
  then show ?thesis
    using ok update_device_inv [OF inv, of d sp] update_device_reads(3) [OF inv ex', of sp]
    by (auto simp: cfg_ok_def wf_save specs_owned_rules)
qed

lemma create_ok:
  assumes "cfg_ok c" shows "cfg_ok (snd (create_device al db t d sp c))"
proof (cases "get_device (dev_name d) (cf_reg c)")
  case None
  have ag: "stored (cf_store c) = entry_of (cf_reg c)" using assms by (simp add: cfg_ok_def)
  have "stored (save_device (dev_name d) d (Some sp) p det t (cf_store c)) q =
      entry_of (add_device d (Some sp) (cf_reg c)) q" for q p det
    using ag by (auto simp: stored_save entry_of_def add_device_reads)
  then show ?thesis
    using assms None add_device_inv [of "cf_reg c" d "Some sp"]
    by (auto simp: create_device_def Let_def cfg_ok_def wf_save add_device_reads(3) get_device_def specs_owned_rules)
next
  case (Some a)
  then have "snd (create_device al db t d sp c) = c" by (auto simp: create_device_def Let_def)
  then show ?thesis using assms by simp
qed

lemma merged_name:
  assumes "names_kept p" "\<not> name_mismatch n (Some f)" "dev_name old = n"
    "apply_partial_update (dump_device p) (valid_device p) old f = Some d" "wf_dict f"
  shows "dev_name d = n"
proof -
  have upd: "dget (dupdate e f) ''name'' = (case dget f ''name'' of Some v \<Rightarrow> Some v | None \<Rightarrow> dget e ''name'')"
    for e using assms(5) by (simp add: dget_dupdate)
  have "dget (dupdate (dump_device p old) f) ''name'' = Some (JStr (dev_name d))"
    using assms(1,4) by (simp add: names_kept_def apply_partial_update_def)
  then show ?thesis
    using assms(1-3) by (auto simp: upd names_kept_def name_mismatch_def split: option.splits json.splits)
qed

lemma spec_none_kept:
  "merge_spec p existing sd = Some None \<Longrightarrow> existing = None"
  by (auto simp: merge_spec_def split: option.splits)

lemma update_ok:
  assumes "cfg_ok c" "names_kept p" "case md of None \<Rightarrow> True | Some f \<Rightarrow> wf_dict f"
  shows "cfg_ok (snd (update_device_request p al db t n md sd c))"
proof -
  let ?c' = "snd (update_device_request p al db t n md sd c)"
  show ?thesis
  proof (cases "?c' = c")
    case False
    then obtain old d sp where
      u: "\<not> name_mismatch n md" "get_device n (cf_reg c) = Some old"
        "(case md of None \<Rightarrow> Some old
          | Some f \<Rightarrow> apply_partial_update (dump_device p) (valid_device p) old f) = Some d"
        "merge_spec p (get_instantiation_spec n (cf_reg c)) sd = Some sp"
        "?c' = c\<lparr>cf_store := save_device n d sp ''update''
                               (if changed_fields md sd = [] then None
                                else Some [(''changed_fields'', JList (changed_fields md sd))])
                               t (cf_store c),
                 cf_reg := snd (update_device d sp (cf_reg c))\<rparr>"
      by (auto simp: update_device_request_def split: if_splits option.splits)
    have old: "dev_name old = n" using assms(1) u(2) dev_name_get by (auto simp: cfg_ok_def)
    have name: "dev_name d = n"
    proof (cases md)
      case None
      then show ?thesis using u(3) old by simp
    next
      case (Some f)
      then show ?thesis using merged_name [OF assms(2) _ old, of f d] u(1,3) assms(3) by simp
    qed
    show ?thesis
      unfolding u(5) by (rule cfg_ok_save_update [OF assms(1) u(2) name]) (use u(4) spec_none_kept in blast)
  qed (use assms(1) in simp)
qed

lemma delete_ok:
  assumes "cfg_ok c"
  shows "cfg_ok (snd (delete_device_request db t n c))"
proof -
  have inv: "reg_inv (cf_reg c)" and ag: "stored (cf_store c) = entry_of (cf_reg c)"
    using assms by (auto simp: cfg_ok_def)
  have "stored (snd (delete_device n d t (cf_store c))) q = entry_of (snd (remove_device n (cf_reg c))) q" for d q
    using ag by (auto simp: stored_delete entry_of_def remove_device_reads [OF inv])
  then show ?thesis
    using assms remove_device_inv [OF inv, of n] remove_device_reads(3) [OF inv, of n]
    by (auto simp: delete_device_request_def cfg_ok_def wf_delete specs_owned_rules split: option.splits)
qed

lemma set_active_ok:
  assumes "cfg_ok c"
  shows "cfg_ok (snd (set_active b db t n c))"
proof -
  have inv: "reg_inv (cf_reg c)" using assms by (simp add: cfg_ok_def)
  show ?thesis
    using assms dev_name_get [OF inv]
    by (auto simp: set_active_def intro!: cfg_ok_save_update [OF assms] split: option.splits)
qed

lemma wiped_seed:
  assumes "wf_dict (devices r)"
  shows "\<exists>s'. clear_and_reseed r t t2 s = (True, s') \<and> wf_dict (st_rows s') \<and> st_seeded s' = Some t2 \<and>
    stored s' = entry_of r"
proof -
  let ?s1 = "(log_audit ''*'' ''reset'' t (Some (JDict [(''reason'', JStr ''manual_reset'')])) s)
                 \<lparr>st_rows := [], st_seeded := None\<rparr>"
  obtain s' where "seed_from_registry r t2 ?s1 = Some s'" "wf_dict (st_rows s')" "st_seeded s' = Some t2"
    "stored s' = entry_of r"
    using seed_from_total [of r ?s1 t2] assms by auto
  then show ?thesis by (simp add: clear_and_reseed_def Let_def)
qed

lemma replace_ok:
  assumes "cfg_ok c" "profile_ok r"
  shows "cfg_ok (snd (replace_registry r db True t t2 c))"
proof -
  have r: "reg_inv r" "standalone r = []" "wf_dict (devices r)"
    using assms(2) by (auto simp: profile_ok_def reg_inv_def)
  obtain s' where s': "clear_and_reseed r t t2 (cf_store c) = (True, s')" "wf_dict (st_rows s')"
      "stored s' = entry_of r"
    using wiped_seed [OF r(3)] by metis
  show ?thesis
    using assms apply_standalone [OF r(1) _ r(2), of "cf_pvs c"] s'
    by (auto simp: replace_registry_def cfg_ok_def Let_def specs_owned_rules profile_ok_def)
qed

lemma empty_profile: "profile_ok empty_registry"
  by (simp add: profile_ok_def empty_reg_inv)
    (simp add: empty_registry_def specs_owned_def get_instantiation_spec_def)

lemma add_pv_ok:
  assumes "cfg_ok c"
  shows "cfg_ok (snd (create_standalone db t n desc pr ac ls c))"
proof -
  have "entry_of (add_standalone_pv n (cf_reg c)) = entry_of (cf_reg c)"
    by (rule ext) (simp add: entry_of_def standalone_reads)
  then show ?thesis
    using assms
    by (auto simp: create_standalone_def cfg_ok_def ok_save add_standalone_inv standalone_reads dget_save_ex
        specs_owned_rules
        split: sum.splits)
qed

lemma edit_pv_ok:
  assumes "cfg_ok c"
  shows "cfg_ok (snd (update_standalone f db t n c))"
  using assms
  by (auto simp: update_standalone_def read_standalone_def write_standalone_def get_spv_def cfg_ok_def
      ok_save dget_save_ex split: option.splits)

lemma drop_pv_ok:
  assumes "cfg_ok c"
  shows "cfg_ok (snd (delete_standalone db n c))"
proof -
  have "entry_of (remove_standalone_pv n (cf_reg c)) = entry_of (cf_reg c)"
    by (rule ext) (simp add: entry_of_def standalone_reads)
  then show ?thesis
    using assms
    by (auto simp: delete_standalone_def cfg_ok_def ok_delete remove_standalone_inv standalone_reads
        dget_delete specs_owned_rules)
qed

lemma handle_ok:
  assumes "cfg_ok c" "names_kept p" "proper_request rq"
  shows "cfg_ok (snd (handle p al rq c))"
proof (cases rq)
  case (Reset r db t t2)
  then show ?thesis
    using assms replace_ok by (cases r) (auto simp: reset_registry_def)
next
  case (Lock db t ns i pl sv)
  then show ?thesis
    using assms(1)
    by (auto simp: lock_devices_def cfg_ok_locks cfg_ok_rows stored_lock_log split: prod.splits)
next
  case (Unlock db t ns i)
  then show ?thesis
    using assms(1)
    by (auto simp: unlock_devices_def cfg_ok_locks cfg_ok_rows stored_lock_log split: prod.splits)
next
  case (Force_req db t ns reason)
  then show ?thesis
    using assms(1)
    by (auto simp: force_unlock_devices_def cfg_ok_locks cfg_ok_rows stored_lock_log split: prod.splits)
qed (use assms in \<open>auto simp: create_ok update_ok delete_ok enable_device_def disable_device_def
      set_active_ok clear_registry_def replace_ok empty_profile add_pv_ok edit_pv_ok drop_pv_ok
      renew_device_locks_def set_lock_policy_def cfg_ok_locks split_beta\<close>)

lemma startup_ok:
  assumes "startup profile t lm empty_store pvs = Some c" "profile_ok profile" "spv_ok pvs"
  shows "cfg_ok c"
proof -
  have r: "reg_inv profile" "standalone profile = []" "wf_dict (devices profile)"
    using assms(2) by (auto simp: profile_ok_def reg_inv_def)
  obtain s' where s': "seed_from_registry profile t empty_store = Some s'" "wf_dict (st_rows s')"
      "stored s' = entry_of profile"
    using seed_from_total [OF r(3), of empty_store t] by (auto simp: empty_store_def)
  show ?thesis
    using assms s' apply_standalone [OF r(1) assms(3) r(2)]
    by (auto simp: startup_def is_seeded_def empty_store_def cfg_ok_def specs_owned_rules profile_ok_def)
qed

section \<open>Memory, database and restart\<close>

lemma restart_lemma:
  assumes "cfg_ok c" "is_seeded (cf_store c)"
  shows "\<exists>c'. startup profile now lm (cf_store c) (cf_pvs c) = Some c' \<and> cf_locks c' = lm \<and>
    entry_of (cf_reg c') = entry_of (cf_reg c) \<and>
    set (standalone (cf_reg c')) = set (standalone (cf_reg c)) \<and> reg_inv (cf_reg c')"
proof -
  have inv: "reg_inv (cf_reg c)" and ag: "stored (cf_store c) = entry_of (cf_reg c)"
    and wf: "wf_dict (st_rows (cf_store c))" and pv: "spv_ok (cf_pvs c)"
    and st: "set (standalone (cf_reg c)) = {n. dget (cf_pvs c) n \<noteq> None}"
    using assms(1) by (auto simp: cfg_ok_def)
  have names: "dev_name (rw_metadata row) = n" if "dget (st_rows (cf_store c)) n = Some row" for n row
  proof -
    have "stored (cf_store c) n = Some (rw_metadata row, rw_spec row)" using that by (simp add: stored_def)
    then have "get_device n (cf_reg c) = Some (rw_metadata row)" by (auto simp: ag entry_of_def)
    then show ?thesis by (rule dev_name_get [OF inv])
  qed
  note ld = loaded [OF wf names]
  note ap = apply_standalone [OF ld(1) pv ld(2)]
  show ?thesis using assms(2) ld(3) ap ag st by (simp add: startup_def)
qed

lemma seeded_kept:
  assumes "is_seeded (cf_store c)" "proper_request rq"
  shows "is_seeded (cf_store (snd (handle p al rq c)))"
proof -
  have sv: "st_seeded (save_device n m sp q d t s) = st_seeded s" for n m sp q d t s
    by (simp add: save_device_def log_audit_def)
  have dl: "st_seeded (snd (delete_device n d t s)) = st_seeded s" for n d t s
    by (simp add: delete_device_def log_audit_def)
  have lg: "st_seeded (log_lock_event ns q d t s) = st_seeded s" for ns q d t s
    by (induction ns arbitrary: s) (auto simp: log_lock_event_def log_audit_def)
  have rp: "is_seeded (cf_store (snd (replace_registry r db True t t2 c)))"
    if "profile_ok r" for r db t t2
  proof -
    have "wf_dict (devices r)" using that by (simp add: profile_ok_def reg_inv_def)
    then obtain s' where "clear_and_reseed r t t2 (cf_store c) = (True, s')" "st_seeded s' = Some t2"
      using wiped_seed by metis
    then show ?thesis using assms(1) by (simp add: replace_registry_def is_seeded_def Let_def)
  qed
  show ?thesis
  proof (cases rq)
    case (Reset r db t t2)
    then show ?thesis using assms rp by (cases r) (auto simp: reset_registry_def)
  next
    case (Clear_all db t t2)
    then show ?thesis using rp [OF empty_profile] by (simp add: clear_registry_def)
  next
    case (Update db t n md sd)
    then show ?thesis
      using assms(1) by (auto simp: update_device_request_def is_seeded_def sv split: option.splits)
  qed (use assms(1) in \<open>auto simp: is_seeded_def sv dl lg create_device_def Let_def
        delete_device_request_def enable_device_def disable_device_def set_active_def
        create_standalone_def update_standalone_def write_standalone_def delete_standalone_def
        lock_devices_def unlock_devices_def renew_device_locks_def force_unlock_devices_def
        set_lock_policy_def split: option.splits sum.splits prod.splits\<close>)
qed

lemma started_seeded:
  "startup profile t lm s pvs = Some c \<Longrightarrow> is_seeded (cf_store c)"
  by (auto simp: startup_def is_seeded_def seed_from_registry_def split: if_splits option.splits)

lemma requests_ok:
  assumes "cfg_ok c" "is_seeded (cf_store c)" "names_kept p" "list_all proper_request rqs"
  shows "cfg_ok (fold (\<lambda>rq c. snd (handle p al rq c)) rqs c) \<and>
    is_seeded (cf_store (fold (\<lambda>rq c. snd (handle p al rq c)) rqs c))"
  using assms
proof (induction rqs arbitrary: c)
  case (Cons rq rqs)
  then show ?case using handle_ok [OF _ Cons.prems(3)] seeded_kept by simp
qed simp

end
