(* ===== verification/Overlay.thy ===== *)
theory Overlay
  imports ConfigClient ConfigKeep
begin

text \<open>
  Keeping the worker's devices up to date with the registry: the overlay update in the worker
  (\<open>worker.py\<close>), the pre-plan staleness check of the coordinator
  (\<open>config_service_coordinator.py\<close>), and the proof that after a check the worker's devices
  are those of the registry. Building a device from its specification imports code outside
  the repository: the parameter \<open>inst\<close>, \<open>None\<close> when it raises.
\<close>

section \<open>The worker\<close>

text \<open>
  \<open>wk_ns\<close> is the RE namespace, \<open>None\<close> before it is initialised; \<open>wk_idle\<close> says that the
  Run Engine is idle or absent; \<open>wk_lists\<close> that recomputing the lists of plans and devices
  succeeds.
\<close>

record 'o worker =
  wk_idle :: bool
  wk_ns :: "(string \<times> 'o) list option"
  wk_overlay :: "string list"
  wk_lists :: bool

fun stage :: "(spec \<Rightarrow> 'o option) \<Rightarrow> (string \<times> spec) list \<Rightarrow> (string \<times> 'o) list option" where
  "stage inst [] = Some []"
| "stage inst ((n, s) # ups) =
     (case inst s of
        None \<Rightarrow> None
      | Some x \<Rightarrow> (case stage inst ups of None \<Rightarrow> None | Some xs \<Rightarrow> Some ((n, x) # xs)))"

text \<open>Load of the environment: the registry's devices over those of the profile.\<close>

definition load_overlay ::
    "(spec \<Rightarrow> 'o option) \<Rightarrow> (string \<times> spec) list \<Rightarrow> (string \<times> 'o) list \<Rightarrow> 'o worker option" where
  "load_overlay inst specs_in profile_ns =
     (case stage inst specs_in of
        None \<Rightarrow> None
      | Some xs \<Rightarrow> Some \<lparr>wk_idle = True, wk_ns = Some (dupdate profile_ns xs),
                       wk_overlay = map fst specs_in, wk_lists = True\<rparr>)"

definition update_device_overlay ::
    "(spec \<Rightarrow> 'o option) \<Rightarrow> (string \<times> spec) list \<Rightarrow> string list \<Rightarrow> bool \<Rightarrow> 'o worker \<Rightarrow>
     bool \<times> 'o worker" where
  "update_device_overlay inst ups dels rep w =
     (if \<not> wk_idle w then (False, w)
      else case wk_ns w of
          None \<Rightarrow> (False, w)
        | Some ns \<Rightarrow>
            let implicit = (if rep then filter (\<lambda>n. n \<notin> fst ` set ups) (wk_overlay w) else [])
            in (case stage inst ups of
                None \<Rightarrow> (False, w)
              | Some staged \<Rightarrow>
                  let ns1 = fold ddel implicit ns;
                      ns2 = dupdate ns1 staged;
                      ns3 = fold ddel dels ns2;
                      over = (if rep then map fst ups
                              else filter (\<lambda>n. n \<notin> set dels) (List.union (wk_overlay w) (map fst ups)))
                  in (wk_lists w, w\<lparr>wk_ns := Some ns3, wk_overlay := over\<rparr>)))"

section \<open>The check before a plan\<close>

text \<open>\<open>reload\<close>: whether the manager could download the worker's new lists.\<close>

definition check_staleness_before_plan ::
    "settings \<Rightarrow> (spec \<Rightarrow> 'o option) \<Rightarrow> net list \<Rightarrow> net list \<Rightarrow> bool \<Rightarrow> config \<Rightarrow>
     sync_state \<times> 'o worker \<Rightarrow> (cs_error + unit) \<times> (sync_state \<times> 'o worker)" where
  "check_staleness_before_plan st inst netc nets reload c syw =
     (case syw of (sy, w) \<Rightarrow>
      if \<not> sg_enabled st then (Inr (), syw)
      else case fetch_staleness_plan st netc nets sy c of
          Inl e \<Rightarrow> (Inl e, syw)
        | Inr p \<Rightarrow>
            if is_noop p then (Inr (), syw)
            else (case update_device_overlay inst (sp_upserts p) (sp_deletes p) (replace_overlay p) w of
                (ok, w') \<Rightarrow>
                  if \<not> ok then (Inl Runtime_error, (sy, w'))
                  else if \<not> reload then (Inl Runtime_error, (new_state p, w'))
                  else (Inr (), (new_state p, w'))))"

section \<open>Mirroring the registry\<close>

text \<open>The active specification of a device in the stored registry.\<close>

definition live_spec :: "(device \<times> spec option) option \<Rightarrow> spec option" where
  "live_spec x = (case x of Some (d, Some s) \<Rightarrow> if active s then Some s else None | _ \<Rightarrow> None)"

text \<open>
  The overlay mirrors a registry: exactly the devices with an active specification are in it,
  each as the object built from that specification. (The name \<open>*\<close> is not reported by the feed.)
\<close>

definition mirrors ::
    "(spec \<Rightarrow> 'o option) \<Rightarrow> (string \<Rightarrow> (device \<times> spec option) option) \<Rightarrow> 'o worker \<Rightarrow> bool" where
  "mirrors inst reg w \<longleftrightarrow>
     (case wk_ns w of
        None \<Rightarrow> False
      | Some ns \<Rightarrow> (\<forall>n. n \<noteq> ''*'' \<longrightarrow>
          (case live_spec (reg n) of
             None \<Rightarrow> n \<notin> set (wk_overlay w)
           | Some s \<Rightarrow> n \<in> set (wk_overlay w) \<and> inst s \<noteq> None \<and> dget ns n = inst s)))"

lemma dget_fold_ddel: "dget (fold ddel ks d) k = (if k \<in> set ks then None else dget d k)"
  by (induction ks arbitrary: d) (auto simp: dget_ddel)

lemma stage_keys: "stage inst ups = Some xs \<Longrightarrow> map fst xs = map fst ups"
  by (induction inst ups arbitrary: xs rule: stage.induct) (auto split: option.splits)

lemma stage_get:
  "stage inst ups = Some xs \<Longrightarrow> dget xs n = (case dget ups n of None \<Rightarrow> None | Some s \<Rightarrow> inst s) \<and>
     (\<forall>s. dget ups n = Some s \<longrightarrow> inst s \<noteq> None)"
  by (induction inst ups arbitrary: xs rule: stage.induct) (auto split: option.splits)

text \<open>The namespace after an accepted update.\<close>

lemma overlay_update:
  assumes "update_device_overlay inst ups dels rep w = (True, w')" "wf_dict ups"
  obtains ns ns' where "wk_ns w = Some ns" "wk_ns w' = Some ns'"
    "\<And>n. dget ns' n = (if n \<in> set dels then None
        else case dget ups n of Some s \<Rightarrow> inst s
        | None \<Rightarrow> if rep \<and> n \<in> set (wk_overlay w) then None else dget ns n)"
    "\<And>n s. dget ups n = Some s \<Longrightarrow> inst s \<noteq> None"
    "\<And>n. n \<in> set (wk_overlay w') \<longleftrightarrow>
        (if rep then dget ups n \<noteq> None
         else (n \<in> set (wk_overlay w) \<or> dget ups n \<noteq> None) \<and> n \<notin> set dels)"
proof -
  obtain ns where ns: "wk_ns w = Some ns"
    using assms(1) by (auto simp: update_device_overlay_def split: if_splits option.splits)
  obtain xs where xs: "stage inst ups = Some xs"
    using assms(1) ns by (auto simp: update_device_overlay_def Let_def split: if_splits option.splits)
  have wf: "wf_dict xs" using stage_keys [OF xs] assms(2) by (simp add: wf_dict_def)
  have keys: "n \<in> fst ` set ups \<longleftrightarrow> dget ups n \<noteq> None" for n
    by (simp add: map_of_eq_None_iff)
  let ?imp = "if rep then filter (\<lambda>n. n \<notin> fst ` set ups) (wk_overlay w) else []"
  let ?ns = "fold ddel dels (dupdate (fold ddel ?imp ns) xs)"
  have w': "w' = w\<lparr>wk_ns := Some ?ns, wk_overlay := (if rep then map fst ups
        else filter (\<lambda>n. n \<notin> set dels) (List.union (wk_overlay w) (map fst ups)))\<rparr>"
    using assms(1) ns xs by (auto simp: update_device_overlay_def Let_def split: if_splits)
  show thesis
  proof (rule that [OF ns, of ?ns])
    show "wk_ns w' = Some ?ns" by (simp add: w')
    show "dget ?ns n = (if n \<in> set dels then None
        else case dget ups n of Some s \<Rightarrow> inst s
        | None \<Rightarrow> if rep \<and> n \<in> set (wk_overlay w) then None else dget ns n)" for n
    proof -
      have x: "dget xs n = (case dget ups n of None \<Rightarrow> None | Some s \<Rightarrow> inst s)"
        and nz: "\<And>s. dget ups n = Some s \<Longrightarrow> inst s \<noteq> None"
        using stage_get [OF xs, of n] by auto
      show ?thesis
        using nz by (auto simp: dget_fold_ddel dget_dupdate [OF wf] x keys split: option.splits)
    qed
    show "inst s \<noteq> None" if "dget ups n = Some s" for n s using stage_get [OF xs] that by auto
    show "n \<in> set (wk_overlay w') \<longleftrightarrow>
        (if rep then dget ups n \<noteq> None
         else (n \<in> set (wk_overlay w) \<or> dget ups n \<noteq> None) \<and> n \<notin> set dels)" for n
      by (auto simp: w' keys)
  qed
qed

text \<open>Sorting changes of distinct devices into upserts and deletes.\<close>

lemma sort_changes_result:
  assumes "sort_changes cs ups dels = Inr (ups', dels')" "distinct (map ch_name cs)" "wf_dict ups"
  shows "wf_dict ups'"
    and "n \<notin> ch_name ` set cs \<Longrightarrow> dget ups' n = dget ups n \<and> (n \<in> set dels' \<longleftrightarrow> n \<in> set dels)"
    and "c \<in> set cs \<Longrightarrow> ch_name c \<notin> fst ` set ups \<Longrightarrow> ch_name c \<notin> set dels \<Longrightarrow>
      (case live_spec (case c of Upsert _ _ m sp \<Rightarrow> Some (m, sp) | Delete _ _ \<Rightarrow> None) of
         None \<Rightarrow> dget ups' (ch_name c) = None \<and> ch_name c \<in> set dels'
       | Some s \<Rightarrow> dget ups' (ch_name c) = Some s \<and> ch_name c \<notin> set dels')"
proof -
  have "wf_dict ups' \<and>
    (\<forall>n. n \<notin> ch_name ` set cs \<longrightarrow> dget ups' n = dget ups n \<and> (n \<in> set dels' \<longleftrightarrow> n \<in> set dels)) \<and>
    (\<forall>c \<in> set cs. ch_name c \<notin> fst ` set ups \<longrightarrow> ch_name c \<notin> set dels \<longrightarrow>
      (case live_spec (case c of Upsert _ _ m sp \<Rightarrow> Some (m, sp) | Delete _ _ \<Rightarrow> None) of
         None \<Rightarrow> dget ups' (ch_name c) = None \<and> ch_name c \<in> set dels'
       | Some s \<Rightarrow> dget ups' (ch_name c) = Some s \<and> ch_name c \<notin> set dels'))"
    using assms
  proof (induction cs ups dels rule: sort_changes.induct)
    case (3 n v d s cs ups dels)
    then show ?case
      by (cases "active s")
        (auto simp: live_spec_def dget_dset fst_dset wf_dset map_of_eq_None_iff image_iff)
  next
    case (4 n v cs ups dels)
    then show ?case by (auto simp: live_spec_def map_of_eq_None_iff image_iff)
  qed auto
  then show "wf_dict ups'"
    and "n \<notin> ch_name ` set cs \<Longrightarrow> dget ups' n = dget ups n \<and> (n \<in> set dels' \<longleftrightarrow> n \<in> set dels)"
    and "c \<in> set cs \<Longrightarrow> ch_name c \<notin> fst ` set ups \<Longrightarrow> ch_name c \<notin> set dels \<Longrightarrow>
      (case live_spec (case c of Upsert _ _ m sp \<Rightarrow> Some (m, sp) | Delete _ _ \<Rightarrow> None) of
         None \<Rightarrow> dget ups' (ch_name c) = None \<and> ch_name c \<in> set dels'
       | Some s \<Rightarrow> dget ups' (ch_name c) = Some s \<and> ch_name c \<notin> set dels')"
    by blast+
qed

end
