(* ===== verification/OverlayKeep.thy ===== *)
theory OverlayKeep
  imports Overlay
begin

text \<open>
  The worker's overlay tracks the registry: the invariant of the registry's server, the version
  cursor and the worker together, kept by every request to the service and by every staleness
  check, failed ones included.
\<close>

section \<open>Requests as writes of the store\<close>

lemma save_is_write:
  "p \<in> set write_ops \<Longrightarrow> \<exists>ws. list_all proper_op ws \<and> save_device n m sp p d t s = fold run_store ws s"
  by (intro exI [of _ "[Save n m sp p d t]"]) simp

lemma delete_is_write: "\<exists>ws. list_all proper_op ws \<and> snd (delete_device n d t s) = fold run_store ws s"
  by (intro exI [of _ "[Delete_dev n d t]"]) simp

lemma log_is_write:
  "p \<in> set lock_ops \<Longrightarrow> \<exists>ws. list_all proper_op ws \<and> log_lock_event ns p d t s = fold run_store ws s"
  by (intro exI [of _ "[Log_lock ns p d t]"]) simp

lemma no_write: "\<exists>ws. list_all proper_op ws \<and> s = fold run_store ws s"
  by (intro exI [of _ "[]"]) simp

lemma wipe_is_write:
  assumes "cf_store (snd (replace_registry r db True t t2 c)) = s'"
  shows "\<exists>ws. list_all proper_op ws \<and> s' = fold run_store ws (cf_store c)"
proof (cases db)
  case True
  then have "s' = fold run_store [Wipe r t t2] (cf_store c)"
    using assms by (auto simp: replace_registry_def Let_def split: prod.splits)
  then show ?thesis by (intro exI [of _ "[Wipe r t t2]"]) simp
next
  case False
  then show ?thesis using assms no_write by (auto simp: replace_registry_def)
qed

lemmas write_rules = save_is_write delete_is_write log_is_write no_write

lemma handle_writes:
  "\<exists>ws. list_all proper_op ws \<and> cf_store (snd (handle p al rq c)) = fold run_store ws (cf_store c)"
proof (cases rq)
  case (Reset r db t t2)
  then show ?thesis
    using wipe_is_write no_write by (cases r) (auto simp: reset_registry_def)
next
  case (Clear_all db t t2)
  then show ?thesis using wipe_is_write by (auto simp: clear_registry_def)
qed (auto simp: create_device_def update_device_request_def delete_device_request_def Let_def
      enable_device_def disable_device_def set_active_def create_standalone_def update_standalone_def
      write_standalone_def delete_standalone_def lock_devices_def unlock_devices_def
      renew_device_locks_def force_unlock_devices_def set_lock_policy_def write_ops_def lock_ops_def
      intro: write_rules split: option.splits sum.splits prod.splits)

lemma handle_store_ok:
  assumes "store_ok (cf_store c)"
  shows "store_ok (cf_store (snd (handle p al rq c))) \<and> evolved (cf_store c) (cf_store (snd (handle p al rq c)))"
  using handle_writes [of p al rq c] run_stores_ok [OF assms] by metis

section \<open>Lagging behind\<close>

text \<open>The overlay has the device, or lacks it, as this entry of the registry says.\<close>

definition shows_dev :: "(spec \<Rightarrow> 'o option) \<Rightarrow> 'o worker \<Rightarrow> string \<Rightarrow> (device \<times> spec option) option \<Rightarrow> bool" where
  "shows_dev inst w n x \<longleftrightarrow>
     (case wk_ns w of
        None \<Rightarrow> False
      | Some ns \<Rightarrow>
          (case live_spec x of
             None \<Rightarrow> n \<notin> set (wk_overlay w)
           | Some s \<Rightarrow> n \<in> set (wk_overlay w) \<and> inst s \<noteq> None \<and> dget ns n = inst s))"

lemma mirrors_iff: "mirrors inst reg w \<longleftrightarrow> wk_ns w \<noteq> None \<and> (\<forall>n. n \<noteq> ''*'' \<longrightarrow> shows_dev inst w n (reg n))"
  by (auto simp: mirrors_def shows_dev_def split: option.splits)

definition reset_since :: "reg_store \<Rightarrow> reg_store \<Rightarrow> bool" where
  "reset_since s0 s \<longleftrightarrow> (\<exists>e \<in> set (st_audit s). version s0 < al_id e \<and> al_op e = ''reset'')"

definition changed_since :: "reg_store \<Rightarrow> reg_store \<Rightarrow> string \<Rightarrow> bool" where
  "changed_since s0 s n \<longleftrightarrow> (\<exists>e. candidate (version s0) s n e)"

definition tracks :: "(spec \<Rightarrow> 'o option) \<Rightarrow> sync_state \<Rightarrow> 'o worker \<Rightarrow> reg_store \<Rightarrow> bool" where
  "tracks inst sy w s \<longleftrightarrow> wk_ns w \<noteq> None \<and>
     (sy_epoch sy = None \<or>
      (\<exists>s0. store_ok s0 \<and> evolved s0 s \<and> sy_cursor sy = version s0 \<and>
         (reset_since s0 s \<or>
          (\<forall>n. n \<noteq> ''*'' \<longrightarrow> changed_since s0 s n \<or> shows_dev inst w n (stored s0 n)))))"

lemma evolved_audit: "evolved s s' \<Longrightarrow> set (st_audit s) \<subseteq> set (st_audit s')"
  by (auto simp: evolved_def)

lemma tracks_later:
  assumes "tracks inst sy w s" "evolved s s'"
  shows "tracks inst sy w s'"
proof -
  have "reset_since s0 s \<Longrightarrow> reset_since s0 s'" "changed_since s0 s n \<Longrightarrow> changed_since s0 s' n" for s0 n
    using evolved_audit [OF assms(2)] by (auto simp: reset_since_def changed_since_def candidate_def)
  then show ?thesis using assms evolved_trans unfolding tracks_def by meson
qed

lemma tracks_mirror:
  assumes "mirrors inst (stored s) w" "store_ok s"
  shows "tracks inst \<lparr>sy_cursor = version s, sy_epoch = e\<rparr> w s"
  using assms evolved_refl [of s] by (auto simp: tracks_def mirrors_iff)

text \<open>What changed since the cursor is in the feed; the rest is as it was.\<close>

lemma unchanged_stored:
  assumes "store_ok s0" "evolved s0 s" "\<not> reset_since s0 s" "n \<noteq> ''*''" "\<not> changed_since s0 s n"
  shows "stored s n = stored s0 n"
proof -
  obtain new where new: "st_audit s = st_audit s0 @ new" "\<forall>e \<in> set new. st_next s0 \<le> al_id e"
      "(\<exists>e \<in> set new. al_op e = ''reset'') \<or>
         (\<forall>n. stored s n \<noteq> stored s0 n \<longrightarrow> (\<exists>e \<in> set new. feed_entry e n))"
    using assms(2) by (auto simp: evolved_def)
  have later: "version s0 < al_id e" if "e \<in> set new" for e
    using that new(2) version_old [OF assms(1)] by fastforce
  show ?thesis
    using assms(3-5) new later unfolding reset_since_def changed_since_def candidate_def
    by (metis Un_iff set_append)
qed

lemma no_reset_reported:
  assumes "store_ok s0" "evolved s0 s" "\<not> reset_occurred (get_changes_since (version s0) s)"
  shows "\<not> reset_since s0 s"
proof
  assume "reset_since s0 s"
  then obtain e where e: "e \<in> set (st_audit s)" "version s0 < al_id e" "al_op e = ''reset''"
    by (auto simp: reset_since_def)
  then have "version s0 < max_id (st_audit s)" using max_id_ge [OF e(1)] by simp
  then show False using e assms(3) by (auto simp: get_changes_since_def Let_def list_ex_iff)
qed

lemma changed_version:
  assumes "changed_since s0 s n"
  shows "version s0 < version s"
  using assms max_id_ge [of _ "st_audit s"] by (fastforce simp: changed_since_def candidate_def version_def)

section \<open>The incremental update\<close>

lemma feed_of_device:
  assumes ok: "store_ok s" and ch: "changed_since s0 s n"
  obtains c where "c \<in> set (changes (get_changes_since (version s0) s))" "ch_name c = n"
    "(case c of Upsert _ _ m sp \<Rightarrow> Some (m, sp) | Delete _ _ \<Rightarrow> None) = stored s n"
proof -
  obtain e where "candidate (version s0) s n e" using ch by (auto simp: changed_since_def)
  from changes_of_range(2) [OF ok changed_version [OF ch] this]
  obtain a where "is_last s n a" "al_device a = n"
      "change_of s a \<in> set (changes (get_changes_since (version s0) s))" by blast
  then show thesis using that change_current [OF ok] by simp
qed

lemma feed_silent:
  assumes ok: "store_ok s" and ch: "\<not> changed_since s0 s n"
  shows "n \<notin> ch_name ` set (changes (get_changes_since (version s0) s))"
proof (cases "version s0 < version s")
  case True
  then show ?thesis using changes_of_range(3) [OF ok True] ch by (simp add: changed_since_def)
next
  case False
  then show ?thesis by (simp add: get_changes_since_def version_def Let_def)
qed

lemma feed_distinct:
  assumes "store_ok s"
  shows "distinct (map ch_name (changes (get_changes_since v s)))"
proof (cases "v < version s")
  case True
  then show ?thesis by (rule changes_of_range(1) [OF assms])
next
  case False
  then show ?thesis by (simp add: get_changes_since_def version_def Let_def)
qed

text \<open>The sorted changes say, for every device, what the current registry says of it.\<close>

lemma sorted_changes:
  assumes "store_ok s" "sort_changes (changes (get_changes_since (version s0) s)) [] [] = Inr (ups, dels)"
  shows "wf_dict ups"
    and "changed_since s0 s n \<Longrightarrow>
      (case live_spec (stored s n) of
         None \<Rightarrow> dget ups n = None \<and> n \<in> set dels
       | Some sp \<Rightarrow> dget ups n = Some sp \<and> n \<notin> set dels)"
    and "\<not> changed_since s0 s n \<Longrightarrow> dget ups n = None \<and> n \<notin> set dels"
proof -
  have wf: "wf_dict []" by (simp add: wf_dict_def)
  note r = sort_changes_result [OF assms(2) feed_distinct [OF assms(1)] wf]
  show "wf_dict ups" by (rule r(1))
  show "\<not> changed_since s0 s n \<Longrightarrow> dget ups n = None \<and> n \<notin> set dels"
    using r(2) feed_silent [OF assms(1)] by simp
  assume "changed_since s0 s n"
  then obtain c where c: "c \<in> set (changes (get_changes_since (version s0) s))" "ch_name c = n"
    "(case c of Upsert _ _ m sp \<Rightarrow> Some (m, sp) | Delete _ _ \<Rightarrow> None) = stored s n"
    by (rule feed_of_device [OF assms(1)])
  have "case live_spec (case c of Upsert _ _ m sp \<Rightarrow> Some (m, sp) | Delete _ _ \<Rightarrow> None) of
         None \<Rightarrow> dget ups (ch_name c) = None \<and> ch_name c \<in> set dels
       | Some s \<Rightarrow> dget ups (ch_name c) = Some s \<and> ch_name c \<notin> set dels"
    by (rule r(3) [OF c(1)]) simp_all
  then show "case live_spec (stored s n) of
         None \<Rightarrow> dget ups n = None \<and> n \<in> set dels
       | Some sp \<Rightarrow> dget ups n = Some sp \<and> n \<notin> set dels"
    unfolding c(2,3) .
qed

lemma incremental_update:
  assumes ok: "store_ok s0" "evolved s0 s" "store_ok s" and nr: "\<not> reset_since s0 s"
    and lag: "\<forall>n. n \<noteq> ''*'' \<longrightarrow> changed_since s0 s n \<or> shows_dev inst w n (stored s0 n)"
    and sc: "sort_changes (changes (get_changes_since (version s0) s)) [] [] = Inr (ups, dels)"
    and up: "update_device_overlay inst ups dels False w = (True, w')"
  shows "mirrors inst (stored s) w'"
proof -
  note r = sorted_changes [OF ok(3) sc]
  obtain ns ns' where n: "wk_ns w = Some ns" "wk_ns w' = Some ns'"
    "\<And>n. dget ns' n = (if n \<in> set dels then None
        else case dget ups n of Some s \<Rightarrow> inst s | None \<Rightarrow> if False \<and> n \<in> set (wk_overlay w) then None else dget ns n)"
    "\<And>n s. dget ups n = Some s \<Longrightarrow> inst s \<noteq> None"
    "\<And>n. n \<in> set (wk_overlay w') \<longleftrightarrow> (if False then dget ups n \<noteq> None
         else (n \<in> set (wk_overlay w) \<or> dget ups n \<noteq> None) \<and> n \<notin> set dels)"
    by (rule overlay_update [OF up r(1)]) blast
  have "shows_dev inst w' q (stored s q)" if q: "q \<noteq> ''*''" for q
  proof (cases "changed_since s0 s q")
    case True
    then show ?thesis
      using r(2) [OF True] n(2-5) by (auto simp: shows_dev_def split: option.splits)
  next
    case False
    have "stored s q = stored s0 q" by (rule unchanged_stored [OF ok(1,2) nr q False])
    moreover have "shows_dev inst w q (stored s0 q)" using lag q False by blast
    ultimately show ?thesis
      using r(3) [OF False] n by (simp add: shows_dev_def split: option.splits)
  qed
  then show ?thesis using n(2) by (simp add: mirrors_iff)
qed

section \<open>The full replacement\<close>

lemma dget_filter:
  "wf_dict d \<Longrightarrow> dget (filter (\<lambda>ns. P (snd ns)) d) n =
     (case dget d n of Some x \<Rightarrow> if P x then Some x else None | None \<Rightarrow> None)"
  by (induction d) (auto simp: wf_dict_def map_of_eq_None_iff split: option.splits if_splits)

lemma active_specs:
  assumes "reg_inv r" "specs_owned r"
  shows "wf_dict (list_instantiation_specs True r)"
    and "dget (list_instantiation_specs True r) n = live_spec (entry_of r n)"
proof -
  have wf: "wf_dict (specs r)" using assms(1) by (simp add: reg_inv_def)
  then show "wf_dict (list_instantiation_specs True r)"
    by (simp add: list_instantiation_specs_def wf_dict_def distinct_map_filter)
  show "dget (list_instantiation_specs True r) n = live_spec (entry_of r n)"
    using assms(2)
    by (auto simp: list_instantiation_specs_def dget_filter [OF wf, of active] live_spec_def entry_of_def
        get_instantiation_spec_def specs_owned_def split: option.splits)
qed

lemma full_update:
  assumes "reg_inv r" "specs_owned r"
    and up: "update_device_overlay inst (list_instantiation_specs True r) [] True w = (True, w')"
  shows "mirrors inst (entry_of r) w'"
proof -
  note a = active_specs [OF assms(1,2)]
  let ?ups = "list_instantiation_specs True r"
  obtain ns ns' where n: "wk_ns w = Some ns" "wk_ns w' = Some ns'"
    "\<And>n. dget ns' n = (if n \<in> set [] then None
        else case dget ?ups n of Some s \<Rightarrow> inst s | None \<Rightarrow> if True \<and> n \<in> set (wk_overlay w) then None else dget ns n)"
    "\<And>n s. dget ?ups n = Some s \<Longrightarrow> inst s \<noteq> None"
    "\<And>n. n \<in> set (wk_overlay w') \<longleftrightarrow> (if True then dget ?ups n \<noteq> None
         else (n \<in> set (wk_overlay w) \<or> dget ?ups n \<noteq> None) \<and> n \<notin> set [])"
    by (rule overlay_update [OF up a(1)]) blast
  then show ?thesis using a(2) by (auto simp: mirrors_iff shows_dev_def split: option.splits)
qed

end
