(* ===== verification/ConfigProps.thy ===== *)
theory ConfigProps
  imports ConfigKeep LockProps
begin

text \<open>
  What the configuration service promises: memory and database agree after every request, a
  restart brings back the same registry, refused requests change nothing, locked devices are
  neither updated nor deleted; and four places where the code falls short of its comments.
\<close>

section \<open>Memory, database and restart\<close>



section \<open>Refused requests\<close>

text \<open>
  While a device is locked, no update and no deletion of it goes through: both answer with
  an error and change neither the registry, nor the database, nor the locks.
\<close>

theorem locked_device_protected:
  assumes "is_device_locked name now (cf_locks c)"
  shows "fst (update_device_request p al db now name md sd c) \<in> {400, 404, 409, 422} \<and>
    snd (update_device_request p al db now name md sd c) = c \<and>
    fst (delete_device_request db now name c) \<in> {404, 409} \<and>
    snd (delete_device_request db now name c) = c"
  using assms
  by (auto simp: update_device_request_def delete_device_request_def split: option.splits)

fun lock_request :: "request \<Rightarrow> bool" where
  "lock_request (Lock db t ns i pl sv) = True"
| "lock_request (Unlock db t ns i) = True"
| "lock_request (Force_req db t ns reason) = True"
| "lock_request _ = False"

lemma lock_refused:
  "\<not> lr_success (fst (acquire_locks ns i pl sv r t m)) \<Longrightarrow> snd (acquire_locks ns i pl sv r t m) = m"
  by (auto simp: acquire_locks_def Let_def)

lemma config_same: "c\<lparr>cf_locks := cf_locks c\<rparr> = c"
  by simp


section \<open>Where the code falls short\<close>

text \<open>
  A lock request whose audit entry is refused answers 500, yet the locks it took stay: the
  caller, who sees a failure and holds no lock id, is not told that its devices are locked.
\<close>

theorem lock_kept_when_log_refused:
  assumes "list_all (lockable (cf_locks c) (cf_reg c) now) names" and "n \<in> set names"
  shows "case lock_devices False now names item plan service c of ((code, res), c') \<Rightarrow>
     code = 500 \<and> is_device_locked n now (cf_locks c') \<and>
     (\<exists>l. get_device_lock n now (cf_locks c') = Some l \<and> lk_item l = item)"
proof -
  have "concat (map (check_device (cf_locks c) (cf_reg c) now) names) = []"
    using assms(1) by (simp add: lockable_iff list_all_iff)
  then have ok: "lr_success (fst (acquire_locks names item plan service (cf_reg c) now (cf_locks c)))"
    by (simp add: acquire_locks_def Let_def)
  have "lm_ttl (cf_locks c) \<le> 0 \<or> now < now + lm_ttl (cf_locks c)" by auto
  with granted_holds [OF ok assms(2)] holds_active
  have "\<exists>l. active_lock (snd (acquire_locks names item plan service (cf_reg c) now (cf_locks c))) n now = Some l
      \<and> lk_item l = item" by metis
  then show ?thesis
    using ok by (auto simp: lock_devices_def split_beta is_device_locked_def get_device_lock_def)
qed

text \<open>
  Clearing the registry does not make the next restart re-seed it from the profile, as the
  endpoint's description says: the cleared database counts as seeded, so the service comes up
  without any device, whatever the profile holds.
\<close>

theorem cleared_registry_stays_empty:
  "case clear_registry True True t t2 c of (code, c') \<Rightarrow>
     code = 200 \<and>
     (\<exists>c2. startup profile now lm (cf_store c') (cf_pvs c') = Some c2 \<and>
        (\<forall>n. get_device n (cf_reg c2) = None))"
proof -
  have seed: "seed_from_registry empty_registry t2 s = Some (s\<lparr>st_seeded := Some t2\<rparr>)" for s
    by (simp add: seed_from_registry_def empty_registry_def)
  let ?r = "\<lambda>pvs s. apply_standalone_pvs pvs (load_all_devices s)"
  have none: "get_device n (?r pvs s) = None" if "st_rows s = []" for n pvs s
  proof -
    have "entry_of (?r pvs s) = entry_of empty_registry"
      using apply_standalone_fold [OF empty_reg_inv, of "get_all_pvs [] pvs"] that
      by (simp add: apply_standalone_pvs_def load_all_devices_def)
    then have "entry_of (?r pvs s) n = None" by (simp add: entry_of_def empty_registry_def get_device_def)
    then show ?thesis by (simp add: entry_of_def)
  qed
  show ?thesis
    by (simp add: clear_registry_def replace_registry_def clear_and_reseed_def seed Let_def startup_def
        is_seeded_def none)
qed

text \<open>
  A reset is not atomic. When the database accepts the wipe but refuses the new seed, the
  request fails and the registry in memory keeps its devices, while the database is left empty
  and unseeded.
\<close>

theorem interrupted_reset_loses_rows:
  "case reset_registry (Some r) True False t t2 c of (code, c') \<Rightarrow>
     code = 500 \<and> cf_reg c' = cf_reg c \<and> (\<forall>n. stored (cf_store c') n = None) \<and>
     \<not> is_seeded (cf_store c')"
  by (simp add: reset_registry_def replace_registry_def Let_def stored_def is_seeded_def)

text \<open>
  An update of a standalone PV can bring back a deleted one: when the deletion runs between
  the update's reading of the row and its writing, the row is in the database again after both
  requests succeeded, although the PV is gone from the registry in memory.
\<close>

theorem standalone_update_resurrects:
  assumes "read_standalone name c = Some row"
  shows "case delete_standalone True name c of (code1, c1) \<Rightarrow>
     case write_standalone True now name (merge row) c1 of (code2, c2) \<Rightarrow>
       code1 = 200 \<and> code2 = 200 \<and> get_spv name (cf_pvs c2) \<noteq> None \<and>
       name \<notin> set (standalone (cf_reg c2))"
  using assms
  by (simp add: delete_standalone_def write_standalone_def read_standalone_def standalone_reads
      get_spv_def dget_save_ex)

section \<open>Instances\<close>

text \<open>A concrete stand-in for pydantic that keeps only the name of a model.\<close>

definition demo_models :: models where
  "demo_models =
     \<lparr>dump_device = (\<lambda>d. [(''name'', JStr (dev_name d))]),
      valid_device = (\<lambda>f. case dget f ''name'' of Some (JStr n) \<Rightarrow> Some (demo_device n []) | _ \<Rightarrow> None),
      dump_spec = (\<lambda>s. [(''name'', JStr (spec_name s))]),
      valid_spec = (\<lambda>f. case dget f ''name'' of Some (JStr n) \<Rightarrow> Some (demo_spec n True) | _ \<Rightarrow> None)\<rparr>"

lemma demo_models_ok: "names_kept demo_models"
  by (auto simp: names_kept_def demo_models_def demo_device_def split: option.splits json.splits)

lemma empty_profile_ok: "profile_ok empty_registry"
  by (rule empty_profile)

definition demo_start :: config where
  "demo_start = the (startup empty_registry 0 demo_locks empty_store [])"

lemma demo_start_eq: "startup empty_registry 0 demo_locks empty_store [] = Some demo_start"
  by (simp add: demo_start_def startup_def is_seeded_def empty_store_def seed_from_registry_def
      empty_registry_def)

definition demo_requests :: "request list" where
  "demo_requests =
     [Create True 1 (demo_device ''m1'' [(''val'', ''X.VAL'')]) (demo_spec ''m1'' True),
      Add_pv True 2 ''S.PV'' None CA Read_only [],
      Disable False 3 ''m1'',
      Update True 4 ''m1'' (Some [(''labels'', JList [])]) None,
      Lock True 5 [''m1''] ''a'' ''scan'' ''qs'']"

lemma demo_requests_proper: "list_all proper_request demo_requests"
  by (simp add: demo_requests_def wf_dict_def)



text \<open>A service over the demo registry whose device \<open>m1\<close> is locked.\<close>

definition demo_locked :: config where
  "demo_locked = \<lparr>cf_reg = demo_registry, cf_store = empty_store, cf_pvs = [], cf_locks = demo_held\<rparr>"

lemma demo_locked_m1: "is_device_locked ''m1'' 9 (cf_locks demo_locked)"
  using demo_held_lock by (simp add: demo_locked_def is_device_locked_def get_device_lock_def)

theorem locked_device_protected_instance:
  "snd (delete_device_request True 9 ''m1'' demo_locked) = demo_locked"
  using locked_device_protected [OF demo_locked_m1] by blast


theorem lock_kept_when_log_refused_instance:
  "case lock_devices False 0 [''m1''] ''a'' ''scan'' ''qs'' (demo_locked\<lparr>cf_locks := demo_locks\<rparr>) of
     ((code, res), c') \<Rightarrow> code = 500 \<and> is_device_locked ''m1'' 0 (cf_locks c')"
proof -
  have "list_all (lockable (cf_locks (demo_locked\<lparr>cf_locks := demo_locks\<rparr>))
      (cf_reg (demo_locked\<lparr>cf_locks := demo_locks\<rparr>)) 0) [''m1'']"
    by (simp add: lockable_def demo_locked_def demo_registry_eval demo_spec_def is_device_locked_def
        active_lock_def demo_locks_def new_lock_mgr_def)
  from lock_kept_when_log_refused [OF this, of "''m1''" "''a''" "''scan''" "''qs''"]
  show ?thesis by (auto split: prod.splits)
qed

theorem standalone_update_resurrects_instance:
  "\<exists>row. read_standalone ''S.PV'' (snd (create_standalone True 1 ''S.PV'' None CA Read_only [] demo_start)) = Some row \<and>
     get_spv ''S.PV'' (cf_pvs (snd (write_standalone True 3 ''S.PV'' row
       (snd (delete_standalone True ''S.PV''
         (snd (create_standalone True 1 ''S.PV'' None CA Read_only [] demo_start))))))) \<noteq> None"
proof -
  let ?c = "snd (create_standalone True 1 ''S.PV'' None CA Read_only [] demo_start)"
  have "\<exists>row. read_standalone ''S.PV'' ?c = Some row"
    by (simp add: create_standalone_def read_standalone_def get_spv_def demo_start_def startup_def
        is_seeded_def empty_store_def seed_from_registry_def empty_registry_def validate_pv_value_def
        printable_ascii_def apply_standalone_pvs_def get_all_pvs_def get_pv_def save_pv_def)
  then obtain row where row: "read_standalone ''S.PV'' ?c = Some row" by blast
  from standalone_update_resurrects [OF row, of 3 id] row show ?thesis
    by (auto split: prod.splits)
qed

end
