(* ===== verification/OverlayRun.thy ===== *)
theory OverlayRun
  imports OverlayKeep ConfigProps
begin

text \<open>
  After a successful staleness check the worker's devices are the active devices of the
  registry, whatever requests the service handled and whatever checks failed since the
  environment was opened; and the synchronisation that breaks this promise.
\<close>

section \<open>One check\<close>

lemma attempts_pure:
  "(\<And>t. snd (oper t) = t) \<Longrightarrow> fst (attempts_loop ns oper s) = Inr x \<Longrightarrow>
   \<exists>code. fst (oper s) = (code, x)"
  by (induction ns oper s rule: attempts_loop.induct)
    (auto simp: classify_def split: prod.splits if_splits)

lemma query_value: "query st net f s = Inr x \<Longrightarrow> x = f s"
  using attempts_pure [of "\<lambda>s. ((200, f s), s)" "take (nat (sg_attempts st)) net" s x]
  by (auto simp: query_def request_def)

lemma rejected_update:
  assumes "update_device_overlay inst ups dels rep w = (False, w')"
  shows "w' = w \<or> update_device_overlay inst ups dels rep (w\<lparr>wk_lists := True\<rparr>) = (True, w'\<lparr>wk_lists := True\<rparr>)"
  using assms
  by (auto simp: update_device_overlay_def Let_def split: if_splits option.splits)

lemma shows_cong:
  "wk_ns w' = wk_ns w \<Longrightarrow> wk_overlay w' = wk_overlay w \<Longrightarrow> shows_dev inst w' = shows_dev inst w"
  by (intro ext) (simp only: shows_dev_def)

lemma shows_lists [simp]: "shows_dev inst (w\<lparr>wk_lists := b\<rparr>) = shows_dev inst w"
  by (rule shows_cong) simp_all

lemma mirrors_lists [simp]: "mirrors inst reg (w\<lparr>wk_lists := b\<rparr>) = mirrors inst reg w"
  by (simp add: mirrors_iff)

lemma tracks_after_mirror:
  assumes "mirrors inst (stored s) w'" "tracks inst sy w s" "store_ok s"
  shows "tracks inst sy w' s"
proof -
  have m: "wk_ns w' \<noteq> None" "\<And>n. n \<noteq> ''*'' \<Longrightarrow> shows_dev inst w' n (stored s n)"
    using assms(1) by (auto simp: mirrors_iff)
  have "changed_since s0 s n \<or> shows_dev inst w' n (stored s0 n)"
    if "store_ok s0" "evolved s0 s" "\<not> reset_since s0 s" "n \<noteq> ''*''" for s0 n
    using unchanged_stored [OF that(1-3), of n] m(2) [of n] that(4) by metis
  then show ?thesis using assms(2) m(1) unfolding tracks_def by blast
qed

text \<open>What an update planned at the service's current state does to the worker.\<close>

lemma planned_update:
  assumes ok: "cfg_ok c" "store_ok (cf_store c)" and tr: "tracks inst sy w (cf_store c)"
    and pl: "fetch_staleness_plan st netc nets sy c = Inr p"
    and up: "update_device_overlay inst (sp_upserts p) (sp_deletes p) (replace_overlay p) w = (True, w')"
  shows "mirrors inst (stored (cf_store c)) w'"
proof -
  let ?s = "cf_store c"
  have ag: "stored ?s = entry_of (cf_reg c)" "reg_inv (cf_reg c)" "specs_owned (cf_reg c)"
    using ok(1) by (auto simp: cfg_ok_def)
  obtain r p0 where r: "query st netc (get_changes (sy_cursor sy)) c = Inr r"
      "build_staleness_plan r (sy_epoch sy) = Inr p0"
    using pl by (auto simp: fetch_staleness_plan_def split: sum.splits)
  have rv: "r = get_changes_since (sy_cursor sy) ?s" using query_value [OF r(1)] by (simp add: get_changes_def)
  show ?thesis
  proof (cases "replace_overlay p0")
    case True
    then obtain ss where "query st nets (get_specs True) c = Inr ss" "p = p0\<lparr>sp_upserts := ss\<rparr>"
      using pl r by (auto simp: fetch_staleness_plan_def split: sum.splits)
    moreover have "sp_deletes p0 = []"
      using r(2) True by (auto simp: build_staleness_plan_def Let_def split: if_splits sum.splits)
    ultimately have "update_device_overlay inst (list_instantiation_specs True (cf_reg c)) [] True w = (True, w')"
      using up True query_value by (fastforce simp: get_specs_def)
    then show ?thesis using full_update [OF ag(2,3)] ag(1) by simp
  next
    case False
    then have p: "p = p0" using pl r by (auto simp: fetch_staleness_plan_def split: sum.splits)
    have nr: "\<not> reset_occurred r" "sy_epoch sy = Some (service_epoch r)"
      and sc: "sort_changes (changes r) [] [] = Inr (sp_upserts p, sp_deletes p)"
      using r(2) False p by (auto simp: build_staleness_plan_def Let_def split: if_splits sum.splits)
    then obtain s0 where s0: "store_ok s0" "evolved s0 ?s" "sy_cursor sy = version s0"
        "reset_since s0 ?s \<or> (\<forall>n. n \<noteq> ''*'' \<longrightarrow> changed_since s0 ?s n \<or> shows_dev inst w n (stored s0 n))"
      using tr by (auto simp: tracks_def)
    have quiet: "\<not> reset_since s0 ?s"
      using no_reset_reported [OF s0(1,2)] nr(1) rv s0(3) by simp
    show ?thesis
      using incremental_update [OF s0(1,2) ok(2) quiet, of inst w "sp_upserts p" "sp_deletes p" w']
        s0(3,4) quiet sc rv up False p by auto
  qed
qed

lemma planned_state:
  assumes "fetch_staleness_plan st netc nets sy c = Inr p"
  shows "new_state p = \<lparr>sy_cursor = version (cf_store c), sy_epoch = Some (st_seeded (cf_store c))\<rparr>"
proof -
  obtain r p0 where r: "query st netc (get_changes (sy_cursor sy)) c = Inr r"
      "build_staleness_plan r (sy_epoch sy) = Inr p0"
    using assms by (auto simp: fetch_staleness_plan_def split: sum.splits)
  then have "new_state p = new_state p0"
    using assms by (auto simp: fetch_staleness_plan_def split: sum.splits if_splits)
  moreover have "new_state p0 = \<lparr>sy_cursor = current_version r, sy_epoch = Some (service_epoch r)\<rparr>"
    using r(2) by (auto simp: build_staleness_plan_def Let_def split: if_splits sum.splits)
  moreover have "service_epoch (get_changes_since v s) = st_seeded s" for v s
    by (simp add: get_changes_since_def Let_def)
  ultimately show ?thesis
    using query_value [OF r(1)] by (simp add: get_changes_def feed_version)
qed

text \<open>An empty plan means that nothing had changed.\<close>

lemma noop_mirrors:
  assumes ok: "store_ok (cf_store c)" and tr: "tracks inst sy w (cf_store c)"
    and pl: "fetch_staleness_plan st netc nets sy c = Inr p" "is_noop p"
  shows "mirrors inst (stored (cf_store c)) w"
proof -
  let ?s = "cf_store c"
  obtain r where r: "query st netc (get_changes (sy_cursor sy)) c = Inr r"
      "build_staleness_plan r (sy_epoch sy) = Inr p"
    using pl by (auto simp: fetch_staleness_plan_def is_noop_def split: sum.splits if_splits)
  have rv: "r = get_changes_since (sy_cursor sy) ?s" using query_value [OF r(1)] by (simp add: get_changes_def)
  have nr: "\<not> reset_occurred r" "sy_epoch sy = Some (service_epoch r)" and sc: "sort_changes (changes r) [] [] = Inr ([], [])"
    using r(2) pl(2) by (auto simp: build_staleness_plan_def is_noop_def Let_def split: if_splits sum.splits)
  then obtain s0 where s0: "store_ok s0" "evolved s0 ?s" "sy_cursor sy = version s0"
      "reset_since s0 ?s \<or> (\<forall>n. n \<noteq> ''*'' \<longrightarrow> changed_since s0 ?s n \<or> shows_dev inst w n (stored s0 n))"
    using tr by (auto simp: tracks_def)
  have quiet: "\<not> reset_since s0 ?s"
    using no_reset_reported [OF s0(1,2)] nr(1) rv s0(3) by simp
  have unchanged: "\<not> changed_since s0 ?s n" for n
    using sorted_changes(2) [OF ok, of s0 "[]" "[]" n] sc rv s0(3) by (auto split: option.splits)
  have "shows_dev inst w n (stored ?s n)" if "n \<noteq> ''*''" for n
    using unchanged_stored [OF s0(1,2) quiet that unchanged] s0(4) quiet unchanged that by auto
  moreover have "wk_ns w \<noteq> None" using tr by (simp add: tracks_def)
  ultimately show ?thesis by (simp add: mirrors_iff)
qed

lemma check_step:
  assumes ok: "cfg_ok c" "store_ok (cf_store c)" and tr: "tracks inst sy w (cf_store c)"
    and ch: "check_staleness_before_plan st inst netc nets reload c (sy, w) = (r, (sy', w'))"
    and en: "sg_enabled st"
  shows "tracks inst sy' w' (cf_store c) \<and> (r = Inr () \<longrightarrow> mirrors inst (stored (cf_store c)) w')"
proof (cases "fetch_staleness_plan st netc nets sy c")
  case (Inl e)
  then show ?thesis using tr ch en by (auto simp: check_staleness_before_plan_def)
next
  case (Inr p)
  show ?thesis
  proof (cases "is_noop p")
    case True
    then show ?thesis using Inr tr ch en noop_mirrors [OF ok(2) tr Inr True]
      by (auto simp: check_staleness_before_plan_def)
  next
    case False
    obtain b w1 where up: "update_device_overlay inst (sp_upserts p) (sp_deletes p) (replace_overlay p) w = (b, w1)"
      by (cases "update_device_overlay inst (sp_upserts p) (sp_deletes p) (replace_overlay p) w")
    show ?thesis
    proof (cases b)
      case True
      have m: "mirrors inst (stored (cf_store c)) w1"
        using planned_update [OF ok tr Inr] up True by simp
      have "sy' = new_state p \<and> w' = w1"
        using ch en Inr False up True by (auto simp: check_staleness_before_plan_def split: if_splits)
      then show ?thesis
        using m tracks_mirror [OF m ok(2)] planned_state [OF Inr] by auto
    next
      case b: False
      have r: "sy' = sy" "w' = w1" "r = Inl Runtime_error"
        using ch en Inr False up b by (auto simp: check_staleness_before_plan_def)
      have "w1 = w \<or> mirrors inst (stored (cf_store c)) w1"
      proof -
        have tr': "tracks inst sy (w\<lparr>wk_lists := True\<rparr>) (cf_store c)" using tr by (simp add: tracks_def)
        have "w1 = w \<or> update_device_overlay inst (sp_upserts p) (sp_deletes p) (replace_overlay p)
            (w\<lparr>wk_lists := True\<rparr>) = (True, w1\<lparr>wk_lists := True\<rparr>)"
          using up b by (intro rejected_update) simp
        then show ?thesis using planned_update [OF ok tr' Inr] by fastforce
      qed
      then show ?thesis using r tr tracks_after_mirror [OF _ tr ok(2)] by auto
    qed
  qed
qed

section \<open>Sessions\<close>

text \<open>
  What happens between opening the environment and a plan: requests to the service, changes
  of the worker's condition (idle, lists computable), staleness checks.
\<close>

datatype event =
    Serve request
  | Condition bool bool
  | Check "net list" "net list" bool

type_synonym 'o system = "config \<times> sync_state \<times> 'o worker"

fun happen ::
    "settings \<Rightarrow> models \<Rightarrow> string list \<Rightarrow> (spec \<Rightarrow> 'o option) \<Rightarrow> event \<Rightarrow> 'o system \<Rightarrow> 'o system" where
  "happen st p al inst (Serve rq) (c, sy, w) = (snd (handle p al rq c), sy, w)"
| "happen st p al inst (Condition idle lsts) (c, sy, w) = (c, sy, w\<lparr>wk_idle := idle, wk_lists := lsts\<rparr>)"
| "happen st p al inst (Check netc nets reload) (c, sy, w) =
     (c, snd (check_staleness_before_plan st inst netc nets reload c (sy, w)))"

fun proper_event :: "event \<Rightarrow> bool" where
  "proper_event (Serve rq) = proper_request rq"
| "proper_event _ = True"

definition sys_ok :: "(spec \<Rightarrow> 'o option) \<Rightarrow> 'o system \<Rightarrow> bool" where
  "sys_ok inst x = (case x of (c, sy, w) \<Rightarrow>
     cfg_ok c \<and> store_ok (cf_store c) \<and> tracks inst sy w (cf_store c))"

lemma happen_ok:
  assumes "sys_ok inst x" "names_kept p" "sg_enabled st" "proper_event e"
  shows "sys_ok inst (happen st p al inst e x)"
proof -
  obtain c sy w where x: "x = (c, sy, w)" by (cases x)
  have ok: "cfg_ok c" "store_ok (cf_store c)" "tracks inst sy w (cf_store c)"
    using assms(1) by (auto simp: sys_ok_def x)
  show ?thesis
  proof (cases e)
    case (Serve rq)
    then show ?thesis
      using handle_ok [OF ok(1) assms(2)] handle_store_ok [OF ok(2), of p al rq] assms(4)
        tracks_later [OF ok(3)] by (auto simp: sys_ok_def x)
  next
    case (Condition idle lsts)
    have "shows_dev inst (w\<lparr>wk_idle := idle, wk_lists := lsts\<rparr>) = shows_dev inst w"
      by (rule shows_cong) simp_all
    then show ?thesis using ok Condition by (simp add: sys_ok_def x tracks_def)
  next
    case (Check netc nets reload)
    obtain r sy' w' where
      ch: "check_staleness_before_plan st inst netc nets reload c (sy, w) = (r, (sy', w'))"
      by (metis prod.exhaust)
    then show ?thesis using check_step [OF ok ch assms(3)] ok Check by (simp add: sys_ok_def x)
  qed
qed

lemma happens_ok:
  assumes "sys_ok inst x" "names_kept p" "sg_enabled st" "list_all proper_event es"
  shows "sys_ok inst (fold (happen st p al inst) es x)"
  using assms(1,4)
proof (induction es arbitrary: x)
  case (Cons e es)
  then show ?case using Cons.IH [OF happen_ok [OF Cons.prems(1) assms(2,3)]] by simp
qed simp

text \<open>Opening the environment: the registry's devices go over those of the profile.\<close>

lemma loaded_mirrors:
  assumes "load_overlay inst (list_instantiation_specs True r) ns0 = Some w" "reg_inv r" "specs_owned r"
  shows "mirrors inst (entry_of r) w"
proof -
  note a = active_specs [OF assms(2,3)]
  let ?ups = "list_instantiation_specs True r"
  obtain xs where xs: "stage inst ?ups = Some xs"
    and w: "w = \<lparr>wk_idle = True, wk_ns = Some (dupdate ns0 xs), wk_overlay = map fst ?ups, wk_lists = True\<rparr>"
    using assms(1) by (auto simp: load_overlay_def split: option.splits)
  have wf: "wf_dict xs" using stage_keys [OF xs] a(1) by (simp add: wf_dict_def)
  have keys: "n \<in> fst ` set ?ups \<longleftrightarrow> dget ?ups n \<noteq> None" for n by (simp add: map_of_eq_None_iff)
  have "shows_dev inst w n (entry_of r n)" for n
  proof (cases "live_spec (entry_of r n)")
    case None
    then show ?thesis using keys [of n] a(2) [of n] by (simp add: shows_dev_def w)
  next
    case (Some sp)
    then obtain x where x: "inst sp = Some x" "dget xs n = Some x"
      using stage_get [OF xs, of n] a(2) [of n] by fastforce
    then show ?thesis
      using keys [of n] a(2) [of n] Some by (simp add: shows_dev_def w dget_dupdate [OF wf])
  qed
  then show ?thesis by (simp add: mirrors_iff w)
qed

lemma sync_value:
  assumes "sync_devices_on_env_open st p al now neti netb netb2 netc expected data (Some (x # xs)) c = (Inr sy, c')"
  shows "c' = c \<and> sy = \<lparr>sy_cursor = version (cf_store c), sy_epoch = Some (st_seeded (cf_store c))\<rparr>"
proof -
  have "service_epoch (get_changes_since v s) = st_seeded s" for v s
    by (simp add: get_changes_since_def Let_def)
  then show ?thesis
    using assms
    by (auto simp: sync_devices_on_env_open_def get_changes_def feed_version dest!: query_value
        split: if_splits sum.splits)
qed

end
