(* ===== verification/OverlayProps.thy ===== *)
theory OverlayProps
  imports OverlayRun
begin

text \<open>
  After a successful staleness check the worker's devices are the active devices of the
  registry; a bootstrap that reports success is complete; and the synchronisation in the
  middle of a session that makes the worker miss changes.
\<close>

section \<open>The worker follows the registry\<close>


text \<open>
  A refused overlay update is all or nothing: as long as the lists of plans and devices can
  be recomputed, an update that the worker rejects (because it is busy, because its namespace
  is missing, or because one of the new devices cannot be built) leaves namespace and overlay
  untouched; an accepted one built every upserted device.
\<close>

theorem overlay_update_atomic:
  assumes "wk_lists w" and "wf_dict ups"
  shows "case update_device_overlay inst ups dels rep w of (ok, w') \<Rightarrow>
     ok = (wk_idle w \<and> wk_ns w \<noteq> None \<and> list_all (\<lambda>ns. inst (snd ns) \<noteq> None) ups) \<and>
     (ok \<or> w' = w)"
proof -
  have "stage inst ups \<noteq> None \<longleftrightarrow> list_all (\<lambda>ns. inst (snd ns) \<noteq> None) ups"
    by (induction inst ups rule: stage.induct) (auto split: option.splits)
  then show ?thesis
    using assms(1) by (auto simp: update_device_overlay_def Let_def split: option.splits)
qed

text \<open>
  C36: A synchronisation in mid-session makes the worker miss changes. The synchronisation, which
  the manager repeats whenever the worker's lists change, moves the cursor to the service's
  current version without applying what happened before it; so the next staleness check finds
  nothing to do, whatever devices the worker has.
\<close>

theorem resync_skips_changes:
  fixes w :: "'o worker"
  assumes "sync_devices_on_env_open st p al now neti netb netb2 netc expected data prefetched c = (Inr sy, c1)"
    and "check_staleness_before_plan st inst netf nets reload c1 (sy, w) = (Inr (), x)"
  shows "x = (sy, w)"
proof -
  have epoch: "service_epoch (get_changes_since v s) = st_seeded s" for v s
    by (simp add: get_changes_since_def Let_def)
  have sy: "sy = \<lparr>sy_cursor = version (cf_store c1), sy_epoch = Some (st_seeded (cf_store c1))\<rparr>"
    using assms(1)
    by (auto simp: sync_devices_on_env_open_def get_changes_def feed_version epoch dest!: query_value
        split: if_splits sum.splits prod.splits)
  have quiet: "changes (get_changes_since (version s) s) = []"
    "\<not> reset_occurred (get_changes_since (version s) s)" for s
    by (simp_all add: get_changes_since_def Let_def version_def)
  have "is_noop pl" if "fetch_staleness_plan st netf nets sy c1 = Inr pl" for pl
    using that
    by (auto simp: fetch_staleness_plan_def build_staleness_plan_def Let_def sy get_changes_def epoch quiet
        is_noop_def dest!: query_value split: sum.splits if_splits)
  then show ?thesis
    using assms(2) by (auto simp: check_staleness_before_plan_def split: if_splits sum.splits)
qed

section \<open>Bootstrap\<close>

definition registered :: "string \<Rightarrow> config \<Rightarrow> bool" where
  "registered n c \<longleftrightarrow> get_device n (cf_reg c) \<noteq> None"

lemma update_devices_mono:
  "get_device n r \<noteq> None \<Longrightarrow> get_device n (snd (update_device d sp r)) \<noteq> None"
proof -
  assume a: "get_device n r \<noteq> None"
  have "devices (fold (release_pv m) ps r) = devices r" for ps m
    by (induction ps arbitrary: r) auto
  then have "devices (release_pv_ownership m r) = devices r" for m
    by (simp add: release_pv_ownership_def)
  then show ?thesis
    using a by (auto simp: update_device_def get_device_def add_device_def dget_dset)
qed

lemma put_keeps: "registered n c \<Longrightarrow> registered n (snd (put_device p al t d sp c))"
  using update_devices_mono [of n "cf_reg c"]
  by (auto simp: put_device_def update_device_request_def registered_def split_beta split: option.splits)

lemma post_keeps: "registered n c \<Longrightarrow> registered n (snd (post_device al t d sp c))"
  by (auto simp: post_device_def create_device_def registered_def Let_def add_device_reads split_beta
      split: option.splits)

lemma attempts_keep:
  "(\<And>t. P t \<Longrightarrow> P (snd (oper t))) \<Longrightarrow> P s \<Longrightarrow> P (snd (attempts_loop ns oper s))"
  by (induction ns oper s rule: attempts_loop.induct) (auto simp: split_beta)

lemma attempts_answer:
  "attempts_loop ns oper s = (Inr x, s') \<Longrightarrow> \<exists>t code. oper t = ((code, x), s') \<and> code \<in> {200, 201, 204}"
  by (induction ns oper s rule: attempts_loop.induct)
    (auto simp: classify_def split: prod.splits if_splits)

lemma upsert_keeps: "registered n c \<Longrightarrow> registered n (snd (upsert_device st p al t net1 net2 d sp c))"
proof -
  assume r: "registered n c"
  have one: "registered n (snd (request st net1 (post_device al t d sp) c))"
    unfolding request_def by (rule attempts_keep [where P = "registered n"]) (use post_keeps r in auto)
  have two: "registered n c1 \<Longrightarrow> registered n (snd (request st net2 (put_device p al t d sp) c1))" for c1
    unfolding request_def by (rule attempts_keep [where P = "registered n"]) (use put_keeps in auto)
  show ?thesis
    using one two by (auto simp: upsert_device_def split: prod.splits sum.splits cs_error.splits)
qed

lemma upsert_registers:
  assumes "upsert_device st p al t net1 net2 d sp c = (Inr u, c')"
  shows "registered (dev_name d) c'"
proof -
  have post: "registered (dev_name d) c2"
    if "post_device al t d sp c1 = ((code, x), c2)" "code \<in> {200, 201, 204}" for c1 c2 code x
    using that by (auto simp: post_device_def create_device_def registered_def Let_def add_device_reads
        split: option.splits if_splits prod.splits)
  have put: "registered (dev_name d) c2"
    if "put_device p al t d sp c1 = ((code, x), c2)" "code \<in> {200, 201, 204}" for c1 c2 code x
    using that update_devices_mono [of "dev_name d" "cf_reg c1"]
    by (auto simp: put_device_def update_device_request_def registered_def
        split: option.splits if_splits prod.splits)
  obtain r c1 where one: "request st net1 (post_device al t d sp) c = (r, c1)" by (metis prod.exhaust)
  show ?thesis
  proof (cases "r = Inl Conflict_error")
    case True
    then have "request st net2 (put_device p al t d sp) c1 = (Inr u, c')"
      using assms one by (simp add: upsert_device_def)
    then show ?thesis using attempts_answer put unfolding request_def by metis
  next
    case False
    then have "request st net1 (post_device al t d sp) c = (Inr u, c')"
      using assms one by (cases r) (auto simp: upsert_device_def split: cs_error.splits)
    then show ?thesis using attempts_answer post unfolding request_def by metis
  qed
qed

lemma pass_keeps: "registered n c \<Longrightarrow> registered n (snd (upsert_pass st p al t net ds c))"
proof (induction st p al t net ds c rule: upsert_pass.induct)
  case (2 st p al now net m d sp ds c)
  then show ?case
    using upsert_keeps [OF "2.prems", of st p al now "fst (net m)" "snd (net m)" d sp]
    by (auto split: prod.splits sum.splits)
qed simp

lemma pass_registers:
  "upsert_pass st p al t net ds c = (fails, c') \<Longrightarrow> (n, d, sp) \<in> set ds \<Longrightarrow> n \<notin> set fails \<Longrightarrow>
   registered (dev_name d) c'"
proof (induction ds arbitrary: c fails c')
  case (Cons x ds)
  obtain m e q where x: "x = (m, e, q)" by (cases x)
  obtain r c1 where up: "upsert_device st p al t (fst (net m)) (snd (net m)) e q c = (r, c1)"
    by (metis prod.exhaust)
  obtain f2 c2 where rest: "upsert_pass st p al t net ds c1 = (f2, c2)" by (metis prod.exhaust)
  have res: "c' = c2" "set f2 \<subseteq> set fails" "r = Inr () \<or> m \<in> set fails"
    using Cons.prems(1) up rest by (auto simp: x split: sum.splits)
  show ?case
  proof (cases "(n, d, sp) \<in> set ds")
    case True
    then show ?thesis using Cons.IH [OF rest] True res Cons.prems(3) by auto
  next
    case False
    then have "n = m" "d = e" using Cons.prems(2) x by auto
    then have "r = Inr ()" using res Cons.prems(3) by auto
    then have "registered (dev_name d) c1" using upsert_registers up \<open>d = e\<close> by metis
    then show ?thesis using pass_keeps [of "dev_name d" c1 st p al t net ds] rest res by simp
  qed
qed simp

text \<open>
  A bootstrap of an empty registry is complete or fails loudly. Whatever happens to the
  individual requests on the network (lost, answered late, refused, carried out twice), when
  the bootstrap reports success every device of the worker is registered.
\<close>

theorem bootstrap_complete:
  assumes "bootstrap_with_retry st p al now net net2 data c = (Inr (), c')"
  shows "list_all (\<lambda>(n, d, sp). get_device (dev_name d) (cf_reg c') \<noteq> None) data"
proof -
  obtain fails c1 where one: "upsert_pass st p al now net (sort_key fst data) c = (fails, c1)"
    by (metis prod.exhaust)
  let ?again = "filter (\<lambda>x. fst x \<in> set fails) (sort_key fst data)"
  obtain fails2 c2 where two: "upsert_pass st p al now net2 ?again c1 = (fails2, c2)"
    by (metis prod.exhaust)
  have "registered (dev_name d) c'" if m: "(n, d, sp) \<in> set data" for n d sp
  proof (cases "fails = []")
    case True
    then show ?thesis using pass_registers [OF one, of n d sp] m assms one
      by (simp add: bootstrap_with_retry_def)
  next
    case False
    then have end_ok: "fails2 = []" "c' = c2"
      using assms one two by (auto simp: bootstrap_with_retry_def split: if_splits)
    show ?thesis
    proof (cases "n \<in> set fails")
      case True
      then show ?thesis using pass_registers [OF two, of n d sp] m end_ok by simp
    next
      case False
      then have "registered (dev_name d) c1" using pass_registers [OF one, of n d sp] m by simp
      then show ?thesis using pass_keeps [of "dev_name d" c1 st p al now net2 ?again] two end_ok by simp
    qed
  qed
  then show ?thesis by (auto simp: list_all_iff registered_def)
qed

end
