(* ===== verification/CoordProps.thy ===== *)
theory CoordProps
  imports Coordinator OverlayProps
begin

text \<open>
  What the lock bookkeeping of the coordinator guarantees, and two ways in which it loses
  track of a lock it holds.
\<close>

section \<open>Requests to the lock endpoints\<close>

lemma srv_lock_answer:
  assumes "srv_lock service t ns i pl c = ((code, resp), c')" "code \<in> {200, 201, 204}"
  shows "cf_locks c' = snd (acquire_locks ns i pl service (cf_reg c) t (cf_locks c)) \<and>
    lr_success (fst (acquire_locks ns i pl service (cf_reg c) t (cf_locks c))) \<and>
    resp = (lm_epoch (cf_locks c'), lm_ttl (cf_locks c'))"
proof -
  have "lr_error_code (fst (acquire_locks ns i pl service r t m)) \<notin> {200, 201, 204}"
    if "\<not> lr_success (fst (acquire_locks ns i pl service r t m))" for r m
    using that by (auto simp: acquire_locks_def Let_def conflict_code_def split: if_splits)
  then show ?thesis
    using assms by (auto simp: srv_lock_def lock_devices_def split_beta split: if_splits)
qed

lemma srv_unlock_answer:
  assumes "srv_unlock t ns i c = ((code, u), c')" "code \<in> {200, 201, 204}"
  shows "get_device_lock n t2 (cf_locks c') = (if n \<in> set ns then None else get_device_lock n t2 (cf_locks c))"
proof -
  have tab: "active_lock (m\<lparr>lm_locks := snd (drop_held ns (lm_locks m)), lm_version := v\<rparr>) q t =
      (if q \<in> set ns then None else active_lock m q t)"
    "active_lock (m\<lparr>lm_locks := snd (drop_held ns (lm_locks m))\<rparr>) q t =
      (if q \<in> set ns then None else active_lock m q t)" for m q t v
    by (auto simp: active_lock_def dget_drop_held split: option.splits)
  show ?thesis
    using assms
    by (auto simp: srv_unlock_def unlock_devices_def release_locks_def split_beta get_device_lock_def tab
        split: if_splits)
qed

lemma request_answer:
  "request st net oper s = (Inr x, s') \<Longrightarrow> \<exists>t code. oper t = ((code, x), s') \<and> code \<in> {200, 201, 204}"
  unfolding request_def by (rule attempts_answer)

lemma locked_now:
  assumes "request st net (srv_lock service t ns i pl) c = (Inr resp, c')" "n \<in> set ns"
  shows "holds n i (lk_id (the (get_device_lock n t (cf_locks c')))) t (cf_locks c')"
    and "\<exists>l. get_device_lock n t (cf_locks c') = Some l \<and> lk_item l = i"
proof -
  obtain c1 :: config where c1: "cf_locks c' = snd (acquire_locks ns i pl service (cf_reg c1) t (cf_locks c1))"
      "lr_success (fst (acquire_locks ns i pl service (cf_reg c1) t (cf_locks c1)))"
  proof -
    from request_answer [OF assms(1)] obtain code c1
      where "srv_lock service t ns i pl c1 = ((code, resp), c')" "code \<in> {200, 201, 204}" by blast
    from srv_lock_answer [OF this] show ?thesis by (intro that [of c1]) blast+
  qed
  let ?id = "lm_uuids (cf_locks c1) (lm_next (cf_locks c1))"
  have h: "holds n i ?id t (cf_locks c')" using granted_holds(1) [OF c1(2) assms(2)] c1(1) by simp
  have "lm_ttl (cf_locks c') \<le> 0 \<or> t < t + lm_ttl (cf_locks c')" by auto
  from holds_active [OF h this] obtain l
    where "active_lock (cf_locks c') n t = Some l" "lk_item l = i" "lk_id l = ?id" by blast
  with h show "holds n i (lk_id (the (get_device_lock n t (cf_locks c')))) t (cf_locks c')"
    and "\<exists>l. get_device_lock n t (cf_locks c') = Some l \<and> lk_item l = i"
    by (simp_all add: get_device_lock_def)
qed

section \<open>Locks around a plan\<close>

text \<open>The bookkeeping either names a lock owner and devices, or neither.\<close>

definition co_ok :: "coord \<Rightarrow> bool" where
  "co_ok co \<longleftrightarrow> (co_locked_item co = [] \<longleftrightarrow> co_devices co = [])"

lemma unlock_settles:
  assumes "unlock_devices_co st net t False (co, c) = (Inr u, (co', c'))" "sg_enabled st"
  shows "co_devices co' = []" "co_devices co \<noteq> [] \<Longrightarrow> co_locked_item co' = []"
    "co_devices co = [] \<Longrightarrow> (co', c') = (co, c)"
  using assms by (auto simp: unlock_devices_co_def split: if_splits prod.splits sum.splits)

lemma locked_for_plan:
  assumes "lock_devices_for_plan st netu netg netl t names item plan (co, c) = (Inr (), (co', c'))"
    and "sg_enabled st" and "co_ok co" and "item \<noteq> []" and "d \<in> set (co_devices co')"
  shows "co_devices co' = filter (\<lambda>n. dget (get_specs True c') n \<noteq> None) names \<and>
    co_locked_item co' = item \<and>
    holds d item (lk_id (the (get_device_lock d t (cf_locks c')))) t (cf_locks c')"
proof -
  obtain r x1 where un: "(if co_locked_item co \<noteq> [] then unlock_devices_co st netu t False (co, c)
      else (Inr (), (co, c))) = (r, x1)" by (metis prod.exhaust)
  obtain co1 c1 where x1: "x1 = (co1, c1)" by (cases x1)
  have r: "r = Inr ()" using assms(1) un by (cases r) (auto simp: lock_devices_for_plan_def)
  have empty1: "co_devices co1 = []"
    using un r x1 assms(2,3) unlock_settles(1) [of st netu t co c "()" co1 c1]
    by (auto simp: co_ok_def split: if_splits)
  have names: "names \<noteq> []"
    using assms(1,5) un r x1 empty1 by (auto simp: lock_devices_for_plan_def)
  obtain ss where ss: "query st netg (get_specs True) c1 = Inr ss"
    using assms(1) un r x1 names by (cases "query st netg (get_specs True) c1") (auto simp: lock_devices_for_plan_def)
  let ?ns = "filter (\<lambda>n. n \<in> fst ` set ss) names"
  have ns: "?ns \<noteq> []"
    using assms(1,5) un r x1 empty1 ss names by (auto simp: lock_devices_for_plan_def Let_def split: if_splits)
  obtain resp where req: "request st netl (srv_lock (sg_service st) t ?ns item plan) c1 = (Inr resp, c')"
    and co': "co' = record_lock_epoch_and_lease resp
                 (co1\<lparr>co_devices := ?ns, co_locked_item := item, co_plan := plan\<rparr>)"
    using assms(1) un r x1 ss names ns
    by (auto simp: lock_devices_for_plan_def Let_def split: prod.splits sum.splits)
  have books: "co_devices co' = ?ns" "co_locked_item co' = item"
    by (auto simp: co' record_lock_epoch_and_lease_def split: prod.splits)
  have reg: "cf_reg c' = cf_reg c1"
  proof -
    have "cf_reg (snd (srv_lock sv t ns i pl c)) = cf_reg c" for sv ns i pl c
      by (simp add: srv_lock_def lock_devices_def split_beta)
    then have "cf_reg (snd (attempts_loop nt (srv_lock sv t ns i pl) c1)) = cf_reg c1" for nt sv ns i pl
      by (intro attempts_keep [where P = "\<lambda>c. cf_reg c = cf_reg c1"]) auto
    then show ?thesis using req unfolding request_def by (metis snd_conv)
  qed
  have "ss = get_specs True c1" using query_value [OF ss] by simp
  then have same: "?ns = filter (\<lambda>n. dget (get_specs True c') n \<noteq> None) names"
    by (simp add: get_specs_def reg map_of_eq_None_iff)
  have d: "d \<in> set ?ns" using assms(5) books by simp
  show ?thesis using books same locked_now(1) [OF req d] by simp
qed

text \<open>
  C19: A plan starts only with its devices locked. When locking for a plan succeeds, whatever the
  network did, the coordinator's books hold exactly the plan's devices that are active in the
  registry, in order; each of them is locked by the plan's item; and it stays so for a full lease
  time (or for ever, without leases) against all requests of other lock holders.
\<close>

theorem plan_starts_locked:
  assumes "lock_devices_for_plan st netu netg netl t names item plan (co, c) = (Inr (), (co', c'))"
    and "sg_enabled st" and "co_ok co" and "item \<noteq> []" and "d \<in> set (co_devices co')"
    and "list_all (\<lambda>(t1, req). t \<le> t1 \<and> (lm_ttl (cf_locks c') \<le> 0 \<or> t1 < t + lm_ttl (cf_locks c')) \<and>
           \<not> may_end d item req) trace"
    and "lm_ttl (cf_locks c') \<le> 0 \<or> now < t + lm_ttl (cf_locks c')"
  shows "co_devices co' = filter (\<lambda>n. dget (get_specs True c') n \<noteq> None) names \<and>
    co_locked_item co' = item \<and>
    (\<exists>l. get_device_lock d now (fold run_lock trace (cf_locks c')) = Some l \<and> lk_item l = item)"
proof -
  note l = locked_for_plan [OF assms(1-5)]
  have "holds d item (lk_id (the (get_device_lock d t (cf_locks c')))) t (fold run_lock trace (cf_locks c')) \<and>
      lm_ttl (fold run_lock trace (cf_locks c')) = lm_ttl (cf_locks c')"
    by (rule trace_keeps_holder [OF _ assms(6)]) (use l in blast)
  then have "\<exists>l. get_device_lock d now (fold run_lock trace (cf_locks c')) = Some l \<and> lk_item l = item"
    unfolding get_device_lock_def using holds_active assms(7) by metis
  then show ?thesis using l by blast
qed

text \<open>
  Releasing settles the debt or keeps it. If the release succeeds, none of the devices on the
  books is locked any more and the books are empty; if it fails, the books are exactly as
  before, so the next attempt to lock releases the same devices first.
\<close>

theorem release_settles_or_keeps:
  assumes "sg_enabled st"
  shows "case unlock_devices_co st net t False (co, c) of (r, (co', c')) \<Rightarrow>
     (case r of
        Inr _ \<Rightarrow> co_devices co' = [] \<and>
          list_all (\<lambda>n. \<not> is_device_locked n t2 (cf_locks c')) (co_devices co)
      | Inl _ \<Rightarrow> co' = co)"
proof -
  obtain r c' where req: "request st net (srv_unlock t (co_devices co) (co_locked_item co)) c = (r, c')"
    by (metis prod.exhaust)
  show ?thesis
  proof (cases r)
    case (Inr u)
    then obtain c1 code where "srv_unlock t (co_devices co) (co_locked_item co) c1 = ((code, u), c')"
        "code \<in> {200, 201, 204}"
      using request_answer req by metis
    then have "get_device_lock n t2 (cf_locks c') = None" if "n \<in> set (co_devices co)" for n
      using srv_unlock_answer that by simp
    then show ?thesis
      using assms req Inr
      by (auto simp: unlock_devices_co_def is_device_locked_def get_device_lock_def list_all_iff)
  qed (use assms req in \<open>auto simp: unlock_devices_co_def\<close>)
qed

section \<open>Recovery after a restart\<close>

lemma forced_free:
  assumes "srv_force t ns c = ((code, u), c')" "list_all (\<lambda>n. get_device n (cf_reg c) \<noteq> None) ns"
  shows "code = 200 \<and> cf_reg c' = cf_reg c \<and>
    (\<forall>n \<in> set ns. active_lock (cf_locks c') n t2 = None)"
proof -
  have nf: "filter (\<lambda>n. get_device n (cf_reg c) = None \<and> dget (lm_locks (cf_locks c)) n = None) (dedup ns) = []"
    using assms(2) by (auto simp: filter_empty_conv list_all_iff)
  have tab: "active_lock (m\<lparr>lm_locks := snd (drop_held (dedup ns) (lm_locks m)), lm_version := v\<rparr>) q t =
      (if q \<in> set ns then None else active_lock m q t)" for m q t v
    by (auto simp: active_lock_def dget_drop_held split: option.splits)
  have none: "dedup ns = [] \<longleftrightarrow> ns = []" by (metis set_dedup set_empty)
  show ?thesis
    using assms(1)
    by (auto simp: none srv_force_def force_unlock_devices_def force_unlock_def Let_def nf tab split: if_splits)
qed

text \<open>
  C29: A restarted manager always gets its environment. Over a working network, locking the
  devices of an environment succeeds whenever all of them are registered and enabled, even if
  locks of a previous incarnation are in the way; afterwards all of them are locked under the
  new owner id.
\<close>

theorem restart_recovers_locks:
  assumes "list_all (\<lambda>n. case get_instantiation_spec n (cf_reg c) of None \<Rightarrow> False | Some sp \<Rightarrow> active sp) names"
    and "list_all (\<lambda>n. get_device n (cf_reg c) \<noteq> None) names" and "0 < sg_attempts st"
  shows "case lock_with_restart_recovery st [Fine] [Fine] [Fine] t names item plan c of (r, c') \<Rightarrow>
     (case r of Inl _ \<Rightarrow> False
      | Inr _ \<Rightarrow> list_all (\<lambda>n. case get_device_lock n t (cf_locks c') of None \<Rightarrow> False
                               | Some l \<Rightarrow> lk_item l = item) names)"
proof -
  have one: "request st [Fine] oper s = (case oper s of ((code, body), t) \<Rightarrow> (classify code body, t))"
    for oper :: "config \<Rightarrow> (int \<times> 'r) \<times> config" and s
    using assms(3) by (simp add: request_def take_Cons' split: prod.splits)
  have held: "list_all (\<lambda>n. case get_device_lock n t (cf_locks c') of None \<Rightarrow> False
                               | Some l \<Rightarrow> lk_item l = item) names"
    if "request st [Fine] (srv_lock (sg_service st) t names item plan) c1 = (Inr resp, c')" for c1 c' resp
    using locked_now(2) [OF that] by (fastforce simp: list_all_iff)
  have free_ok: "lr_success (fst (acquire_locks names item plan sv (cf_reg c1) t (cf_locks c1)))"
    if "cf_reg c1 = cf_reg c" "\<forall>n \<in> set names. active_lock (cf_locks c1) n t = None" for c1 sv
  proof -
    have "check_device (cf_locks c1) (cf_reg c1) t n = []" if "n \<in> set names" for n
    proof -
      have "get_device n (cf_reg c) \<noteq> None"
        "case get_instantiation_spec n (cf_reg c) of None \<Rightarrow> False | Some sp \<Rightarrow> active sp"
        using assms(1,2) that by (auto simp: list_all_iff)
      then show ?thesis
        using \<open>cf_reg c1 = cf_reg c\<close> \<open>\<forall>n \<in> set names. active_lock (cf_locks c1) n t = None\<close> that
        by (auto simp: check_device_ok split: option.splits)
    qed
    then have "concat (map (check_device (cf_locks c1) (cf_reg c1) t) names) = []" by simp
    then show ?thesis by (simp add: acquire_locks_def Let_def)
  qed
  have conflict: "fst (request st [Fine] (srv_lock (sg_service st) t names item plan) c) = Inl Conflict_error \<and>
      cf_reg (snd (request st [Fine] (srv_lock (sg_service st) t names item plan) c)) = cf_reg c"
    if "\<not> lr_success (fst (acquire_locks names item plan (sg_service st) (cf_reg c) t (cf_locks c)))"
  proof -
    have "lc_reason ` set (concat (map (check_device (cf_locks c) (cf_reg c) t) names)) \<subseteq> {Already_locked}"
      unfolding reasons_union check_device_reason
      using assms(1,2) by (fastforce simp: list_all_iff split: option.splits if_splits)
    then have "conflict_code (lc_reason ` set (concat (map (check_device (cf_locks c) (cf_reg c) t) names))) = 409"
      by (auto simp: conflict_code_def)
    then show ?thesis
      using that
      by (auto simp: one srv_lock_def lock_devices_def acquire_locks_def Let_def classify_def split_beta
          split: if_splits)
  qed
  have success: "\<exists>resp. fst (request st [Fine] (srv_lock (sg_service st) t names item plan) c1) = Inr resp"
    if "lr_success (fst (acquire_locks names item plan (sg_service st) (cf_reg c1) t (cf_locks c1)))" for c1
    using that by (auto simp: one srv_lock_def lock_devices_def classify_def split_beta)
  show ?thesis
  proof (cases "lr_success (fst (acquire_locks names item plan (sg_service st) (cf_reg c) t (cf_locks c)))")
    case True
    from success [OF True] held show ?thesis
      by (auto simp: lock_with_restart_recovery_def split: prod.splits sum.splits)
  next
    case False
    obtain c1 where c1: "request st [Fine] (srv_lock (sg_service st) t names item plan) c = (Inl Conflict_error, c1)"
        "cf_reg c1 = cf_reg c"
      using conflict [OF False] by (metis prod.collapse)
    obtain code u c2 where f: "srv_force t names c1 = ((code, u), c2)" by (metis prod.exhaust)
    then have c2: "code = 200" "cf_reg c2 = cf_reg c" "\<forall>n \<in> set names. active_lock (cf_locks c2) n t = None"
      using forced_free [OF f, of t] assms(2) c1(2) by auto
    have fr: "request st [Fine] (srv_force t names) c1 = (Inr u, c2)"
      using f c2(1) by (simp add: one classify_def)
    from success [OF free_ok [OF c2(2,3)]] held show ?thesis
      by (auto simp: lock_with_restart_recovery_def c1 fr split: prod.splits sum.splits)
  qed
qed

end
