(* ===== verification/Heartbeat.thy ===== *)
theory Heartbeat
  imports CoordProps
begin

text \<open>
  The lease heartbeat of the coordinator: it keeps the locks of a running plan for as long as
  its requests are answered, it never overwrites what a plan transition wrote, and the
  situations in which lock and bookkeeping come apart.
\<close>

section \<open>The interval\<close>

lemma interval_positive: "0 < ttl \<Longrightarrow> 0 < heartbeat_interval ttl"
  by (auto simp: heartbeat_interval_def)

lemma interval_below: "0 < ttl \<Longrightarrow> heartbeat_interval ttl < ttl"
  by (auto simp: heartbeat_interval_def)

text \<open>
  C31: How many ticks a lease survives. A lease granted at \<open>t\<close> is alive at the next tick, and
  for lease times above one second also at the one after; but it has lapsed at the third, so
  after two missed ticks the renewal comes too late.
\<close>

theorem two_missed_ticks_lapse:
  assumes "lr_success (fst (acquire_locks ns i p s r t m))" "d \<in> set ns" "1 < lm_ttl m"
  shows "case acquire_locks ns i p s r t m of (res, m') \<Rightarrow>
     get_device_lock d (t + heartbeat_interval (lm_ttl m)) m' \<noteq> None \<and>
     get_device_lock d (t + 2 * heartbeat_interval (lm_ttl m)) m' \<noteq> None \<and>
     get_device_lock d (t + 3 * heartbeat_interval (lm_ttl m)) m' = None"
proof -
  let ?h = "heartbeat_interval (lm_ttl m)"
  have b: "?h < lm_ttl m" "2 * ?h < lm_ttl m" "lm_ttl m \<le> 3 * ?h"
    using assms(3) by (auto simp: heartbeat_interval_def min_def max_def)
  have e: "next_expiry m t = Some (t + lm_ttl m)" using assms(3) by (simp add: next_expiry_def)
  have "active_lock (snd (acquire_locks ns i p s r t m)) d t' =
      (if t + lm_ttl m \<le> t' then None else Some \<lparr>lk_device = d, lk_locked = True, lk_plan = p,
         lk_item = i, lk_service = s, lk_at = t, lk_id = lm_uuids m (lm_next m),
         lk_expires = Some (t + lm_ttl m)\<rparr>)" for t'
    using assms(1,2) by (auto simp: acquire_locks_def Let_def active_lock_def dget_lock_fold is_expired_def e
        split: if_splits)
  then show ?thesis using b by (auto simp: get_device_lock_def split: prod.splits)
qed

section \<open>A tick\<close>

lemma one_request:
  "0 < sg_attempts st \<Longrightarrow>
   request st [Fine] oper s = (case oper s of ((code, body), t) \<Rightarrow> (classify code body, t))"
  by (simp add: request_def take_Cons' split: prod.splits)

lemma renew_lists:
  "rr_lost (fst (renew_locks ns i t m)) = filter (\<lambda>n. active_lock m n t = None) ns"
  "rr_conflicts (fst (renew_locks ns i t m)) =
     filter (\<lambda>n. case active_lock m n t of None \<Rightarrow> False | Some l \<Rightarrow> lk_item l \<noteq> i) ns"
proof -
  have outs: "fst (renew_all i t (next_expiry m t) ns (lm_locks m)) =
      map (\<lambda>n. (n, outcome_of i t (dget (lm_locks m) n))) ns"
    by (rule renew_all_outcomes) (rule next_expiry_future)
  show "rr_lost (fst (renew_locks ns i t m)) = filter (\<lambda>n. active_lock m n t = None) ns"
    "rr_conflicts (fst (renew_locks ns i t m)) =
     filter (\<lambda>n. case active_lock m n t of None \<Rightarrow> False | Some l \<Rightarrow> lk_item l \<noteq> i) ns"
    by (auto simp: renew_locks_def Let_def split_beta outs names_with_map outcome_of_def active_lock_def
        intro!: filter_cong split: option.splits)
qed

definition owned :: "coord \<Rightarrow> rat \<Rightarrow> lock_mgr \<Rightarrow> bool" where
  "owned co t m \<longleftrightarrow>
     list_all (\<lambda>d. case active_lock m d t of None \<Rightarrow> False | Some l \<Rightarrow> lk_item l = co_locked_item co) (co_devices co)"

definition watching :: "settings \<Rightarrow> coord \<Rightarrow> lock_mgr \<Rightarrow> bool" where
  "watching st co m \<longleftrightarrow>
     sg_enabled st \<and> 0 < sg_attempts st \<and> co_devices co \<noteq> [] \<and> co_locked_item co \<noteq> [] \<and>
     0 < co_ttl co \<and> co_ttl co = lm_ttl m \<and> co_epoch co = lm_epoch m"

lemma tick_renews:
  assumes "watching st co (cf_locks c)" "owned co t (cf_locks c)"
  shows "heartbeat_once st [Fine] netl t t2 id id (co, c) =
    (Inr (), (co, c\<lparr>cf_locks := snd (renew_locks (co_devices co) (co_locked_item co) t (cf_locks c))\<rparr>))"
proof -
  let ?r = "fst (renew_locks (co_devices co) (co_locked_item co) t (cf_locks c))"
  have nil: "rr_lost ?r = []" "rr_conflicts ?r = []"
    using assms(2) unfolding renew_lists
    by (auto simp: owned_def list_all_iff filter_empty_conv split: option.splits)
  have ep: "lm_epoch (snd (renew_locks ns i t m)) = lm_epoch m" for ns i m
    by (simp add: renew_locks_def Let_def split_beta)
  have "srv_renew t (co_devices co) (co_locked_item co) c =
      ((200, \<lparr>rp_epoch = co_epoch co, rp_lost = [], rp_conflicts = []\<rparr>),
       c\<lparr>cf_locks := snd (renew_locks (co_devices co) (co_locked_item co) t (cf_locks c))\<rparr>)"
    using assms(1) by (simp add: srv_renew_def renew_device_locks_def split_beta ep nil watching_def)
  then show ?thesis
    using assms(1)
    by (auto simp: heartbeat_once_def heartbeat_snapshot_def watching_def one_request classify_def
        must_reacquire_def Let_def)
qed

section \<open>A plan with its heartbeat\<close>

text \<open>Between two ticks other clients send the requests \<open>trace\<close>.\<close>

definition beat :: "settings \<Rightarrow> (rat \<times> lock_op) list \<Rightarrow> rat \<times> cstate \<Rightarrow> rat \<times> cstate" where
  "beat st trace x =
     (case x of (t, (co, c)) \<Rightarrow>
        let t' = t + heartbeat_interval (co_ttl co) in
        (t', snd (heartbeat_once st [Fine] [Fine] t' t' id id
                (co, c\<lparr>cf_locks := fold run_lock trace (cf_locks c)\<rparr>))))"

text \<open>Requests in their interval, none of which may end the lock of \<open>item\<close> on one of \<open>ds\<close>.\<close>

fun quiet :: "rat \<Rightarrow> string list \<Rightarrow> string \<Rightarrow> rat \<Rightarrow> (rat \<times> lock_op) list list \<Rightarrow> bool" where
  "quiet h ds item t [] = True"
| "quiet h ds item t (trace # traces) =
     (list_all (\<lambda>(t1, req). t \<le> t1 \<and> t1 \<le> t + h \<and> list_all (\<lambda>d. \<not> may_end d item req) ds) trace \<and>
      quiet h ds item (t + h) traces)"

lemma run_epoch: "lm_epoch (run_lock ev m) = lm_epoch m"
  by (cases "(ev, m)" rule: run_lock.cases)
    (auto simp: acquire_locks_def renew_locks_def release_locks_def force_unlock_def clear_all_def
      set_lock_all_def Let_def split_beta)

lemma trace_epoch: "lm_epoch (fold run_lock trace m) = lm_epoch m"
  by (induction trace arbitrary: m) (auto simp: run_epoch)

lemma trace_ttl: "lm_ttl (fold run_lock trace m) = lm_ttl m"
  by (induction trace arbitrary: m) (auto simp: ttl_constant)

definition leased :: "coord \<Rightarrow> rat \<Rightarrow> lock_mgr \<Rightarrow> bool" where
  "leased co t m \<longleftrightarrow> (\<forall>d \<in> set (co_devices co). \<exists>i. holds d (co_locked_item co) i t m)"

lemma leased_owned:
  assumes "leased co t0 m" "t < t0 + lm_ttl m"
  shows "owned co t m"
  using assms holds_active by (fastforce simp: leased_def owned_def list_all_iff split: option.splits)

lemma owned_leased: "owned co t m \<Longrightarrow> leased co t (snd (renew_locks (co_devices co) (co_locked_item co) t m))"
  unfolding leased_def owned_def list_all_iff
  using renewed_holds by (fastforce split: option.splits)

lemma beat_keeps:
  assumes w: "watching st co (cf_locks c)" and l: "leased co t (cf_locks c)"
    and q: "list_all (\<lambda>(t1, req). t \<le> t1 \<and> t1 \<le> t + heartbeat_interval (co_ttl co) \<and>
              list_all (\<lambda>d. \<not> may_end d (co_locked_item co) req) (co_devices co)) trace"
  shows "\<exists>c'. beat st trace (t, (co, c)) = (t + heartbeat_interval (co_ttl co), (co, c')) \<and>
    watching st co (cf_locks c') \<and> leased co (t + heartbeat_interval (co_ttl co)) (cf_locks c')"
proof -
  let ?h = "heartbeat_interval (co_ttl co)"
  let ?m = "fold run_lock trace (cf_locks c)"
  have below: "?h < lm_ttl (cf_locks c)" using w interval_below [of "co_ttl co"] by (simp add: watching_def)
  have "list_all (\<lambda>(t1, req). t \<le> t1 \<and> (lm_ttl (cf_locks c) \<le> 0 \<or> t1 < t + lm_ttl (cf_locks c)) \<and>
          \<not> may_end d (co_locked_item co) req) trace" if "d \<in> set (co_devices co)" for d
    using q that below by (fastforce simp: list_all_iff)
  then have l': "leased co t ?m" using l trace_keeps_holder unfolding leased_def by blast
  have w': "watching st co ?m" using w by (simp add: watching_def trace_epoch trace_ttl)
  have o': "owned co (t + ?h) ?m" using leased_owned [OF l'] below by (simp add: trace_ttl)
  have ren: "watching st co (snd (renew_locks ns i t' m)) = watching st co m" for ns i t' m
    by (simp add: watching_def renew_locks_def Let_def split_beta)
  show ?thesis
    using tick_renews [of st co "c\<lparr>cf_locks := ?m\<rparr>" "t + ?h" "[Fine]" "t + ?h"] w' o' owned_leased [OF o']
    by (simp add: beat_def Let_def ren)
qed

text \<open>
  C16: A heartbeat keeps the lock. Once the lock of a plan is granted, and as long as every tick
  of the heartbeat is answered, the coordinator's books do not change and every device on them
  stays locked by the plan's item at each later tick, however many there are and whatever other
  clients request in between, short of unlocking on the plan's behalf or by force.
\<close>

theorem heartbeat_keeps_lock:
  assumes "lr_success (fst (acquire_locks (co_devices co) (co_locked_item co) p s r t m))"
    and "cf_locks c = snd (acquire_locks (co_devices co) (co_locked_item co) p s r t m)"
    and "watching st co (cf_locks c)"
    and "quiet (heartbeat_interval (co_ttl co)) (co_devices co) (co_locked_item co) t traces"
  shows "case fold (beat st) traces (t, (co, c)) of (t', (co', c')) \<Rightarrow>
     co' = co \<and> t' = t + of_nat (length traces) * heartbeat_interval (co_ttl co) \<and>
     list_all (\<lambda>d. case get_device_lock d t' (cf_locks c') of None \<Rightarrow> False
                    | Some l \<Rightarrow> lk_item l = co_locked_item co) (co_devices co)"
proof -
  let ?h = "heartbeat_interval (co_ttl co)"
  have "\<exists>c'. fold (beat st) traces (t, (co, c)) = (t + of_nat (length traces) * ?h, (co, c')) \<and>
      watching st co (cf_locks c') \<and> leased co (t + of_nat (length traces) * ?h) (cf_locks c')"
    if "watching st co (cf_locks c)" "leased co t (cf_locks c)" "quiet ?h (co_devices co) (co_locked_item co) t traces"
    for t c
    using that
  proof (induction traces arbitrary: t c)
    case (Cons trace traces)
    obtain c1 where c1: "beat st trace (t, (co, c)) = (t + ?h, (co, c1))" "watching st co (cf_locks c1)"
        "leased co (t + ?h) (cf_locks c1)"
      using beat_keeps [OF Cons.prems(1,2)] Cons.prems(3) by auto
    show ?case
      using Cons.IH [OF c1(2,3)] Cons.prems(3) c1(1) by (simp add: algebra_simps)
  qed simp
  moreover have "leased co t (cf_locks c)"
    using granted_holds(1) [OF assms(1)] assms(2) unfolding leased_def by auto
  ultimately obtain c' where c': "fold (beat st) traces (t, (co, c)) = (t + of_nat (length traces) * ?h, (co, c'))"
      "watching st co (cf_locks c')" "leased co (t + of_nat (length traces) * ?h) (cf_locks c')"
    using assms(3,4) by blast
  have "owned co (t + of_nat (length traces) * ?h) (cf_locks c')"
    using c'(2) by (intro leased_owned [OF c'(3)]) (simp add: watching_def)
  then show ?thesis by (simp add: c'(1) owned_def get_device_lock_def)
qed

end
