(* ===== verification/CoordLoss.thy ===== *)
theory CoordLoss
  imports Heartbeat
begin

text \<open>
  How a tick of the heartbeat interacts with plan transitions, and two situations in which the
  coordinator's books and the locks at the service come apart.
\<close>

section \<open>Stale ticks\<close>

text \<open>
  A stale tick never corrupts the books. If a plan transition changed the lock while the
  tick awaited its first answer, the books after the tick are what that transition wrote; if
  one did so while it awaited the second, they are what this one wrote, or the tick had no
  second request and only noted the service's epoch. This holds whatever the answers are.
\<close>

theorem stale_tick_abandons:
  assumes "heartbeat_snapshot st co = Some snap"
    and "heartbeat_once st netr netl now now2 m1 m2 (co, c) = (r, (co', c'))"
  shows "(co_locked_item (m1 co) \<noteq> sn_item snap \<longrightarrow> co' = m1 co) \<and>
    (co_locked_item (m1 co) = sn_item snap \<and> co_locked_item (m2 (m1 co)) \<noteq> sn_item snap \<longrightarrow>
       co' = m2 (m1 co) \<or> co' = (m1 co)\<lparr>co_epoch := co_epoch co'\<rparr>)"
  using assms
  by (auto simp: heartbeat_once_def reacquire_after_loss_def Let_def
      split: prod.splits sum.splits cs_error.splits if_splits)

section \<open>Locks the coordinator does not know of\<close>

text \<open>A lock request for devices that are registered and enabled, one of which is locked.\<close>

lemma lock_conflicts:
  assumes "list_all (\<lambda>n. \<not> missing_device (cf_reg c) n \<and> \<not> missing_spec (cf_reg c) n \<and>
      \<not> disabled_spec (cf_reg c) n) ns"
    and "d \<in> set ns" "active_lock (cf_locks c) d t \<noteq> None"
  shows "\<exists>body. srv_lock sv t ns i p c = ((409, body), c)"
proof -
  let ?conf = "concat (map (check_device (cf_locks c) (cf_reg c) t) ns)"
  have "check_device (cf_locks c) (cf_reg c) t d \<noteq> []" using assms(3) by (simp add: check_device_ok)
  then have ne: "?conf \<noteq> []" using assms(2) by auto
  have "lc_reason ` set ?conf \<subseteq> {Already_locked}"
    unfolding reasons_union check_device_reason
    using assms(1) by (fastforce simp: list_all_iff missing_device_def missing_spec_def disabled_spec_def
        split: option.splits if_splits)
  then have "conflict_code (lc_reason ` set ?conf) = 409" by (auto simp: conflict_code_def)
  then show ?thesis
    using ne by (auto simp: srv_lock_def lock_devices_def acquire_locks_def Let_def split_beta)
qed

text \<open>
  C40: A lock whose answer is lost blocks its own plan. If the service grants the lock of a plan
  but the answer is lost on the way, the client sends the request again, the service finds the
  devices locked and answers with a conflict: the plan does not start, the coordinator's books
  name no lock, and yet every device of the plan is locked by the plan's item.
\<close>

theorem lost_answer_blocks_plan:
  assumes "sg_enabled st" "1 < sg_attempts st"
    and "co_locked_item co = []" "names \<noteq> []"
    and "list_all (\<lambda>n. dget (get_specs True c) n \<noteq> None) names"
    and "lr_success (fst (acquire_locks names item plan (sg_service st) (cf_reg c) t (cf_locks c)))"
  shows "case lock_devices_for_plan st netu [Fine] [Lost_reply, Fine] t names item plan (co, c) of
     (r, (co', c')) \<Rightarrow> r = Inl Conflict_error \<and> co' = co \<and>
        list_all (\<lambda>n. \<exists>l. get_device_lock n t (cf_locks c') = Some l \<and> lk_item l = item) names"
proof -
  let ?oper = "srv_lock (sg_service st) t names item plan"
  obtain b1 c1 where s1: "?oper c = ((200, b1), c1)"
      "cf_locks c1 = snd (acquire_locks names item plan (sg_service st) (cf_reg c) t (cf_locks c))"
      "cf_reg c1 = cf_reg c"
    using assms(6) by (auto simp: srv_lock_def lock_devices_def split_beta)
  have "lm_ttl (cf_locks c1) \<le> 0 \<or> t < t + lm_ttl (cf_locks c1)" by auto
  note act = holds_active [OF _ this, of _ item]
  have own: "\<exists>l. active_lock (cf_locks c1) n t = Some l \<and> lk_item l = item" if "n \<in> set names" for n
    using act granted_holds(1) [OF assms(6) that] s1(2) by metis
  have "check_device (cf_locks c) (cf_reg c) t n = []" if "n \<in> set names" for n
    using assms(6) that by (auto simp: acquire_locks_def Let_def split: if_splits)
  then have ok: "list_all (\<lambda>n. \<not> missing_device (cf_reg c1) n \<and> \<not> missing_spec (cf_reg c1) n \<and>
      \<not> disabled_spec (cf_reg c1) n) names"
    using s1(3) by (fastforce simp: list_all_iff check_device_ok missing_device_def missing_spec_def
        disabled_spec_def)
  obtain d where d: "d \<in> set names" using assms(4) by (cases names) auto
  obtain b2 where s2: "?oper c1 = ((409, b2), c1)"
    using lock_conflicts [OF ok d, of t "sg_service st" item plan] own [OF d] by auto
  have req: "request st [Lost_reply, Fine] ?oper c = (Inl Conflict_error, c1)"
    using assms(2) s1 s2 by (simp add: request_def take_Cons' classify_def)
  have all: "filter (\<lambda>n. n \<in> fst ` set (get_specs True c)) names = names"
    using assms(5) by (auto simp: list_all_iff filter_id_conv map_of_eq_None_iff)
  have q: "query st [Fine] (get_specs True) c = Inr (get_specs True c)"
    using assms(2) by (simp add: query_def one_request classify_def)
  show ?thesis
    using own by (simp add: lock_devices_for_plan_def assms(3,4) q all Let_def req get_device_lock_def list_all_iff)
qed

text \<open>
  Losing one device loses track of all. If one of the locks on the books is gone (an
  administrator unlocked the device by force) while another one is still held, the heartbeat
  asks for all of them again, this conflicts with the lock that is still held, and the
  books are emptied: the held device stays locked by the plan's item, but the coordinator will
  neither renew nor release it.
\<close>

theorem partial_loss_forgets_locks:
  assumes "watching st co (cf_locks c)"
    and "d1 \<in> set (co_devices co)" "\<not> is_device_locked d1 t (cf_locks c)"
    and "d2 \<in> set (co_devices co)" "get_device_lock d2 t (cf_locks c) = Some l" "lk_item l = co_locked_item co"
    and "list_all (\<lambda>n. \<not> missing_device (cf_reg c) n \<and> \<not> missing_spec (cf_reg c) n \<and>
          \<not> disabled_spec (cf_reg c) n) (co_devices co)"
    and "t2 < t + lm_ttl (cf_locks c)"
  shows "case heartbeat_once st [Fine] [Fine] t t2 id id (co, c) of (r, (co', c')) \<Rightarrow>
     r = Inr () \<and> co_devices co' = [] \<and> co_locked_item co' = [] \<and>
     (\<exists>k. get_device_lock d2 t2 (cf_locks c') = Some k \<and> lk_item k = co_locked_item co)"
proof -
  let ?i = "co_locked_item co" and ?m = "cf_locks c"
  let ?c1 = "c\<lparr>cf_locks := snd (renew_locks (co_devices co) ?i t ?m)\<rparr>"
  define rep where "rep = \<lparr>rp_epoch = co_epoch co, rp_lost = rr_lost (fst (renew_locks (co_devices co) ?i t ?m)),
      rp_conflicts = rr_conflicts (fst (renew_locks (co_devices co) ?i t ?m))\<rparr>"
  have ep: "lm_epoch (snd (renew_locks ns i t m)) = lm_epoch m"
    "lm_ttl (snd (renew_locks ns i t m)) = lm_ttl m" for ns i m
    by (simp_all add: renew_locks_def Let_def split_beta)
  have ren: "srv_renew t (co_devices co) ?i c = ((200, rep), ?c1)"
    using assms(1) by (simp add: srv_renew_def renew_device_locks_def split_beta ep rep_def watching_def)
  have "rr_lost (fst (renew_locks (co_devices co) ?i t ?m)) \<noteq> []"
    unfolding renew_lists using assms(2,3) by (auto simp: filter_empty_conv is_device_locked_def)
  then have lost: "rp_lost rep \<noteq> []" by (simp add: rep_def)
  have "holds d2 ?i (lk_id l) t (cf_locks ?c1)"
    using renewed_holds [of ?m d2 t l ?i] assms(4,5,6) by (simp add: get_device_lock_def)
  from holds_active [OF this, of t2]
  have held: "\<exists>k. active_lock (cf_locks ?c1) d2 t2 = Some k \<and> lk_item k = ?i"
    using assms(8) by (auto simp: ep)
  have body: "\<exists>body. srv_lock (sg_service st) t2 (co_devices co) ?i p ?c1 = ((409, body), ?c1)" for p
    using held assms(4,7) by (intro lock_conflicts [where d = d2]) auto
  have again: "fst (request st [Fine] (srv_lock (sg_service st) t2 (co_devices co) ?i p) ?c1) = Inl Conflict_error \<and>
      snd (request st [Fine] (srv_lock (sg_service st) t2 (co_devices co) ?i p) ?c1) = ?c1" for p
    using body [of p] assms(1) by (auto simp: one_request classify_def watching_def)
  show ?thesis
    using assms(1) ren lost held again
    by (auto simp: heartbeat_once_def heartbeat_snapshot_def watching_def one_request classify_def
        must_reacquire_def reacquire_after_loss_def Let_def get_device_lock_def split_beta)
qed

end
