(* ===== verification/OverlayDemo.thy ===== *)
theory OverlayDemo
  imports OverlayProps
begin

text \<open>Concrete sessions in which the hypotheses of the overlay properties hold.\<close>

definition demo_settings :: settings where
  "demo_settings = default_settings\<lparr>sg_enabled := True, sg_url := ''http://cs''\<rparr>"

text \<open>Devices of class \<open>broken\<close> cannot be built; the others are represented by name and flag.\<close>

definition demo_inst :: "spec \<Rightarrow> string option" where
  "demo_inst s = (if device_class s = ''broken'' then None else Some (spec_name s))"

definition demo_add :: "rat \<Rightarrow> string \<Rightarrow> request" where
  "demo_add t n = Create True t (demo_device n []) (demo_spec n True)"

definition demo_config :: config where
  "demo_config = fold (\<lambda>rq c. snd (handle demo_models [] rq c)) [demo_add 1 ''m1''] demo_start"

definition demo_worker :: "string worker" where
  "demo_worker = the (load_overlay demo_inst (get_specs True demo_config) [(''RE'', ''engine'')])"

definition demo_sync :: "(cs_error + sync_state) \<times> config" where
  "demo_sync = sync_devices_on_env_open demo_settings demo_models [] 2 [Fine] (\<lambda>n. ([Fine], [Fine]))
     (\<lambda>n. ([Fine], [Fine])) [Lost_reply, Fine] [] [] (Some (get_specs True demo_config)) demo_config"

definition demo_cursor :: sync_state where
  "demo_cursor = \<lparr>sy_cursor = 1, sy_epoch = Some (Some 0)\<rparr>"

definition demo_events :: "event list" where
  "demo_events = [Serve (demo_add 3 ''m2''), Condition False True, Check [Fine] [Fine] True,
     Serve (Disable True 4 ''m1''), Condition True True]"

definition demo_end :: "string system" where
  "demo_end = fold (happen demo_settings demo_models [] demo_inst) demo_events
     (demo_config, demo_cursor, demo_worker)"

definition demo_checked :: "(cs_error + unit) \<times> sync_state \<times> string worker" where
  "demo_checked = check_staleness_before_plan demo_settings demo_inst [Fine] [Fine] True (fst demo_end) (snd demo_end)"

lemma demo_specs: "get_specs True demo_config = [(''m1'', demo_spec ''m1'' True)]"
  by code_simp

lemma demo_load: "load_overlay demo_inst (get_specs True demo_config) [(''RE'', ''engine'')] = Some demo_worker"
  by code_simp

lemma demo_sync_value: "fst demo_sync = Inr demo_cursor"
  by code_simp

lemma demo_checked_value:
  "fst demo_checked = Inr ()" "wk_overlay (snd (snd demo_checked)) = [''m2'']"
  by code_simp+

lemma demo_sync_result: "demo_sync = (Inr demo_cursor, demo_config)"
proof -
  have "demo_sync = (Inr demo_cursor, snd demo_sync)" by (metis demo_sync_value prod.collapse)
  moreover from this have "snd demo_sync = demo_config"
    unfolding demo_sync_def demo_specs by (rule sync_value [THEN conjunct1])
  ultimately show ?thesis by simp
qed


theorem overlay_update_atomic_instance:
  "snd (update_device_overlay demo_inst
     [(''d1'', demo_spec ''d1'' True), (''d2'', (demo_spec ''d2'' True)\<lparr>device_class := ''broken''\<rparr>)]
     [''m1''] False demo_worker) = demo_worker"
proof -
  have l: "wk_lists demo_worker" by code_simp
  have w: "wf_dict [(''d1'', demo_spec ''d1'' True), (''d2'', (demo_spec ''d2'' True)\<lparr>device_class := ''broken''\<rparr>)]"
    by (simp add: wf_dict_def)
  show ?thesis
    using overlay_update_atomic [OF l w, of demo_inst "[''m1'']" False]
    by (auto simp: demo_inst_def demo_spec_def split: prod.splits)
qed

text \<open>
  The worker was loaded when only \<open>m1\<close> existed; \<open>m2\<close> is added; the synchronisation runs
  again; the check before the next plan then does nothing and the worker still lacks \<open>m2\<close>.
\<close>

definition demo_later :: config where
  "demo_later = snd (handle demo_models [] (demo_add 3 ''m2'') demo_config)"

definition demo_resync :: "(cs_error + sync_state) \<times> config" where
  "demo_resync = sync_devices_on_env_open demo_settings demo_models [] 4 [Fine] (\<lambda>n. ([Fine], [Fine]))
     (\<lambda>n. ([Fine], [Fine])) [Fine] [] [] (Some (get_specs True demo_config)) demo_later"

definition demo_recheck :: "(cs_error + unit) \<times> sync_state \<times> string worker" where
  "demo_recheck = check_staleness_before_plan demo_settings demo_inst [Fine] [Fine] True (snd demo_resync)
     (\<lparr>sy_cursor = 2, sy_epoch = Some (Some 0)\<rparr>, demo_worker)"

lemma demo_resync_value: "fst demo_resync = Inr \<lparr>sy_cursor = 2, sy_epoch = Some (Some 0)\<rparr>"
  by code_simp

lemma demo_recheck_value: "fst demo_recheck = Inr ()"
  by code_simp

lemma demo_recheck_misses:
  "get_device ''m2'' (cf_reg (snd demo_resync)) \<noteq> None \<and> ''m2'' \<notin> set (wk_overlay demo_worker)"
  by code_simp

theorem resync_skips_changes_instance:
  "snd demo_recheck = (\<lparr>sy_cursor = 2, sy_epoch = Some (Some 0)\<rparr>, demo_worker) \<and>
   get_device ''m2'' (cf_reg (snd demo_resync)) \<noteq> None \<and> ''m2'' \<notin> set (wk_overlay demo_worker)"
proof -
  have s: "sync_devices_on_env_open demo_settings demo_models [] 4 [Fine] (\<lambda>n. ([Fine], [Fine]))
     (\<lambda>n. ([Fine], [Fine])) [Fine] [] [] (Some (get_specs True demo_config)) demo_later =
     (Inr \<lparr>sy_cursor = 2, sy_epoch = Some (Some 0)\<rparr>, snd demo_resync)"
    using demo_resync_value by (simp add: demo_resync_def prod_eq_iff)
  have c: "check_staleness_before_plan demo_settings demo_inst [Fine] [Fine] True (snd demo_resync)
     (\<lparr>sy_cursor = 2, sy_epoch = Some (Some 0)\<rparr>, demo_worker) = (Inr (), snd demo_recheck)"
    using demo_recheck_value by (simp add: demo_recheck_def prod_eq_iff)
  show ?thesis using resync_skips_changes [OF s c] demo_recheck_misses by simp
qed

text \<open>A bootstrap over a bad network: one answer is lost, one request fails in the first pass.\<close>

definition demo_data :: device_data where
  "demo_data = [(''m1'', demo_device ''m1'' [], Some (demo_spec ''m1'' True)),
     (''m2'', demo_device ''m2'' [], Some (demo_spec ''m2'' True))]"

definition demo_net :: "string \<Rightarrow> net list \<times> net list" where
  "demo_net n = (if n = ''m1'' then ([Lost_reply, Fine], [Fine]) else ([Broken_request], [Fine]))"

definition demo_boot :: "(cs_error + unit) \<times> config" where
  "demo_boot = bootstrap_with_retry demo_settings demo_models [] 1 demo_net
     (\<lambda>n. ([Lost_request, Fine], [Fine])) demo_data demo_start"

lemma demo_boot_value: "fst demo_boot = Inr ()"
  by code_simp

theorem bootstrap_complete_instance:
  "list_all (\<lambda>(n, d, sp). get_device (dev_name d) (cf_reg (snd demo_boot)) \<noteq> None) demo_data"
proof -
  have "bootstrap_with_retry demo_settings demo_models [] 1 demo_net
     (\<lambda>n. ([Lost_request, Fine], [Fine])) demo_data demo_start = (Inr (), snd demo_boot)"
    using demo_boot_value by (simp add: demo_boot_def prod_eq_iff)
  then show ?thesis by (rule bootstrap_complete)
qed

end
