(* ===== verification/CoordDemo.thy ===== *)
theory CoordDemo
  imports CoordLoss OverlayDemo
begin

text \<open>Concrete sessions in which the hypotheses of the lock coordination properties hold.\<close>

section \<open>Locks around a plan\<close>

definition demo_coord :: coord where
  "demo_coord = new_coord ''u1''"

definition demo_locking :: "(cs_error + unit) \<times> cstate" where
  "demo_locking = lock_devices_for_plan demo_settings [Fine] [Fine] [Lost_request, Fine] 5
     [''m1'', ''zz''] ''a'' ''scan'' (demo_coord, demo_config)"

lemma demo_locking_values:
  "fst demo_locking = Inr ()" "co_devices (fst (snd demo_locking)) = [''m1'']"
  "co_locked_item (fst (snd demo_locking)) = ''a''" "lm_ttl (cf_locks (snd (snd demo_locking))) = 10"
  by code_simp+

definition demo_others :: "(rat \<times> lock_op) list" where
  "demo_others = [(6, Acquire [''m1''] ''b'' ''count'' ''qs'' (cf_reg demo_config)),
     (7, Renew [''m1''] ''b''), (8, Release [''m1''] ''b'')]"

theorem plan_starts_locked_instance:
  "\<exists>l. get_device_lock ''m1'' 14 (fold run_lock demo_others (cf_locks (snd (snd demo_locking)))) = Some l \<and>
       lk_item l = ''a''"
proof -
  have eq: "lock_devices_for_plan demo_settings [Fine] [Fine] [Lost_request, Fine] 5
     [''m1'', ''zz''] ''a'' ''scan'' (demo_coord, demo_config) =
     (Inr (), (fst (snd demo_locking), snd (snd demo_locking)))"
    using demo_locking_values(1) by (simp add: demo_locking_def prod_eq_iff)
  have en: "sg_enabled demo_settings" by (simp add: demo_settings_def)
  have ok: "co_ok demo_coord" by (simp add: co_ok_def demo_coord_def new_coord_def)
  have item: "''a'' \<noteq> []" and d: "''m1'' \<in> set (co_devices (fst (snd demo_locking)))"
    by (simp_all add: demo_locking_values)
  have tr: "list_all (\<lambda>(t1, req). 5 \<le> t1 \<and> (lm_ttl (cf_locks (snd (snd demo_locking))) \<le> 0 \<or>
      t1 < 5 + lm_ttl (cf_locks (snd (snd demo_locking)))) \<and> \<not> may_end ''m1'' ''a'' req) demo_others"
    by (simp add: demo_locking_values demo_others_def)
  have now: "lm_ttl (cf_locks (snd (snd demo_locking))) \<le> 0 \<or> 14 < 5 + lm_ttl (cf_locks (snd (snd demo_locking)))"
    by (simp add: demo_locking_values)
  show ?thesis
    using plan_starts_locked [OF eq en ok item d tr now] by (elim conjE)
qed

theorem release_settles_or_keeps_instance:
  "co_devices (fst (snd (unlock_devices_co demo_settings [Gateway, Fine] 6 False
      (fst (snd demo_locking), snd (snd demo_locking))))) = []"
proof -
  have en: "sg_enabled demo_settings" by (simp add: demo_settings_def)
  have "fst (unlock_devices_co demo_settings [Gateway, Fine] 6 False
      (fst (snd demo_locking), snd (snd demo_locking))) = Inr ()" by code_simp
  then show ?thesis
    using release_settles_or_keeps [OF en, where net = "[Gateway, Fine]" and t = 6
        and co = "fst (snd demo_locking)" and c = "snd (snd demo_locking)" and ?t2.0 = 6]
    by (auto split: prod.splits sum.splits)
qed

theorem restart_recovers_locks_instance:
  "list_all (\<lambda>n. case get_device_lock n 6 (cf_locks (snd (lock_with_restart_recovery demo_settings
       [Fine] [Fine] [Fine] 6 [''m1''] ''env:u2'' ''__environment__'' (snd (snd demo_locking))))) of None \<Rightarrow> False
     | Some l \<Rightarrow> lk_item l = ''env:u2'') [''m1'']"
proof -
  have a: "list_all (\<lambda>n. case get_instantiation_spec n (cf_reg (snd (snd demo_locking))) of None \<Rightarrow> False
      | Some sp \<Rightarrow> active sp) [''m1'']" by code_simp
  have d: "list_all (\<lambda>n. get_device n (cf_reg (snd (snd demo_locking))) \<noteq> None) [''m1'']" by code_simp
  have n: "0 < sg_attempts demo_settings" by (simp add: demo_settings_def default_settings_def)
  show ?thesis
    using restart_recovers_locks [OF a d n, where t = 6 and item = "''env:u2''" and plan = "''__environment__''"]
    by (simp only: split_beta split: sum.splits)
qed

section \<open>The heartbeat\<close>

theorem two_missed_ticks_lapse_instance:
  "get_device_lock ''m1'' (0 + 3 * heartbeat_interval 10)
     (snd (acquire_locks [''m1''] ''a'' ''scan'' ''qs'' demo_registry 0 demo_locks)) = None"
proof -
  have "lm_ttl demo_locks = 10" by (simp add: demo_locks_def new_lock_mgr_def)
  then show ?thesis
    using two_missed_ticks_lapse [OF demo_acquired, of "''m1''" 0] by (auto split: prod.splits)
qed

definition demo_holding :: coord where
  "demo_holding = demo_coord\<lparr>co_devices := [''m1''], co_locked_item := ''a'', co_plan := ''scan'',
     co_epoch := lm_epoch demo_locks, co_ttl := 10\<rparr>"

text \<open>What other clients request before the first tick, at ten thirds of a second.\<close>

definition demo_beat :: "(rat \<times> lock_op) list" where
  "demo_beat = [(1, Acquire [''m1'', ''m2''] ''b'' ''count'' ''qs'' demo_registry), (2, Renew [''m1''] ''b''),
     (3, Force [''m2''] demo_registry)]"

definition demo_held_config :: config where
  "demo_held_config = demo_config\<lparr>cf_locks := demo_held\<rparr>"

theorem heartbeat_keeps_lock_instance:
  "case fold (beat demo_settings) [demo_beat, [], []] (0, (demo_holding, demo_held_config)) of (t', (co', c')) \<Rightarrow>
     t' = 3 * heartbeat_interval 10 \<and>
     list_all (\<lambda>d. case get_device_lock d t' (cf_locks c') of None \<Rightarrow> False | Some l \<Rightarrow> lk_item l = ''a'') [''m1'']"
proof -
  have books: "co_devices demo_holding = [''m1'']" "co_locked_item demo_holding = ''a''" "co_ttl demo_holding = 10"
    by (simp_all add: demo_holding_def)
  have g: "lr_success (fst (acquire_locks (co_devices demo_holding) (co_locked_item demo_holding) ''scan'' ''qs''
      demo_registry 0 demo_locks))"
    using demo_acquired by (simp add: books)
  have c: "cf_locks demo_held_config = snd (acquire_locks (co_devices demo_holding) (co_locked_item demo_holding)
      ''scan'' ''qs'' demo_registry 0 demo_locks)"
    by (simp add: books demo_held_config_def demo_held_def)
  have w: "watching demo_settings demo_holding (cf_locks demo_held_config)" by code_simp
  have q: "quiet (heartbeat_interval (co_ttl demo_holding)) (co_devices demo_holding) (co_locked_item demo_holding) 0
      [demo_beat, [], []]"
    by (simp add: demo_beat_def books heartbeat_interval_def)
  show ?thesis
    using heartbeat_keeps_lock [OF g c w q] by (auto simp: books split_beta split: option.splits)
qed

text \<open>A new plan is locked while the tick of the old one awaits the renewal.\<close>

definition demo_next :: "coord \<Rightarrow> coord" where
  "demo_next co = co\<lparr>co_devices := [''m2''], co_locked_item := ''b'', co_plan := ''count''\<rparr>"

theorem stale_tick_abandons_instance:
  "fst (snd (heartbeat_once demo_settings [Fine] [Fine] 3 4 demo_next id (demo_holding, demo_held_config))) =
   demo_next demo_holding"
proof -
  have s: "heartbeat_snapshot demo_settings demo_holding =
      Some \<lparr>sn_devices = [''m1''], sn_item = ''a'', sn_plan = ''scan'', sn_epoch = lm_epoch demo_locks\<rparr>"
    by (simp add: heartbeat_snapshot_def demo_holding_def demo_settings_def)
  obtain r co' c' where tick: "heartbeat_once demo_settings [Fine] [Fine] 3 4 demo_next id
      (demo_holding, demo_held_config) = (r, (co', c'))" by (metis prod.exhaust)
  show ?thesis
    using stale_tick_abandons [OF s tick] by (simp add: tick demo_next_def)
qed

section \<open>Lost locks\<close>

theorem lost_answer_blocks_plan_instance:
  "fst (lock_devices_for_plan demo_settings [Fine] [Fine] [Lost_reply, Fine] 5 [''m1''] ''a'' ''scan''
     (demo_coord, demo_config)) = Inl Conflict_error"
proof -
  have en: "sg_enabled demo_settings" and at: "1 < sg_attempts demo_settings"
    by (simp_all add: demo_settings_def default_settings_def)
  have co: "co_locked_item demo_coord = []" and ne: "[''m1''] \<noteq> []"
    by (simp_all add: demo_coord_def new_coord_def)
  have act: "list_all (\<lambda>n. dget (get_specs True demo_config) n \<noteq> None) [''m1'']" by code_simp
  have ok: "lr_success (fst (acquire_locks [''m1''] ''a'' ''scan'' (sg_service demo_settings)
      (cf_reg demo_config) 5 (cf_locks demo_config)))" by code_simp
  show ?thesis
    using lost_answer_blocks_plan [OF en at co ne act ok, where netu = "[Fine]"] by (simp add: split_beta)
qed

definition demo_pair :: cstate where
  "demo_pair = snd (lock_devices_for_plan demo_settings [Fine] [Fine] [Fine] 4 [''m1'', ''m2''] ''a'' ''scan''
     (demo_coord, demo_later))"

definition demo_forced :: config where
  "demo_forced = snd (force_unlock_devices True 5 [''m1''] ''stuck'' (snd demo_pair))"

theorem partial_loss_forgets_locks_instance:
  "\<exists>k. get_device_lock ''m2'' 7 (cf_locks (snd (snd (heartbeat_once demo_settings [Fine] [Fine] 6 7 id id
       (fst demo_pair, demo_forced))))) = Some k \<and> lk_item k = ''a''"
proof -
  have books: "co_devices (fst demo_pair) = [''m1'', ''m2'']" "co_locked_item (fst demo_pair) = ''a''"
    by code_simp+
  have w: "watching demo_settings (fst demo_pair) (cf_locks demo_forced)" by code_simp
  have d1: "''m1'' \<in> set (co_devices (fst demo_pair))" and d2: "''m2'' \<in> set (co_devices (fst demo_pair))"
    by (simp_all add: books)
  have free: "\<not> is_device_locked ''m1'' 6 (cf_locks demo_forced)" by code_simp
  have "map_option lk_item (get_device_lock ''m2'' 6 (cf_locks demo_forced)) = Some ''a''" by code_simp
  then obtain l where l: "get_device_lock ''m2'' 6 (cf_locks demo_forced) = Some l"
      "lk_item l = co_locked_item (fst demo_pair)" by (auto simp: books)
  have ok: "list_all (\<lambda>n. \<not> missing_device (cf_reg demo_forced) n \<and> \<not> missing_spec (cf_reg demo_forced) n \<and>
      \<not> disabled_spec (cf_reg demo_forced) n) (co_devices (fst demo_pair))" by code_simp
  have t: "7 < 6 + lm_ttl (cf_locks demo_forced)" by code_simp
  show ?thesis
    using partial_loss_forgets_locks [OF w d1 free d2 l ok t] by (simp add: split_beta books)
qed

end
