(* ===== verification/Doubles.thy ===== *)
theory Doubles
  imports Prelude "HOL-Library.Log_Nat"
begin

text \<open>
  Python's \<open>float\<close> as far as the SQL queue store uses it: a finite double is the rational it
  denotes, an operation is the exact one followed by rounding to the nearest double (ties to
  even, gradual underflow). Overflow does not occur on the values used.
\<close>

section \<open>Rounding\<close>

text \<open>The exponent \<open>k\<close> with \<open>2 ^ k \<le> x < 2 ^ (k + 1)\<close>, for positive \<open>x\<close>.\<close>

definition binade :: "rat \<Rightarrow> int" where
  "binade x =
     (case quotient_of x of (p, q) \<Rightarrow>
        let k = bitlen p - bitlen q in if 2 powi k \<le> x then k else k - 1)"

definition ulp_exp :: "rat \<Rightarrow> int" where
  "ulp_exp x = max (binade \<bar>x\<bar> - 52) (-1074)"

definition round_even :: "rat \<Rightarrow> int" where
  "round_even x =
     (let n = \<lfloor>x\<rfloor>; d = x - of_int n in
      if d < 1 / 2 then n else if 1 / 2 < d then n + 1 else if even n then n else n + 1)"

definition fl :: "rat \<Rightarrow> rat" where
  "fl x = (if x = 0 then 0 else of_int (round_even (x / 2 powi (ulp_exp x))) * 2 powi (ulp_exp x))"

section \<open>Facts\<close>

lemma binade_bounds:
  assumes "0 < x"
  shows "2 powi (binade x) \<le> x" and "x < 2 powi (binade x + 1)"
proof -
  obtain p q where pq: "quotient_of x = (p, q)" by (cases "quotient_of x")
  have q: "0 < q" using quotient_of_denom_pos [OF pq] .
  have x: "x = of_int p / of_int q" using quotient_of_div [OF pq] .
  have p: "0 < p" using assms x q by (simp add: zero_less_divide_iff)
  let ?a = "bitlen p" and ?b = "bitlen q"
  have pos: "1 \<le> bitlen n" if "0 < n" for n using that by (simp add: bitlen_alt_def)
  have bound: "2 powi (bitlen n - 1) \<le> (of_int n :: rat)" "(of_int n :: rat) < 2 powi (bitlen n)" if "0 < n" for n
  proof -
    note b = bitlen_bounds [OF that]
    have "(of_int (2 ^ nat (bitlen n - 1)) :: rat) \<le> of_int n" "(of_int n :: rat) < of_int (2 ^ nat (bitlen n))"
      using b by (simp_all only: of_int_le_iff of_int_less_iff)
    then show "2 powi (bitlen n - 1) \<le> (of_int n :: rat)" "(of_int n :: rat) < 2 powi (bitlen n)"
      using pos [OF that] by (simp_all add: power_int_def)
  qed
  have up: "x < 2 powi (?a - ?b + 1)"
  proof -
    have "(of_int p :: rat) < 2 powi ?a" using bound p by simp
    also have "\<dots> = 2 powi (?a - ?b + 1) * 2 powi (?b - 1)" by (simp flip: power_int_add)
    also have "\<dots> \<le> 2 powi (?a - ?b + 1) * of_int q" using bound(1) [OF q] by (intro mult_left_mono) auto
    finally show ?thesis using q by (simp add: x divide_less_eq)
  qed
  have low: "2 powi (?a - ?b - 1) \<le> x"
  proof -
    have "2 powi (?a - ?b - 1) * (of_int q :: rat) \<le> 2 powi (?a - ?b - 1) * 2 powi ?b"
      using bound(2) [OF q] by (intro mult_left_mono) auto
    also have "\<dots> = 2 powi (?a - 1)" by (simp flip: power_int_add)
    also have "\<dots> \<le> of_int p" using bound p by simp
    finally show ?thesis using q by (simp add: x le_divide_eq)
  qed
  show "2 powi (binade x) \<le> x" "x < 2 powi (binade x + 1)"
    using up low by (auto simp: binade_def pq Let_def)
qed

lemma powi_less_iff: "(2 :: rat) powi a < 2 powi b \<longleftrightarrow> a < b"
  by (metis linorder_not_less one_less_numeral_iff power_int_increasing power_int_strict_increasing
      semiring_norm(76) less_imp_le)

lemma powi_le_iff: "(2 :: rat) powi a \<le> 2 powi b \<longleftrightarrow> a \<le> b"
  using powi_less_iff [of b a] by (simp flip: not_less)

lemma binade_mono: "0 < x \<Longrightarrow> x \<le> y \<Longrightarrow> binade x \<le> binade y"
proof -
  assume x: "0 < x" "x \<le> y"
  then have "2 powi (binade x) < (2 :: rat) powi (binade y + 1)"
    using binade_bounds(1) [of x] binade_bounds(2) [of y] by linarith
  then show ?thesis by (simp add: powi_less_iff)
qed

lemma binade_le: "0 < x \<Longrightarrow> x < 2 powi (k + 1) \<Longrightarrow> binade x \<le> k"
  using binade_bounds(1) [of x] powi_less_iff [of "binade x" "k + 1"] by linarith

lemma round_even_int [simp]: "round_even (of_int n) = n"
  by (simp add: round_even_def)

lemma round_even_mono: "x \<le> y \<Longrightarrow> round_even x \<le> round_even y"
proof -
  assume "x \<le> y"
  then have "\<lfloor>x\<rfloor> \<le> \<lfloor>y\<rfloor>" by (rule floor_mono)
  then consider "\<lfloor>x\<rfloor> = \<lfloor>y\<rfloor>" | "\<lfloor>x\<rfloor> + 1 \<le> \<lfloor>y\<rfloor>" by linarith
  then show ?thesis
  proof cases
    case 1
    with \<open>x \<le> y\<close> show ?thesis by (auto simp: round_even_def Let_def)
  next
    case 2
    then show ?thesis by (auto simp: round_even_def Let_def)
  qed
qed

lemma round_even_minus: "round_even (- x) = - round_even x"
proof (cases "x = of_int \<lfloor>x\<rfloor>")
  case True
  then have "- x = of_int (- \<lfloor>x\<rfloor>)" by simp
  then show ?thesis by (metis True round_even_int)
next
  case False
  have f: "\<lfloor>- x\<rfloor> = - \<lfloor>x\<rfloor> - 1"
    using False by (intro floor_unique) (auto simp: le_less, linarith+)
  show ?thesis by (auto simp: round_even_def Let_def f)
qed

lemma fl_minus: "fl (- x) = - fl x"
  by (simp add: fl_def ulp_exp_def round_even_minus)

lemma fl_zero [simp]: "fl 0 = 0"
  by (simp add: fl_def)

section \<open>Representable numbers\<close>

definition representable :: "rat \<Rightarrow> bool" where
  "representable x \<longleftrightarrow> (\<exists>m e. x = of_int m * 2 powi e \<and> \<bar>m\<bar> \<le> 2 ^ 53 \<and> -1074 \<le> e)"

lemma scaled: "0 \<le> d \<Longrightarrow> of_int m * 2 powi (e + d) / 2 powi e = (of_int (m * 2 ^ nat d) :: rat)"
proof -
  assume "0 \<le> d"
  then have "(2 :: rat) powi d = 2 ^ nat d" by (simp add: power_int_def)
  then show ?thesis by (simp add: power_int_add)
qed

lemma fl_scaled:
  assumes "ulp_exp x \<le> e" "x = of_int m * 2 powi e"
  shows "fl x = x"
proof -
  obtain d where d: "e = ulp_exp x + d" "0 \<le> d" using assms(1) by (metis add.commute add_diff_cancel diff_ge_0_iff_ge diff_add_cancel)
  have n: "x / 2 powi (ulp_exp x) = of_int (m * 2 ^ nat d)"
    using scaled [OF d(2), of m "ulp_exp x"] assms(2) d(1) by metis
  then have "of_int (m * 2 ^ nat d) * 2 powi (ulp_exp x) = x" by (metis nonzero_divide_eq_eq power_int_eq_0_iff zero_neq_numeral)
  then show ?thesis unfolding fl_def n round_even_int by simp
qed

lemma representable_fl:
  assumes "representable x"
  shows "fl x = x"
proof -
  obtain m e where m: "x = of_int m * 2 powi e" "\<bar>m\<bar> \<le> 2 ^ 53" "-1074 \<le> e"
    using assms by (auto simp: representable_def)
  show ?thesis
  proof (cases "m = 0")
    case False
    obtain m' e' where m': "x = of_int m' * 2 powi e'" "\<bar>m'\<bar> < 2 ^ 53" "-1074 \<le> e'" "m' \<noteq> 0"
    proof (cases "\<bar>m\<bar> < 2 ^ 53")
      case True
      then show ?thesis using that m False by blast
    next
      case eq: False
      then have "\<bar>m\<bar> = 2 ^ 53" using m(2) by simp
      then have "m = (if 0 \<le> m then 2 ^ 52 else - (2 ^ 52)) * 2" by auto
      then have "x = of_int ((if 0 \<le> m then 2 ^ 52 else - (2 ^ 52)) * 2) * 2 powi e" using m(1) by metis
      then have "x = of_int (if 0 \<le> m then 2 ^ 52 else - (2 ^ 52)) * 2 powi (e + 1)"
        by (simp add: power_int_add)
      then show ?thesis using that [of "if 0 \<le> m then 2 ^ 52 else - (2 ^ 52)" "e + 1"] m(3) by simp
    qed
    have "\<bar>x\<bar> = of_int \<bar>m'\<bar> * 2 powi e'" by (simp add: m'(1) abs_mult)
    also have "\<dots> < of_int (2 ^ 53) * 2 powi e'"
      using m'(2) by (intro mult_strict_right_mono) (simp_all only: of_int_less_iff, simp)
    also have "\<dots> = 2 powi (52 + e' + 1)"
    proof -
      have "(2 :: rat) powi (53 + e') = 2 ^ 53 * 2 powi e'" by (simp add: power_int_add)
      then show ?thesis by (simp add: add.commute)
    qed
    finally have "\<bar>x\<bar> < 2 powi (52 + e' + 1)" .
    moreover have "0 < \<bar>x\<bar>" using m' by simp
    ultimately have "binade \<bar>x\<bar> \<le> 52 + e'" by (intro binade_le)
    then have "ulp_exp x \<le> e'" using m'(3) by (simp add: ulp_exp_def)
    then show ?thesis using m'(1) by (rule fl_scaled)
  qed (simp add: m(1))
qed

lemma fl_representable: "representable (fl x)"
proof (cases "x = 0")
  case True
  then show ?thesis by (force simp: representable_def intro: exI [of _ "0 :: int"])
next
  case False
  let ?e = "ulp_exp x"
  have "\<bar>x\<bar> < 2 powi (binade \<bar>x\<bar> + 1)" using binade_bounds(2) [of "\<bar>x\<bar>"] False by simp
  also have "\<dots> \<le> 2 powi (?e + 53)" by (simp add: powi_le_iff ulp_exp_def)
  also have "\<dots> = of_int (2 ^ 53) * 2 powi ?e" by (simp add: power_int_add)
  finally have "\<bar>x / 2 powi ?e\<bar> < of_int (2 ^ 53)" by (simp add: abs_mult divide_less_eq)
  then have "- of_int (2 ^ 53) \<le> x / 2 powi ?e" "x / 2 powi ?e \<le> of_int (2 ^ 53)" by linarith+
  then have "round_even (of_int (- (2 ^ 53))) \<le> round_even (x / 2 powi ?e)"
    "round_even (x / 2 powi ?e) \<le> round_even (of_int (2 ^ 53))"
    by (intro round_even_mono; simp)+
  then have "\<bar>round_even (x / 2 powi ?e)\<bar> \<le> 2 ^ 53" by (simp only: round_even_int)
  then show ?thesis
    using False unfolding representable_def fl_def
    by (intro exI [of _ "round_even (x / 2 powi ?e)"] exI [of _ ?e]) (simp add: ulp_exp_def)
qed

lemma fl_fl [simp]: "fl (fl x) = fl x"
  by (simp add: representable_fl fl_representable)

lemma fl_int: "\<bar>n\<bar> \<le> 2 ^ 53 \<Longrightarrow> fl (of_int n) = of_int n"
  by (intro representable_fl)
    (simp add: representable_def, rule exI [of _ n], rule exI [of _ "0"], simp)

lemma fl_half: "\<bar>n\<bar> \<le> 2 ^ 53 \<Longrightarrow> fl (of_int n / 2) = of_int n / 2"
proof -
  assume n: "\<bar>n\<bar> \<le> 2 ^ 53"
  have "(2 :: rat) powi (-1) = 1 / 2" by (simp add: power_int_def)
  then have "of_int n / 2 = of_int n * (2 :: rat) powi (-1) \<and> \<bar>n\<bar> \<le> 2 ^ 53 \<and> -1074 \<le> (-1 :: int)"
    using n by simp
  then have "representable (of_int n / 2)" unfolding representable_def by blast
  then show ?thesis by (rule representable_fl)
qed

lemma fl_double: "fl x = x \<Longrightarrow> fl (2 * x) = 2 * x"
proof -
  assume "fl x = x"
  then obtain m e where "x = of_int m * 2 powi e" "\<bar>m\<bar> \<le> 2 ^ 53" "-1074 \<le> e"
    using fl_representable [of x] by (auto simp: representable_def)
  then have "2 * x = of_int m * 2 powi (e + 1) \<and> \<bar>m\<bar> \<le> 2 ^ 53 \<and> -1074 \<le> e + 1"
    by (simp add: power_int_add)
  then have "representable (2 * x)" unfolding representable_def by blast
  then show ?thesis by (rule representable_fl)
qed

lemma fl_mono_pos:
  assumes "0 < x" "x \<le> y"
  shows "fl x \<le> fl y"
proof -
  let ?a = "ulp_exp x" and ?b = "ulp_exp y"
  have le: "?a \<le> ?b" using assms binade_mono [of x y] by (simp add: ulp_exp_def)
  show ?thesis
  proof (cases "?a = ?b")
    case True
    then have "x / 2 powi ?a \<le> y / 2 powi ?a" using assms by (simp add: divide_right_mono)
    from round_even_mono [OF this] show ?thesis using assms True by (simp add: fl_def)
  next
    case False
    let ?B = "2 powi (?b + 52) :: rat"
    have b: "?b = binade y - 52" using le False assms by (simp add: ulp_exp_def max_def split: if_splits)
    have y: "?B \<le> y" using binade_bounds(1) [of y] assms b by simp
    have "binade x < binade y" using le False b assms by (simp add: ulp_exp_def max_def split: if_splits)
    then have "2 powi (binade x + 1) \<le> ?B" using b by (simp add: powi_le_iff)
    then have x: "x \<le> ?B" using binade_bounds(2) [OF assms(1)] by linarith
    have B: "?B / 2 powi e = of_int (2 ^ nat (?b + 52 - e))" if "e \<le> ?b + 52" for e
      using scaled [of "?b + 52 - e" 1 e] that by simp
    have "round_even (x / 2 powi ?a) \<le> round_even (?B / 2 powi ?a)"
      using x by (intro round_even_mono divide_right_mono) auto
    then have "(of_int (round_even (x / 2 powi ?a)) :: rat) \<le> ?B / 2 powi ?a"
      using le by (subst B) (simp_all only: B [of ?a] round_even_int of_int_le_iff)
    then have "fl x \<le> ?B" using assms by (simp add: fl_def le_divide_eq)
    moreover have "round_even (?B / 2 powi ?b) \<le> round_even (y / 2 powi ?b)"
      using y by (intro round_even_mono divide_right_mono) auto
    then have "?B / 2 powi ?b \<le> (of_int (round_even (y / 2 powi ?b)) :: rat)"
      by (subst B) (simp_all only: B [of ?b] round_even_int of_int_le_iff)
    then have "?B \<le> fl y" using assms by (simp add: fl_def divide_le_eq)
    ultimately show ?thesis by linarith
  qed
qed

lemma fl_nonneg: "0 \<le> x \<Longrightarrow> 0 \<le> fl x"
  using round_even_mono [of 0 "x / 2 powi (ulp_exp x)"] round_even_int [of 0] by (simp add: fl_def)

lemma fl_mono: "x \<le> y \<Longrightarrow> fl x \<le> fl y"
proof -
  assume le: "x \<le> y"
  consider "0 < x" | "x \<le> 0" "0 \<le> y" | "y < 0" by linarith
  then show ?thesis
  proof cases
    case 1
    then show ?thesis using le fl_mono_pos by blast
  next
    case 2
    then show ?thesis using fl_nonneg [of y] fl_nonneg [of "- x"] fl_minus [of x] by simp
  next
    case 3
    then show ?thesis using fl_mono_pos [of "- y" "- x"] le fl_minus [of x] fl_minus [of y] by simp
  qed
qed

end
