(* ===== verification/SqlStore.thy ===== *)
theory SqlStore
  imports QueueStore Doubles
begin

text \<open>
  The SQL backend of the queue storage (\<open>SqlQueueStore\<close> in \<open>manager/queue_store.py\<close>): a table
  of scalars and one table for all lists, whose rows carry a floating-point position. The
  database executes the statements of one call in a transaction; row ids are never reused.
\<close>

section \<open>Tables\<close>

record 'v row =
  row_id :: nat
  row_key :: string
  row_pos :: rat
  row_val :: 'v

record 'v sql =
  sq_kv :: "(string \<times> 'v) list"
  sq_rows :: "'v row list"
  sq_next :: nat

definition empty_sql :: "'v sql" where
  "empty_sql = \<lparr>sq_kv = [], sq_rows = [], sq_next = 1\<rparr>"

text \<open>\<open>_list_select\<close>: the rows of a list, ordered by position, then by id.\<close>

definition rows_of :: "string \<Rightarrow> 'v sql \<Rightarrow> 'v row list" where
  "rows_of k s = sort_key row_pos (sort_key row_id (filter (\<lambda>r. row_key r = k) (sq_rows s)))"

definition add_row :: "string \<Rightarrow> rat \<Rightarrow> 'v \<Rightarrow> 'v sql \<Rightarrow> 'v sql" where
  "add_row k p v s =
     s\<lparr>sq_rows := sq_rows s @ [\<lparr>row_id = sq_next s, row_key = k, row_pos = p, row_val = v\<rparr>],
       sq_next := Suc (sq_next s)\<rparr>"

definition drop_rows :: "('v row \<Rightarrow> bool) \<Rightarrow> 'v sql \<Rightarrow> 'v sql" where
  "drop_rows P s = s\<lparr>sq_rows := filter (\<lambda>r. \<not> P r) (sq_rows s)\<rparr>"

section \<open>Operations\<close>

definition sql_get :: "string \<Rightarrow> 'v sql \<Rightarrow> 'v option \<times> 'v sql" where
  "sql_get k s = (dget (sq_kv s) k, s)"

definition sql_set :: "string \<Rightarrow> 'v \<Rightarrow> 'v sql \<Rightarrow> unit \<times> 'v sql" where
  "sql_set k v s =
     ((), if k \<in> fst ` set (sq_kv s)
          then s\<lparr>sq_kv := map (\<lambda>(k', v'). (k', if k' = k then v else v')) (sq_kv s)\<rparr>
          else s\<lparr>sq_kv := sq_kv s @ [(k, v)]\<rparr>)"

definition sql_delete :: "string list \<Rightarrow> 'v sql \<Rightarrow> unit \<times> 'v sql" where
  "sql_delete ks s =
     ((), (drop_rows (\<lambda>r. row_key r \<in> set ks) s)\<lparr>sq_kv := filter (\<lambda>kv. fst kv \<notin> set ks) (sq_kv s)\<rparr>)"

definition sql_len :: "string \<Rightarrow> 'v sql \<Rightarrow> int \<times> 'v sql" where
  "sql_len k s = (int (length (filter (\<lambda>r. row_key r = k) (sq_rows s))), s)"

definition sql_range :: "string \<Rightarrow> int \<Rightarrow> int \<Rightarrow> 'v sql \<Rightarrow> 'v list \<times> 'v sql" where
  "sql_range k start stop s =
     (case resolve_range (fst (sql_len k s)) start stop of (a, b) \<Rightarrow>
        if a > b then [] else map row_val (take (nat (b - a + 1)) (drop (nat a) (rows_of k s))), s)"

definition sql_index :: "string \<Rightarrow> int \<Rightarrow> 'v sql \<Rightarrow> 'v option \<times> 'v sql" where
  "sql_index k i s =
     (let j = (if i < 0 then fst (sql_len k s) + i else i) in
      if j < 0 then None
      else (case take 1 (drop (nat j) (rows_of k s)) of [] \<Rightarrow> None | r # _ \<Rightarrow> Some (row_val r)), s)"

definition edge_pos :: "bool \<Rightarrow> string \<Rightarrow> 'v sql \<Rightarrow> rat option" where
  "edge_pos front k s =
     (case map row_pos (filter (\<lambda>r. row_key r = k) (sq_rows s)) of
        [] \<Rightarrow> None
      | p # ps \<Rightarrow> Some (if front then fold min ps p else fold max ps p))"

definition sql_push :: "bool \<Rightarrow> string \<Rightarrow> 'v \<Rightarrow> 'v sql \<Rightarrow> int \<times> 'v sql" where
  "sql_push front k v s =
     (let pos = (case edge_pos front k s of
                   None \<Rightarrow> 0 | Some e \<Rightarrow> if front then fl (e - 1) else fl (e + 1));
          t = add_row k pos v s
      in (fst (sql_len k t), t))"

definition sql_pop :: "bool \<Rightarrow> string \<Rightarrow> 'v sql \<Rightarrow> 'v option \<times> 'v sql" where
  "sql_pop front k s =
     (case (if front then rows_of k s else rev (rows_of k s)) of
        [] \<Rightarrow> (None, s)
      | r # _ \<Rightarrow> (Some (row_val r), drop_rows (\<lambda>q. row_id q = row_id r) s))"

text \<open>The index of the first row with a value.\<close>

fun pivot_index :: "'v \<Rightarrow> 'v row list \<Rightarrow> nat option" where
  "pivot_index v [] = None"
| "pivot_index v (r # rs) = (if row_val r = v then Some 0 else map_option Suc (pivot_index v rs))"

text \<open>The position \<open>list_insert\<close> computes first.\<close>

definition insert_pos :: "insert_where \<Rightarrow> nat \<Rightarrow> 'v row list \<Rightarrow> rat" where
  "insert_pos w i rs =
     (let p = row_pos (rs ! i) in
      case w of
        Before \<Rightarrow> if i = 0 then fl (p - 1) else fl (fl (p + row_pos (rs ! (i - 1))) / 2)
      | After \<Rightarrow> if Suc i < length rs then fl (fl (p + row_pos (rs ! Suc i)) / 2) else fl (p + 1))"

definition renumber :: "'v row list \<Rightarrow> 'v sql \<Rightarrow> 'v sql" where
  "renumber rs s =
     s\<lparr>sq_rows := map (\<lambda>r. case map_of (zip (map row_id rs) [0..<length rs]) (row_id r) of
                               None \<Rightarrow> r | Some i \<Rightarrow> r\<lparr>row_pos := of_nat i\<rparr>) (sq_rows s)\<rparr>"

definition sql_insert :: "string \<Rightarrow> insert_where \<Rightarrow> 'v \<Rightarrow> 'v \<Rightarrow> 'v sql \<Rightarrow> int \<times> 'v sql" where
  "sql_insert k w p v s =
     (let rs = rows_of k s in
      case pivot_index p rs of
        None \<Rightarrow> (-1, s)
      | Some i \<Rightarrow>
          let pos = insert_pos w i rs in
          (int (length rs) + 1,
           if pos \<in> row_pos ` set rs
           then add_row k (case w of Before \<Rightarrow> of_nat i - 1 / 2 | After \<Rightarrow> of_nat i + 1 / 2) v (renumber rs s)
           else add_row k pos v s))"

definition sql_remove :: "string \<Rightarrow> 'v \<Rightarrow> 'v sql \<Rightarrow> int \<times> 'v sql" where
  "sql_remove k v s =
     (int (length (filter (\<lambda>r. row_key r = k \<and> row_val r = v) (sq_rows s))),
      drop_rows (\<lambda>r. row_key r = k \<and> row_val r = v) s)"

definition row_less :: "'v row \<Rightarrow> 'v row \<Rightarrow> bool" where
  "row_less a b \<longleftrightarrow> row_pos a < row_pos b \<or> (row_pos a = row_pos b \<and> row_id a < row_id b)"

definition sql_trim :: "string \<Rightarrow> int \<Rightarrow> int \<Rightarrow> 'v sql \<Rightarrow> unit \<times> 'v sql" where
  "sql_trim k start stop s =
     (case resolve_range (fst (sql_len k s)) start stop of (a, b) \<Rightarrow>
        ((), if a > b then drop_rows (\<lambda>r. row_key r = k) s
             else let fst_row = rows_of k s ! nat a; last_row = rows_of k s ! nat b in
               drop_rows (\<lambda>r. row_key r = k \<and> (row_less r fst_row \<or> row_less last_row r)) s))"

section \<open>The invariant\<close>

text \<open>The contents the rows stand for.\<close>

definition sql_lists :: "'v sql \<Rightarrow> string \<Rightarrow> 'v list" where
  "sql_lists s k = map row_val (rows_of k s)"

definition sql_ok :: "'v sql \<Rightarrow> bool" where
  "sql_ok s \<longleftrightarrow>
     distinct (map row_id (sq_rows s)) \<and>
     (\<forall>r \<in> set (sq_rows s). row_id r < sq_next s \<and> fl (row_pos r) = row_pos r) \<and>
     (\<forall>r \<in> set (sq_rows s). \<forall>q \<in> set (sq_rows s).
        row_key r = row_key q \<longrightarrow> row_pos r = row_pos q \<longrightarrow> r = q) \<and>
     wf_dict (sq_kv s)"

text \<open>All lists have at most \<open>n\<close> rows, at positions of size at most \<open>n\<close>.\<close>

definition sql_within :: "nat \<Rightarrow> 'v sql \<Rightarrow> bool" where
  "sql_within n s \<longleftrightarrow>
     (\<forall>r \<in> set (sq_rows s). \<bar>row_pos r\<bar> \<le> of_nat n) \<and> (\<forall>k. length (rows_of k s) \<le> n)"

definition sql_fits :: "'v sql \<Rightarrow> string \<Rightarrow> bool" where
  "sql_fits s k \<longleftrightarrow> sql_within (2 ^ 52) s"

lemma set_rows_of [simp]: "set (rows_of k s) = {r \<in> set (sq_rows s). row_key r = k}"
  by (auto simp: rows_of_def)

lemma sorted_rows_of: "sorted (map row_pos (rows_of k s))"
  by (simp add: rows_of_def)

lemma distinct_rows_of: "sql_ok s \<Longrightarrow> distinct (rows_of k s)"
  by (simp add: rows_of_def sql_ok_def distinct_map)

lemma length_rows_of: "length (rows_of k s) = length (filter (\<lambda>r. row_key r = k) (sq_rows s))"
  by (simp add: rows_of_def)

lemma positions_distinct: "sql_ok s \<Longrightarrow> distinct (map row_pos (rows_of k s))"
  by (auto simp: distinct_map distinct_rows_of inj_on_def sql_ok_def)

lemma strict_rows_of: "sql_ok s \<Longrightarrow> sorted_wrt (<) (map row_pos (rows_of k s))"
  using sorted_rows_of positions_distinct by (auto simp: strict_sorted_iff)

text \<open>Any strictly ascending list of the rows of a key is the list of its rows.\<close>

lemma rows_ofI:
  assumes "sorted_wrt (<) (map row_pos rs)" "set rs = {r \<in> set (sq_rows s). row_key r = k}" "sql_ok s"
  shows "rows_of k s = rs"
proof -
  have "map row_pos (rows_of k s) = map row_pos rs"
    using assms by (intro sorted_distinct_set_unique sorted_rows_of positions_distinct)
      (auto simp: strict_sorted_iff)
  moreover have "inj_on row_pos (set (rows_of k s) \<union> set rs)"
    using assms by (auto simp: inj_on_def sql_ok_def)
  ultimately show ?thesis by (simp add: inj_on_map_eq_map)
qed

end
