(* ===== verification/SqlLaws.thy ===== *)
theory SqlLaws
  imports SqlStore
begin

text \<open>
  The SQL backend honours the contract of the queue storage: effects of inserting and deleting
  rows on the lists they stand for, and the interpretation of the interface.
\<close>

section \<open>Deleting rows\<close>

lemma drop_rows_ok: "sql_ok s \<Longrightarrow> sql_ok (drop_rows P s)"
  by (auto simp: sql_ok_def drop_rows_def distinct_map_filter)

lemma rows_of_drop: "sql_ok s \<Longrightarrow> rows_of k (drop_rows P s) = filter (\<lambda>r. \<not> P r) (rows_of k s)"
  by (intro rows_ofI)
    (auto simp: drop_rows_ok sorted_wrt_map sorted_wrt_filter strict_rows_of [unfolded sorted_wrt_map],
     auto simp: drop_rows_def)

lemma within_drop: "sql_ok s \<Longrightarrow> sql_within n s \<Longrightarrow> sql_within n (drop_rows P s)"
  by (auto simp: sql_within_def rows_of_drop intro: le_trans [OF length_filter_le])
    (auto simp: drop_rows_def)

lemma lists_drop:
  assumes "sql_ok s" "\<And>q. row_key q \<noteq> k \<Longrightarrow> \<not> P q"
  shows "sql_lists (drop_rows P s) = (sql_lists s)(k := map row_val (filter (\<lambda>r. \<not> P r) (rows_of k s)))"
proof
  fix q
  have "filter (\<lambda>r. \<not> P r) (rows_of q s) = rows_of q s" if "q \<noteq> k"
    using assms(2) that by (auto simp: filter_id_conv)
  then show "sql_lists (drop_rows P s) q =
      ((sql_lists s)(k := map row_val (filter (\<lambda>r. \<not> P r) (rows_of k s)))) q"
    by (simp add: sql_lists_def rows_of_drop assms(1))
qed

section \<open>Inserting rows\<close>

lemma add_row_ok:
  assumes "sql_ok s" "fl p = p" "p \<notin> row_pos ` set (rows_of k s)"
  shows "sql_ok (add_row k p v s)"
  using assms by (fastforce simp: sql_ok_def add_row_def)

lemma rows_of_add:
  assumes "sql_ok s" "fl p = p" "rows_of k s = as @ bs"
    and "\<forall>a \<in> set as. row_pos a < p" "\<forall>b \<in> set bs. p < row_pos b"
  shows "rows_of k (add_row k p v s) =
      as @ \<lparr>row_id = sq_next s, row_key = k, row_pos = p, row_val = v\<rparr> # bs"
    and "q \<noteq> k \<Longrightarrow> rows_of q (add_row k p v s) = rows_of q s"
    and "sql_ok (add_row k p v s)"
proof -
  let ?new = "\<lparr>row_id = sq_next s, row_key = k, row_pos = p, row_val = v\<rparr>"
  have "p \<notin> row_pos ` set (rows_of k s)" unfolding assms(3) using assms(4,5) by force
  from add_row_ok [OF assms(1,2) this] show ok: "sql_ok (add_row k p v s)" .
  have old: "set (as @ bs) = {r \<in> set (sq_rows s). row_key r = k}"
    unfolding assms(3) [symmetric] by (rule set_rows_of)
  have "{r \<in> set (sq_rows (add_row k p v s)). row_key r = k} =
      insert ?new {r \<in> set (sq_rows s). row_key r = k}"
    by (auto simp: add_row_def)
  then have members: "set (as @ ?new # bs) = {r \<in> set (sq_rows (add_row k p v s)). row_key r = k}"
    unfolding old [symmetric] by simp
  have "sorted_wrt (<) (map row_pos (as @ bs))" using strict_rows_of [OF assms(1), of k] assms(3) by simp
  then have "sorted_wrt (<) (map row_pos (as @ ?new # bs))"
    using assms(4,5) by (auto simp: sorted_wrt_append)
  from rows_ofI [OF this members ok] show "rows_of k (add_row k p v s) = as @ ?new # bs" .
  show "rows_of q (add_row k p v s) = rows_of q s" if "q \<noteq> k"
    using that by (auto simp: rows_of_def add_row_def)
qed

lemma lists_add:
  assumes "sql_ok s" "fl p = p" "rows_of k s = as @ bs"
    and "\<forall>a \<in> set as. row_pos a < p" "\<forall>b \<in> set bs. p < row_pos b"
  shows "sql_lists (add_row k p v s) = (sql_lists s)(k := map row_val as @ v # map row_val bs)"
  using rows_of_add [OF assms] by (auto simp: sql_lists_def fun_eq_iff)

lemma within_add:
  assumes "sql_ok s" "fl p = p" "p \<notin> row_pos ` set (rows_of k s)" "sql_within n s" "\<bar>p\<bar> \<le> of_nat (Suc n)"
  shows "sql_within (Suc n) (add_row k p v s)"
proof -
  have "length (rows_of q (add_row k p v s)) \<le> Suc (length (rows_of q s))" for q
    by (simp add: length_rows_of add_row_def)
  then show ?thesis
    using assms(4,5) by (auto simp: sql_within_def add_row_def intro: order_trans dest: bspec)
      (meson Suc_le_mono le_trans)
qed

section \<open>Positions\<close>

lemma fl_step:
  assumes "fl p = p" "\<bar>p\<bar> \<le> of_nat n" "n \<le> 2 ^ 52"
  shows "p < fl (p + 1)" "fl (p - 1) < p" "\<bar>fl (p + 1)\<bar> \<le> of_nat (Suc n)" "\<bar>fl (p - 1)\<bar> \<le> of_nat (Suc n)"
proof -
  have bnd: "- (2 ^ 52) \<le> p" "p \<le> 2 ^ 52"
  proof -
    have "(of_nat n :: rat) \<le> of_nat (2 ^ 52)" using assms(3) by (simp only: of_nat_le_iff)
    then have "(of_nat n :: rat) \<le> 2 ^ 52" by simp
    then show "- (2 ^ 52) \<le> p" "p \<le> 2 ^ 52" using assms(2) by linarith+
  qed
  have z: "fl (of_int z) = of_int z" if "\<bar>z\<bar> \<le> 2 ^ 52 + 1" for z
    using that by (intro fl_int) simp
  have fl: "\<bar>\<lfloor>p\<rfloor> + 1\<bar> \<le> 2 ^ 52 + 1" using bnd by (simp add: abs_le_iff) linarith
  have "of_int (\<lfloor>p\<rfloor> + 1) \<le> p + 1" by linarith
  from fl_mono [OF this] z [OF fl] have "of_int (\<lfloor>p\<rfloor> + 1) \<le> fl (p + 1)" by simp
  then show "p < fl (p + 1)" by linarith
  have ce: "\<bar>\<lceil>p\<rceil> - 1\<bar> \<le> 2 ^ 52 + 1" using bnd by (simp add: abs_le_iff) linarith
  have "p - 1 \<le> of_int (\<lceil>p\<rceil> - 1)" by linarith
  from fl_mono [OF this] z [OF ce] have "fl (p - 1) \<le> of_int (\<lceil>p\<rceil> - 1)" by simp
  then show "fl (p - 1) < p" by linarith
  have s: "fl (of_nat (Suc n)) = of_nat (Suc n)" "fl (- of_nat (Suc n)) = - of_nat (Suc n)"
    using z [of "int (Suc n)"] assms(3) by (simp_all add: fl_minus del: of_nat_Suc)
  have "- of_nat (Suc n) \<le> p + 1" "p + 1 \<le> of_nat (Suc n)" "- of_nat (Suc n) \<le> p - 1" "p - 1 \<le> of_nat (Suc n)"
    using assms(2) by auto
  from this [THEN fl_mono, unfolded s]
  show "\<bar>fl (p + 1)\<bar> \<le> of_nat (Suc n)" "\<bar>fl (p - 1)\<bar> \<le> of_nat (Suc n)" by auto
qed

lemma fl_middle:
  assumes "fl a = a" "fl b = b" "a \<le> b"
  shows "a \<le> fl (fl (a + b) / 2)" "fl (fl (a + b) / 2) \<le> b"
proof -
  have "fl (2 * a) \<le> fl (a + b)" "fl (a + b) \<le> fl (2 * b)" using assms(3) by (auto intro!: fl_mono)
  then have "2 * a \<le> fl (a + b)" "fl (a + b) \<le> 2 * b" using assms fl_double by auto
  then have "a \<le> fl (a + b) / 2" "fl (a + b) / 2 \<le> b" by auto
  from this [THEN fl_mono] assms show "a \<le> fl (fl (a + b) / 2)" "fl (fl (a + b) / 2) \<le> b" by auto
qed

section \<open>The operations\<close>

lemma sql_len_rows: "fst (sql_len k s) = int (length (rows_of k s))"
  by (simp add: sql_len_def length_rows_of)

lemma edge_pos_rows:
  assumes "sql_ok s"
  shows "edge_pos True k s = (case rows_of k s of [] \<Rightarrow> None | r # _ \<Rightarrow> Some (row_pos r))"
    and "edge_pos False k s = (case rev (rows_of k s) of [] \<Rightarrow> None | r # _ \<Rightarrow> Some (row_pos r))"
proof -
  let ?fs = "filter (\<lambda>r. row_key r = k) (sq_rows s)"
  have set: "set ?fs = set (rows_of k s)" by auto
  have sorted: "sorted (map row_pos (rows_of k s))" by (rule sorted_rows_of)
  have edge: "edge_pos front k s = (if rows_of k s = [] then None
      else Some (if front then Min (row_pos ` set (rows_of k s)) else Max (row_pos ` set (rows_of k s))))" for front
  proof (cases ?fs)
    case Nil
    then show ?thesis using set by (simp add: edge_pos_def del: set_rows_of)
  next
    case (Cons r rs)
    then have "rows_of k s \<noteq> []" using set by (metis list.set_intros(1) empty_iff list.set(1))
    moreover have "row_pos ` set (rows_of k s) = set (row_pos r # map row_pos rs)"
      using set Cons by (metis list.simps(9) set_map)
    moreover have "fold min (map row_pos rs) (row_pos r) = Min (set (row_pos r # map row_pos rs))"
      "fold max (map row_pos rs) (row_pos r) = Max (set (row_pos r # map row_pos rs))"
      by (rule Min.set_eq_fold [symmetric], rule Max.set_eq_fold [symmetric])
    ultimately show ?thesis by (simp add: edge_pos_def Cons del: set_rows_of)
  qed
  show "edge_pos True k s = (case rows_of k s of [] \<Rightarrow> None | r # _ \<Rightarrow> Some (row_pos r))"
  proof (cases "rows_of k s")
    case (Cons r rs)
    have "Min (row_pos ` set (r # rs)) = row_pos r"
      using sorted unfolding Cons by (intro Min_eqI) auto
    then show ?thesis by (simp add: edge Cons del: set_rows_of)
  qed (simp add: edge)
  show "edge_pos False k s = (case rev (rows_of k s) of [] \<Rightarrow> None | r # _ \<Rightarrow> Some (row_pos r))"
  proof (cases "rows_of k s" rule: rev_cases)
    case (snoc rs r)
    have "Max (row_pos ` set (rs @ [r])) = row_pos r"
      using sorted unfolding snoc by (intro Max_eqI) (auto simp: sorted_append)
    then show ?thesis by (simp add: edge snoc del: set_rows_of)
  qed (simp add: edge)
qed

lemma row_facts:
  assumes "sql_ok s" "sql_within n s" "r \<in> set (rows_of k s)"
  shows "fl (row_pos r) = row_pos r" "\<bar>row_pos r\<bar> \<le> of_nat n"
  using assms by (auto simp: sql_ok_def sql_within_def)

definition push_end :: "bool \<Rightarrow> 'v \<Rightarrow> 'v list \<Rightarrow> 'v list" where
  "push_end front v xs = (if front then v # xs else xs @ [v])"

lemma sql_push_effect:
  assumes ok: "sql_ok s" and w: "sql_within n s" and n: "n \<le> 2 ^ 52"
  shows "sql_ok (snd (sql_push front k v s))"
    and "sql_lists (snd (sql_push front k v s)) = (sql_lists s)(k := push_end front v (sql_lists s k))"
    and "fst (sql_push front k v s) = int (length (sql_lists s k)) + 1"
    and "sql_within (Suc n) (snd (sql_push front k v s))"
proof -
  define pos where "pos = (case edge_pos front k s of None \<Rightarrow> 0 | Some e \<Rightarrow> if front then fl (e - 1) else fl (e + 1))"
  obtain as bs where split: "rows_of k s = as @ bs" "as = (if front then [] else rows_of k s)"
      "bs = (if front then rows_of k s else [])" by auto
  have sorted: "sorted (map row_pos (rows_of k s))" by (rule sorted_rows_of)
  have fl: "fl pos = pos" by (auto simp: pos_def split: option.splits)
  have bound: "\<bar>pos\<bar> \<le> of_nat (Suc n)" and out: "\<forall>a \<in> set as. row_pos a < pos" "\<forall>b \<in> set bs. pos < row_pos b"
  proof -
    have "\<bar>pos\<bar> \<le> of_nat (Suc n) \<and> (\<forall>a \<in> set as. row_pos a < pos) \<and> (\<forall>b \<in> set bs. pos < row_pos b)"
    proof (cases "rows_of k s = []")
      case True
      then have "as = []" "bs = []" "pos = 0"
        using split(1) by (simp_all add: pos_def edge_pos_rows [OF ok] split: bool.splits) (cases front; simp add: edge_pos_rows [OF ok])
      then show ?thesis by simp
    next
      case False
      show ?thesis
      proof (cases front)
        case True
        obtain r rs where rows: "rows_of k s = r # rs" using False by (cases "rows_of k s") auto
        then have "r \<in> set (rows_of k s)" by (simp del: set_rows_of)
        note st = fl_step [OF row_facts [OF ok w this] n]
        have "pos = fl (row_pos r - 1)" by (simp add: pos_def True edge_pos_rows(1) [OF ok] rows)
        moreover have "as = []" "bs = r # rs" using split(2,3) True rows by simp_all
        moreover have "\<forall>b \<in> set rs. row_pos r \<le> row_pos b" using sorted rows by simp
        ultimately show ?thesis using st by force
      next
        case False
        obtain r rs where rows: "rows_of k s = rs @ [r]"
          using \<open>rows_of k s \<noteq> []\<close> by (cases "rows_of k s" rule: rev_cases) auto
        then have "r \<in> set (rows_of k s)" by (simp del: set_rows_of)
        note st = fl_step [OF row_facts [OF ok w this] n]
        have "pos = fl (row_pos r + 1)" by (simp add: pos_def False edge_pos_rows(2) [OF ok] rows)
        moreover have "as = rs @ [r]" "bs = []" using split(2,3) False rows by simp_all
        moreover have "\<forall>b \<in> set rs. row_pos b \<le> row_pos r" using sorted rows by (simp add: sorted_append)
        ultimately show ?thesis using st by force
      qed
    qed
    then show "\<bar>pos\<bar> \<le> of_nat (Suc n)" "\<forall>a \<in> set as. row_pos a < pos" "\<forall>b \<in> set bs. pos < row_pos b"
      by blast+
  qed
  have new: "pos \<notin> row_pos ` set (rows_of k s)" unfolding split(1) using out by force
  have eff: "snd (sql_push front k v s) = add_row k pos v s" by (simp add: sql_push_def pos_def Let_def)
  have len: "fst (sql_push front k v s) = int (length (rows_of k (add_row k pos v s)))"
    by (simp add: sql_push_def pos_def Let_def sql_len_rows)
  show "sql_ok (snd (sql_push front k v s))" unfolding eff by (rule rows_of_add(3) [OF ok fl split(1) out])
  show "sql_within (Suc n) (snd (sql_push front k v s))"
    unfolding eff by (rule within_add [OF ok fl new w bound])
  show "sql_lists (snd (sql_push front k v s)) = (sql_lists s)(k := push_end front v (sql_lists s k))"
    unfolding eff lists_add [OF ok fl split(1) out]
    using split by (auto simp: push_end_def sql_lists_def)
  show "fst (sql_push front k v s) = int (length (sql_lists s k)) + 1"
    unfolding len rows_of_add(1) [OF ok fl split(1) out] using split(1) by (simp add: sql_lists_def)
qed

lemma drop_by_id:
  assumes "sql_ok s" "rows_of k s = as @ r # bs"
  shows "sql_lists (drop_rows (\<lambda>q. row_id q = row_id r) s) = (sql_lists s)(k := map row_val (as @ bs))"
proof -
  have mem: "r \<in> set (rows_of k s)" unfolding assms(2) by simp
  have r: "r \<in> set (sq_rows s)" "row_key r = k" using mem by auto
  have same: "q = r" if "q \<in> set (sq_rows s)" "row_id q = row_id r" for q
    using assms(1) r that by (auto simp: sql_ok_def distinct_map inj_on_def)
  have d: "distinct (as @ r # bs)" using distinct_rows_of [OF assms(1), of k] assms(2) by simp
  have in_table: "set (as @ r # bs) \<subseteq> set (sq_rows s)" unfolding assms(2) [symmetric] by auto
  have "filter (\<lambda>q. row_id q \<noteq> row_id r) xs = xs" if "set xs \<subseteq> set (sq_rows s)" "r \<notin> set xs" for xs
    using same that by (subst filter_id_conv) blast
  from this [of as] this [of bs] have "filter (\<lambda>q. row_id q \<noteq> row_id r) (as @ r # bs) = as @ bs"
    using d in_table by simp
  then have here: "filter (\<lambda>q. row_id q \<noteq> row_id r) (rows_of k s) = as @ bs" by (simp only: assms(2))
  show ?thesis
  proof
    fix q
    have "filter (\<lambda>x. row_id x \<noteq> row_id r) (rows_of q s) = rows_of q s" if "q \<noteq> k"
      using same r that by (force simp: filter_id_conv)
    then show "sql_lists (drop_rows (\<lambda>q. row_id q = row_id r) s) q =
        ((sql_lists s)(k := map row_val (as @ bs))) q"
      by (simp add: sql_lists_def rows_of_drop assms(1) here)
  qed
qed

lemma sql_pop_effect:
  assumes ok: "sql_ok s"
  shows "sql_ok (snd (sql_pop front k s))"
    and "sql_lists (snd (sql_pop front k s)) =
      (sql_lists s)(k := (if front then tl (sql_lists s k) else butlast (sql_lists s k)))"
    and "fst (sql_pop front k s) = (if sql_lists s k = [] then None
      else Some (if front then hd (sql_lists s k) else last (sql_lists s k)))"
    and "sql_within n s \<Longrightarrow> sql_within n (snd (sql_pop front k s))"
proof -
  have "sql_ok (snd (sql_pop front k s)) \<and>
    sql_lists (snd (sql_pop front k s)) =
      (sql_lists s)(k := (if front then tl (sql_lists s k) else butlast (sql_lists s k))) \<and>
    fst (sql_pop front k s) = (if sql_lists s k = [] then None
      else Some (if front then hd (sql_lists s k) else last (sql_lists s k))) \<and>
    (sql_within n s \<longrightarrow> sql_within n (snd (sql_pop front k s)))"
  proof (cases "rows_of k s = []")
    case True
    then show ?thesis using ok by (auto simp: sql_pop_def sql_lists_def fun_eq_iff)
  next
    case False
    show ?thesis
    proof (cases front)
      case True
      obtain r rs where rows: "rows_of k s = r # rs" using False by (cases "rows_of k s") auto
      then have "rows_of k s = [] @ r # rs" by simp
      from drop_by_id [OF ok this] show ?thesis
        using True rows ok by (auto simp: sql_pop_def drop_rows_ok within_drop) (simp_all add: sql_lists_def rows)
    next
      case front: False
      obtain r rs where rows: "rows_of k s = rs @ [r]"
        using False by (cases "rows_of k s" rule: rev_cases) auto
      then have "rows_of k s = rs @ r # []" by simp
      from drop_by_id [OF ok this] show ?thesis
        using front rows ok by (auto simp: sql_pop_def drop_rows_ok within_drop) (simp_all add: sql_lists_def rows)
    qed
  qed
  then show "sql_ok (snd (sql_pop front k s))"
    and "sql_lists (snd (sql_pop front k s)) =
      (sql_lists s)(k := (if front then tl (sql_lists s k) else butlast (sql_lists s k)))"
    and "fst (sql_pop front k s) = (if sql_lists s k = [] then None
      else Some (if front then hd (sql_lists s k) else last (sql_lists s k)))"
    and "sql_within n s \<Longrightarrow> sql_within n (snd (sql_pop front k s))"
    by blast+
qed

lemma sql_remove_effect:
  assumes ok: "sql_ok s"
  shows "sql_ok (snd (sql_remove k v s))"
    and "sql_lists (snd (sql_remove k v s)) = (sql_lists s)(k := filter (\<lambda>x. x \<noteq> v) (sql_lists s k))"
    and "fst (sql_remove k v s) = int (length (filter (\<lambda>x. x = v) (sql_lists s k)))"
    and "sql_within n s \<Longrightarrow> sql_within n (snd (sql_remove k v s))"
proof -
  let ?P = "\<lambda>r. row_key r = k \<and> row_val r = v"
  have eff: "snd (sql_remove k v s) = drop_rows ?P s" by (simp add: sql_remove_def)
  show "sql_ok (snd (sql_remove k v s))" unfolding eff by (rule drop_rows_ok [OF ok])
  show "sql_within n s \<Longrightarrow> sql_within n (snd (sql_remove k v s))" unfolding eff by (rule within_drop [OF ok])
  have "filter (\<lambda>r. \<not> ?P r) (rows_of k s) = filter (\<lambda>r. row_val r \<noteq> v) (rows_of k s)"
    by (rule filter_cong) auto
  then show "sql_lists (snd (sql_remove k v s)) = (sql_lists s)(k := filter (\<lambda>x. x \<noteq> v) (sql_lists s k))"
    unfolding eff by (subst lists_drop [OF ok, of k]) (auto simp: sql_lists_def filter_map o_def)
  have "filter ?P (sq_rows s) = filter (\<lambda>r. row_val r = v) (filter (\<lambda>r. row_key r = k) (sq_rows s))"
    by (simp add: conj_commute)
  moreover have "length (filter (\<lambda>r. row_val r = v) (rows_of k s)) =
      length (filter (\<lambda>r. row_val r = v) (filter (\<lambda>r. row_key r = k) (sq_rows s)))"
    by (simp only: rows_of_def filter_sort length_sort)
  ultimately show "fst (sql_remove k v s) = int (length (filter (\<lambda>x. x = v) (sql_lists s k)))"
    by (simp add: sql_remove_def sql_lists_def filter_map o_def)
qed

end
