(* ===== verification/SqlInsert.thy ===== *)
theory SqlInsert
  imports SqlLaws
begin

text \<open>
  Insertion next to a pivot in the SQL backend: the midpoint of two positions, and the
  renumbering of the list when it coincides with one of them.
\<close>

section \<open>The place of the new row\<close>

definition insert_index :: "insert_where \<Rightarrow> nat \<Rightarrow> nat" where
  "insert_index w i = (case w of Before \<Rightarrow> i | After \<Rightarrow> Suc i)"

lemma pivot_index_bound: "pivot_index p rs = Some i \<Longrightarrow> i < length rs"
  by (induction rs arbitrary: i) (auto split: if_splits)

lemma pivot_index_None: "pivot_index p rs = None \<longleftrightarrow> insert_at_pivot w p v (map row_val rs) = None"
  by (induction rs) auto

lemma pivot_index_Some:
  "pivot_index p rs = Some i \<Longrightarrow>
   insert_at_pivot w p v (map row_val rs) =
     Some (take (insert_index w i) (map row_val rs) @ v # drop (insert_index w i) (map row_val rs))"
proof (induction rs arbitrary: i)
  case (Cons r rs)
  then show ?case
    by (cases w) (auto simp: insert_index_def split: if_splits)
qed simp

lemma between_sorted:
  assumes "sorted ps" "j \<le> length ps" "0 < j \<Longrightarrow> ps ! (j - 1) \<le> x" "j < length ps \<Longrightarrow> x \<le> ps ! j"
  shows "\<forall>a \<in> set (take j ps). a \<le> x" "\<forall>b \<in> set (drop j ps). x \<le> b"
proof -
  show "\<forall>a \<in> set (take j ps). a \<le> x"
  proof
    fix a assume "a \<in> set (take j ps)"
    then obtain m where "m < j" "a = ps ! m" using assms(2) by (auto simp: in_set_conv_nth)
    then show "a \<le> x" using assms sorted_nth_mono [OF assms(1), of m "j - 1"] by fastforce
  qed
  show "\<forall>b \<in> set (drop j ps). x \<le> b"
  proof
    fix b assume "b \<in> set (drop j ps)"
    then obtain m where m: "m < length ps - j" "b = ps ! (j + m)" by (auto simp: in_set_conv_nth)
    then show "x \<le> b" using assms(4) sorted_nth_mono [OF assms(1), of j "j + m"] by fastforce
  qed
qed

lemma insert_pos_between:
  assumes ok: "sql_ok s" and w: "sql_within n s" and n: "n \<le> 2 ^ 52"
    and i: "i < length (rows_of k s)"
  defines "rs \<equiv> rows_of k s"
  shows "\<forall>a \<in> set (take (insert_index wh i) rs). row_pos a \<le> insert_pos wh i rs"
    and "\<forall>b \<in> set (drop (insert_index wh i) rs). insert_pos wh i rs \<le> row_pos b"
    and "fl (insert_pos wh i rs) = insert_pos wh i rs"
    and "\<bar>insert_pos wh i rs\<bar> \<le> of_nat (Suc n)"
proof -
  let ?ps = "map row_pos rs" and ?j = "insert_index wh i" and ?x = "insert_pos wh i rs"
  have sorted: "sorted ?ps" unfolding rs_def by (rule sorted_rows_of)
  have row: "fl (row_pos (rs ! m)) = row_pos (rs ! m)" "\<bar>row_pos (rs ! m)\<bar> \<le> of_nat n" if "m < length rs" for m
    using row_facts [OF ok w, of "rs ! m" k] nth_mem [OF that] unfolding rs_def by blast+
  have le: "row_pos (rs ! m) \<le> row_pos (rs ! m')" if "m \<le> m'" "m' < length rs" for m m'
    using sorted_nth_mono [OF sorted, of m m'] that by simp
  have i': "i < length rs" using i by (simp add: rs_def)
  note st = fl_step [OF row [OF i'] n]
  have mid: "row_pos (rs ! m) \<le> fl (fl (row_pos (rs ! m) + row_pos (rs ! Suc m)) / 2)"
    "fl (fl (row_pos (rs ! m) + row_pos (rs ! Suc m)) / 2) \<le> row_pos (rs ! Suc m)" if "Suc m < length rs" for m
    using fl_middle [OF row(1) row(1) le, of m "Suc m"] that by auto
  have "?j \<le> length ?ps" using i' by (cases wh) (auto simp: insert_index_def)
  moreover have "?ps ! (?j - 1) \<le> ?x" if j: "0 < ?j"
  proof (cases wh)
    case Before
    then obtain m where "i = Suc m" using j by (cases i) (auto simp: insert_index_def)
    then show ?thesis using Before i' mid(1) [of m] by (simp add: insert_index_def insert_pos_def Let_def add.commute)
  next
    case After
    then show ?thesis using i' mid(1) [of i] st by (auto simp: insert_index_def insert_pos_def Let_def)
  qed
  moreover have "?x \<le> ?ps ! ?j" if "?j < length ?ps"
  proof (cases wh)
    case Before
    show ?thesis
    proof (cases i)
      case (Suc m)
      then show ?thesis using Before i' mid(2) [of m] by (simp add: insert_index_def insert_pos_def Let_def add.commute)
    qed (use Before i' st in \<open>auto simp: insert_index_def insert_pos_def Let_def\<close>)
  next
    case After
    then show ?thesis using that mid(2) [of i] by (auto simp: insert_index_def insert_pos_def Let_def)
  qed
  ultimately have bet: "\<forall>a \<in> set (take ?j ?ps). a \<le> ?x" "\<forall>b \<in> set (drop ?j ?ps). ?x \<le> b"
    by (intro between_sorted [OF sorted]; blast)+
  then show "\<forall>a \<in> set (take ?j rs). row_pos a \<le> ?x" "\<forall>b \<in> set (drop ?j rs). ?x \<le> row_pos b"
    by (simp_all add: take_map drop_map)
  show "fl ?x = ?x" by (cases wh) (auto simp: insert_pos_def Let_def)
  have inner: "\<bar>fl (fl (row_pos (rs ! m) + row_pos (rs ! Suc m)) / 2)\<bar> \<le> of_nat (Suc n)" if "Suc m < length rs" for m
    using mid [OF that] row(2) [of m] row(2) [of "Suc m"] that by auto
  show "\<bar>?x\<bar> \<le> of_nat (Suc n)"
  proof (cases wh)
    case Before
    show ?thesis
    proof (cases i)
      case (Suc m)
      then show ?thesis using Before i' inner [of m] by (simp add: insert_pos_def Let_def add.commute)
    qed (use Before st in \<open>simp add: insert_pos_def Let_def\<close>)
  next
    case After
    then show ?thesis using i' inner [of i] st by (auto simp: insert_pos_def Let_def)
  qed
qed

section \<open>Renumbering\<close>

lemma renumbered:
  fixes s :: "'v sql"
  assumes ok: "sql_ok s" and len: "length (rows_of k s) \<le> 2 ^ 52"
  defines "rs \<equiv> rows_of k s"
  shows "rows_of k (renumber rs s) = map (\<lambda>i. (rs ! i)\<lparr>row_pos := of_nat i\<rparr>) [0..<length rs]"
    and "q \<noteq> k \<Longrightarrow> rows_of q (renumber rs s) = rows_of q s"
    and "sql_ok (renumber rs s)"
proof -
  let ?ids = "zip (map row_id rs) [0..<length rs]"
  define f :: "'v row \<Rightarrow> 'v row" where
    "f r = (case map_of ?ids (row_id r) of None \<Rightarrow> r | Some i \<Rightarrow> r\<lparr>row_pos := of_nat i\<rparr>)" for r
  have rows: "sq_rows (renumber rs s) = map f (sq_rows s)" "sq_next (renumber rs s) = sq_next s"
    "sq_kv (renumber rs s) = sq_kv s"
    by (simp_all add: renumber_def f_def)
  have mem: "set rs = {r \<in> set (sq_rows s). row_key r = k}" by (simp add: rs_def)
  have inj: "inj_on row_id (set (sq_rows s))" using ok by (simp add: sql_ok_def distinct_map)
  have ids: "distinct (map row_id rs)"
    using distinct_rows_of [OF ok, of k] inj mem by (auto simp: distinct_map rs_def intro: inj_on_subset)
  have nth: "f (rs ! i) = (rs ! i)\<lparr>row_pos := of_nat i\<rparr>" if "i < length rs" for i
    using map_of_zip_nth [of "map row_id rs" "[0..<length rs]" i] ids that by (simp add: f_def)
  have other: "f r = r" if "r \<in> set (sq_rows s)" "row_key r \<noteq> k" for r
  proof -
    have "row_id r \<notin> set (map row_id rs)" using inj that mem by (auto simp: inj_on_def)
    then have "map_of ?ids (row_id r) = None" by (subst map_of_zip_is_None) auto
    then show ?thesis by (simp only: f_def option.case)
  qed
  have key: "row_key (f r) = row_key r" "row_id (f r) = row_id r" for r by (auto simp: f_def split: option.splits)
  have fls: "fl (of_nat i) = of_nat i" if "i < length rs" for i
    using len that fl_int [of "int i"] by (simp add: rs_def)
  have image: "f r \<in> (\<lambda>i. (rs ! i)\<lparr>row_pos := of_nat i\<rparr>) ` {..<length rs}" if "r \<in> set (sq_rows s)" "row_key r = k" for r
  proof -
    have "r \<in> set rs" using that mem by simp
    then obtain i where "i < length rs" "r = rs ! i" by (auto simp: in_set_conv_nth)
    then show ?thesis using nth by auto
  qed
  have inside: "rs ! i \<in> set (sq_rows s) \<and> row_key (rs ! i) = k" if "i < length rs" for i
    using nth_mem [OF that] mem by simp
  show ok': "sql_ok (renumber rs s)"
    unfolding sql_ok_def rows
  proof (intro conjI ballI impI)
    show "distinct (map row_id (map f (sq_rows s)))"
      using ok key by (simp add: sql_ok_def o_def)
    fix r assume "r \<in> set (map f (sq_rows s))"
    then obtain r0 where r0: "r0 \<in> set (sq_rows s)" "r = f r0" by auto
    show "row_id r < sq_next s" using ok r0 key by (simp add: sql_ok_def)
    show "fl (row_pos r) = row_pos r"
    proof (cases "row_key r0 = k")
      case True
      then show ?thesis using image [OF r0(1)] fls r0(2) by auto
    next
      case False
      then show ?thesis using other r0 ok by (simp add: sql_ok_def)
    qed
    fix q assume "q \<in> set (map f (sq_rows s))" and same: "row_key r = row_key q" "row_pos r = row_pos q"
    then obtain q0 where q0: "q0 \<in> set (sq_rows s)" "q = f q0" by auto
    show "r = q"
    proof (cases "row_key r0 = k")
      case True
      then have "row_key q0 = k" using same r0 q0 key by simp
      then show ?thesis using image [OF r0(1) True] image [OF q0(1)] r0 q0 same(2) by auto
    next
      case False
      then have "row_key q0 \<noteq> k" using same r0 q0 key by simp
      then have "r0 = q0" using ok False same r0 q0 other by (auto simp: sql_ok_def)
      then show ?thesis using r0 q0 by simp
    qed
  qed (use ok in \<open>simp add: sql_ok_def\<close>)
  let ?new = "map (\<lambda>i. (rs ! i)\<lparr>row_pos := of_nat i\<rparr>) [0..<length rs]"
  have "set ?new = {r \<in> set (sq_rows (renumber rs s)). row_key r = k}"
  proof
    show "set ?new \<subseteq> {r \<in> set (sq_rows (renumber rs s)). row_key r = k}"
    proof
      fix r assume "r \<in> set ?new"
      then obtain i where i: "i < length rs" "r = (rs ! i)\<lparr>row_pos := of_nat i\<rparr>" by auto
      then have "r = f (rs ! i)" using nth by simp
      then show "r \<in> {r \<in> set (sq_rows (renumber rs s)). row_key r = k}"
        unfolding rows using inside [OF i(1)] by (auto simp: key)
    qed
    show "{r \<in> set (sq_rows (renumber rs s)). row_key r = k} \<subseteq> set ?new"
      unfolding rows using image key by fastforce
  qed
  moreover have "sorted_wrt (<) (map row_pos ?new)"
    by (auto simp: sorted_wrt_map sorted_wrt_iff_nth_less)
  ultimately show "rows_of k (renumber rs s) = ?new" using rows_ofI ok' by blast
  show "rows_of q (renumber rs s) = rows_of q s" if "q \<noteq> k"
  proof (rule rows_ofI [OF strict_rows_of [OF ok] _ ok'])
    show "set (rows_of q s) = {r \<in> set (sq_rows (renumber rs s)). row_key r = q}"
      unfolding rows using that other key by force
  qed
qed

lemma lists_renumber:
  assumes "sql_ok s" "length (rows_of k s) \<le> 2 ^ 52"
  shows "sql_lists (renumber (rows_of k s) s) = sql_lists s"
proof
  fix q
  have "map (\<lambda>i. row_val (rows_of k s ! i)) [0..<length (rows_of k s)] = map row_val (rows_of k s)"
    by (intro nth_equalityI) auto
  then show "sql_lists (renumber (rows_of k s) s) q = sql_lists s q"
    using renumbered [OF assms] by (cases "q = k") (simp_all add: sql_lists_def o_def)
qed

section \<open>The operation\<close>

lemma sql_insert_effect:
  fixes s :: "'v sql"
  assumes ok: "sql_ok s" and w: "sql_within n s" and n: "n \<le> 2 ^ 52"
  shows "sql_ok (snd (sql_insert k wh p v s)) \<and> sql_within (Suc n) (snd (sql_insert k wh p v s)) \<and>
    (case insert_at_pivot wh p v (sql_lists s k) of
       None \<Rightarrow> fst (sql_insert k wh p v s) = -1 \<and> sql_lists (snd (sql_insert k wh p v s)) = sql_lists s
     | Some ys \<Rightarrow> fst (sql_insert k wh p v s) = int (length ys) \<and>
         sql_lists (snd (sql_insert k wh p v s)) = (sql_lists s)(k := ys))"
proof (cases "pivot_index p (rows_of k s)")
  case None
  moreover have "sql_within (Suc n) s" using w by (fastforce simp: sql_within_def intro: order_trans)
  ultimately show ?thesis
    using ok pivot_index_None [of p "rows_of k s" wh v] by (simp add: sql_insert_def sql_lists_def)
next
  case (Some i)
  let ?rs = "rows_of k s" and ?j = "insert_index wh i"
  have i: "i < length ?rs" using pivot_index_bound [OF Some] .
  have len: "length ?rs \<le> n" "length ?rs \<le> 2 ^ 52" using w n by (auto simp: sql_within_def intro: order_trans)
  define pos where "pos = insert_pos wh i ?rs"
  note bet = insert_pos_between [OF ok w n i, of wh, folded pos_def]
  have ys: "insert_at_pivot wh p v (sql_lists s k) =
      Some (take ?j (sql_lists s k) @ v # drop ?j (sql_lists s k))"
    using pivot_index_Some [OF Some] by (simp add: sql_lists_def)
  have fst: "fst (sql_insert k wh p v s) = int (length ?rs) + 1"
    by (simp add: sql_insert_def Some Let_def)
  have goal: ?thesis if "sql_ok t" "sql_within (Suc n) t" "snd (sql_insert k wh p v s) = t"
      "sql_lists t = (sql_lists s)(k := take ?j (sql_lists s k) @ v # drop ?j (sql_lists s k))" for t
    using that fst by (simp add: ys) (simp add: sql_lists_def)
  show ?thesis
  proof (cases "pos \<in> row_pos ` set ?rs")
    case False
    have strict: "\<forall>a \<in> set (take ?j ?rs). row_pos a < pos" "\<forall>b \<in> set (drop ?j ?rs). pos < row_pos b"
      using bet(1,2) False by (metis image_eqI in_set_takeD in_set_dropD le_less)+
    have split: "?rs = take ?j ?rs @ drop ?j ?rs" by simp
    show ?thesis
    proof (rule goal)
      show "snd (sql_insert k wh p v s) = add_row k pos v s"
        using False by (simp add: sql_insert_def Some Let_def pos_def del: set_rows_of)
      show "sql_ok (add_row k pos v s)" by (rule rows_of_add(3) [OF ok bet(3) split strict])
      show "sql_within (Suc n) (add_row k pos v s)" by (rule within_add [OF ok bet(3) False w bet(4)])
      show "sql_lists (add_row k pos v s) = (sql_lists s)(k := take ?j (sql_lists s k) @ v # drop ?j (sql_lists s k))"
        using lists_add [OF ok bet(3) split strict] by (simp add: sql_lists_def take_map drop_map)
    qed
  next
    case True
    let ?t = "renumber ?rs s"
    let ?p = "(case wh of Before \<Rightarrow> of_nat i - 1 / 2 | After \<Rightarrow> of_nat i + 1 / 2) :: rat"
    note ren = renumbered [OF ok len(2)]
    have rt: "rows_of k ?t = map (\<lambda>m. (?rs ! m)\<lparr>row_pos := of_nat m\<rparr>) [0..<length ?rs]" by (rule ren(1))
    have fl: "fl ?p = ?p"
    proof -
      have "?p = of_int (case wh of Before \<Rightarrow> 2 * int i - 1 | After \<Rightarrow> 2 * int i + 1) / 2"
        by (simp split: insert_where.split)
      also have "fl \<dots> = \<dots>" using i len(2) by (intro fl_half) (auto split: insert_where.split)
      finally show ?thesis by simp
    qed
    have split: "rows_of k ?t = take ?j (rows_of k ?t) @ drop ?j (rows_of k ?t)" by simp
    have strict: "\<forall>a \<in> set (take ?j (rows_of k ?t)). row_pos a < ?p"
      "\<forall>b \<in> set (drop ?j (rows_of k ?t)). ?p < row_pos b"
      unfolding rt using i
      by (cases wh; auto simp: insert_index_def take_map drop_map simp del: upt_Suc)+
    have new: "?p \<notin> row_pos ` set (rows_of k ?t)" using strict by (subst split) (auto simp del: append_take_drop_id)
    have w': "sql_within n ?t"
    proof -
      have "length (rows_of q ?t) \<le> n" for q
        using ren(1,2) len w by (cases "q = k") (auto simp: sql_within_def)
      moreover have "\<bar>row_pos r\<bar> \<le> of_nat n" if "r \<in> set (sq_rows ?t)" for r
      proof (cases "row_key r = k")
        case True
        then have "r \<in> set (rows_of k ?t)" using that by simp
        then obtain m where "m < length ?rs" "row_pos r = of_nat m" unfolding rt by auto
        then show ?thesis using len(1) by simp
      next
        case False
        then have "r \<in> set (rows_of (row_key r) s)" using that ren(2) [of "row_key r"] by (metis (mono_tags, lifting) mem_Collect_eq set_rows_of)
        then show ?thesis using w by (simp add: sql_within_def)
      qed
      ultimately show ?thesis by (simp add: sql_within_def)
    qed
    have bound: "\<bar>?p\<bar> \<le> of_nat (Suc n)"
    proof -
      have "(of_nat i :: rat) \<le> of_nat n" using i len(1) by simp
      moreover have "(0 :: rat) \<le> of_nat i" by simp
      ultimately have "\<bar>of_nat i - 1 / 2 :: rat\<bar> \<le> of_nat n + 1" "\<bar>of_nat i + 1 / 2 :: rat\<bar> \<le> of_nat n + 1"
        by linarith+
      then show ?thesis by (cases wh) simp_all
    qed
    show ?thesis
    proof (rule goal)
      show "snd (sql_insert k wh p v s) = add_row k ?p v ?t"
        using True by (simp add: sql_insert_def Some Let_def pos_def del: set_rows_of)
      show "sql_ok (add_row k ?p v ?t)" by (rule rows_of_add(3) [OF ren(3) fl split strict])
      show "sql_within (Suc n) (add_row k ?p v ?t)" by (rule within_add [OF ren(3) fl new w' bound])
      have same: "sql_lists ?t = sql_lists s" by (rule lists_renumber [OF ok len(2)])
      then have "map row_val (rows_of k ?t) = sql_lists s k" by (metis sql_lists_def)
      then show "sql_lists (add_row k ?p v ?t) = (sql_lists s)(k := take ?j (sql_lists s k) @ v # drop ?j (sql_lists s k))"
        unfolding lists_add [OF ren(3) fl split strict] same by (simp only: take_map [symmetric] drop_map [symmetric])
    qed
  qed
qed

end
