(* ===== verification/SqlRefines.thy ===== *)
theory SqlRefines
  imports SqlContract
begin

text \<open>
  Sessions of store operations: the SQL backend gives the same answers as the functional store
  the plan queue is verified with.
\<close>

section \<open>Sessions\<close>

fun session :: "('o \<Rightarrow> 's \<Rightarrow> 'r \<times> 's) \<Rightarrow> 'o list \<Rightarrow> 's \<Rightarrow> 'r list \<times> 's" where
  "session step [] s = ([], s)"
| "session step (c # cs) s =
     (case step c s of (r, t) \<Rightarrow> case session step cs t of (rs, u) \<Rightarrow> (r # rs, u))"

text \<open>
  A relation between the states of two machines, indexed by the number of steps so far, that
  one step of each preserves with equal answers, up to a bound.
\<close>

locale simulation =
  fixes astep :: "'o \<Rightarrow> 'a \<Rightarrow> 'r \<times> 'a"
    and cstep :: "'o \<Rightarrow> 'c \<Rightarrow> 'r \<times> 'c"
    and rel :: "nat \<Rightarrow> 'a \<Rightarrow> 'c \<Rightarrow> bool"
    and bound :: nat
  assumes simulates:
    "\<lbrakk>rel n a c; n \<le> bound\<rbrakk>
     \<Longrightarrow> fst (cstep x c) = fst (astep x a) \<and> rel (Suc n) (snd (astep x a)) (snd (cstep x c))"
begin

lemma sessions_agree:
  "\<lbrakk>rel n a c; n + length xs \<le> Suc bound\<rbrakk>
   \<Longrightarrow> fst (session cstep xs c) = fst (session astep xs a) \<and>
       rel (n + length xs) (snd (session astep xs a)) (snd (session cstep xs c))"
proof (induction xs arbitrary: n a c)
  case (Cons x xs)
  have "fst (cstep x c) = fst (astep x a) \<and> rel (Suc n) (snd (astep x a)) (snd (cstep x c))"
    using simulates [OF Cons.prems(1)] Cons.prems(2) by simp
  with Cons.IH [of "Suc n" "snd (astep x a)" "snd (cstep x c)"] Cons.prems(2)
  show ?case by (simp add: split_beta)
qed simp

end

section \<open>Store operations\<close>

datatype 'v store_op =
    Get string
  | Put string 'v
  | Delete_keys "string list"
  | Length_of string
  | Range_of string int int
  | Index_of string int
  | Push bool string 'v
  | Pop bool string
  | Insert_next string insert_where 'v 'v
  | Remove_all string 'v
  | Trim_to string int int

datatype 'v answer = Value "'v option" | Number int | Items "'v list" | Done

fun on_store :: "'v store_op \<Rightarrow> 'v store \<Rightarrow> 'v answer \<times> 'v store" where
  "on_store (Get k) s = apfst Value (store_get k s)"
| "on_store (Put k v) s = apfst (\<lambda>_. Done) (store_set k v s)"
| "on_store (Delete_keys ks) s = apfst (\<lambda>_. Done) (store_delete ks s)"
| "on_store (Length_of k) s = apfst Number (store_len k s)"
| "on_store (Range_of k i j) s = apfst Items (store_range k i j s)"
| "on_store (Index_of k i) s = apfst Value (store_index k i s)"
| "on_store (Push front k v) s = apfst Number (if front then store_push_front k v s else store_push_back k v s)"
| "on_store (Pop front k) s = apfst Value (if front then store_pop_front k s else store_pop_back k s)"
| "on_store (Insert_next k w p v) s = apfst Number (store_insert k w p v s)"
| "on_store (Remove_all k v) s = apfst Number (store_remove k v s)"
| "on_store (Trim_to k i j) s = apfst (\<lambda>_. Done) (store_trim k i j s)"

fun on_sql :: "'v store_op \<Rightarrow> 'v sql \<Rightarrow> 'v answer \<times> 'v sql" where
  "on_sql (Get k) s = apfst Value (sql_get k s)"
| "on_sql (Put k v) s = apfst (\<lambda>_. Done) (sql_set k v s)"
| "on_sql (Delete_keys ks) s = apfst (\<lambda>_. Done) (sql_delete ks s)"
| "on_sql (Length_of k) s = apfst Number (sql_len k s)"
| "on_sql (Range_of k i j) s = apfst Items (sql_range k i j s)"
| "on_sql (Index_of k i) s = apfst Value (sql_index k i s)"
| "on_sql (Push front k v) s = apfst Number (sql_push front k v s)"
| "on_sql (Pop front k) s = apfst Value (sql_pop front k s)"
| "on_sql (Insert_next k w p v) s = apfst Number (sql_insert k w p v s)"
| "on_sql (Remove_all k v) s = apfst Number (sql_remove k v s)"
| "on_sql (Trim_to k i j) s = apfst (\<lambda>_. Done) (sql_trim k i j s)"

definition sql_rel :: "nat \<Rightarrow> 'v store \<Rightarrow> 'v sql \<Rightarrow> bool" where
  "sql_rel n a s \<longleftrightarrow> sql_ok s \<and> sql_within n s \<and> st_lists a = sql_lists s \<and> st_kv a = dget (sq_kv s)"

lemma within_Suc: "sql_within n s \<Longrightarrow> sql_within (Suc n) s"
  unfolding sql_within_def
  by (meson le_SucI of_nat_le_iff order_trans lessI less_imp_le)

lemma sql_kv_frame:
  "sq_kv (snd (sql_push front k v s)) = sq_kv s" "sq_kv (snd (sql_pop front k s)) = sq_kv s"
  "sq_kv (snd (sql_insert k w p v s)) = sq_kv s" "sq_kv (snd (sql_remove k v s)) = sq_kv s"
  "sq_kv (snd (sql_trim k i j s)) = sq_kv s"
  by (auto simp: sql_push_def sql_pop_def sql_insert_def sql_remove_def sql_trim_def Let_def add_row_def
      drop_rows_def renumber_def split: list.split option.split prod.split)

lemma sql_set_effect:
  assumes "sql_ok s"
  shows "sql_ok (snd (sql_set k v s))" "dget (sq_kv (snd (sql_set k v s))) = (dget (sq_kv s))(k \<mapsto> v)"
    "sql_lists (snd (sql_set k v s)) = sql_lists s" "sql_within n (snd (sql_set k v s)) = sql_within n s"
proof -
  have rows: "sq_rows (snd (sql_set k v s)) = sq_rows s" "sq_next (snd (sql_set k v s)) = sq_next s"
    by (simp_all add: sql_set_def)
  have of: "rows_of q (snd (sql_set k v s)) = rows_of q s" for q by (simp add: rows_of_def rows)
  show "sql_lists (snd (sql_set k v s)) = sql_lists s" "sql_within n (snd (sql_set k v s)) = sql_within n s"
    by (simp_all add: sql_lists_def fun_eq_iff of sql_within_def rows)
  let ?m = "map (\<lambda>(k', v'). (k', if k' = k then v else v'))"
  have upd: "map fst (?m d) = map fst d" "q \<noteq> k \<Longrightarrow> dget (?m d) q = dget d q"
    "k \<in> fst ` set d \<Longrightarrow> dget (?m d) k = Some v" for d q
    by (induction d) auto
  have wf: "wf_dict (sq_kv s)" using assms by (simp add: sql_ok_def)
  have "wf_dict (sq_kv (snd (sql_set k v s)))"
    using wf upd(1) [of "sq_kv s"] by (auto simp: sql_set_def wf_dict_def simp del: map_map)
  then show "sql_ok (snd (sql_set k v s))" using assms by (simp add: sql_ok_def rows)
  show "dget (sq_kv (snd (sql_set k v s))) = (dget (sq_kv s))(k \<mapsto> v)"
  proof
    fix q
    show "dget (sq_kv (snd (sql_set k v s))) q = ((dget (sq_kv s))(k \<mapsto> v)) q"
    proof (cases "k \<in> fst ` set (sq_kv s)")
      case True
      then show ?thesis using upd(2,3) [where d = "sq_kv s"] by (simp add: sql_set_def)
    next
      case False
      then have "dget (sq_kv s) k = None" by (simp add: map_of_eq_None_iff)
      then show ?thesis using False by (simp add: sql_set_def map_add_def split: option.split)
    qed
  qed
qed

lemma sql_delete_effect:
  assumes "sql_ok s"
  shows "sql_ok (snd (sql_delete ks s))"
    "dget (sq_kv (snd (sql_delete ks s))) = (\<lambda>k. if k \<in> set ks then None else dget (sq_kv s) k)"
    "sql_lists (snd (sql_delete ks s)) = (\<lambda>k. if k \<in> set ks then [] else sql_lists s k)"
    "sql_within n s \<Longrightarrow> sql_within n (snd (sql_delete ks s))"
proof -
  let ?t = "drop_rows (\<lambda>r. row_key r \<in> set ks) s"
  have ok: "sql_ok ?t" by (rule drop_rows_ok [OF assms])
  have of: "rows_of q (snd (sql_delete ks s)) = rows_of q ?t" for q
    by (simp add: rows_of_def sql_delete_def)
  have "wf_dict (filter (\<lambda>kv. fst kv \<notin> set ks) (sq_kv s))"
    using assms by (simp add: sql_ok_def wf_filter)
  then show "sql_ok (snd (sql_delete ks s))" using ok by (simp add: sql_ok_def sql_delete_def)
  show "dget (sq_kv (snd (sql_delete ks s))) = (\<lambda>k. if k \<in> set ks then None else dget (sq_kv s) k)"
    by (simp add: sql_delete_def fun_eq_iff dget_filter_keys [of "\<lambda>k. k \<notin> set ks"])
  have "filter (\<lambda>r. row_key r \<notin> set ks) (rows_of q s) = (if q \<in> set ks then [] else rows_of q s)" for q
    by (auto simp: filter_empty_conv filter_id_conv)
  then show "sql_lists (snd (sql_delete ks s)) = (\<lambda>k. if k \<in> set ks then [] else sql_lists s k)"
    by (simp add: sql_lists_def of rows_of_drop [OF assms] fun_eq_iff)
  show "sql_within n s \<Longrightarrow> sql_within n (snd (sql_delete ks s))"
    using within_drop [OF assms, of n "\<lambda>r. row_key r \<in> set ks"] by (simp add: sql_within_def of) (simp add: sql_delete_def)
qed

lemma sql_step:
  assumes r: "sql_rel n a s" and n: "n \<le> 2 ^ 52"
  shows "fst (on_sql c s) = fst (on_store c a) \<and> sql_rel (Suc n) (snd (on_store c a)) (snd (on_sql c s))"
proof -
  have ok: "sql_ok s" and w: "sql_within n s" and l: "st_lists a = sql_lists s" and kv: "st_kv a = dget (sq_kv s)"
    using r by (simp_all add: sql_rel_def)
  have relI: "sql_rel (Suc n) a' s'"
    if "sql_ok s'" "sql_within n s' \<or> sql_within (Suc n) s'" "st_lists a' = sql_lists s'" "st_kv a' = dget (sq_kv s')" for a' s'
    using that within_Suc by (auto simp: sql_rel_def)
  show ?thesis
  proof (cases c)
    case (Get k)
    show ?thesis by (simp add: Get sql_get_def store_get_def kv relI ok w l)
  next
    case (Put k v)
    then show ?thesis
      using sql_set_effect(1-3) [OF ok, of k v] sql_set_effect(4) [OF ok, where n = n and k = k and v = v] w by (auto intro!: relI simp: store_set_def kv l)
  next
    case (Delete_keys ks)
    then show ?thesis
      using sql_delete_effect [OF ok, where ks = ks] w by (auto intro!: relI simp: store_delete_def kv l)
  next
    case (Length_of k)
    have "fst (sql_len k s) = fst (store_len k a)"
      by (simp add: sql_len_rows store_len_def l) (simp add: sql_lists_def)
    moreover have "snd (sql_len k s) = s" "snd (store_len k a) = a" by (simp_all add: sql_len_def store_len_def)
    ultimately show ?thesis by (simp add: Length_of relI ok w l kv)
  next
    case (Range_of k i j)
    have "snd (sql_range k i j s) = s" by (simp add: sql_range_def split: prod.split)
    then show ?thesis by (simp add: Range_of sql_range_value store_range_def relI ok w l kv)
  next
    case (Index_of k i)
    have "snd (sql_index k i s) = s" by (simp add: sql_index_def Let_def)
    then show ?thesis by (simp add: Index_of sql_index_value store_index_def relI ok w l kv)
  next
    case (Push front k v)
    then show ?thesis
      using sql_push_effect [OF ok w n, where front = front and k = k and v = v] sql_kv_frame(1) [of front k v s]
      by (auto intro!: relI simp: store_push_front_def store_push_back_def set_list_def push_end_def l kv)
  next
    case (Pop front k)
    then show ?thesis
      using sql_pop_effect [OF ok, where front = front and k = k] w sql_kv_frame(2) [of front k s]
      by (auto intro!: relI simp: store_pop_front_def store_pop_back_def set_list_def l kv split: list.split)
  next
    case (Insert_next k wh p v)
    then show ?thesis
      using sql_insert_effect [OF ok w n, of k wh p v] sql_kv_frame(3) [of k wh p v s]
      by (auto intro!: relI simp: store_insert_def set_list_def l kv split: option.splits)
  next
    case (Remove_all k v)
    then show ?thesis
      using sql_remove_effect [OF ok, where k = k and v = v] w sql_kv_frame(4) [of k v s]
      by (auto intro!: relI simp: store_remove_def set_list_def l kv)
  next
    case (Trim_to k i j)
    then show ?thesis
      using sql_trim_effect [OF ok, where k = k and x = i and y = j] w sql_kv_frame(5) [of k i j s]
      by (auto intro!: relI simp: store_trim_def set_list_def l kv)
  qed
qed

interpretation sql_sim: simulation on_store on_sql sql_rel "2 ^ 52"
  by unfold_locales (rule sql_step)

lemma sql_rel_empty: "sql_rel 0 empty_store empty_sql"
  by (simp add: sql_rel_def sql_ok_def sql_within_def empty_store_def empty_sql_def sql_lists_def rows_of_def
      wf_dict_def fun_eq_iff)

text \<open>
  C17: The SQL backend implements the storage contract. Over any session of at most \<open>2 ^ 52\<close>
  operations that starts with empty tables, it answers every read, push, pop, pivot insertion,
  removal and trim exactly as the functional store does, and its rows then stand for the same
  lists and scalars: rounding of positions and renumbering never change the order of a list.
\<close>

theorem sql_store_refines:
  fixes ops :: "'v store_op list"
  assumes "length ops \<le> 2 ^ 52"
  shows "case (session on_sql ops empty_sql, session on_store ops empty_store) of
     ((answers1, rows), (answers2, store)) \<Rightarrow>
       answers1 = answers2 \<and> sql_lists rows = st_lists store \<and> dget (sq_kv rows) = st_kv store"
  using sql_sim.sessions_agree [OF sql_rel_empty, of ops] assms
  by (simp add: sql_rel_def split_beta)

definition demo_session :: "string store_op list" where
  "demo_session = [Push False ''q'' ''a'', Push False ''q'' ''c'', Insert_next ''q'' Before ''c'' ''b'',
     Push True ''q'' ''z'', Pop False ''q'', Trim_to ''q'' 1 (-1), Range_of ''q'' 0 (-1)]"

theorem sql_store_refines_instance:
  "fst (session on_sql demo_session empty_sql) =
     [Number 1, Number 2, Number 3, Number 4, Value (Some ''c''), Done, Items [''a'', ''b'']]"
proof -
  have "length demo_session \<le> 2 ^ 52" by (simp add: demo_session_def)
  moreover have "fst (session on_store demo_session empty_store) =
     [Number 1, Number 2, Number 3, Number 4, Value (Some ''c''), Done, Items [''a'', ''b'']]"
    by code_simp
  ultimately show ?thesis using sql_store_refines [of demo_session] by (simp add: split_beta)
qed

end
