(* ===== verification/PvHealth.thy ===== *)
theory PvHealth
  imports DeviceRegistry
begin

text \<open>
  The health records the configuration service keeps of PVs (\<open>pv_health_manager.py\<close> and the
  endpoints under \<open>PV Health\<close> in \<open>main.py\<close>): direct control reports the outcome of every
  write, failures in a row make a PV degraded and then unresponsive, one success makes it
  healthy again, and an operator can clear records.
\<close>

section \<open>Records\<close>

datatype pv_health_state = HEALTHY | DEGRADED | UNRESPONSIVE

record pv_health =
  ph_name :: string
  ph_failures :: nat
  ph_failed_at :: "rat option"
  ph_message :: "string option"
  ph_success_at :: "rat option"

definition unresponsive_threshold :: nat where
  "unresponsive_threshold = 3"

definition health_state :: "pv_health \<Rightarrow> pv_health_state" where
  "health_state h =
     (if ph_failures h = 0 then HEALTHY
      else if ph_failures h < unresponsive_threshold then DEGRADED else UNRESPONSIVE)"

type_synonym health_store = "(string \<times> pv_health) list"

section \<open>The manager\<close>

definition record_failure :: "string \<Rightarrow> string option \<Rightarrow> rat \<Rightarrow> health_store \<Rightarrow> pv_health \<times> health_store" where
  "record_failure p msg now s =
     (let existing = dget s p;
          h = \<lparr>ph_name = p,
               ph_failures = (case existing of None \<Rightarrow> 0 | Some e \<Rightarrow> ph_failures e) + 1,
               ph_failed_at = Some now, ph_message = msg,
               ph_success_at = (case existing of None \<Rightarrow> None | Some e \<Rightarrow> ph_success_at e)\<rparr>
      in (h, dset p h s))"

definition record_success :: "string \<Rightarrow> rat \<Rightarrow> health_store \<Rightarrow> pv_health \<times> health_store" where
  "record_success p now s =
     (case dget s p of
        None \<Rightarrow> (\<lparr>ph_name = p, ph_failures = 0, ph_failed_at = None, ph_message = None,
                  ph_success_at = Some now\<rparr>, s)
      | Some e \<Rightarrow>
          let h = \<lparr>ph_name = p, ph_failures = 0, ph_failed_at = ph_failed_at e,
                   ph_message = ph_message e, ph_success_at = Some now\<rparr>
          in (h, dset p h s))"

definition get_health :: "string \<Rightarrow> health_store \<Rightarrow> pv_health option" where
  "get_health p s = dget s p"

definition get_health_many :: "string list \<Rightarrow> health_store \<Rightarrow> (string \<times> pv_health) list" where
  "get_health_many ps s =
     fold (\<lambda>p d. case dget s p of None \<Rightarrow> d | Some h \<Rightarrow> dset p h d) ps []"

definition clear_health :: "string \<Rightarrow> health_store \<Rightarrow> bool \<times> health_store" where
  "clear_health p s = (dhas s p, ddel p s)"

definition clear_all_health :: "health_store \<Rightarrow> nat \<times> health_store" where
  "clear_all_health s = (length s, [])"

definition snapshot_size :: "health_store \<Rightarrow> nat" where
  "snapshot_size s = length s"

definition health_stats :: "health_store \<Rightarrow> pv_health_state \<Rightarrow> nat" where
  "health_stats s st = length (filter (\<lambda>ph. health_state (snd ph) = st) s)"

definition tracked_pvs :: "(pv_health_state \<Rightarrow> nat) \<Rightarrow> nat" where
  "tracked_pvs by_state = by_state HEALTHY + by_state DEGRADED + by_state UNRESPONSIVE"

section \<open>Endpoints\<close>

definition report_pv_failure ::
    "registry \<Rightarrow> string \<Rightarrow> string option \<Rightarrow> rat \<Rightarrow> health_store \<Rightarrow> (int \<times> pv_health option) \<times> health_store" where
  "report_pv_failure r p msg now s =
     (if get_pv p r = None then ((404, None), s)
      else case record_failure p msg now s of (h, s') \<Rightarrow> ((200, Some h), s'))"

definition report_pv_success ::
    "registry \<Rightarrow> string \<Rightarrow> rat \<Rightarrow> health_store \<Rightarrow> (int \<times> pv_health option) \<times> health_store" where
  "report_pv_success r p now s =
     (if get_pv p r = None then ((404, None), s)
      else case record_success p now s of (h, s') \<Rightarrow> ((200, Some h), s'))"

definition get_pv_health :: "string \<Rightarrow> health_store \<Rightarrow> int \<times> pv_health option" where
  "get_pv_health p s = (case get_health p s of None \<Rightarrow> (404, None) | Some h \<Rightarrow> (200, Some h))"

definition clear_pv_health :: "string \<Rightarrow> health_store \<Rightarrow> nat \<times> health_store" where
  "clear_pv_health p s = (case clear_health p s of (removed, s') \<Rightarrow> (if removed then 1 else 0, s'))"

definition clear_all_pv_health :: "health_store \<Rightarrow> nat \<times> health_store" where
  "clear_all_pv_health s = clear_all_health s"

definition get_pv_health_stats :: "health_store \<Rightarrow> pv_health_state \<Rightarrow> nat" where
  "get_pv_health_stats s = health_stats s"

section \<open>Histories of reports\<close>

datatype health_event =
    Failure registry string "string option" rat
  | Success registry string rat
  | Clear_one string
  | Clear_every

fun on_health :: "health_event \<Rightarrow> health_store \<Rightarrow> health_store" where
  "on_health (Failure r p msg t) s = snd (report_pv_failure r p msg t s)"
| "on_health (Success r p t) s = snd (report_pv_success r p t s)"
| "on_health (Clear_one p) s = snd (clear_pv_health p s)"
| "on_health Clear_every s = snd (clear_all_pv_health s)"

text \<open>
  The outcomes of the writes to a PV since its record was last cleared, the latest first, as
  far as the PV was registered when they were reported.
\<close>

fun outcomes :: "string \<Rightarrow> health_event list \<Rightarrow> bool list" where
  "outcomes p [] = []"
| "outcomes p (Failure r q msg t # evs) =
     (if q = p \<and> get_pv p r \<noteq> None then False # outcomes p evs else outcomes p evs)"
| "outcomes p (Success r q t # evs) =
     (if q = p \<and> get_pv p r \<noteq> None then True # outcomes p evs else outcomes p evs)"
| "outcomes p (Clear_one q # evs) = (if q = p then [] else outcomes p evs)"
| "outcomes p (Clear_every # evs) = []"

lemma no_failures: "False \<notin> set bs \<Longrightarrow> takeWhile Not bs = []"
  by (cases bs) auto

lemma health_of_outcomes:
  "(dget (fold on_health (rev evs) []) p = None \<longleftrightarrow> False \<notin> set (outcomes p evs)) \<and>
   (\<forall>h. dget (fold on_health (rev evs) []) p = Some h \<longrightarrow>
      ph_failures h = length (takeWhile Not (outcomes p evs)))"
proof (induction p evs rule: outcomes.induct)
  case (2 p r q msg t evs)
  then show ?case
    by (auto simp: report_pv_failure_def record_failure_def Let_def dict_simps no_failures
        split: if_splits option.splits)
next
  case (3 p r q t evs)
  then show ?case
    by (auto simp: report_pv_success_def record_success_def Let_def dict_simps
        split: if_splits option.splits)
next
  case (4 p q evs)
  then show ?case by (auto simp: clear_pv_health_def clear_health_def dict_simps)
qed (auto simp: clear_all_pv_health_def clear_all_health_def)

lemma wf_health: "wf_dict (fold on_health evs s)" if "wf_dict s"
  using that
proof (induction evs arbitrary: s)
  case (Cons ev evs)
  have "wf_dict (on_health ev s)"
    using Cons.prems
    by (cases ev)
      (auto simp: report_pv_failure_def record_failure_def Let_def report_pv_success_def record_success_def
        clear_pv_health_def clear_health_def clear_all_pv_health_def clear_all_health_def wf_dict_def [of "[]"]
        split: option.splits)
  with Cons.IH show ?case by simp
qed simp

lemma stats_sum: "tracked_pvs (health_stats s) = snapshot_size s"
  unfolding tracked_pvs_def snapshot_size_def
proof (induction s)
  case (Cons ph s)
  then show ?case by (cases "health_state (snd ph)") (simp_all add: health_stats_def)
qed (simp add: health_stats_def)

lemma take_while_three:
  "length (takeWhile Not bs) \<ge> n \<longleftrightarrow> take n bs = replicate n False"
proof (induction n arbitrary: bs)
  case (Suc n)
  then show ?case by (cases bs) auto
qed simp

text \<open>
  C32: Health reflects the recent writes. After any history of reports and clears, the service
  has a record for exactly those PVs with a failed write since their record was last cleared,
  so successful writes to sound PVs never let the store grow; a PV is unresponsive exactly if
  its last three writes failed, degraded if the last one failed but not three in a row, and
  otherwise healthy. Reports for PVs that are not registered do not count, and the
  statistics count every record once.
\<close>

theorem health_reflects_writes:
  "case fold on_health (rev evs) [] of s \<Rightarrow>
     (case get_pv_health p s of
       (code, None) \<Rightarrow> code = 404 \<and> False \<notin> set (outcomes p evs)
     | (code, Some h) \<Rightarrow> code = 200 \<and> False \<in> set (outcomes p evs) \<and>
         (health_state h = UNRESPONSIVE \<longleftrightarrow> take 3 (outcomes p evs) = [False, False, False]) \<and>
         (health_state h = HEALTHY \<longleftrightarrow> hd (outcomes p evs))) \<and>
     tracked_pvs (get_pv_health_stats s) = card (fst ` set s)"
proof -
  define s where "s = fold on_health (rev evs) []"
  let ?o = "outcomes p evs"
  have w: "wf_dict s" unfolding s_def by (rule wf_health) (simp add: wf_dict_def)
  then have "card (fst ` set s) = length s"
    using distinct_card [of "map fst s"] by (simp add: wf_dict_def)
  then have stats: "tracked_pvs (get_pv_health_stats s) = card (fst ` set s)"
    by (simp add: get_pv_health_stats_def stats_sum snapshot_size_def)
  have three: "3 \<le> length (takeWhile Not ?o) \<longleftrightarrow> take 3 ?o = [False, False, False]"
    using take_while_three [of 3 ?o] by (simp add: numeral_3_eq_3)
  have zero: "?o \<noteq> [] \<Longrightarrow> length (takeWhile Not ?o) = 0 \<longleftrightarrow> hd ?o"
    by (cases ?o) auto
  have "case get_pv_health p s of
       (code, None) \<Rightarrow> code = 404 \<and> False \<notin> set ?o
     | (code, Some h) \<Rightarrow> code = 200 \<and> False \<in> set ?o \<and>
         (health_state h = UNRESPONSIVE \<longleftrightarrow> take 3 ?o = [False, False, False]) \<and>
         (health_state h = HEALTHY \<longleftrightarrow> hd ?o)"
  proof (cases "dget s p")
    case None
    then show ?thesis
      using health_of_outcomes [of evs p] by (auto simp: get_pv_health_def get_health_def s_def)
  next
    case (Some h)
    then have f: "False \<in> set ?o" "ph_failures h = length (takeWhile Not ?o)"
      using health_of_outcomes [of evs p] by (auto simp: s_def)
    then have "?o \<noteq> []" by auto
    then have "health_state h = UNRESPONSIVE \<longleftrightarrow> take 3 ?o = [False, False, False]"
        "health_state h = HEALTHY \<longleftrightarrow> hd ?o"
      using three zero f(2) by (auto simp: health_state_def unresponsive_threshold_def)
    then show ?thesis using f(1) by (simp only: get_pv_health_def get_health_def Some option.case prod.case simp_thms)
  qed
  then show ?thesis unfolding s_def [symmetric] using stats by simp
qed

end
