(* ===== verification/DirectGate.thy ===== *)
theory DirectGate
  imports CoordProps PvHealth
begin

text \<open>
  The gates of the direct control service: the read endpoints of the configuration service that
  it relies on (\<open>main.py\<close> there), its cached registry client (\<open>registry_client.py\<close>) and its
  coordination client (\<open>coordination_client.py\<close>).
\<close>

section \<open>Answers of the configuration service\<close>

record device_status =
  ds_available :: bool
  ds_enabled :: bool
  ds_lock_status :: string
  ds_plan :: "string option"
  ds_item :: "string option"
  ds_locked_at :: "rat option"
  ds_until :: "rat option"
  ds_lock_epoch :: string
  ds_health :: "(string \<times> pv_health) list"

definition lock_text :: "device_lock option \<Rightarrow> string" where
  "lock_text l = (if l = None then ''unlocked'' else ''locked'')"

definition get_device_status ::
    "string \<Rightarrow> rat \<Rightarrow> health_store \<Rightarrow> config \<Rightarrow> int \<times> device_status option" where
  "get_device_status name now hs c =
     (case get_device name (cf_reg c) of
        None \<Rightarrow> (404, None)
      | Some d \<Rightarrow>
          (case get_instantiation_spec name (cf_reg c) of
             None \<Rightarrow> (500, None)
           | Some sp \<Rightarrow>
               let l = effective_lock name now (cf_locks c) in
               (200, Some \<lparr>ds_available = (active sp \<and> l = None), ds_enabled = active sp,
                  ds_lock_status = lock_text l, ds_plan = map_option lk_plan l,
                  ds_item = map_option lk_item l, ds_locked_at = map_option lk_at l,
                  ds_until = Option.bind l lk_expires, ds_lock_epoch = lm_epoch (cf_locks c),
                  ds_health = get_health_many (map snd (dev_pvs d)) hs\<rparr>)))"

record pv_status =
  ps_available :: bool
  ps_device :: "string option"
  ps_enabled :: "bool option"
  ps_lock_status :: "string option"
  ps_plan :: "string option"
  ps_item :: "string option"
  ps_locked_at :: "rat option"

definition get_pv_status :: "string \<Rightarrow> rat \<Rightarrow> config \<Rightarrow> int \<times> pv_status option" where
  "get_pv_status p now c =
     (case get_pv p (cf_reg c) of
        None \<Rightarrow> (404, None)
      | Some m \<Rightarrow>
          (case pv_device m of
             None \<Rightarrow> (200, Some \<lparr>ps_available = True, ps_device = None, ps_enabled = None,
                ps_lock_status = None, ps_plan = None, ps_item = None, ps_locked_at = None\<rparr>)
           | Some name \<Rightarrow>
               (case get_instantiation_spec name (cf_reg c) of
                  None \<Rightarrow> (500, None)
                | Some sp \<Rightarrow>
                    let l = effective_lock name now (cf_locks c) in
                    (200, Some \<lparr>ps_available = (active sp \<and> l = None), ps_device = Some name,
                       ps_enabled = Some (active sp), ps_lock_status = Some (lock_text l),
                       ps_plan = map_option lk_plan l, ps_item = map_option lk_item l,
                       ps_locked_at = map_option lk_at l\<rparr>))))"

definition get_pv_endpoint :: "string \<Rightarrow> config \<Rightarrow> int \<times> pv_meta option" where
  "get_pv_endpoint p c = (case get_pv p (cf_reg c) of None \<Rightarrow> (404, None) | Some m \<Rightarrow> (200, Some m))"

definition get_device_endpoint :: "string \<Rightarrow> config \<Rightarrow> int \<times> device option" where
  "get_device_endpoint n c =
     (case get_device n (cf_reg c) of None \<Rightarrow> (404, None) | Some d \<Rightarrow> (200, Some d))"

definition get_device_instantiation :: "string \<Rightarrow> config \<Rightarrow> int \<times> spec option" where
  "get_device_instantiation n c =
     (case get_device n (cf_reg c) of
        None \<Rightarrow> (404, None)
      | Some _ \<Rightarrow> (case get_instantiation_spec n (cf_reg c) of None \<Rightarrow> (404, None) | Some sp \<Rightarrow> (200, Some sp)))"

section \<open>The world of the direct control service\<close>

text \<open>
  The fields the clients read of a JSON body: absent fields are \<open>None\<close>, present ones have
  their documented types.
\<close>

record status_body =
  sb_available :: "bool option"
  sb_enabled :: "bool option"
  sb_lock :: "string option"
  sb_plan :: "string option"
  sb_epoch :: "string option"

definition body_of :: "device_status \<Rightarrow> status_body" where
  "body_of d = \<lparr>sb_available = Some (ds_available d), sb_enabled = Some (ds_enabled d),
     sb_lock = Some (ds_lock_status d), sb_plan = ds_plan d, sb_epoch = Some (ds_lock_epoch d)\<rparr>"

text \<open>
  What becomes of one HTTP exchange: the service answers, no answer arrives, or something else
  answers with a status and a body (\<open>None\<close>: not a JSON object): a proxy, a failing service, or
  another endpoint, when the name has characters with a meaning in URLs.
\<close>

datatype 'b exchange = Answered | No_answer | Instead int "'b option"

record moment =
  mo_config :: config
  mo_health :: health_store
  mo_time :: rat
  mo_clock :: rat
  mo_status :: "status_body exchange"
  mo_pv :: "string option exchange"
  mo_device :: "unit exchange"
  mo_spec :: "spec exchange"

text \<open>
  The world is a sequence of moments, one per exchange, so that the service may change between
  any two exchanges; \<open>mo_time\<close> is the clock of the service, \<open>mo_clock\<close> the monotonic clock here.
\<close>

type_synonym world = "nat \<Rightarrow> moment"

definition reply :: "'b exchange \<Rightarrow> int \<times> 'b option \<Rightarrow> (int \<times> 'b option) option" where
  "reply x answer = (case x of Answered \<Rightarrow> Some answer | No_answer \<Rightarrow> None | Instead code b \<Rightarrow> Some (code, b))"

definition ask_status :: "moment \<Rightarrow> string \<Rightarrow> (int \<times> status_body option) option" where
  "ask_status m n =
     reply (mo_status m) (apsnd (map_option body_of) (get_device_status n (mo_time m) (mo_health m) (mo_config m)))"

definition ask_pv :: "moment \<Rightarrow> string \<Rightarrow> (int \<times> string option option) option" where
  "ask_pv m p = reply (mo_pv m) (apsnd (map_option pv_device) (get_pv_endpoint p (mo_config m)))"

definition ask_device :: "moment \<Rightarrow> string \<Rightarrow> (int \<times> unit option) option" where
  "ask_device m n = reply (mo_device m) (apsnd (map_option (\<lambda>_. ())) (get_device_endpoint n (mo_config m)))"

definition ask_spec :: "moment \<Rightarrow> string \<Rightarrow> (int \<times> spec option) option" where
  "ask_spec m n = reply (mo_spec m) (get_device_instantiation n (mo_config m))"

section \<open>State of the direct control service\<close>

datatype dc_error =
    Not_registered
  | Runtime_failure
  | Device_disabled
  | Device_locked
  | Device_unavailable
  | Coordination_failed
  | Value_limit
  | Method_not_allowed
  | Component_missing
  | Not_instantiable
  | Control_failed
  | Other_failure

text \<open>What reaches the hardware: a put to a PV, or a method called on a component of a device.\<close>

datatype py_float = Finite rat | Pos_inf | Neg_inf | NaN

datatype pv_value = Numeric py_float | Non_numeric json

datatype effect = Put_pv string pv_value | Call_method string string string

type_synonym 'v timed = "(string \<times> ('v \<times> rat)) list"

record dc =
  dc_tick :: nat
  dc_epoch :: "string option"
  dc_resets :: nat
  dc_pvs :: "bool timed"
  dc_devices :: "bool timed"
  dc_owners :: "string option timed"
  dc_specs :: "spec option timed"
  dc_live :: "(string \<times> spec) list"
  dc_effects :: "effect list"
  dc_reports :: "(string \<times> bool) list"

record dc_settings =
  se_check :: bool
  se_read_only :: bool
  se_limits :: bool
  se_ttl :: rat
  se_report :: bool

definition new_dc :: dc where
  "new_dc = \<lparr>dc_tick = 0, dc_epoch = None, dc_resets = 0, dc_pvs = [], dc_devices = [],
     dc_owners = [], dc_specs = [], dc_live = [], dc_effects = [], dc_reports = []\<rparr>"

definition here :: "world \<Rightarrow> dc \<Rightarrow> moment" where
  "here w s = w (dc_tick s)"

definition clock :: "world \<Rightarrow> dc \<Rightarrow> rat" where
  "clock w s = mo_clock (here w s)"

text \<open>After an exchange the next moment has come.\<close>

definition step_on :: "dc \<Rightarrow> dc" where
  "step_on s = s\<lparr>dc_tick := Suc (dc_tick s)\<rparr>"

section \<open>The registry client\<close>

definition cache_get :: "rat \<Rightarrow> rat \<Rightarrow> string \<Rightarrow> 'v timed \<Rightarrow> 'v option \<times> 'v timed" where
  "cache_get ttl now k cache =
     (case dget cache k of
        None \<Rightarrow> (None, cache)
      | Some (v, ts) \<Rightarrow> if now - ts > ttl then (None, ddel k cache) else (Some v, cache))"

text \<open>The owner and spec caches keep an expired entry until it is overwritten.\<close>

definition cache_peek :: "rat \<Rightarrow> rat \<Rightarrow> string \<Rightarrow> 'v timed \<Rightarrow> 'v option" where
  "cache_peek ttl now k cache =
     (case dget cache k of None \<Rightarrow> None | Some (v, ts) \<Rightarrow> if now - ts \<le> ttl then Some v else None)"

definition validate_pv :: "world \<Rightarrow> dc_settings \<Rightarrow> string \<Rightarrow> dc \<Rightarrow> (dc_error + unit) \<times> dc" where
  "validate_pv w st p s =
     (case cache_get (se_ttl st) (clock w s) p (dc_pvs s) of
        (Some b, cache) \<Rightarrow> (if b then Inr () else Inl Not_registered, s\<lparr>dc_pvs := cache\<rparr>)
      | (None, cache) \<Rightarrow>
          let s1 = step_on (s\<lparr>dc_pvs := cache\<rparr>) in
          (case ask_pv (here w s) p of
             None \<Rightarrow> (Inl Runtime_failure, s1)
           | Some (code, body) \<Rightarrow>
               if code = 200 then
                 (Inr (), s1\<lparr>dc_pvs := dset p (True, clock w s1) (dc_pvs s1),
                    dc_owners := (case body of None \<Rightarrow> dc_owners s1
                      | Some owner \<Rightarrow> dset p (owner, clock w s1) (dc_owners s1))\<rparr>)
               else if code = 404 then
                 (Inl Not_registered, s1\<lparr>dc_pvs := dset p (False, clock w s1) (dc_pvs s1)\<rparr>)
               else (Inl Runtime_failure, s1)))"

definition validate_device :: "world \<Rightarrow> dc_settings \<Rightarrow> string \<Rightarrow> dc \<Rightarrow> (dc_error + unit) \<times> dc" where
  "validate_device w st n s =
     (case cache_get (se_ttl st) (clock w s) n (dc_devices s) of
        (Some b, cache) \<Rightarrow> (if b then Inr () else Inl Not_registered, s\<lparr>dc_devices := cache\<rparr>)
      | (None, cache) \<Rightarrow>
          let s1 = step_on (s\<lparr>dc_devices := cache\<rparr>) in
          (case ask_device (here w s) n of
             None \<Rightarrow> (Inl Runtime_failure, s1)
           | Some (code, body) \<Rightarrow>
               if code = 200 then
                 (Inr (), s1\<lparr>dc_devices := dset n (True, clock w s1) (dc_devices s1)\<rparr>)
               else if code = 404 then
                 (Inl Not_registered, s1\<lparr>dc_devices := dset n (False, clock w s1) (dc_devices s1)\<rparr>)
               else (Inl Runtime_failure, s1)))"

definition get_owning_device ::
    "world \<Rightarrow> dc_settings \<Rightarrow> string \<Rightarrow> dc \<Rightarrow> (dc_error + string option) \<times> dc" where
  "get_owning_device w st p s =
     (case cache_peek (se_ttl st) (clock w s) p (dc_owners s) of
        Some owner \<Rightarrow> (Inr owner, s)
      | None \<Rightarrow>
          let s1 = step_on s in
          (case ask_pv (here w s) p of
             None \<Rightarrow> (Inl Runtime_failure, s1)
           | Some (code, body) \<Rightarrow>
               if code = 404 then
                 (Inr None, s1\<lparr>dc_pvs := ddel p (dc_pvs s1), dc_owners := ddel p (dc_owners s1)\<rparr>)
               else if code \<noteq> 200 then (Inl Runtime_failure, s1)
               else (case body of
                   None \<Rightarrow> (Inl Other_failure, s1)
                 | Some owner \<Rightarrow> (Inr owner, s1\<lparr>dc_owners := dset p (owner, clock w s1) (dc_owners s1)\<rparr>))))"

definition get_spec :: "world \<Rightarrow> dc_settings \<Rightarrow> string \<Rightarrow> dc \<Rightarrow> (dc_error + spec option) \<times> dc" where
  "get_spec w st n s =
     (case cache_peek (se_ttl st) (clock w s) n (dc_specs s) of
        Some sp \<Rightarrow> (Inr sp, s)
      | None \<Rightarrow>
          let s1 = step_on s in
          (case ask_spec (here w s) n of
             None \<Rightarrow> (Inl Runtime_failure, s1)
           | Some (code, body) \<Rightarrow>
               if code = 404 then (Inr None, s1\<lparr>dc_specs := dset n (None, clock w s1) (dc_specs s1)\<rparr>)
               else if code \<noteq> 200 then (Inl Runtime_failure, s1)
               else (case body of
                   None \<Rightarrow> (Inl Runtime_failure, s1)
                 | Some sp \<Rightarrow> (Inr (Some sp), s1\<lparr>dc_specs := dset n (Some sp, clock w s1) (dc_specs s1)\<rparr>))))"

section \<open>The coordination client\<close>

datatype lock_status = AVAILABLE | LOCKED | DISABLED | UNKNOWN

definition map_lock_status :: "bool \<Rightarrow> bool \<Rightarrow> string \<Rightarrow> lock_status" where
  "map_lock_status available enabled lock =
     (if \<not> enabled then DISABLED
      else if lock = ''locked'' then LOCKED
      else if available \<and> lock = ''unlocked'' then AVAILABLE
      else UNKNOWN)"

definition note_lock_epoch :: "string option \<Rightarrow> dc \<Rightarrow> dc" where
  "note_lock_epoch epoch s =
     (case epoch of
        None \<Rightarrow> s
      | Some e \<Rightarrow>
          if e = [] then s
          else s\<lparr>dc_epoch := Some e,
                 dc_resets := (case dc_epoch s of None \<Rightarrow> dc_resets s
                   | Some p \<Rightarrow> if p \<noteq> e then Suc (dc_resets s) else dc_resets s)\<rparr>)"

text \<open>The status of a device and the plan that has locked it.\<close>

definition check_device_available ::
    "world \<Rightarrow> dc_settings \<Rightarrow> string \<Rightarrow> dc \<Rightarrow> (dc_error + lock_status \<times> string option) \<times> dc" where
  "check_device_available w st n s =
     (if \<not> se_check st then (Inr (AVAILABLE, None), s)
      else
        let s1 = step_on s in
        (case ask_status (here w s) n of
           None \<Rightarrow> (Inl Coordination_failed, s1)
         | Some (code, body) \<Rightarrow>
             if code = 404 then (Inr (AVAILABLE, None), s1)
             else if \<not> (200 \<le> code \<and> code < 300) then (Inl Coordination_failed, s1)
             else (case body of
                 None \<Rightarrow> (Inl Coordination_failed, s1)
               | Some b \<Rightarrow>
                   (Inr (map_lock_status
                      (case sb_available b of None \<Rightarrow> False | Some x \<Rightarrow> x)
                      (case sb_enabled b of None \<Rightarrow> True | Some x \<Rightarrow> x)
                      (case sb_lock b of None \<Rightarrow> ''unlocked'' | Some x \<Rightarrow> x), sb_plan b),
                    note_lock_epoch (sb_epoch b) s1))))"

definition raise_for_unavailable :: "lock_status \<Rightarrow> dc_error + unit" where
  "raise_for_unavailable status =
     (case status of AVAILABLE \<Rightarrow> Inr () | DISABLED \<Rightarrow> Inl Device_disabled
      | LOCKED \<Rightarrow> Inl Device_locked | UNKNOWN \<Rightarrow> Inl Device_unavailable)"

text \<open>The gate of the device controller: the check, and the error for a blocked device.\<close>

definition gate :: "world \<Rightarrow> dc_settings \<Rightarrow> string \<Rightarrow> dc \<Rightarrow> (dc_error + unit) \<times> dc" where
  "gate w st n s =
     (case check_device_available w st n s of
        (Inl e, s') \<Rightarrow> (Inl e, s')
      | (Inr (status, plan), s') \<Rightarrow> (raise_for_unavailable status, s'))"

end
