(* ===== verification/DirectControl.thy ===== *)
theory DirectControl
  imports DirectGate
begin

text \<open>
  Commands of the direct control service: writes to PVs with their control limits, methods of
  devices, nested components (\<open>device_controller.py\<close>, \<open>device_manager.py\<close>) and the endpoints
  that map failures to status codes and report PV health (\<open>main.py\<close>). EPICS and ophyd are not
  modelled: what they do in one request is an argument.
\<close>

section \<open>Writes to PVs\<close>

text \<open>Comparison of Python floats; every comparison with NaN is false.\<close>

fun float_less :: "py_float \<Rightarrow> py_float \<Rightarrow> bool" where
  "float_less (Finite a) (Finite b) = (a < b)"
| "float_less (Finite a) Pos_inf = True"
| "float_less Neg_inf (Finite b) = True"
| "float_less Neg_inf Pos_inf = True"
| "float_less _ _ = False"

record put_request =
  pr_pv :: string
  pr_value :: pv_value
  pr_wait :: bool
  pr_use_complete :: bool
  pr_ftype :: "int option"
  pr_check_limits :: "bool option"

text \<open>
  What EPICS does in a write: the connection for the limits (\<open>None\<close>: it raises), the limits it
  has then (\<open>None\<close>: the read raises), the connection for the put, the status of the put
  (\<open>None\<close>: it raises), and whether the put callback comes in time.
\<close>

record io =
  io_connect_limits :: "bool option"
  io_limits :: "(py_float option \<times> py_float option) option"
  io_connect :: "bool option"
  io_put :: "int option"
  io_complete :: bool

definition read_ctrl_limits :: "io \<Rightarrow> py_float option \<times> py_float option" where
  "read_ctrl_limits x =
     (case io_connect_limits x of
        Some True \<Rightarrow> (case io_limits x of None \<Rightarrow> (None, None) | Some ls \<Rightarrow> ls)
      | _ \<Rightarrow> (None, None))"

definition validate_ctrl_limits :: "dc_settings \<Rightarrow> io \<Rightarrow> put_request \<Rightarrow> dc_error + unit" where
  "validate_ctrl_limits st x req =
     (if \<not> (case pr_check_limits req of None \<Rightarrow> se_limits st | Some b \<Rightarrow> b) then Inr ()
      else case pr_value req of
          Non_numeric _ \<Rightarrow> Inr ()
        | Numeric v \<Rightarrow>
            (case read_ctrl_limits x of (lower, upper) \<Rightarrow>
               if lower = None \<and> upper = None then Inr ()
               else if lower = Some (Finite 0) \<and> upper = Some (Finite 0) then Inr ()
               else if (case lower of None \<Rightarrow> False | Some l \<Rightarrow> float_less v l) then Inl Value_limit
               else if (case upper of None \<Rightarrow> False | Some u \<Rightarrow> float_less u v) then Inl Value_limit
               else Inr ()))"

definition affect :: "effect \<Rightarrow> dc \<Rightarrow> dc" where
  "affect e s = s\<lparr>dc_effects := dc_effects s @ [e]\<rparr>"

definition execute_put :: "io \<Rightarrow> put_request \<Rightarrow> dc \<Rightarrow> (dc_error + bool) \<times> dc" where
  "execute_put x req s =
     (let put = affect (Put_pv (pr_pv req) (pr_value req)) in
      if \<not> pr_use_complete req \<and> pr_ftype req = None then
        (case io_put x of None \<Rightarrow> Inl Other_failure | Some status \<Rightarrow> Inr (status = 1), put s)
      else case io_connect x of
          None \<Rightarrow> (Inl Other_failure, s)
        | Some False \<Rightarrow> (Inl Control_failed, s)
        | Some True \<Rightarrow>
            if pr_use_complete req then
              (case io_put x of
                 None \<Rightarrow> Inl Other_failure
               | Some _ \<Rightarrow> if io_complete x then Inr True else Inl Control_failed, put s)
            else (case io_put x of None \<Rightarrow> Inl Other_failure | Some status \<Rightarrow> Inr (status = 1), put s))"

datatype command_mode = PUT_COMPLETION | FIRE_AND_FORGET

definition set_pv ::
    "world \<Rightarrow> dc_settings \<Rightarrow> io \<Rightarrow> put_request \<Rightarrow> dc \<Rightarrow> (dc_error + command_mode) \<times> dc" where
  "set_pv w st x req s =
     (case get_owning_device w st (pr_pv req) s of
        (Inl e, s1) \<Rightarrow> (Inl (if e = Runtime_failure then Coordination_failed else e), s1)
      | (Inr owner, s1) \<Rightarrow>
          let target = (case owner of None \<Rightarrow> pr_pv req | Some d \<Rightarrow> if d = [] then pr_pv req else d) in
          (case gate w st target s1 of
             (Inl e, s2) \<Rightarrow> (Inl e, s2)
           | (Inr _, s2) \<Rightarrow>
               (case validate_ctrl_limits st x req of
                  Inl e \<Rightarrow> (Inl e, s2)
                | Inr _ \<Rightarrow>
                    (case execute_put x req s2 of
                       (Inl e, s3) \<Rightarrow> (Inl e, s3)
                     | (Inr ok, s3) \<Rightarrow>
                         (if \<not> ok then Inl Control_failed
                          else Inr (if pr_wait req then PUT_COMPLETION else FIRE_AND_FORGET), s3)))))"

section \<open>Methods of devices\<close>

definition allowed_methods :: "string list" where
  "allowed_methods = [''set'', ''put'', ''get'', ''read'', ''describe'', ''read_configuration'',
     ''describe_configuration'', ''trigger'', ''stop'']"

definition check_method_allowed :: "string \<Rightarrow> dc_error + unit" where
  "check_method_allowed m = (if m \<notin> set allowed_methods then Inl Method_not_allowed else Inr ())"

text \<open>
  What ophyd does in a request: whether the device can be built and connected, whether the
  dotted path leads to a component, and how the method ends.
\<close>

record dev_io =
  di_build :: bool
  di_component :: bool
  di_method :: "dc_error + unit"

definition require_spec :: "world \<Rightarrow> dc_settings \<Rightarrow> string \<Rightarrow> dc \<Rightarrow> (dc_error + spec) \<times> dc" where
  "require_spec w st n s =
     (case get_spec w st n s of
        (Inl e, s') \<Rightarrow> (Inl e, s')
      | (Inr None, s') \<Rightarrow> (Inl Not_instantiable, s')
      | (Inr (Some sp), s') \<Rightarrow> (Inr sp, s'))"

definition fingerprint :: "spec \<Rightarrow> string \<times> json list \<times> dict" where
  "fingerprint sp = (device_class sp, spec_args sp, sort_key fst (spec_kwargs sp))"

definition get_or_connect :: "dev_io \<Rightarrow> spec \<Rightarrow> dc \<Rightarrow> (dc_error + unit) \<times> dc" where
  "get_or_connect x sp s =
     (if \<not> active sp then (Inl Not_instantiable, s)
      else
        let n = spec_name sp;
            build = (\<lambda>s. if di_build x then (Inr (), s\<lparr>dc_live := dset n sp (dc_live s)\<rparr>) else (Inl Control_failed, s))
        in (case dget (dc_live s) n of
              None \<Rightarrow> build s
            | Some old \<Rightarrow>
                if fingerprint old = fingerprint sp then (Inr (), s)
                else build (s\<lparr>dc_live := ddel n (dc_live s)\<rparr>)))"

definition execute_device_method ::
    "world \<Rightarrow> dc_settings \<Rightarrow> dev_io \<Rightarrow> string \<Rightarrow> string \<Rightarrow> dc \<Rightarrow> (dc_error + unit) \<times> dc" where
  "execute_device_method w st x n m s =
     (case check_method_allowed m of
        Inl e \<Rightarrow> (Inl e, s)
      | Inr _ \<Rightarrow>
          (case gate w st n s of
             (Inl e, s1) \<Rightarrow> (Inl e, s1)
           | (Inr _, s1) \<Rightarrow>
               (case require_spec w st n s1 of
                  (Inl e, s2) \<Rightarrow> (Inl e, s2)
                | (Inr sp, s2) \<Rightarrow>
                    (case get_or_connect x sp s2 of
                       (Inl e, s3) \<Rightarrow> (Inl e, s3)
                     | (Inr _, s3) \<Rightarrow> (di_method x, affect (Call_method n [] m) s3)))))"

text \<open>\<open>device_path.split(".")\<close> at the first dot: the device, and the path of the component.\<close>

definition split_path :: "string \<Rightarrow> string \<times> string" where
  "split_path path = (takeWhile (\<lambda>c. c \<noteq> CHR ''.'') path, drop 1 (dropWhile (\<lambda>c. c \<noteq> CHR ''.'') path))"

definition write_methods :: "string list" where
  "write_methods = [''set'', ''put'', ''trigger'', ''stop'']"

definition access_nested_device ::
    "world \<Rightarrow> dc_settings \<Rightarrow> dev_io \<Rightarrow> string \<Rightarrow> string \<Rightarrow> json option \<Rightarrow> dc \<Rightarrow> (dc_error + unit) \<times> dc" where
  "access_nested_device w st x path m value s =
     (case split_path path of (n, sub) \<Rightarrow>
      case check_method_allowed m of
        Inl e \<Rightarrow> (Inl e, s)
      | Inr _ \<Rightarrow>
          (case (if m \<in> set write_methods then gate w st n s else (Inr (), s)) of
             (Inl e, s1) \<Rightarrow> (Inl e, s1)
           | (Inr _, s1) \<Rightarrow>
               (case require_spec w st n s1 of
                  (Inl e, s2) \<Rightarrow> (Inl e, s2)
                | (Inr sp, s2) \<Rightarrow>
                    (case get_or_connect x sp s2 of
                       (Inl e, s3) \<Rightarrow> (Inl e, s3)
                     | (Inr _, s3) \<Rightarrow>
                         if sub \<noteq> [] \<and> \<not> di_component x then (Inl Component_missing, s3)
                         else if m \<in> {''set'', ''put''} \<and> value = None then (Inl Control_failed, s3)
                         else (di_method x, affect (Call_method n sub m) s3)))))"

section \<open>Endpoints\<close>

definition report :: "dc_settings \<Rightarrow> string \<Rightarrow> bool \<Rightarrow> dc \<Rightarrow> dc" where
  "report st p ok s = (if se_report st then s\<lparr>dc_reports := dc_reports s @ [(p, ok)]\<rparr> else s)"

definition registry_error_status :: "dc_error \<Rightarrow> int" where
  "registry_error_status e = (if e = Not_registered then 404 else if e = Runtime_failure then 503 else 500)"

definition set_pv_endpoint ::
    "world \<Rightarrow> dc_settings \<Rightarrow> io \<times> put_request \<Rightarrow> dc \<Rightarrow> int \<times> dc" where
  "set_pv_endpoint w st item s =
     (case item of (x, req) \<Rightarrow>
      if se_read_only st then (403, s)
      else case validate_pv w st (pr_pv req) s of
          (Inl e, s1) \<Rightarrow> (registry_error_status e, s1)
        | (Inr _, s1) \<Rightarrow>
            (case set_pv w st x req s1 of
               (Inr mode, s2) \<Rightarrow> (200, report st (pr_pv req) True s2)
             | (Inl e, s2) \<Rightarrow>
                 (case e of
                    Device_disabled \<Rightarrow> (409, s2)
                  | Device_locked \<Rightarrow> (423, s2)
                  | Device_unavailable \<Rightarrow> (409, s2)
                  | Coordination_failed \<Rightarrow> (503, s2)
                  | Value_limit \<Rightarrow> (422, s2)
                  | _ \<Rightarrow> (500, report st (pr_pv req) False s2))))"

record batch_row =
  br_pv :: string
  br_success :: bool
  br_checked :: bool
  br_code :: int

text \<open>The loop of a batch: the rows of the attempted writes, and how many were applied.\<close>

fun batch_loop ::
    "world \<Rightarrow> dc_settings \<Rightarrow> (io \<times> put_request) list \<Rightarrow> dc \<Rightarrow> (batch_row list \<times> nat) \<times> dc" where
  "batch_loop w st [] s = (([], 0), s)"
| "batch_loop w st ((x, req) # items) s =
     (let failed = (\<lambda>checked code. [\<lparr>br_pv = pr_pv req, br_success = False, br_checked = checked, br_code = code\<rparr>]) in
      case validate_pv w st (pr_pv req) s of
        (Inl e, s1) \<Rightarrow> ((failed False (registry_error_status e), 0), s1)
      | (Inr _, s1) \<Rightarrow>
          (case set_pv w st x req s1 of
             (Inl Device_disabled, s2) \<Rightarrow> ((failed True 409, 0), s2)
           | (Inl Device_locked, s2) \<Rightarrow> ((failed True 423, 0), s2)
           | (Inl Device_unavailable, s2) \<Rightarrow> ((failed True 409, 0), s2)
           | (Inl Coordination_failed, s2) \<Rightarrow> ((failed True 503, 0), s2)
           | (Inl Value_limit, s2) \<Rightarrow> ((failed True 422, 0), s2)
           | (Inl _, s2) \<Rightarrow> ((failed True 500, 0), report st (pr_pv req) False s2)
           | (Inr mode, s2) \<Rightarrow>
               (case batch_loop w st items (report st (pr_pv req) True s2) of
                  ((rows, n), s3) \<Rightarrow>
                    ((\<lparr>br_pv = pr_pv req, br_success = True, br_checked = True, br_code = 200\<rparr> # rows, Suc n), s3))))"

record batch_reply =
  bt_ok :: bool
  bt_applied :: nat
  bt_requested :: nat
  bt_results :: "batch_row list"

definition set_pv_batch ::
    "world \<Rightarrow> dc_settings \<Rightarrow> (io \<times> put_request) list \<Rightarrow> dc \<Rightarrow> (int \<times> batch_reply option) \<times> dc" where
  "set_pv_batch w st items s =
     (if se_read_only st then ((403, None), s)
      else if items = [] \<or> length items > 100 then ((422, None), s)
      else case batch_loop w st items s of
          ((rows, n), s') \<Rightarrow>
            ((200, Some \<lparr>bt_ok = (n = length items), bt_applied = n, bt_requested = length items,
                bt_results = rows\<rparr>), s'))"

definition control_status :: "dc_error \<Rightarrow> int" where
  "control_status e =
     (case e of
        Device_disabled \<Rightarrow> 409 | Device_locked \<Rightarrow> 423 | Device_unavailable \<Rightarrow> 409
      | Coordination_failed \<Rightarrow> 503
      | Method_not_allowed \<Rightarrow> 400 | Component_missing \<Rightarrow> 404 | Not_instantiable \<Rightarrow> 422
      | Runtime_failure \<Rightarrow> 503
      | _ \<Rightarrow> 500)"

definition respond :: "(dc_error + unit) \<times> dc \<Rightarrow> int \<times> dc" where
  "respond r = (case r of (Inl e, s) \<Rightarrow> (control_status e, s) | (Inr _, s) \<Rightarrow> (200, s))"

definition execute_endpoint ::
    "world \<Rightarrow> dc_settings \<Rightarrow> dev_io \<Rightarrow> string \<Rightarrow> string \<Rightarrow> dc \<Rightarrow> int \<times> dc" where
  "execute_endpoint w st x n m s =
     (if se_read_only st then (403, s)
      else case validate_device w st n s of
          (Inl e, s1) \<Rightarrow> (registry_error_status e, s1)
        | (Inr _, s1) \<Rightarrow> respond (execute_device_method w st x n m s1))"

definition stop_device :: "world \<Rightarrow> dc_settings \<Rightarrow> dev_io \<Rightarrow> string \<Rightarrow> dc \<Rightarrow> int \<times> dc" where
  "stop_device w st x n s =
     (if se_read_only st then (403, s)
      else case validate_device w st n s of
          (Inl e, s1) \<Rightarrow> (registry_error_status e, s1)
        | (Inr _, s1) \<Rightarrow> respond (execute_device_method w st x n ''stop'' s1))"

definition nested_endpoint ::
    "world \<Rightarrow> dc_settings \<Rightarrow> dev_io \<Rightarrow> string \<Rightarrow> (string \<times> json option) option \<Rightarrow> dc \<Rightarrow> int \<times> dc" where
  "nested_endpoint w st x path body s =
     (case (case body of None \<Rightarrow> (''read'', None) | Some mv \<Rightarrow> mv) of (m, value) \<Rightarrow>
      if se_read_only st \<and> m \<in> set write_methods then (403, s)
      else case validate_device w st (fst (split_path path)) s of
          (Inl e, s1) \<Rightarrow> (registry_error_status e, s1)
        | (Inr _, s1) \<Rightarrow> respond (access_nested_device w st x path m value s1))"

definition nested_value_endpoint ::
    "world \<Rightarrow> dc_settings \<Rightarrow> dev_io \<Rightarrow> string \<Rightarrow> dc \<Rightarrow> int \<times> dc" where
  "nested_value_endpoint w st x path s =
     (case validate_device w st (fst (split_path path)) s of
        (Inl e, s1) \<Rightarrow> (registry_error_status e, s1)
      | (Inr _, s1) \<Rightarrow> respond (access_nested_device w st x path ''read'' None s1))"

end
