(* ===== verification/DirectSafe.thy ===== *)
theory DirectSafe
  imports DirectControl
begin

text \<open>
  What every operation of the direct control service keeps: its caches hold what the
  configuration service once answered, exchanges only go forward, and effects on the hardware
  are authorised.
\<close>

section \<open>Vocabulary\<close>

text \<open>Nothing answers in place of the service with a success or a \<open>404\<close>.\<close>

definition honest :: "'b exchange \<Rightarrow> bool" where
  "honest x = (case x of Instead code b \<Rightarrow> code \<noteq> 404 \<and> \<not> (200 \<le> code \<and> code < 300) | _ \<Rightarrow> True)"

definition genuine :: "moment \<Rightarrow> bool" where
  "genuine m \<longleftrightarrow> honest (mo_status m) \<and> honest (mo_pv m)"

text \<open>The device is not registered, or enabled and not locked for anybody.\<close>

definition free_in :: "string \<Rightarrow> moment \<Rightarrow> bool" where
  "free_in n m =
     (case get_device n (cf_reg (mo_config m)) of
        None \<Rightarrow> True
      | Some d \<Rightarrow>
          (case get_instantiation_spec n (cf_reg (mo_config m)) of
             None \<Rightarrow> False
           | Some sp \<Rightarrow> active sp \<and> effective_lock n (mo_time m) (cf_locks (mo_config m)) = None))"

text \<open>The owner of a PV in the registry of a moment; \<open>None\<close> also when it is not registered.\<close>

definition owner_in :: "moment \<Rightarrow> string \<Rightarrow> string option" where
  "owner_in m p = Option.bind (get_pv p (cf_reg (mo_config m))) pv_device"

definition coord_target :: "string \<Rightarrow> string option \<Rightarrow> string" where
  "coord_target p owner = (case owner of None \<Rightarrow> p | Some d \<Rightarrow> if d = [] then p else d)"

text \<open>
  A put is authorised by the exchanges in \<open>{a..<b}\<close> if in one of them the device that owns the
  PV was free, where the owner was read before, at most \<open>ttl\<close> ago. A method that acts is
  authorised if its device was free.
\<close>

fun authorised :: "world \<Rightarrow> rat \<Rightarrow> nat \<Rightarrow> nat \<Rightarrow> effect \<Rightarrow> bool" where
  "authorised w ttl a b (Put_pv p v) =
     (\<exists>j \<in> {a..<b}. \<exists>i < j. mo_clock (w j) \<le> mo_clock (w (Suc i)) + ttl \<and>
        free_in (coord_target p (owner_in (w i) p)) (w j))"
| "authorised w ttl a b (Call_method n sub m) =
     (m \<in> set write_methods \<longrightarrow> (\<exists>j \<in> {a..<b}. free_in n (w j)))"

definition owners_sound :: "world \<Rightarrow> dc \<Rightarrow> bool" where
  "owners_sound w s \<longleftrightarrow>
     (\<forall>p owner ts. dget (dc_owners s) p = Some (owner, ts) \<longrightarrow>
        (\<exists>i < dc_tick s. owner = owner_in (w i) p \<and> ts = mo_clock (w (Suc i))))"

text \<open>Going from \<open>s\<close> to \<open>t\<close>, with the new effects \<open>es\<close>.\<close>

definition moves :: "world \<Rightarrow> dc \<Rightarrow> effect list \<Rightarrow> dc \<Rightarrow> bool" where
  "moves w s es t \<longleftrightarrow>
     dc_tick s \<le> dc_tick t \<and> dc_effects t = dc_effects s @ es \<and> (owners_sound w s \<longrightarrow> owners_sound w t)"

lemma moves_refl [simp]: "moves w s [] s"
  by (simp add: moves_def)

lemma moves_trans: "moves w s es t \<Longrightarrow> moves w t fs u \<Longrightarrow> moves w s (es @ fs) u"
  by (auto simp: moves_def)

lemma moves_silent: "moves w s [] t \<Longrightarrow> moves w t es u \<Longrightarrow> moves w s es u"
  using moves_trans [of w s "[]" t es u] by simp

text \<open>Fields that do not matter here.\<close>

lemma moves_frame:
  assumes "dc_tick s \<le> dc_tick t" "dc_owners t = dc_owners s" "dc_effects t = dc_effects s @ es"
  shows "moves w s es t"
  using assms by (auto simp: moves_def owners_sound_def) (meson order_less_le_trans)

lemma authorised_mono:
  assumes "authorised w ttl a b e" "a' \<le> a" "b \<le> b'"
  shows "authorised w ttl a' b' e"
proof -
  have "{a..<b} \<subseteq> {a'..<b'}" using assms by auto
  then show ?thesis using assms(1) by (cases e) (auto; blast)+
qed

section \<open>The registry client\<close>

lemma owners_sound_later:
  assumes "owners_sound w s" "dc_tick s \<le> dc_tick t"
    "\<And>p x. dget (dc_owners t) p = Some x \<Longrightarrow> dget (dc_owners s) p = Some x \<or>
       (\<exists>i < dc_tick t. x = (owner_in (w i) p, mo_clock (w (Suc i))))"
  shows "owners_sound w t"
  unfolding owners_sound_def
proof (intro allI impI)
  fix p owner ts assume "dget (dc_owners t) p = Some (owner, ts)"
  from assms(3) [OF this] show "\<exists>i < dc_tick t. owner = owner_in (w i) p \<and> ts = mo_clock (w (Suc i))"
  proof
    assume "dget (dc_owners s) p = Some (owner, ts)"
    with assms(1) obtain i where "i < dc_tick s" "owner = owner_in (w i) p" "ts = mo_clock (w (Suc i))"
      unfolding owners_sound_def by blast
    then show ?thesis using assms(2) by (intro exI [of _ i]) simp
  qed auto
qed

lemma honest_pv:
  assumes "ask_pv m p = Some (code, body)" "honest (mo_pv m)" "code = 200 \<or> code = 404"
  shows "(code = 404 \<longrightarrow> owner_in m p = None) \<and> (code = 200 \<longrightarrow> body = Some (owner_in m p))"
  using assms
  by (auto simp: ask_pv_def reply_def honest_def get_pv_endpoint_def owner_in_def
      split: exchange.splits option.splits)

lemma validate_pv_moves:
  assumes "honest (mo_pv (here w s))"
  shows "moves w s [] (snd (validate_pv w st p s))"
proof -
  have sound: "owners_sound w (snd (validate_pv w st p s))" if "owners_sound w s"
  proof (rule owners_sound_later [OF that])
    show "dc_tick s \<le> dc_tick (snd (validate_pv w st p s))"
      by (auto simp: validate_pv_def step_on_def Let_def split: option.splits prod.splits)
    fix q x assume "dget (dc_owners (snd (validate_pv w st p s))) q = Some x"
    moreover have "b = Some (owner_in (here w s) p)" if "ask_pv (here w s) p = Some (200, b)" for b
      using honest_pv [OF that assms] by simp
    ultimately show "dget (dc_owners s) q = Some x \<or>
        (\<exists>i < dc_tick (snd (validate_pv w st p s)). x = (owner_in (w i) q, mo_clock (w (Suc i))))"
      by (fastforce simp: validate_pv_def step_on_def Let_def dict_simps clock_def here_def
          split: option.splits prod.splits if_splits)
  qed
  show ?thesis
    unfolding moves_def using sound
    by (auto simp: validate_pv_def step_on_def Let_def split: option.splits prod.splits)
qed

lemma validate_device_moves: "moves w s [] (snd (validate_device w st n s))"
  by (rule moves_frame) (auto simp: validate_device_def step_on_def Let_def split: option.splits prod.splits)

lemma get_owning_device_moves:
  assumes "honest (mo_pv (here w s))"
  shows "moves w s [] (snd (get_owning_device w st p s))"
proof -
  have sound: "owners_sound w (snd (get_owning_device w st p s))" if "owners_sound w s"
  proof (rule owners_sound_later [OF that])
    show "dc_tick s \<le> dc_tick (snd (get_owning_device w st p s))"
      by (auto simp: get_owning_device_def step_on_def Let_def split: option.splits prod.splits)
    fix q x assume "dget (dc_owners (snd (get_owning_device w st p s))) q = Some x"
    moreover have "b = Some (owner_in (here w s) p)" if "ask_pv (here w s) p = Some (200, b)" for b
      using honest_pv [OF that assms] by simp
    ultimately show "dget (dc_owners s) q = Some x \<or>
        (\<exists>i < dc_tick (snd (get_owning_device w st p s)). x = (owner_in (w i) q, mo_clock (w (Suc i))))"
      by (fastforce simp: get_owning_device_def step_on_def Let_def dict_simps clock_def here_def
          split: option.splits prod.splits if_splits)
  qed
  show ?thesis
    unfolding moves_def using sound
    by (auto simp: get_owning_device_def step_on_def Let_def split: option.splits prod.splits)
qed

text \<open>The owner that is used was read before the next exchange, at most \<open>ttl\<close> ago.\<close>

lemma owner_recent:
  assumes "get_owning_device w st p s = (Inr owner, s')" "honest (mo_pv (here w s))" "owners_sound w s"
    and "0 \<le> se_ttl st"
  shows "\<exists>i < dc_tick s'. owner = owner_in (w i) p \<and> clock w s' \<le> mo_clock (w (Suc i)) + se_ttl st"
proof (cases "cache_peek (se_ttl st) (clock w s) p (dc_owners s)")
  case (Some x)
  then obtain ts where ts: "dget (dc_owners s) p = Some (x, ts)" "clock w s - ts \<le> se_ttl st"
    by (auto simp: cache_peek_def split: option.splits if_splits)
  have eq: "x = owner" "s' = s" using assms(1) Some by (auto simp: get_owning_device_def)
  from assms(3) ts obtain i where "i < dc_tick s" "x = owner_in (w i) p" "ts = mo_clock (w (Suc i))"
    unfolding owners_sound_def by blast
  with ts eq show ?thesis by (auto simp: algebra_simps)
next
  case None
  then have "owner = owner_in (here w s) p \<and> dc_tick s' = Suc (dc_tick s)"
    using assms(1) honest_pv [OF _ assms(2)]
    by (auto simp: get_owning_device_def Let_def step_on_def split: option.splits if_splits prod.splits)
  then show ?thesis using assms(4) by (auto simp: here_def clock_def)
qed

lemma get_spec_moves: "moves w s [] (snd (get_spec w st n s))"
  by (rule moves_frame) (auto simp: get_spec_def step_on_def Let_def split: option.splits prod.splits)

section \<open>The gate\<close>

lemma note_lock_epoch_frame [simp]:
  "dc_tick (note_lock_epoch e s) = dc_tick s" "dc_owners (note_lock_epoch e s) = dc_owners s"
  "dc_effects (note_lock_epoch e s) = dc_effects s" "dc_reports (note_lock_epoch e s) = dc_reports s"
  by (auto simp: note_lock_epoch_def split: option.splits)

lemma check_moves: "moves w s [] (snd (check_device_available w st n s))"
  by (rule moves_frame) (auto simp: check_device_available_def step_on_def Let_def split: option.splits prod.splits)

lemma gate_moves: "moves w s [] (snd (gate w st n s))"
  using check_moves [of w s st n] by (auto simp: gate_def split: prod.splits sum.splits)

lemma map_available:
  "map_lock_status a e l = AVAILABLE \<longleftrightarrow> a \<and> e \<and> l = ''unlocked''"
  by (auto simp: map_lock_status_def)

lemma raise_Inr [simp]: "raise_for_unavailable x = Inr u \<longleftrightarrow> x = AVAILABLE"
  by (cases x) (auto simp: raise_for_unavailable_def)

lemma gate_free:
  assumes "gate w st n s = (Inr u, s')" "se_check st" "honest (mo_status (here w s))"
  shows "free_in n (here w s) \<and> dc_tick s' = Suc (dc_tick s)"
proof -
  obtain code body where a: "ask_status (here w s) n = Some (code, body)"
    using assms(1,2) by (auto simp: gate_def check_device_available_def Let_def split: option.splits)
  have tick: "dc_tick s' = Suc (dc_tick s)"
    using assms(1,2) by (auto simp: gate_def check_device_available_def Let_def a step_on_def
        split: option.splits if_splits)
  show ?thesis
  proof (cases "mo_status (here w s)")
    case Answered
    then show ?thesis
      using assms(1,2) a tick
      by (auto simp: gate_def check_device_available_def Let_def ask_status_def reply_def
          get_device_status_def free_in_def map_available lock_text_def body_of_def
          split: option.splits if_splits)
  next
    case No_answer
    with a show ?thesis by (simp add: ask_status_def reply_def)
  next
    case (Instead c b)
    then show ?thesis
      using assms a
      by (auto simp: gate_def check_device_available_def Let_def ask_status_def reply_def honest_def)
  qed
qed

section \<open>Commands\<close>

lemma validate_limits_pure [simp]: "validate_ctrl_limits st x req = Inr u \<Longrightarrow> u = ()"
  by simp

lemma execute_put_moves:
  "\<exists>es. set es \<subseteq> {Put_pv (pr_pv req) (pr_value req)} \<and> length es \<le> 1 \<and>
     moves w s es (snd (execute_put x req s)) \<and> dc_tick (snd (execute_put x req s)) = dc_tick s"
proof -
  have "moves w s [e] (affect e s)" for e by (rule moves_frame) (auto simp: affect_def)
  moreover have "dc_tick (affect e s) = dc_tick s" for e by (simp add: affect_def)
  moreover have "moves w s [] s" by simp
  ultimately have "\<exists>es. set es \<subseteq> {e} \<and> length es \<le> 1 \<and> moves w s es t \<and> dc_tick t = dc_tick s"
    if "t = s \<or> t = affect e s" for e t
    using that by (metis empty_set empty_subsetI le0 length_Cons list.set(2) list.size(3) order_refl One_nat_def)
  moreover have "snd (execute_put x req s) = s \<or>
      snd (execute_put x req s) = affect (Put_pv (pr_pv req) (pr_value req)) s"
    by (auto simp: execute_put_def Let_def split: option.splits bool.splits)
  ultimately show ?thesis by blast
qed

text \<open>A state change with authorised effects.\<close>

definition lawful :: "world \<Rightarrow> dc_settings \<Rightarrow> dc \<Rightarrow> dc \<Rightarrow> bool" where
  "lawful w st s t \<longleftrightarrow>
     (\<exists>es. moves w s es t \<and> (owners_sound w s \<longrightarrow>
        (\<forall>e \<in> set es. authorised w (se_ttl st) (dc_tick s) (dc_tick t) e)))"

lemma lawful_silent: "moves w s [] t \<Longrightarrow> lawful w st s t"
  unfolding lawful_def by (intro exI [of _ "[]"]) simp

lemma lawful_trans:
  assumes "lawful w st s t" "lawful w st t u"
  shows "lawful w st s u"
proof -
  from assms obtain es fs where es: "moves w s es t" "moves w t fs u"
      "owners_sound w s \<Longrightarrow> \<forall>e \<in> set es. authorised w (se_ttl st) (dc_tick s) (dc_tick t) e"
      "owners_sound w t \<Longrightarrow> \<forall>e \<in> set fs. authorised w (se_ttl st) (dc_tick t) (dc_tick u) e"
    unfolding lawful_def by blast
  have "dc_tick s \<le> dc_tick t" "dc_tick t \<le> dc_tick u" "owners_sound w s \<longrightarrow> owners_sound w t"
    using es(1,2) by (simp_all add: moves_def)
  then have "\<forall>e \<in> set (es @ fs). authorised w (se_ttl st) (dc_tick s) (dc_tick u) e" if "owners_sound w s"
    using es(3,4) that by (auto intro: authorised_mono)
  then show ?thesis unfolding lawful_def using moves_trans [OF es(1,2)] by blast
qed

lemma set_pv_lawful:
  assumes g: "\<forall>k. genuine (w k)" and c: "se_check st" and ttl: "0 \<le> se_ttl st"
  shows "lawful w st s (snd (set_pv w st x req s))"
proof -
  let ?p = "pr_pv req"
  have h: "honest (mo_pv (here w t))" "honest (mo_status (here w t))" for t
    using g by (simp_all add: here_def genuine_def)
  obtain r1 s1 where o: "get_owning_device w st ?p s = (r1, s1)" by fastforce
  have m1: "moves w s [] s1" using get_owning_device_moves [OF h(1), of s st ?p] o by simp
  show ?thesis
  proof (cases r1)
    case (Inl e)
    then show ?thesis using o m1 by (simp add: set_pv_def lawful_silent)
  next
    case (Inr owner)
    let ?t = "coord_target ?p owner"
    obtain r2 s2 where gt: "gate w st ?t s1 = (r2, s2)" by fastforce
    have m2: "moves w s [] s2" using gate_moves [of w s1 st ?t] gt moves_trans [OF m1] by fastforce
    have unfold: "set_pv w st x req s =
        (case r2 of Inl e \<Rightarrow> (Inl e, s2) | Inr _ \<Rightarrow>
           (case validate_ctrl_limits st x req of
              Inl e \<Rightarrow> (Inl e, s2)
            | Inr _ \<Rightarrow> (case execute_put x req s2 of
                 (Inl e, s3) \<Rightarrow> (Inl e, s3)
               | (Inr ok, s3) \<Rightarrow> (if \<not> ok then Inl Control_failed
                    else Inr (if pr_wait req then PUT_COMPLETION else FIRE_AND_FORGET), s3))))"
      using gt by (simp add: set_pv_def o Inr Let_def coord_target_def)
    show ?thesis
    proof (cases "\<exists>u v. r2 = Inr u \<and> validate_ctrl_limits st x req = Inr v")
      case False
      then have "snd (set_pv w st x req s) = s2" by (auto simp: unfold split: sum.splits)
      with m2 show ?thesis by (simp add: lawful_silent)
    next
      case True
      then have last: "snd (set_pv w st x req s) = snd (execute_put x req s2)"
        by (auto simp: unfold split: prod.splits sum.splits)
      from True gt obtain u where "gate w st ?t s1 = (Inr u, s2)" by auto
      from gate_free [OF this c h(2)] have free: "free_in ?t (here w s1)" "dc_tick s2 = Suc (dc_tick s1)"
        by auto
      obtain es where es: "set es \<subseteq> {Put_pv ?p (pr_value req)}" "moves w s2 es (snd (execute_put x req s2))"
          "dc_tick (snd (execute_put x req s2)) = dc_tick s2"
        using execute_put_moves [of req w s2 x] by blast
      have "authorised w (se_ttl st) (dc_tick s) (dc_tick s2) (Put_pv ?p (pr_value req))"
        if sound: "owners_sound w s"
      proof -
        from owner_recent [OF o [unfolded Inr] h(1) sound ttl] obtain i
          where "i < dc_tick s1" "owner = owner_in (w i) ?p" "clock w s1 \<le> mo_clock (w (Suc i)) + se_ttl st"
          by blast
        then show ?thesis
          using free m1 by (auto simp: moves_def here_def clock_def intro!: bexI [of _ "dc_tick s1"])
      qed
      then show ?thesis
        unfolding lawful_def last using es(1,3) moves_silent [OF m2 es(2)] by (intro exI [of _ es]) auto
    qed
  qed
qed

lemma get_or_connect_moves: "moves w s [] (snd (get_or_connect x sp s))"
  by (rule moves_frame) (auto simp: get_or_connect_def Let_def split: option.splits)

lemma require_spec_moves: "moves w s [] (snd (require_spec w st n s))"
  using get_spec_moves [of w s st n] by (auto simp: require_spec_def split: prod.splits sum.splits option.splits)

text \<open>The common end of the method calls, after a gate was passed or was not needed.\<close>

lemma call_lawful:
  assumes m: "moves w s [] s1" and acts: "m \<in> set write_methods \<Longrightarrow> free_in n (w (dc_tick s)) \<and> dc_tick s1 = Suc (dc_tick s)"
    and t: "\<exists>u. moves w s1 [] u \<and> (t = u \<or> t = affect (Call_method n sub m) u)"
  shows "lawful w st s t"
proof -
  from t obtain u where u: "moves w s1 [] u" "t = u \<or> t = affect (Call_method n sub m) u" by blast
  have su: "moves w s [] u" by (rule moves_silent [OF m u(1)])
  have "moves w u [Call_method n sub m] (affect (Call_method n sub m) u)"
    by (rule moves_frame) (auto simp: affect_def)
  from moves_silent [OF su this] have e: "moves w s [Call_method n sub m] (affect (Call_method n sub m) u)" .
  have tick: "dc_tick s1 \<le> dc_tick (affect (Call_method n sub m) u)"
    using u(1) by (simp add: moves_def affect_def)
  have "authorised w (se_ttl st) (dc_tick s) (dc_tick (affect (Call_method n sub m) u)) (Call_method n sub m)"
    using acts tick by (auto intro!: bexI [of _ "dc_tick s"])
  then have "lawful w st s (affect (Call_method n sub m) u)"
    unfolding lawful_def using e by (intro exI [of _ "[Call_method n sub m]"]) simp
  then show ?thesis using u(2) lawful_silent [OF su] by blast
qed

text \<open>The steps after the gate: the specification, the live device, the call.\<close>

lemma connected_moves:
  assumes "require_spec w st n s1 = (Inr sp, s2)" "get_or_connect x sp s2 = (r3, s3)"
  shows "moves w s1 [] s3"
proof (rule moves_silent)
  show "moves w s1 [] s2" using require_spec_moves [of w s1 st n] assms(1) by simp
  show "moves w s2 [] s3" using get_or_connect_moves [of w s2 x sp] assms(2) by simp
qed

lemma execute_device_method_lawful:
  assumes "\<forall>k. genuine (w k)" "se_check st"
  shows "lawful w st s (snd (execute_device_method w st x n m s))"
proof (cases "m \<in> set allowed_methods")
  case False
  then show ?thesis by (simp add: execute_device_method_def check_method_allowed_def lawful_silent)
next
  case True
  obtain r1 s1 where g: "gate w st n s = (r1, s1)" by fastforce
  have m1: "moves w s [] s1" using gate_moves [of w s st n] g by simp
  show ?thesis
  proof (cases r1)
    case (Inl e)
    then show ?thesis using m1 True by (simp add: execute_device_method_def check_method_allowed_def g lawful_silent)
  next
    case (Inr u)
    let ?t = "snd (execute_device_method w st x n m s)"
    obtain r2 s2 where q: "require_spec w st n s1 = (r2, s2)" by fastforce
    have "\<exists>u. moves w s1 [] u \<and> (?t = u \<or> ?t = affect (Call_method n [] m) u)"
    proof (cases r2)
      case (Inl e)
      then show ?thesis
        using True require_spec_moves [of w s1 st n]
        by (intro exI [of _ s2]) (simp add: execute_device_method_def check_method_allowed_def g q Inr)
    next
      case (Inr sp)
      obtain r3 s3 where c: "get_or_connect x sp s2 = (r3, s3)" by fastforce
      show ?thesis
        using True connected_moves [OF q [unfolded Inr] c] \<open>r1 = Inr u\<close> Inr
        by (intro exI [of _ s3])
          (simp add: execute_device_method_def check_method_allowed_def g q c split: sum.splits)
    qed
    moreover have "free_in n (w (dc_tick s)) \<and> dc_tick s1 = Suc (dc_tick s)"
      using gate_free [of w st n s u s1] assms g Inr by (simp add: genuine_def here_def)
    ultimately show ?thesis by (intro call_lawful [OF m1]) auto
  qed
qed

lemma access_nested_lawful:
  assumes "\<forall>k. genuine (w k)" "se_check st" "split_path path = (n, sub)"
  shows "lawful w st s (snd (access_nested_device w st x path m value s))"
proof (cases "m \<in> set allowed_methods")
  case False
  then show ?thesis using assms(3) by (simp add: access_nested_device_def check_method_allowed_def lawful_silent)
next
  case True
  obtain r1 s1 where g: "(if m \<in> set write_methods then gate w st n s else (Inr (), s)) = (r1, s1)" by fastforce
  have m1: "moves w s [] s1"
    using gate_moves [of w s st n] g by (auto split: if_splits)
  note unfold = access_nested_device_def check_method_allowed_def assms(3) g
  show ?thesis
  proof (cases r1)
    case (Inl e)
    then show ?thesis using m1 True by (simp add: unfold lawful_silent)
  next
    case (Inr u)
    let ?t = "snd (access_nested_device w st x path m value s)"
    obtain r2 s2 where q: "require_spec w st n s1 = (r2, s2)" by fastforce
    have "\<exists>u. moves w s1 [] u \<and> (?t = u \<or> ?t = affect (Call_method n sub m) u)"
    proof (cases r2)
      case (Inl e)
      then show ?thesis
        using True require_spec_moves [of w s1 st n]
        by (intro exI [of _ s2]) (simp add: unfold q Inr)
    next
      case (Inr sp)
      obtain r3 s3 where c: "get_or_connect x sp s2 = (r3, s3)" by fastforce
      show ?thesis
        using True connected_moves [OF q [unfolded Inr] c] \<open>r1 = Inr u\<close> Inr
        by (intro exI [of _ s3]) (simp add: unfold q c split: sum.splits)
    qed
    moreover have "m \<in> set write_methods \<Longrightarrow> free_in n (w (dc_tick s)) \<and> dc_tick s1 = Suc (dc_tick s)"
      using gate_free [of w st n s u s1] assms(1,2) g Inr by (simp add: genuine_def here_def)
    ultimately show ?thesis by (intro call_lawful [OF m1]) auto
  qed
qed

end
