(* ===== verification/DirectProps.thy ===== *)
theory DirectProps
  imports DirectSafe
begin

text \<open>
  What the direct control service guarantees: it fails closed, it keeps off the devices of a
  running plan, a batch is a sequence of single writes, control limits are respected, and only
  writes that were tried count for the health of a PV.
\<close>

section \<open>Requests\<close>

datatype dc_request =
    Write io put_request
  | Write_batch "(io \<times> put_request) list"
  | Execute dev_io string string
  | Stop_device dev_io string
  | Nested dev_io string "(string \<times> json option) option"
  | Nested_value dev_io string

fun dc_handle :: "world \<Rightarrow> dc_settings \<Rightarrow> dc_request \<Rightarrow> dc \<Rightarrow> dc" where
  "dc_handle w st (Write x req) s = snd (set_pv_endpoint w st (x, req) s)"
| "dc_handle w st (Write_batch items) s = snd (set_pv_batch w st items s)"
| "dc_handle w st (Execute x n m) s = snd (execute_endpoint w st x n m s)"
| "dc_handle w st (Stop_device x n) s = snd (stop_device w st x n s)"
| "dc_handle w st (Nested x path body) s = snd (nested_endpoint w st x path body s)"
| "dc_handle w st (Nested_value x path) s = snd (nested_value_endpoint w st x path s)"

definition dc_run :: "world \<Rightarrow> dc_settings \<Rightarrow> dc_request list \<Rightarrow> dc \<Rightarrow> dc" where
  "dc_run w st reqs s = fold (dc_handle w st) reqs s"

definition new_effects :: "dc \<Rightarrow> dc \<Rightarrow> effect list" where
  "new_effects s t = drop (length (dc_effects s)) (dc_effects t)"

lemma report_moves: "moves w s [] (report st p ok s)"
  by (rule moves_frame) (simp_all add: report_def)

lemma report_lawful: "lawful w st s t \<Longrightarrow> lawful w st s (report st p ok t)"
  using lawful_trans lawful_silent [OF report_moves] by blast

lemma validated_lawful:
  "\<lbrakk>validate_device w st n s = (r, s1); lawful w st s1 t\<rbrakk> \<Longrightarrow> lawful w st s t"
  using lawful_trans [OF lawful_silent] validate_device_moves [of w s st n] by simp

lemma set_pv_endpoint_lawful:
  assumes "\<forall>k. genuine (w k)" "se_check st" "0 \<le> se_ttl st"
  shows "lawful w st s (snd (set_pv_endpoint w st item s))"
proof -
  obtain x req where item: "item = (x, req)" by (cases item)
  obtain r1 s1 where v: "validate_pv w st (pr_pv req) s = (r1, s1)" by fastforce
  obtain r2 s2 where p: "set_pv w st x req s1 = (r2, s2)" by fastforce
  have m: "moves w s [] s1"
    using validate_pv_moves [of w s st "pr_pv req"] v assms(1) by (simp add: genuine_def here_def)
  have l: "lawful w st s s2"
    using lawful_trans [OF lawful_silent [OF m] set_pv_lawful [OF assms, where x = x and req = req]] p by simp
  then show ?thesis
    using lawful_silent [OF m] lawful_silent [OF moves_refl] report_lawful [OF l]
    by (auto simp: set_pv_endpoint_def item v p split: sum.splits dc_error.splits)
qed

lemma batch_loop_lawful:
  assumes "\<forall>k. genuine (w k)" "se_check st" "0 \<le> se_ttl st"
  shows "lawful w st s (snd (batch_loop w st items s))"
proof (induction items arbitrary: s)
  case (Cons item items)
  obtain x req where item: "item = (x, req)" by (cases item)
  obtain r1 s1 where v: "validate_pv w st (pr_pv req) s = (r1, s1)" by fastforce
  obtain r2 s2 where p: "set_pv w st x req s1 = (r2, s2)" by fastforce
  have m: "moves w s [] s1"
    using validate_pv_moves [of w s st "pr_pv req"] v assms(1) by (simp add: genuine_def here_def)
  have l: "lawful w st s s2"
    using lawful_trans [OF lawful_silent [OF m] set_pv_lawful [OF assms, where x = x and req = req]] p by simp
  have rest: "lawful w st s (snd (batch_loop w st items (report st (pr_pv req) True s2)))"
    using lawful_trans [OF report_lawful [OF l] Cons.IH] .
  show ?case
    using lawful_silent [OF m] l report_lawful [OF l] rest
    by (cases r1; cases r2)
      (auto simp: item v p split: dc_error.splits prod.splits)
qed (simp add: lawful_silent)

lemma handle_lawful:
  assumes "\<forall>k. genuine (w k)" "se_check st" "0 \<le> se_ttl st"
  shows "lawful w st s (dc_handle w st req s)"
proof -
  note self = lawful_silent [OF moves_refl]
  have call: "lawful w st s (snd (execute_device_method w st x n m s))" for x n m s
    by (rule execute_device_method_lawful) (use assms in auto)
  have nested: "lawful w st s (snd (access_nested_device w st x path m v s))" for x path m v s
    by (rule access_nested_lawful [OF _ _ prod.collapse [symmetric]]) (use assms in auto)
  have resp: "snd (respond r) = snd r" for r by (auto simp: respond_def split: prod.splits sum.splits)
  have val: "lawful w st s (snd (case validate_device w st n s of
      (Inl e, s1) \<Rightarrow> (registry_error_status e, s1) | (Inr _, s1) \<Rightarrow> respond (f s1)))"
    if "\<And>s. lawful w st s (snd (f s))" for n f s
    using that lawful_silent [OF validate_device_moves [of w s st n]] validated_lawful [of w st n s]
    by (auto simp: resp split: prod.splits sum.splits)
  show ?thesis
  proof (cases req)
    case (Write x r)
    then show ?thesis using set_pv_endpoint_lawful [OF assms] by simp
  next
    case (Write_batch items)
    then show ?thesis
      using batch_loop_lawful [OF assms, of s items] self
      by (auto simp: set_pv_batch_def split: prod.splits)
  next
    case (Execute x n m)
    then show ?thesis using val [OF call] self by (simp add: execute_endpoint_def)
  next
    case (Stop_device x n)
    then show ?thesis using val [OF call] self by (simp add: stop_device_def)
  next
    case (Nested x path body)
    then show ?thesis
      using val [OF nested] self by (auto simp: nested_endpoint_def split: prod.splits)
  next
    case (Nested_value x path)
    then show ?thesis using val [OF nested] by (simp add: nested_value_endpoint_def)
  qed
qed

lemma run_lawful:
  assumes "\<forall>k. genuine (w k)" "se_check st" "0 \<le> se_ttl st"
  shows "lawful w st s (dc_run w st reqs s)"
  unfolding dc_run_def
proof (induction reqs arbitrary: s)
  case (Cons r reqs)
  show ?case using lawful_trans [OF handle_lawful [OF assms] Cons.IH] by simp
qed (simp add: lawful_silent)

lemma run_sound:
  assumes "\<forall>k. genuine (w k)" "se_check st" "0 \<le> se_ttl st"
  shows "owners_sound w (dc_run w st reqs new_dc)"
proof -
  have "owners_sound w new_dc" by (simp add: owners_sound_def new_dc_def)
  then show ?thesis using run_lawful [OF assms, of new_dc reqs] by (auto simp: lawful_def moves_def)
qed

lemma lawful_effects:
  assumes "lawful w st s t" "owners_sound w s"
  shows "dc_effects t = dc_effects s @ new_effects s t \<and>
    list_all (authorised w (se_ttl st) (dc_tick s) (dc_tick t)) (new_effects s t)"
  using assms by (auto simp: lawful_def moves_def new_effects_def list_all_iff)

section \<open>Failing closed\<close>

text \<open>
  C15: Direct control fails closed. Whatever requests came before and however the configuration
  service, its registry and its locks change between any two exchanges, a request reaches the
  hardware only with an authorisation of its own: for every put, one of its exchanges found the
  device that owns the PV enabled and not locked (or not registered), where the owner was read
  at most the cache's lifetime before; for every method that acts, one of its exchanges found
  the device so. In particular nothing is written when the service cannot be reached or answers
  with an error.
\<close>

theorem direct_control_fails_closed:
  fixes w :: world and before :: "dc_request list"
  assumes "\<forall>k. genuine (w k)" and "se_check st" and "0 \<le> se_ttl st"
  defines "s \<equiv> dc_run w st before new_dc"
  shows "case dc_handle w st req s of t \<Rightarrow>
     dc_effects t = dc_effects s @ new_effects s t \<and>
     list_all (authorised w (se_ttl st) (dc_tick s) (dc_tick t)) (new_effects s t)"
  using lawful_effects [OF handle_lawful [OF assms(1-3)] run_sound [OF assms(1-3)]] unfolding s_def by simp

section \<open>Plans\<close>

lemma held_not_free:
  assumes "holds d item lid t (cf_locks c')" "get_device d (cf_reg (mo_config m)) \<noteq> None"
    and "list_all (\<lambda>(t1, req). t \<le> t1 \<and> (lm_ttl (cf_locks c') \<le> 0 \<or> t1 < t + lm_ttl (cf_locks c')) \<and>
           \<not> may_end d item req) trace"
    and "cf_locks (mo_config m) = fold run_lock trace (cf_locks c')"
    and "lm_ttl (cf_locks c') \<le> 0 \<or> mo_time m < t + lm_ttl (cf_locks c')"
  shows "\<not> free_in d m"
proof -
  have "holds d item lid t (cf_locks (mo_config m)) \<and> lm_ttl (cf_locks (mo_config m)) = lm_ttl (cf_locks c')"
    unfolding assms(4) by (rule trace_keeps_holder [OF assms(1,3)])
  then obtain l where "active_lock (cf_locks (mo_config m)) d (mo_time m) = Some l"
    using holds_active assms(5) by metis
  then show ?thesis
    using assms(2) by (auto simp: free_in_def effective_lock_def get_device_lock_def split: option.splits)
qed


section \<open>Batches\<close>

text \<open>The reference: single requests in order until one does not answer \<open>200\<close>.\<close>

fun one_by_one ::
    "world \<Rightarrow> dc_settings \<Rightarrow> (io \<times> put_request) list \<Rightarrow> dc \<Rightarrow> int list \<times> dc" where
  "one_by_one w st [] s = ([], s)"
| "one_by_one w st (item # items) s =
     (case set_pv_endpoint w st item s of (code, s1) \<Rightarrow>
        if code \<noteq> 200 then ([code], s1)
        else case one_by_one w st items s1 of (codes, s2) \<Rightarrow> (code # codes, s2))"

lemma registry_status_not_ok: "registry_error_status e \<noteq> 200"
  by (simp add: registry_error_status_def)

lemma batch_loop_singles:
  assumes "\<not> se_read_only st"
  shows "case batch_loop w st items s of ((rows, n), s') \<Rightarrow>
     (map br_code rows, s') = one_by_one w st items s \<and>
     n = length (filter (\<lambda>r. br_code r = 200) rows) \<and> length rows \<le> length items \<and>
     list_all (\<lambda>r. br_success r = (br_code r = 200)) rows \<and>
     map br_pv rows = map (pr_pv \<circ> snd) (take (length rows) items)"
proof (induction items arbitrary: s)
  case (Cons item items)
  obtain x req where item: "item = (x, req)" by (cases item)
  obtain r1 s1 where v: "validate_pv w st (pr_pv req) s = (r1, s1)" by fastforce
  obtain r2 s2 where p: "set_pv w st x req s1 = (r2, s2)" by fastforce
  show ?case
  proof (cases "\<exists>u m. r1 = Inr u \<and> r2 = Inr m")
    case True
    then have "set_pv_endpoint w st item s = (200, report st (pr_pv req) True s2)"
      using assms by (auto simp: set_pv_endpoint_def item v p)
    with True Cons.IH [of "report st (pr_pv req) True s2"] show ?thesis
      by (auto simp: item v p split: prod.splits)
  next
    case False
    then show ?thesis
      using assms
      by (cases r1; cases r2)
        (auto simp: set_pv_endpoint_def item v p registry_status_not_ok split: dc_error.splits)
  qed
qed simp

text \<open>
  C31: A batch is a sequence of single writes. The rows of a batch carry the status codes, and the
  batch leaves the state, that sending the writes one by one would until the first that does not
  answer \<open>200\<close>; \<open>applied\<close> counts the successful ones, each row names its PV, and \<open>ok\<close> says that
  all writes were applied.
\<close>

theorem batch_is_sequence:
  assumes "\<not> se_read_only st" and "items \<noteq> []" and "length items \<le> 100"
  shows "case set_pv_batch w st items s of
       ((code, None), s') \<Rightarrow> False
     | ((code, Some b), s') \<Rightarrow>
         code = 200 \<and> (map br_code (bt_results b), s') = one_by_one w st items s \<and>
         bt_applied b = length (filter (\<lambda>r. br_code r = 200) (bt_results b)) \<and>
         bt_requested b = length items \<and>
         map br_pv (bt_results b) = map (pr_pv \<circ> snd) (take (length (bt_results b)) items) \<and>
         list_all (\<lambda>r. br_success r = (br_code r = 200)) (bt_results b) \<and>
         bt_ok b = (map br_code (bt_results b) = replicate (length items) 200)"
proof -
  obtain rows n s' where loop: "batch_loop w st items s = ((rows, n), s')" by (metis prod.exhaust)
  note facts = batch_loop_singles [OF assms(1), of w items s, unfolded loop, simplified]
  have "(n = length items) = (map br_code rows = replicate (length items) 200)"
  proof
    assume n: "n = length items"
    then have len: "length (filter (\<lambda>r. br_code r = 200) rows) = length rows" "length rows = length items"
      using facts length_filter_le [of "\<lambda>r. br_code r = 200" rows] by simp_all
    have "br_code r = 200" if "r \<in> set rows" for r
      using length_filter_less [of r rows "\<lambda>r. br_code r = 200"] that len(1) by auto
    with len(2) have "list_all (\<lambda>r. br_code r = 200) rows \<and> length rows = length items"
      by (simp add: list_all_iff)
    then show "map br_code rows = replicate (length items) 200"
      by (auto simp: list_all_iff intro!: replicate_eqI)
  next
    assume a: "map br_code rows = replicate (length items) 200"
    then have "\<forall>r \<in> set rows. br_code r = 200" by (metis in_set_conv_nth in_set_replicate length_map nth_map nth_replicate length_replicate)
    then have "filter (\<lambda>r. br_code r = 200) rows = rows" by (simp add: filter_id_conv)
    moreover have "length rows = length items" using a by (metis length_map length_replicate)
    ultimately show "n = length items" using facts by simp
  qed
  with facts show ?thesis using assms by (simp add: set_pv_batch_def loop)
qed

section \<open>Single writes\<close>

lemma execute_put_result:
  assumes "execute_put x req s = (r, t)"
  shows "dc_reports t = dc_reports s \<and>
    (r = Inr True \<longrightarrow> dc_effects t = dc_effects s @ [Put_pv (pr_pv req) (pr_value req)]) \<and>
    (\<forall>e. r = Inl e \<longrightarrow> e = Other_failure \<or> e = Control_failed) \<and>
    dc_effects t \<in> {dc_effects s, dc_effects s @ [Put_pv (pr_pv req) (pr_value req)]}"
  using assms
  by (auto simp: execute_put_def Let_def affect_def split: if_splits option.splits bool.splits)

lemma gate_silent: "gate w st n s = (r, t) \<Longrightarrow> dc_reports t = dc_reports s \<and> dc_effects t = dc_effects s"
  by (auto simp: gate_def check_device_available_def step_on_def Let_def split: prod.splits sum.splits
      option.splits if_splits)

lemma owning_silent:
  "get_owning_device w st p s = (r, t) \<Longrightarrow> dc_reports t = dc_reports s \<and> dc_effects t = dc_effects s"
  by (auto simp: get_owning_device_def step_on_def Let_def split: option.splits prod.splits if_splits)

lemma validate_silent:
  "validate_pv w st p s = (r, t) \<Longrightarrow> dc_reports t = dc_reports s \<and> dc_effects t = dc_effects s"
  by (auto simp: validate_pv_def step_on_def Let_def split: option.splits prod.splits if_splits)

text \<open>What a write does, by its outcome.\<close>

lemma set_pv_result:
  assumes "set_pv w st x req s = (r, t)"
  shows "dc_reports t = dc_reports s \<and>
    (case r of
       Inr m \<Rightarrow> dc_effects t = dc_effects s @ [Put_pv (pr_pv req) (pr_value req)]
     | Inl e \<Rightarrow>
         (if e \<in> {Device_disabled, Device_locked, Device_unavailable, Coordination_failed, Value_limit}
          then dc_effects t = dc_effects s
          else dc_effects t \<in> {dc_effects s, dc_effects s @ [Put_pv (pr_pv req) (pr_value req)]}))"
proof -
  obtain r1 s1 where o: "get_owning_device w st (pr_pv req) s = (r1, s1)" by fastforce
  note os = owning_silent [OF o]
  show ?thesis
  proof (cases r1)
    case (Inl e)
    then show ?thesis using assms os by (auto simp: set_pv_def o)
  next
    case (Inr owner)
    obtain r2 s2 where g: "gate w st (coord_target (pr_pv req) owner) s1 = (r2, s2)" by fastforce
    obtain r3 s3 where e: "execute_put x req s2 = (r3, s3)" by fastforce
    note gs = gate_silent [OF g] and es = execute_put_result [OF e]
    have "(r, t) = (case r2 of Inl e \<Rightarrow> (Inl e, s2) | Inr _ \<Rightarrow>
           (case validate_ctrl_limits st x req of
              Inl e \<Rightarrow> (Inl e, s2)
            | Inr _ \<Rightarrow> (case r3 of
                 Inl e \<Rightarrow> (Inl e, s3)
               | Inr ok \<Rightarrow> (if \<not> ok then Inl Control_failed
                    else Inr (if pr_wait req then PUT_COMPLETION else FIRE_AND_FORGET), s3))))"
      using assms g by (auto simp: set_pv_def o Inr Let_def coord_target_def e split: sum.splits)
    then show ?thesis
      using os gs es by (auto split: sum.splits if_splits)
  qed
qed

text \<open>
  C32: Only writes that were tried count for the health of a PV. A write request answers \<open>200\<close>,
  \<open>403\<close>, \<open>404\<close>, \<open>409\<close>, \<open>422\<close>, \<open>423\<close>, \<open>500\<close> or \<open>503\<close>. With \<open>200\<close> exactly this value was put once and a
  success is reported; with \<open>500\<close> a failure is reported and at most this put was made; with every
  other answer (refused by a gate, a limit, the registry or read-only mode) nothing was put and
  nothing is reported.
\<close>

theorem write_outcomes:
  assumes "se_report st"
  shows "case set_pv_endpoint w st (x, req) s of (code, t) \<Rightarrow>
     code \<in> {200, 403, 404, 409, 422, 423, 500, 503} \<and>
     dc_reports t = dc_reports s @ (if code \<in> {200, 500} then [(pr_pv req, code = 200)] else []) \<and>
     (code = 200 \<longrightarrow> dc_effects t = dc_effects s @ [Put_pv (pr_pv req) (pr_value req)]) \<and>
     (code \<notin> {200, 500} \<longrightarrow> dc_effects t = dc_effects s) \<and>
     dc_effects t \<in> {dc_effects s, dc_effects s @ [Put_pv (pr_pv req) (pr_value req)]}"
proof -
  obtain r1 s1 where v: "validate_pv w st (pr_pv req) s = (r1, s1)" by fastforce
  obtain r2 s2 where p: "set_pv w st x req s1 = (r2, s2)" by fastforce
  note vs = validate_silent [OF v] and ps = set_pv_result [OF p]
  have reg: "e = Not_registered \<or> e = Runtime_failure" if "r1 = Inl e" for e
    using v that by (auto simp: validate_pv_def Let_def split: option.splits prod.splits if_splits)
  show ?thesis
  proof (cases "se_read_only st")
    case False
    show ?thesis
    proof (cases r1)
      case (Inl e)
      then show ?thesis
        using False vs reg by (auto simp: set_pv_endpoint_def v registry_error_status_def)
    next
      case (Inr u)
      then show ?thesis
        using False vs ps assms
        by (cases r2; cases "projl r2") (auto simp: set_pv_endpoint_def v p report_def)
    qed
  qed (simp add: set_pv_endpoint_def)
qed

text \<open>
  C33: Control limits are respected. If the check is on (by the request or, without a wish of the
  request, by the settings) and the IOC advertises limits other than both zero, no number below
  the lower or above the upper limit is put; the request answers \<open>422\<close> only then. If no limits
  can be read, the request goes exactly as without the check.
\<close>

theorem limits_respected:
  assumes "case pr_check_limits req of None \<Rightarrow> se_limits st | Some b \<Rightarrow> b"
    and "pr_value req = Numeric v"
  shows "(dc_effects (snd (set_pv_endpoint w st (x, req) s)) \<noteq> dc_effects s \<longrightarrow>
       read_ctrl_limits x \<noteq> (Some (Finite 0), Some (Finite 0)) \<longrightarrow>
       (case fst (read_ctrl_limits x) of None \<Rightarrow> True | Some l \<Rightarrow> \<not> float_less v l) \<and>
       (case snd (read_ctrl_limits x) of None \<Rightarrow> True | Some u \<Rightarrow> \<not> float_less u v)) \<and>
     (read_ctrl_limits x = (None, None) \<longrightarrow>
       set_pv_endpoint w st (x, req) s = set_pv_endpoint w st (x, req\<lparr>pr_check_limits := Some False\<rparr>) s)"
proof -
  have put: "dc_effects (snd (set_pv_endpoint w st (x, req) s)) = dc_effects s"
    if bad: "validate_ctrl_limits st x req = Inl Value_limit"
  proof -
    obtain r1 s1 where v1: "validate_pv w st (pr_pv req) s = (r1, s1)" by fastforce
    obtain r2 s2 where p: "set_pv w st x req s1 = (r2, s2)" by fastforce
    obtain r3 s3 where o: "get_owning_device w st (pr_pv req) s1 = (r3, s3)" by fastforce
    have "dc_effects s2 = dc_effects s1"
    proof (cases r3)
      case (Inl e)
      then show ?thesis using p owning_silent [OF o] by (auto simp: set_pv_def o)
    next
      case (Inr owner)
      obtain r4 s4 where g: "gate w st (coord_target (pr_pv req) owner) s3 = (r4, s4)" by fastforce
      then have "s2 = s4" using p by (auto simp: set_pv_def o Inr bad Let_def coord_target_def split: sum.splits)
      then show ?thesis using owning_silent [OF o] gate_silent [OF g] by simp
    qed
    then show ?thesis
      using validate_silent [OF v1]
      by (auto simp: set_pv_endpoint_def v1 p report_def split: sum.splits dc_error.splits)
  qed
  have off: "validate_ctrl_limits st x (req\<lparr>pr_check_limits := Some False\<rparr>) = Inr ()"
    by (simp add: validate_ctrl_limits_def)
  have same: "execute_put x (req\<lparr>pr_check_limits := b\<rparr>) s = execute_put x req s" for b s
    by (simp add: execute_put_def Let_def)
  have eq: "set_pv w st x (req\<lparr>pr_check_limits := Some False\<rparr>) s = set_pv w st x req s"
    if "validate_ctrl_limits st x req = Inr ()" for s
    using that
    by (simp add: set_pv_def off same Let_def
        cong: sum.case_cong prod.case_cong option.case_cong if_cong)
  have bad: "validate_ctrl_limits st x req = Inl Value_limit"
    if "read_ctrl_limits x \<noteq> (Some (Finite 0), Some (Finite 0))"
      "\<not> ((case fst (read_ctrl_limits x) of None \<Rightarrow> True | Some l \<Rightarrow> \<not> float_less v l) \<and>
       (case snd (read_ctrl_limits x) of None \<Rightarrow> True | Some u \<Rightarrow> \<not> float_less u v))"
    using that assms by (auto simp: validate_ctrl_limits_def split: prod.splits option.splits)
  have unread: "validate_ctrl_limits st x req = Inr ()" if "read_ctrl_limits x = (None, None)"
    using that assms by (auto simp: validate_ctrl_limits_def)
  have "set_pv_endpoint w st (x, req) s = set_pv_endpoint w st (x, req\<lparr>pr_check_limits := Some False\<rparr>) s"
    if "validate_ctrl_limits st x req = Inr ()"
    by (simp add: set_pv_endpoint_def eq [OF that] cong: sum.case_cong prod.case_cong dc_error.case_cong if_cong)
  with put bad unread show ?thesis by blast
qed

section \<open>Where the gate does not look\<close>

text \<open>
  C35: The gate looks only at the owner it knows. If direct control has the PV and its owner in its
  caches, it puts a value whenever that owner is free, though another device that lists the PV,
  or that meanwhile owns it, may be locked by a plan: the index of PVs names one owner, and the
  cache keeps it for its lifetime.
\<close>

theorem known_owner_decides:
  assumes "dget (dc_pvs s) (pr_pv req) = Some (True, t1)" and "clock w s - t1 \<le> se_ttl st"
    and "dget (dc_owners s) (pr_pv req) = Some (Some e, t2)" and "clock w s - t2 \<le> se_ttl st"
    and "e \<noteq> []" and "free_in e (here w s)" and "mo_status (here w s) = Answered"
    and "\<not> se_read_only st" and "validate_ctrl_limits st x req = Inr ()"
    and "\<not> pr_use_complete req" and "pr_ftype req = None" and "io_put x = Some 1"
  shows "case set_pv_endpoint w st (x, req) s of (code, t) \<Rightarrow>
     code = 200 \<and> dc_effects t = dc_effects s @ [Put_pv (pr_pv req) (pr_value req)]"
proof -
  have v: "validate_pv w st (pr_pv req) s = (Inr (), s)"
    using assms(1,2) by (simp add: validate_pv_def cache_get_def)
  have o: "get_owning_device w st (pr_pv req) s = (Inr (Some e), s)"
    using assms(3,4) by (simp add: get_owning_device_def cache_peek_def)
  obtain s2 where g: "gate w st e s = (Inr (), s2)" "dc_effects s2 = dc_effects s"
  proof (cases "se_check st")
    case False
    then show ?thesis by (intro that [of s]) (simp_all add: gate_def check_device_available_def raise_for_unavailable_def)
  next
    case True
    have "\<exists>s2. gate w st e s = (Inr (), s2)"
      using True assms(6,7)
      by (auto simp: gate_def check_device_available_def Let_def ask_status_def reply_def get_device_status_def
          free_in_def body_of_def lock_text_def map_lock_status_def raise_for_unavailable_def
          split: option.splits prod.splits)
    then show ?thesis using that gate_silent by blast
  qed
  have p: "execute_put x req s2 = (Inr True, affect (Put_pv (pr_pv req) (pr_value req)) s2)"
    using assms(10-12) by (simp add: execute_put_def)
  show ?thesis
    using assms(5,8,9) g(2)
    by (simp add: set_pv_endpoint_def v set_pv_def o g(1) Let_def p report_def affect_def)
qed

end
