(* ===== verification/DirectDemo.thy ===== *)
theory DirectDemo
  imports DirectProps CoordDemo
begin

text \<open>Concrete requests in which the hypotheses of the direct control properties hold.\<close>

section \<open>Two worlds\<close>

definition moment_of :: "config \<Rightarrow> rat \<Rightarrow> moment" where
  "moment_of c t = \<lparr>mo_config = c, mo_health = [], mo_time = t, mo_clock = t, mo_status = Answered,
     mo_pv = Answered, mo_device = Answered, mo_spec = Answered\<rparr>"

definition motor_config :: config where
  "motor_config = demo_config\<lparr>cf_reg := demo_registry\<rparr>"

definition free_world :: world where
  "free_world k = moment_of motor_config 6"

text \<open>Here a plan has locked \<open>m1\<close>, and other clients have tried to take the lock.\<close>

definition motor_locking :: "(cs_error + unit) \<times> cstate" where
  "motor_locking = lock_devices_for_plan demo_settings [Fine] [Fine] [Lost_request, Fine] 5
     [''m1'', ''zz''] ''a'' ''scan'' (demo_coord, motor_config)"

lemma motor_locking_values:
  "fst motor_locking = Inr ()" "co_devices (fst (snd motor_locking)) = [''m1'']"
  "lm_ttl (cf_locks (snd (snd motor_locking))) = 10"
  by code_simp+

definition plan_config :: config where
  "plan_config = snd (snd motor_locking)"

definition busy_world :: world where
  "busy_world k = moment_of (plan_config\<lparr>cf_locks := fold run_lock demo_others (cf_locks plan_config)\<rparr>) 9"

definition demo_dc :: dc_settings where
  "demo_dc = \<lparr>se_check = True, se_read_only = False, se_limits = True, se_ttl = 30, se_report = True\<rparr>"

definition good_io :: io where
  "good_io = \<lparr>io_connect_limits = Some True, io_limits = Some (Some (Finite 0), Some (Finite 3)),
     io_connect = Some True, io_put = Some 1, io_complete = True\<rparr>"

definition put_of :: "string \<Rightarrow> rat \<Rightarrow> put_request" where
  "put_of p v = \<lparr>pr_pv = p, pr_value = Numeric (Finite v), pr_wait = False, pr_use_complete = False,
     pr_ftype = None, pr_check_limits = None\<rparr>"

definition good_dev :: dev_io where
  "good_dev = \<lparr>di_build = True, di_component = True, di_method = Inr ()\<rparr>"

lemma genuine_demo: "\<forall>k. genuine (free_world k)" "\<forall>k. genuine (busy_world k)"
  by (simp_all add: genuine_def honest_def free_world_def busy_world_def moment_of_def)

lemma demo_dc_sets: "se_check demo_dc" "0 \<le> se_ttl demo_dc" "\<not> se_read_only demo_dc" "se_report demo_dc"
  by (simp_all add: demo_dc_def)

section \<open>Instances\<close>

theorem direct_control_fails_closed_instance:
  "list_all (authorised free_world 30 0 2) [Put_pv ''X.VAL'' (Numeric (Finite 2))]"
proof -
  have "new_effects new_dc (dc_handle free_world demo_dc (Write good_io (put_of ''X.VAL'' 2)) new_dc) =
      [Put_pv ''X.VAL'' (Numeric (Finite 2))]"
    "dc_tick (dc_handle free_world demo_dc (Write good_io (put_of ''X.VAL'' 2)) new_dc) = 2" by code_simp+
  then show ?thesis
    using direct_control_fails_closed [OF genuine_demo(1) demo_dc_sets(1,2),
        where before = "[]" and req = "Write good_io (put_of ''X.VAL'' 2)"]
    by (simp add: dc_run_def) (simp add: new_dc_def demo_dc_def)
qed

text \<open>Direct control has the PV in its caches; the plan locks the motor; only a reading gets through.\<close>

definition demo_attempts :: "dc_request list" where
  "demo_attempts = [Write good_io (put_of ''X.VAL'' 2), Write_batch [(good_io, put_of ''X.VAL'' 1)],
     Execute good_dev ''m1'' ''set'', Stop_device good_dev ''m1'', Nested_value good_dev ''m1.readback'']"


definition demo_batch :: "(io \<times> put_request) list" where
  "demo_batch = [(good_io, put_of ''X.VAL'' 1), (good_io, put_of ''NO.PV'' 1), (good_io, put_of ''X.RBV'' 1)]"

theorem batch_is_sequence_instance:
  "fst (one_by_one free_world demo_dc demo_batch new_dc) = [200, 404]"
proof -
  obtain code rep s' where r: "set_pv_batch free_world demo_dc demo_batch new_dc = ((code, rep), s')"
    by (metis prod.exhaust)
  have "map_option (map br_code \<circ> bt_results) (snd (fst (set_pv_batch free_world demo_dc demo_batch new_dc))) =
      Some [200, 404]" by code_simp
  then obtain b where b: "rep = Some b" "map br_code (bt_results b) = [200, 404]" by (auto simp: r)
  have "demo_batch \<noteq> []" "length demo_batch \<le> 100" by (simp_all add: demo_batch_def)
  note seq = batch_is_sequence [OF demo_dc_sets(3) this, of free_world new_dc, unfolded r b prod.case option.case]
  then have "one_by_one free_world demo_dc demo_batch new_dc = ([200, 404], s')" by (elim conjE) (rule sym)
  then show ?thesis by simp
qed

theorem write_outcomes_instance:
  "dc_effects (snd (set_pv_endpoint busy_world demo_dc (good_io, put_of ''X.VAL'' 2) new_dc)) = [] \<and>
   dc_reports (snd (set_pv_endpoint busy_world demo_dc (good_io, put_of ''X.VAL'' 2) new_dc)) = []"
proof -
  have "fst (set_pv_endpoint busy_world demo_dc (good_io, put_of ''X.VAL'' 2) new_dc) = 423" by code_simp
  then show ?thesis
    using write_outcomes [OF demo_dc_sets(4), where w = busy_world and x = good_io and req = "put_of ''X.VAL'' 2"
        and s = new_dc]
    by (auto simp: new_dc_def split: prod.splits)
qed

theorem limits_respected_instance:
  "dc_effects (snd (set_pv_endpoint free_world demo_dc (good_io, put_of ''X.VAL'' 9) new_dc)) = []"
proof -
  have "case pr_check_limits (put_of ''X.VAL'' 9) of None \<Rightarrow> se_limits demo_dc | Some b \<Rightarrow> b"
    "pr_value (put_of ''X.VAL'' 9) = Numeric (Finite 9)"
    by (simp_all add: put_of_def demo_dc_def)
  from limits_respected [OF this, where w = free_world and x = good_io and s = new_dc] show ?thesis
    by (auto simp: good_io_def read_ctrl_limits_def new_dc_def)
qed

text \<open>
  The plan has locked \<open>m1\<close>, which lists \<open>X.RBV\<close>; the index names \<open>m2\<close>, which was registered
  later and lists it too. The put goes through.
\<close>

definition knowing :: dc where
  "knowing = new_dc\<lparr>dc_pvs := [(''X.RBV'', (True, 9))], dc_owners := [(''X.RBV'', (Some ''m2'', 9))]\<rparr>"

theorem known_owner_decides_instance:
  "is_device_locked ''m1'' 9 (cf_locks (mo_config (busy_world 0))) \<and>
   list_ex (\<lambda>cp. snd cp = ''X.RBV'') (case get_device ''m1'' (cf_reg (mo_config (busy_world 0))) of
      None \<Rightarrow> [] | Some d \<Rightarrow> dev_pvs d) \<and>
   dc_effects (snd (set_pv_endpoint busy_world demo_dc (good_io, put_of ''X.RBV'' 2) knowing)) =
     [Put_pv ''X.RBV'' (Numeric (Finite 2))]"
proof (intro conjI)
  show "is_device_locked ''m1'' 9 (cf_locks (mo_config (busy_world 0)))" by code_simp
  show "list_ex (\<lambda>cp. snd cp = ''X.RBV'') (case get_device ''m1'' (cf_reg (mo_config (busy_world 0))) of
      None \<Rightarrow> [] | Some d \<Rightarrow> dev_pvs d)" by code_simp
  have k: "here busy_world knowing = busy_world 0" "clock busy_world knowing = 9"
    by (simp_all add: here_def clock_def knowing_def new_dc_def busy_world_def moment_of_def)
  have pv: "pr_pv (put_of ''X.RBV'' 2) = ''X.RBV''" by (simp add: put_of_def)
  have free: "free_in ''m2'' (here busy_world knowing)" unfolding k by code_simp
  have ans: "mo_status (here busy_world knowing) = Answered" by (simp add: k busy_world_def moment_of_def)
  have lim: "validate_ctrl_limits demo_dc good_io (put_of ''X.RBV'' 2) = Inr ()" by code_simp
  have put: "\<not> pr_use_complete (put_of ''X.RBV'' 2)" "pr_ftype (put_of ''X.RBV'' 2) = None" "io_put good_io = Some 1"
    by (simp_all add: put_of_def good_io_def)
  have pvs: "dget (dc_pvs knowing) (pr_pv (put_of ''X.RBV'' 2)) = Some (True, 9)"
    and own: "dget (dc_owners knowing) (pr_pv (put_of ''X.RBV'' 2)) = Some (Some ''m2'', 9)"
    by (simp_all add: pv knowing_def)
  have fresh: "clock busy_world knowing - 9 \<le> se_ttl demo_dc" by (simp add: k demo_dc_def)
  have ne: "''m2'' \<noteq> []" by simp
  show "dc_effects (snd (set_pv_endpoint busy_world demo_dc (good_io, put_of ''X.RBV'' 2) knowing)) =
     [Put_pv ''X.RBV'' (Numeric (Finite 2))]"
    using known_owner_decides [OF pvs fresh own fresh ne free ans demo_dc_sets(3) lim put]
    by (simp add: knowing_def new_dc_def put_of_def split: prod.splits)
qed

end
