(* ===== verification/DeviceDiff.thy ===== *)
theory DeviceDiff
  imports OverlayProps
begin

text \<open>
  Comparing the devices the worker found with the registry, and writing the differences back
  (\<open>config_service.py\<close>, \<open>compute_diff\<close> and \<open>apply_diff\<close>; \<open>apply_sync\<close> of the coordinator and
  the two request handlers of the manager). Both sides are compared as the JSON objects that
  travel: the worker's as its introspection builds them, the registry's as pydantic dumps them.
\<close>

section \<open>The registry's side\<close>

text \<open>The fields of \<open>DeviceInstantiationSpec\<close> in a response, in the order of the class.\<close>

definition framework_json :: "framework option \<Rightarrow> json" where
  "framework_json f = (case f of None \<Rightarrow> JNull
     | Some Ophyd_sync \<Rightarrow> JStr ''ophyd-sync'' | Some Ophyd_async \<Rightarrow> JStr ''ophyd-async'')"

definition spec_json :: "spec \<Rightarrow> dict" where
  "spec_json sp = payload_spec sp @ [(''framework'', framework_json (spec_framework sp))]"

definition registry_specs :: "config \<Rightarrow> (string \<times> dict) list" where
  "registry_specs c = map (\<lambda>ns. (fst ns, spec_json (snd ns))) (get_specs False c)"

section \<open>The difference\<close>

record spec_change =
  ch_name :: string
  ch_before :: dict
  ch_after :: dict
  ch_fields :: "string list"

record device_diff =
  df_added :: "string list"
  df_removed :: "string list"
  df_modified :: "spec_change list"
  df_disabled :: "string list"

definition diff_is_empty :: "device_diff \<Rightarrow> bool" where
  "diff_is_empty df = (df_added df = [] \<and> df_removed df = [] \<and> df_modified df = [])"

text \<open>\<open>before.get(k) != after.get(k)\<close>: a missing key counts as \<open>None\<close>.\<close>

definition get_or_none :: "dict \<Rightarrow> string \<Rightarrow> json" where
  "get_or_none d k = (case dget d k of None \<Rightarrow> JNull | Some v \<Rightarrow> v)"

definition changed_keys :: "dict \<Rightarrow> dict \<Rightarrow> string list" where
  "changed_keys before after =
     sort (filter (\<lambda>k. \<not> py_eq (get_or_none before k) (get_or_none after k))
       (remdups (map fst before @ map fst after)))"

definition is_disabled :: "dict \<Rightarrow> bool" where
  "is_disabled sp = (dget sp ''active'' = Some (JBool False))"

definition modified_at :: "device_data \<Rightarrow> (string \<times> dict) list \<Rightarrow> string \<Rightarrow> spec_change option" where
  "modified_at data regs n =
     (case (dget data n, dget regs n) of
        (Some (d, Some sp), Some before) \<Rightarrow>
          if py_eq (JDict before) (JDict (payload_spec sp)) then None
          else Some \<lparr>ch_name = n, ch_before = before, ch_after = payload_spec sp,
                     ch_fields = changed_keys before (payload_spec sp)\<rparr>
      | _ \<Rightarrow> None)"

definition compute_diff :: "device_data \<Rightarrow> (string \<times> dict) list \<Rightarrow> device_diff" where
  "compute_diff data regs =
     (let enabled = map fst (filter (\<lambda>ns. \<not> is_disabled (snd ns)) regs) in
      \<lparr>df_added = sort (filter (\<lambda>n. \<not> dhas regs n) (map fst data)),
       df_removed = sort (filter (\<lambda>n. \<not> dhas data n) enabled),
       df_modified = List.map_filter (modified_at data regs)
          (sort (filter (\<lambda>n. n \<in> set enabled) (map fst data))),
       df_disabled = sort (map fst (filter (\<lambda>ns. is_disabled (snd ns)) regs))\<rparr>)"

section \<open>Selecting the writes\<close>

definition apply_strategies :: "string list" where
  "apply_strategies = [''all'', ''additions_only'', ''selected'']"

text \<open>The names in \<open>set(selected)\<close>; building the set fails for what is not iterable or hashable.\<close>

definition names_in :: "json \<Rightarrow> string list option" where
  "names_in j =
     (case j of
        JList xs \<Rightarrow> if list_all hashable xs
          then Some (List.map_filter (\<lambda>x. case x of JStr s \<Rightarrow> Some s | _ \<Rightarrow> None) xs) else None
      | JDict d \<Rightarrow> Some (map fst d)
      | JStr s \<Rightarrow> Some (map (\<lambda>c. [c]) s)
      | _ \<Rightarrow> None)"

definition select_writes ::
    "device_diff \<Rightarrow> json \<Rightarrow> json \<Rightarrow> (string list \<times> string list) option" where
  "select_writes df strategy selected =
     (let modified = map ch_name (df_modified df) in
      if strategy = JStr ''all'' then Some (sort (df_added df @ modified), df_removed df)
      else if strategy = JStr ''additions_only'' then Some (df_added df, [])
      else if strategy = JStr ''selected'' then
        map_option (\<lambda>ns. (sort (filter (\<lambda>n. n \<in> set ns) (df_added df @ modified)),
                          filter (\<lambda>n. n \<in> set ns) (df_removed df))) (names_in selected)
      else None)"

section \<open>Writing\<close>

text \<open>\<open>Bad_arguments\<close> stands for the exceptions of \<open>_select_writes\<close>.\<close>

datatype sync_error = Bad_arguments | Failed cs_error

definition client_delete :: "settings \<Rightarrow> rat \<Rightarrow> net list \<Rightarrow> string \<Rightarrow> config \<Rightarrow> (cs_error + unit) \<times> config" where
  "client_delete st now net n c =
     request st net (\<lambda>c. case delete_device_request True now n c of (code, c') \<Rightarrow> ((code, ()), c')) c"

fun delete_pass ::
    "settings \<Rightarrow> rat \<Rightarrow> (string \<Rightarrow> net list) \<Rightarrow> string list \<Rightarrow> config \<Rightarrow> string list \<times> config" where
  "delete_pass st now net [] c = ([], c)"
| "delete_pass st now net (n # ns) c =
     (case client_delete st now (net n) n c of (r, c1) \<Rightarrow>
      case delete_pass st now net ns c1 of (fails, c2) \<Rightarrow>
        (case r of Inl e \<Rightarrow> (n # fails, c2) | Inr _ \<Rightarrow> (fails, c2)))"

text \<open>
  The networks of the two passes, and of the two reads of the registry. As in the bootstrap,
  the requests of a pass run concurrently in the code; here the server sees them in list order.
\<close>

record sync_world =
  sw_now :: rat
  sw_before :: "net list"
  sw_upsert :: "string \<Rightarrow> net list \<times> net list"
  sw_delete :: "string \<Rightarrow> net list"
  sw_after :: "net list"

definition apply_diff ::
    "settings \<Rightarrow> models \<Rightarrow> string list \<Rightarrow> sync_world \<Rightarrow> device_diff \<Rightarrow> device_data \<Rightarrow> json \<Rightarrow> json \<Rightarrow>
     config \<Rightarrow> (sync_error + string list \<times> string list) \<times> config" where
  "apply_diff st p al sw df data strategy selected c =
     (case select_writes df strategy selected of
        None \<Rightarrow> (Inl Bad_arguments, c)
      | Some (ups, dels) \<Rightarrow>
          if list_ex (\<lambda>n. \<not> dhas data n) ups then (Inl (Failed Service_error), c)
          else
            (case upsert_pass st p al (sw_now sw) (sw_upsert sw)
                    (List.map_filter (\<lambda>n. map_option (Pair n) (dget data n)) ups) c of (fails1, c1) \<Rightarrow>
             case delete_pass st (sw_now sw) (sw_delete sw) dels c1 of (fails2, c2) \<Rightarrow>
               if fails1 = [] \<and> fails2 = [] then (Inr (sort ups, sort dels), c2)
               else (Inl (Failed Service_error), c2)))"

definition diff_against_registry ::
    "settings \<Rightarrow> net list \<Rightarrow> device_data \<Rightarrow> config \<Rightarrow> cs_error + device_diff" where
  "diff_against_registry st net data c =
     (case query st net registry_specs c of Inl e \<Rightarrow> Inl e | Inr regs \<Rightarrow> Inr (compute_diff data regs))"

definition apply_sync ::
    "settings \<Rightarrow> models \<Rightarrow> string list \<Rightarrow> sync_world \<Rightarrow> device_data \<Rightarrow> json \<Rightarrow> json \<Rightarrow> config \<Rightarrow>
     (sync_error + (string list \<times> string list) \<times> device_diff) \<times> config" where
  "apply_sync st p al sw data strategy selected c =
     (case diff_against_registry st (sw_before sw) data c of
        Inl e \<Rightarrow> (Inl (Failed e), c)
      | Inr df \<Rightarrow>
          (case apply_diff st p al sw df data strategy selected c of
             (Inl e, c1) \<Rightarrow> (Inl e, c1)
           | (Inr applied, c1) \<Rightarrow>
               (case diff_against_registry st (sw_after sw) data c1 of
                  Inl e \<Rightarrow> (Inl (Failed e), c1) | Inr df2 \<Rightarrow> (Inr (applied, df2), c1))))"

section \<open>The handlers of the manager\<close>

text \<open>
  The requests \<open>config_service_diff\<close> and \<open>config_service_sync\<close>, with the parameters of the
  request, whether an environment is open and the device data the worker last reported.
  \<open>None\<close> is a reply with \<open>success = False\<close>.
\<close>

definition unsupported :: "string list \<Rightarrow> dict \<Rightarrow> bool" where
  "unsupported names req = list_ex (\<lambda>kv. fst kv \<notin> set names) req"

definition config_service_diff_handler ::
    "settings \<Rightarrow> net list \<Rightarrow> bool \<Rightarrow> device_data \<Rightarrow> dict \<Rightarrow> config \<Rightarrow> device_diff option" where
  "config_service_diff_handler st net env data req c =
     (if unsupported [] req \<or> \<not> sg_enabled st \<or> \<not> env then None
      else case diff_against_registry st net data c of Inl e \<Rightarrow> None | Inr df \<Rightarrow> Some df)"

definition config_service_sync_handler ::
    "settings \<Rightarrow> models \<Rightarrow> string list \<Rightarrow> sync_world \<Rightarrow> bool \<Rightarrow> device_data \<Rightarrow> dict \<Rightarrow> config \<Rightarrow>
     ((string list \<times> string list) \<times> device_diff) option \<times> config" where
  "config_service_sync_handler st p al sw env data req c =
     (let strategy = (case dget req ''strategy'' of None \<Rightarrow> JStr ''all'' | Some v \<Rightarrow> v);
          selected = get_or_none req ''devices''
      in if unsupported [''strategy'', ''devices''] req \<or> strategy \<notin> JStr ` set apply_strategies \<or>
            strategy = JStr ''selected'' \<and> \<not> truthy selected \<or> \<not> sg_enabled st \<or> \<not> env
         then (None, c)
         else case apply_sync st p al sw data strategy selected c of
             (Inl e, c') \<Rightarrow> (None, c') | (Inr res, c') \<Rightarrow> (Some res, c'))"

end
