(* ===== verification/DeviceDiffProps.thy ===== *)
theory DeviceDiffProps
  imports DeviceDiff
begin

text \<open>
  What a synchronisation of the registry with the worker's devices does: it touches only the
  devices its strategy allows, a complete one leaves no device missing on either side, and the
  difference it reports afterwards is nevertheless never empty.
\<close>

section \<open>Equality of JSON values\<close>

text \<open>Values as they are parsed: no dictionary has a key twice.\<close>

function json_ok :: "json \<Rightarrow> bool" where
  "json_ok (JDict d) = (wf_dict d \<and> list_all (\<lambda>kv. json_ok (snd kv)) d)"
| "json_ok (JList xs) = list_all json_ok xs"
| "json_ok JNull = True"
| "json_ok (JBool b) = True"
| "json_ok (JInt i) = True"
| "json_ok (JFloat r) = True"
| "json_ok (JStr s) = True"
  by pat_completeness auto
termination
proof (relation "measure size")
  fix d :: dict and kv
  assume "kv \<in> set d"
  then show "(snd kv, JDict d) \<in> measure size" using size_snd_dict [of kv d] by simp
next
  fix xs :: "json list" and x
  assume "x \<in> set xs"
  then show "(x, JList xs) \<in> measure size" by (induction xs) (auto simp: less_Suc_eq_le)
qed simp

lemma py_eq_refl: "json_ok j \<Longrightarrow> py_eq j j"
proof (induction j rule: json_ok.induct)
  case (1 d)
  have "py_eq (snd kv) (snd kv)" "dget d (fst kv) = Some (snd kv)" if "kv \<in> set d" for kv
    using 1 that by (auto simp: list_all_iff wf_dict_def)
  then show ?case by (simp add: list_all_iff)
next
  case (2 xs)
  have "py_eq x x" if "x \<in> set xs" for x using 2 that by (simp add: list_all_iff)
  then have "list_all (\<lambda>(x, y). py_eq x y) (zip xs xs)" by (induction xs) simp_all
  then show ?case by simp
qed auto

section \<open>Reading the difference\<close>

lemma dget_registry_specs:
  "dget (registry_specs c) n = map_option spec_json (get_instantiation_spec n (cf_reg c))"
proof -
  have "dget (map (\<lambda>ns. (fst ns, f (snd ns))) xs) n = map_option f (dget xs n)"
    for f :: "spec \<Rightarrow> dict" and xs
    by (induction xs) auto
  then show ?thesis
    by (simp add: registry_specs_def get_specs_def list_instantiation_specs_def get_instantiation_spec_def)
qed

lemma wf_registry_specs: "cfg_ok c \<Longrightarrow> wf_dict (registry_specs c)"
  by (simp add: cfg_ok_def reg_inv_def wf_dict_def registry_specs_def get_specs_def
      list_instantiation_specs_def comp_def)

lemma disabled_spec [simp]: "is_disabled (spec_json sp) = (\<not> active sp)"
  by (simp add: is_disabled_def spec_json_def payload_spec_def)

lemma spec_never_equal: "length (spec_json s) \<noteq> length (payload_spec sp)"
  by (simp add: spec_json_def payload_spec_def)

definition spec_of :: "config \<Rightarrow> string \<Rightarrow> spec option" where
  "spec_of c n = get_instantiation_spec n (cf_reg c)"

text \<open>The buckets of a difference, device by device.\<close>

definition change_of_spec :: "string \<Rightarrow> spec \<Rightarrow> spec \<Rightarrow> spec_change" where
  "change_of_spec n s sp = \<lparr>ch_name = n, ch_before = spec_json s, ch_after = payload_spec sp,
     ch_fields = changed_keys (spec_json s) (payload_spec sp)\<rparr>"

lemma modified_at_Some:
  "modified_at data (registry_specs c) n = Some x \<longleftrightarrow>
     (\<exists>d sp s. dget data n = Some (d, Some sp) \<and> spec_of c n = Some s \<and>
        x = change_of_spec n s sp)"
  by (auto simp: modified_at_def dget_registry_specs spec_never_equal spec_of_def change_of_spec_def
      split: option.splits)

lemma names_with:
  assumes "cfg_ok c"
  shows "n \<in> fst ` set (filter (\<lambda>ns. P (snd ns)) (registry_specs c)) \<longleftrightarrow>
      (\<exists>s. spec_of c n = Some s \<and> P (spec_json s))"
proof -
  have mem: "(n, s) \<in> set (registry_specs c) \<longleftrightarrow> map_option spec_json (spec_of c n) = Some s" for s
    using dget_mem [OF wf_registry_specs [OF assms], of n s] dget_registry_specs [of c n]
    by (simp add: spec_of_def)
  have "n \<in> fst ` set (filter (\<lambda>ns. P (snd ns)) (registry_specs c)) \<longleftrightarrow>
      (\<exists>s. (n, s) \<in> set (registry_specs c) \<and> P s)"
    by (auto simp: image_iff)
  also have "\<dots> \<longleftrightarrow> (\<exists>s. spec_of c n = Some s \<and> P (spec_json s))" unfolding mem by auto
  finally show ?thesis .
qed

lemmas enabled_names = names_with [where P = "\<lambda>s. \<not> is_disabled s", simplified disabled_spec not_not]
lemmas disabled_names = names_with [where P = is_disabled, simplified disabled_spec]

lemma in_modified:
  assumes "cfg_ok c"
  shows "x \<in> set (df_modified (compute_diff data (registry_specs c))) \<longleftrightarrow>
     (\<exists>n d sp s. dget data n = Some (d, Some sp) \<and> spec_of c n = Some s \<and> active s \<and>
        x = change_of_spec n s sp)"
    (is "_ \<longleftrightarrow> ?rhs")
proof -
  have dom: "n \<in> fst ` set data \<longleftrightarrow> dget data n \<noteq> None" for n
    by (simp add: map_of_eq_None_iff)
  have "x \<in> set (df_modified (compute_diff data (registry_specs c))) \<longleftrightarrow>
      (\<exists>n. n \<in> fst ` set data \<and> n \<in> fst ` set (filter (\<lambda>ns. \<not> is_disabled (snd ns)) (registry_specs c)) \<and>
        modified_at data (registry_specs c) n = Some x)"
    by (auto simp: compute_diff_def Let_def map_filter_def image_iff)
  also have "\<dots> \<longleftrightarrow> ?rhs"
    unfolding enabled_names [OF assms] modified_at_Some dom by (auto, blast)
  finally show ?thesis .
qed

lemma in_buckets:
  assumes "cfg_ok c"
  shows "n \<in> set (df_added (compute_diff data (registry_specs c))) \<longleftrightarrow> dhas data n \<and> spec_of c n = None"
    and "n \<in> set (df_removed (compute_diff data (registry_specs c))) \<longleftrightarrow>
      \<not> dhas data n \<and> (\<exists>s. spec_of c n = Some s \<and> active s)"
    and "n \<in> set (df_disabled (compute_diff data (registry_specs c))) \<longleftrightarrow>
      (\<exists>s. spec_of c n = Some s \<and> \<not> active s)"
    and "n \<in> ch_name ` set (df_modified (compute_diff data (registry_specs c))) \<longleftrightarrow>
      (\<exists>d sp. dget data n = Some (d, Some sp)) \<and> (\<exists>s. spec_of c n = Some s \<and> active s)"
proof -
  note en = enabled_names [OF assms, of n]
  have dis: "n \<in> fst ` set (filter (\<lambda>ns. is_disabled (snd ns)) (registry_specs c)) \<longleftrightarrow>
      (\<exists>s. spec_of c n = Some s \<and> \<not> active s)"
    using disabled_names [OF assms, of n] .
  have dom: "dhas d n \<longleftrightarrow> n \<in> fst ` set d" for d :: "(string \<times> 'v) list"
    by (simp add: map_of_eq_None_iff)
  show "n \<in> set (df_added (compute_diff data (registry_specs c))) \<longleftrightarrow> dhas data n \<and> spec_of c n = None"
    using dom [of data] by (auto simp: compute_diff_def Let_def dget_registry_specs spec_of_def)
  show "n \<in> set (df_removed (compute_diff data (registry_specs c))) \<longleftrightarrow>
      \<not> dhas data n \<and> (\<exists>s. spec_of c n = Some s \<and> active s)"
    using en by (auto simp: compute_diff_def Let_def)
  show "n \<in> set (df_disabled (compute_diff data (registry_specs c))) \<longleftrightarrow>
      (\<exists>s. spec_of c n = Some s \<and> \<not> active s)"
    using dis by (simp add: compute_diff_def Let_def)
  show "n \<in> ch_name ` set (df_modified (compute_diff data (registry_specs c))) \<longleftrightarrow>
      (\<exists>d sp. dget data n = Some (d, Some sp)) \<and> (\<exists>s. spec_of c n = Some s \<and> active s)"
    unfolding image_iff Bex_def in_modified [OF assms] by (fastforce simp: change_of_spec_def)
qed

section \<open>What the requests touch\<close>

text \<open>
  What is used of pydantic: a dumped device has each field once, and the five fields of the
  worker's specification, merged over a stored one or on their own, make the specification they
  say, with the framework of the stored one or none.
\<close>

definition parses_specs :: "models \<Rightarrow> bool" where
  "parses_specs p \<longleftrightarrow> names_kept p \<and> (\<forall>d. wf_dict (dump_device p d)) \<and>
     (\<forall>old new sp. valid_spec p (dupdate (dump_spec p old) (payload_spec new)) = Some sp \<longrightarrow>
        sp = new\<lparr>spec_framework := spec_framework old\<rparr>) \<and>
     (\<forall>new sp. valid_spec p (payload_spec new) = Some sp \<longrightarrow> sp = new\<lparr>spec_framework := None\<rparr>)"

text \<open>Device data as the worker's introspection makes them.\<close>

definition introspected :: "device_data \<Rightarrow> bool" where
  "introspected data \<longleftrightarrow> wf_dict data \<and>
     (\<forall>n d sp. (n, d, sp) \<in> set data \<longrightarrow> dev_name d = n \<and>
        (\<forall>s. sp = Some s \<longrightarrow> active s \<and> spec_framework s = None \<and>
           json_ok (JList (spec_args s)) \<and> json_ok (JDict (spec_kwargs s))))"

definition leaves_but :: "string set \<Rightarrow> config \<Rightarrow> config \<Rightarrow> bool" where
  "leaves_but N c c' \<longleftrightarrow> cfg_ok c' \<and> (\<forall>m. m \<notin> N \<longrightarrow> entry_of (cf_reg c') m = entry_of (cf_reg c) m)"

lemma leaves_refl: "cfg_ok c \<Longrightarrow> leaves_but N c c"
  by (simp add: leaves_but_def)

lemma leaves_trans: "leaves_but N a b \<Longrightarrow> leaves_but M b c \<Longrightarrow> N \<union> M \<subseteq> K \<Longrightarrow> leaves_but K a c"
  unfolding leaves_but_def by (metis UnCI subsetD)

lemma leaves_ok: "leaves_but N c c' \<Longrightarrow> cfg_ok c'"
  by (simp add: leaves_but_def)

lemma spec_of_entry: "cfg_ok c \<Longrightarrow> spec_of c n = (case entry_of (cf_reg c) n of None \<Rightarrow> None | Some (d, sp) \<Rightarrow> sp)"
  by (auto simp: spec_of_def entry_of_def cfg_ok_def specs_owned_def split: option.splits)

lemma leaves_spec: "cfg_ok c \<Longrightarrow> leaves_but N c c' \<Longrightarrow> n \<notin> N \<Longrightarrow> spec_of c' n = spec_of c n"
  by (simp add: spec_of_entry leaves_but_def)

lemma post_leaves:
  assumes "cfg_ok c"
  shows "leaves_but {dev_name d} c (snd (post_device al t d sp c))"
proof (cases sp)
  case (Some s)
  have "cfg_ok (snd (post_device al t d sp c))"
    using create_ok [OF assms, of al True t d s] Some by (simp add: post_device_def split_beta)
  then show ?thesis using Some
    by (auto simp: leaves_but_def post_device_def create_device_def Let_def entry_of_def add_device_reads)
qed (simp add: post_device_def leaves_refl assms)

definition updated :: "models \<Rightarrow> string \<Rightarrow> dict option \<Rightarrow> dict option \<Rightarrow> device \<Rightarrow> spec option \<Rightarrow> config \<Rightarrow> bool" where
  "updated p n md sd d sp c \<longleftrightarrow> \<not> name_mismatch n md \<and> (\<exists>old. get_device n (cf_reg c) = Some old \<and>
     (case md of None \<Rightarrow> Some old
      | Some f \<Rightarrow> apply_partial_update (dump_device p) (valid_device p) old f) = Some d) \<and>
     merge_spec p (get_instantiation_spec n (cf_reg c)) sd = Some sp"

lemma update_outcome:
  assumes "update_device_request p al True t n md sd c = (code, c')"
  shows "code \<noteq> 200 \<and> c' = c \<or>
     code = 200 \<and> (\<exists>d sp. updated p n md sd d sp c \<and> cf_reg c' = snd (update_device d sp (cf_reg c)))"
proof (cases "name_mismatch n md \<or> name_mismatch n sd \<or> class_refused al sd \<or>
    get_device n (cf_reg c) = None \<or> is_device_locked n t (cf_locks c)")
  case True
  then show ?thesis using assms by (auto simp: update_device_request_def split: if_splits option.splits)
next
  case False
  then obtain old where old: "get_device n (cf_reg c) = Some old" by auto
  define md' where "md' = (case md of None \<Rightarrow> Some old
      | Some f \<Rightarrow> apply_partial_update (dump_device p) (valid_device p) old f)"
  define sp' where "sp' = merge_spec p (get_instantiation_spec n (cf_reg c)) sd"
  show ?thesis
    using assms False old
    by (cases md'; cases sp')
      (auto simp: update_device_request_def updated_def md'_def [symmetric] sp'_def [symmetric])
qed

lemma put_effect:
  assumes ok: "cfg_ok c" and p: "parses_specs p" and r: "put_device p al t d sp c = ((code, u), c')"
  shows "leaves_but {dev_name d} c c'"
    and "code = 200 \<Longrightarrow> sp = Some s \<Longrightarrow>
      \<exists>d' fw. entry_of (cf_reg c') (dev_name d) = Some (d', Some (s\<lparr>spec_framework := fw\<rparr>))"
proof -
  let ?n = "dev_name d" and ?md = "Some (dump_device p d)"
  have inv: "reg_inv (cf_reg c)" using ok by (simp add: cfg_ok_def)
  have req: "update_device_request p al True t ?n ?md (map_option payload_spec sp) c = (code, c')"
    using r by (simp add: put_device_def split: prod.splits)
  have name: "dev_name d' = ?n" "get_device ?n (cf_reg c) \<noteq> None" if upd: "updated p ?n ?md sd d' sp' c" for sd d' sp'
  proof -
    obtain old where old: "get_device ?n (cf_reg c) = Some old"
      "apply_partial_update (dump_device p) (valid_device p) old (dump_device p d) = Some d'"
      "\<not> name_mismatch ?n ?md"
      using upd by (auto simp: updated_def)
    have "names_kept p" "wf_dict (dump_device p d)" using p by (simp_all add: parses_specs_def)
    from merged_name [OF this(1) old(3) dev_name_get [OF inv old(1)] old(2) this(2)] old(1)
    show "dev_name d' = ?n" "get_device ?n (cf_reg c) \<noteq> None" by simp_all
  qed
  have ok': "cfg_ok c'"
    using update_ok [OF ok, of p ?md al True t ?n "map_option payload_spec sp"] p req
    by (simp add: parses_specs_def)
  show "leaves_but {?n} c c'"
    using update_outcome [OF req] name ok' ok
    by (auto simp: leaves_but_def entry_of_def update_device_reads [OF inv])
  assume a: "code = 200" "sp = Some s"
  then obtain d' sp' where u: "updated p ?n ?md (Some (payload_spec s)) d' sp' c"
    "cf_reg c' = snd (update_device d' sp' (cf_reg c))"
    using update_outcome [OF req] by auto
  obtain fw where "sp' = Some (s\<lparr>spec_framework := fw\<rparr>)"
    using u(1) p
    by (cases "get_instantiation_spec ?n (cf_reg c)")
      (auto simp: updated_def merge_spec_def parses_specs_def apply_partial_update_def, blast+)
  then show "\<exists>d' fw. entry_of (cf_reg c') ?n = Some (d', Some (s\<lparr>spec_framework := fw\<rparr>))"
    using name [OF u(1)] by (simp add: entry_of_def u(2) update_device_reads [OF inv], blast)
qed

lemma delete_effect:
  assumes "cfg_ok c"
  shows "leaves_but {n} c (snd (delete_device_request db t n c))"
    and "fst (delete_device_request db t n c) = 200 \<Longrightarrow>
      entry_of (cf_reg (snd (delete_device_request db t n c))) n = None"
proof -
  have inv: "reg_inv (cf_reg c)" using assms by (simp add: cfg_ok_def)
  have "entry_of (cf_reg (snd (delete_device_request db t n c))) m = entry_of (cf_reg c) m" if "m \<noteq> n" for m
    using that
    by (auto simp: delete_device_request_def entry_of_def remove_device_reads [OF inv] split: option.splits)
  then show "leaves_but {n} c (snd (delete_device_request db t n c))"
    using delete_ok [OF assms] by (simp add: leaves_but_def)
  show "fst (delete_device_request db t n c) = 200 \<Longrightarrow>
      entry_of (cf_reg (snd (delete_device_request db t n c))) n = None"
    by (auto simp: delete_device_request_def entry_of_def remove_device_reads [OF inv] split: option.splits if_splits)
qed

section \<open>Passes\<close>

lemma attempts_reach:
  assumes "\<And>t. P t \<Longrightarrow> P (snd (oper t))" "P s" "attempts_loop ns oper s = (Inr x, s')"
  shows "\<exists>t code. P t \<and> oper t = ((code, x), s') \<and> code \<in> {200, 201, 204}"
  using assms
proof (induction ns oper s rule: attempts_loop.induct)
  case (7 ns oper s)
  then show ?case by (auto simp: classify_def split: prod.splits if_splits)
qed auto

lemma leaves_kept:
  assumes "\<And>t. cfg_ok t \<Longrightarrow> leaves_but N t (snd (oper t))" "cfg_ok c"
  shows "leaves_but N c (snd (request st net oper c))"
  unfolding request_def
proof (rule attempts_keep [where P = "leaves_but N c"])
  show "leaves_but N c (snd (oper t))" if "leaves_but N c t" for t
    using leaves_trans [OF that assms(1) [OF leaves_ok [OF that]], of N] by simp
qed (use assms(2) in \<open>simp add: leaves_refl\<close>)

lemma request_success:
  assumes "\<And>t. cfg_ok t \<Longrightarrow> leaves_but N t (snd (oper t))" "cfg_ok c"
    and "request st net oper c = (Inr x, c')"
  shows "\<exists>t code. cfg_ok t \<and> oper t = ((code, x), c') \<and> code \<in> {200, 201, 204}"
  using attempts_reach [of cfg_ok oper c _ x c'] assms leaves_ok unfolding request_def by blast

lemma upsert_effect:
  assumes ok: "cfg_ok c" and p: "parses_specs p"
    and r: "upsert_device st p al t net1 net2 d sp c = (r, c')"
  shows "leaves_but {dev_name d} c c'"
    and "r = Inr u \<Longrightarrow> \<exists>s d' fw. sp = Some s \<and>
      entry_of (cf_reg c') (dev_name d) = Some (d', Some (s\<lparr>spec_framework := fw\<rparr>))"
proof -
  have put: "leaves_but {dev_name d} t' (snd (put_device p al t d sp t'))" if "cfg_ok t'" for t'
    using put_effect(1) [OF that p] by (cases "put_device p al t d sp t'") auto
  note post = post_leaves [of _ d al t sp]
  obtain r1 c1 where one: "request st net1 (post_device al t d sp) c = (r1, c1)" by (metis prod.exhaust)
  have c1: "leaves_but {dev_name d} c c1"
    using leaves_kept [of "{dev_name d}" "post_device al t d sp" c st net1] post ok one by simp
  have two: "leaves_but {dev_name d} c c2" if "request st net2 (put_device p al t d sp) c1 = (r2, c2)" for r2 c2
    using leaves_kept [of "{dev_name d}" "put_device p al t d sp" c1 st net2] put leaves_ok [OF c1] that
      leaves_trans [OF c1, of "{dev_name d}" c2 "{dev_name d}"] by simp
  show "leaves_but {dev_name d} c c'"
    using r one c1 two by (cases r1) (auto simp: upsert_device_def split: cs_error.splits)
  have post_ok: "\<exists>s d' fw. sp = Some s \<and>
      entry_of (cf_reg c2) (dev_name d) = Some (d', Some (s\<lparr>spec_framework := fw\<rparr>))"
    if "post_device al t d sp t' = ((code, x), c2)" "code \<in> {200, 201, 204}" for t' code x c2
  proof (cases sp)
    case (Some s)
    then have "entry_of (cf_reg c2) (dev_name d) = Some (d, Some s)"
      using that
      by (auto simp: post_device_def create_device_def Let_def entry_of_def add_device_reads
          split: if_splits)
    moreover have "s = s\<lparr>spec_framework := spec_framework s\<rparr>" by simp
    ultimately show ?thesis using Some by metis
  qed (use that in \<open>simp add: post_device_def\<close>)
  have put_ok: "\<exists>s d' fw. sp = Some s \<and>
      entry_of (cf_reg c2) (dev_name d) = Some (d', Some (s\<lparr>spec_framework := fw\<rparr>))"
    if "put_device p al t d sp t' = ((code, x), c2)" "code \<in> {200, 201, 204}" "cfg_ok t'" "sp \<noteq> None" for t' code x c2
  proof -
    have "code = 200"
      using that(1,2) update_outcome [of p al t "dev_name d" "Some (dump_device p d)" "map_option payload_spec sp" t']
      by (auto simp: put_device_def update_device_request_def split: prod.splits if_splits option.splits)
    then show ?thesis using put_effect(2) [OF that(3) p that(1)] that(4) by blast
  qed
  show "\<exists>s d' fw. sp = Some s \<and>
      entry_of (cf_reg c') (dev_name d) = Some (d', Some (s\<lparr>spec_framework := fw\<rparr>))" if u: "r = Inr u"
  proof (cases "r1 = Inl Conflict_error")
    case True
    then have two: "request st net2 (put_device p al t d sp) c1 = (Inr u, c')"
      using r one u by (simp add: upsert_device_def)
    have "sp \<noteq> None"
    proof
      assume none: "sp = None"
      have "fst (attempts_loop ns (post_device al t d None) c) \<noteq> Inl Conflict_error" for ns
        by (induction ns "post_device al t d None" c rule: attempts_loop.induct)
          (simp_all add: post_device_def classify_def)
      then show False using one none True unfolding request_def by (metis fst_conv)
    qed
    then show ?thesis
      using request_success [OF put leaves_ok [OF c1] two] put_ok by blast
  next
    case False
    then have "request st net1 (post_device al t d sp) c = (Inr u, c')"
      using r one u by (cases r1) (auto simp: upsert_device_def split: cs_error.splits)
    from request_success [OF post ok this] post_ok show ?thesis by blast
  qed
qed

definition made :: "config \<Rightarrow> string \<Rightarrow> spec \<Rightarrow> bool" where
  "made c n s \<longleftrightarrow> (\<exists>d fw. entry_of (cf_reg c) n = Some (d, Some (s\<lparr>spec_framework := fw\<rparr>)))"

lemma made_spec: "cfg_ok c \<Longrightarrow> made c n s \<Longrightarrow> \<exists>fw. spec_of c n = Some (s\<lparr>spec_framework := fw\<rparr>)"
  by (auto simp: made_def spec_of_entry)

lemma made_kept: "made c n s \<Longrightarrow> leaves_but N c c' \<Longrightarrow> n \<notin> N \<Longrightarrow> made c' n s"
  by (simp add: made_def leaves_but_def)

lemma upserts_effect:
  assumes "cfg_ok c" "parses_specs p" "\<And>n d sp. (n, d, sp) \<in> set ds \<Longrightarrow> dev_name d = n"
    and "distinct (map fst ds)" "upsert_pass st p al t net ds c = (fails, c')"
  shows "leaves_but (fst ` set ds) c c' \<and>
    (fails = [] \<longrightarrow> (\<forall>(n, d, sp) \<in> set ds. \<exists>s. sp = Some s \<and> made c' n s))"
  using assms
proof (induction ds arbitrary: c fails)
  case (Cons x ds)
  obtain n d sp where x: "x = (n, d, sp)" by (cases x)
  then have name: "dev_name d = n" using Cons.prems(3) by auto
  obtain r c1 where one: "upsert_device st p al t (fst (net n)) (snd (net n)) d sp c = (r, c1)"
    by (metis prod.exhaust)
  obtain fails2 c2 where two: "upsert_pass st p al t net ds c1 = (fails2, c2)" by (metis prod.exhaust)
  have c2: "c2 = c'" and fails: "fails = [] \<Longrightarrow> (\<exists>u. r = Inr u) \<and> fails2 = []"
    using Cons.prems(5) one two by (auto simp: x split: sum.splits)
  note eff = upsert_effect [OF Cons.prems(1,2) one]
  have ok1: "cfg_ok c1" using eff(1) by (rule leaves_ok)
  have ih: "leaves_but (fst ` set ds) c1 c' \<and>
      (fails2 = [] \<longrightarrow> (\<forall>(n, d, sp) \<in> set ds. \<exists>s. sp = Some s \<and> made c' n s))"
    by (rule Cons.IH [OF ok1 Cons.prems(2)]) (use Cons.prems(3,4) two c2 in auto)
  have "leaves_but (fst ` set (x # ds)) c c'"
    by (rule leaves_trans [OF eff(1) conjunct1 [OF ih]]) (auto simp: x name)
  moreover have "\<exists>s. sp = Some s \<and> made c' n s" if f: "fails = []"
  proof -
    obtain u where u: "r = Inr u" using fails [OF f] by blast
    obtain s where s: "sp = Some s" "made c1 n s" using eff(2) [OF u] name by (auto simp: made_def)
    have "n \<notin> fst ` set ds" using Cons.prems(4) by (auto simp: x)
    from made_kept [OF s(2) conjunct1 [OF ih] this] s(1) show ?thesis by simp
  qed
  ultimately show ?case using ih fails by (auto simp: x)
qed (simp add: leaves_refl)

lemma deletes_effect:
  assumes "cfg_ok c" "delete_pass st t net ns c = (fails, c')"
  shows "leaves_but (set ns) c c' \<and> (fails = [] \<longrightarrow> (\<forall>n \<in> set ns. entry_of (cf_reg c') n = None))"
  using assms
proof (induction ns arbitrary: c fails)
  case (Cons n ns)
  let ?op = "\<lambda>c. case delete_device_request True t n c of (code, c') \<Rightarrow> ((code, ()), c')"
  obtain r c1 where one: "client_delete st t (net n) n c = (r, c1)" by (metis prod.exhaust)
  obtain fails2 c2 where two: "delete_pass st t net ns c1 = (fails2, c2)" by (metis prod.exhaust)
  have c2: "c2 = c'" and fails: "fails = [] \<Longrightarrow> (\<exists>u. r = Inr u) \<and> fails2 = []"
    using Cons.prems(2) one two by (auto split: sum.splits)
  have op: "leaves_but {n} t' (snd (?op t'))" if "cfg_ok t'" for t'
    using delete_effect(1) [OF that, of n True t] by (simp add: split_beta)
  have c1: "leaves_but {n} c c1"
    using leaves_kept [of "{n}" ?op c st "net n"] op Cons.prems(1) one by (simp add: client_delete_def)
  have ih: "leaves_but (set ns) c1 c' \<and> (fails2 = [] \<longrightarrow> (\<forall>n \<in> set ns. entry_of (cf_reg c') n = None))"
    by (rule Cons.IH [OF leaves_ok [OF c1]]) (use two c2 in simp)
  have "leaves_but (set (n # ns)) c c'" by (rule leaves_trans [OF c1 conjunct1 [OF ih]]) auto
  moreover have "entry_of (cf_reg c') n = None" if f: "fails = []"
  proof -
    obtain u where "r = Inr u" using fails [OF f] by blast
    then obtain t' code where t': "cfg_ok t'" "?op t' = ((code, u), c1)" "code \<in> {200, 201, 204}"
      using request_success [of "{n}" ?op c st "net n" u c1] op Cons.prems(1) one
      by (auto simp: client_delete_def)
    have "code = 200" using t'(2,3)
      by (auto simp: delete_device_request_def split: prod.splits option.splits if_splits)
    then have gone: "entry_of (cf_reg c1) n = None"
      using delete_effect(2) [OF t'(1), of True t n] t'(2) by (auto split: prod.splits)
    show ?thesis
    proof (cases "n \<in> set ns")
      case False
      then show ?thesis using ih gone by (simp add: leaves_but_def)
    qed (use ih fails [OF f] in blast)
  qed
  ultimately show ?case using ih fails by auto
qed (simp add: leaves_refl)

section \<open>The writes of a strategy\<close>

lemma modified_names:
  "map ch_name (List.map_filter (modified_at data regs) ns) = filter (\<lambda>n. modified_at data regs n \<noteq> None) ns"
  by (induction ns) (auto simp: List.map_filter_simps modified_at_def split: option.splits prod.splits if_splits)

lemma writes_of:
  assumes "wf_dict data" "cfg_ok c"
    and "select_writes (compute_diff data (registry_specs c)) strategy selected = Some (ups, dels)"
  shows "distinct ups" and "n \<in> set ups \<Longrightarrow> dhas data n"
    and "n \<in> set ups \<Longrightarrow> spec_of c n = None \<or> strategy \<noteq> JStr ''additions_only'' \<and> (\<exists>s. spec_of c n = Some s \<and> active s)"
    and "n \<in> set dels \<Longrightarrow> \<not> dhas data n \<and> strategy \<noteq> JStr ''additions_only'' \<and> (\<exists>s. spec_of c n = Some s \<and> active s)"
    and "strategy = JStr ''selected'' \<Longrightarrow> \<exists>ns. names_in selected = Some ns \<and> set ups \<union> set dels \<subseteq> set ns"
    and "strategy = JStr ''all'' \<Longrightarrow> set ups = {n. dhas data n \<and> spec_of c n = None} \<union>
        {n. (\<exists>d sp. dget data n = Some (d, Some sp)) \<and> (\<exists>s. spec_of c n = Some s \<and> active s)} \<and>
      set dels = {n. \<not> dhas data n \<and> (\<exists>s. spec_of c n = Some s \<and> active s)}"
proof -
  let ?df = "compute_diff data (registry_specs c)"
  let ?A = "{n. dhas data n \<and> spec_of c n = None}"
  let ?M = "{n. (\<exists>d sp. dget data n = Some (d, Some sp)) \<and> (\<exists>s. spec_of c n = Some s \<and> active s)}"
  let ?R = "{n. \<not> dhas data n \<and> (\<exists>s. spec_of c n = Some s \<and> active s)}"
  note mem = in_buckets [OF assms(2), where data = data]
  have sets: "set (df_added ?df) = ?A" "set (map ch_name (df_modified ?df)) = ?M" "set (df_removed ?df) = ?R"
    unfolding set_map by (rule set_eqI, simp only: mem mem_Collect_eq)+
  have wr: "(ups = sort (df_added ?df @ map ch_name (df_modified ?df)) \<and> dels = df_removed ?df \<and> strategy = JStr ''all'') \<or>
      (ups = df_added ?df \<and> dels = [] \<and> strategy = JStr ''additions_only'') \<or>
      (\<exists>ns. ups = sort (filter (\<lambda>n. n \<in> set ns) (df_added ?df @ map ch_name (df_modified ?df))) \<and>
        dels = filter (\<lambda>n. n \<in> set ns) (df_removed ?df) \<and> strategy = JStr ''selected'' \<and> names_in selected = Some ns)"
    (is "?all \<or> ?add \<or> ?sel")
    using assms(3) by (auto simp: select_writes_def Let_def split: if_splits)
  have "distinct (df_added ?df)" "distinct (map ch_name (df_modified ?df))"
    using assms(1) by (auto simp: compute_diff_def Let_def modified_names wf_dict_def)
  moreover have "?A \<inter> ?M = {}" by auto
  ultimately have d: "distinct (df_added ?df @ map ch_name (df_modified ?df))" "distinct (df_added ?df)"
    by (simp_all only: distinct_append sets simp_thms)
  show "distinct ups" using wr d by (metis distinct_filter distinct_sort)
  have written: "strategy = JStr ''all'' \<and> set ups = ?A \<union> ?M \<and> set dels = ?R \<or>
      strategy = JStr ''additions_only'' \<and> set ups = ?A \<and> dels = [] \<or>
      strategy = JStr ''selected'' \<and>
        (\<exists>ns. names_in selected = Some ns \<and> set ups = (?A \<union> ?M) \<inter> set ns \<and> set dels = ?R \<inter> set ns)"
    using wr
  proof (elim disjE)
    assume ?sel
    then obtain ns where ns: "ups = sort (filter (\<lambda>n. n \<in> set ns) (df_added ?df @ map ch_name (df_modified ?df)))"
      "dels = filter (\<lambda>n. n \<in> set ns) (df_removed ?df)" "strategy = JStr ''selected''" "names_in selected = Some ns"
      by blast
    have "set ups = (set (df_added ?df) \<union> set (map ch_name (df_modified ?df))) \<inter> set ns"
      "set dels = set (df_removed ?df) \<inter> set ns"
      unfolding ns(1,2) by auto
    then show ?thesis unfolding sets using ns(3,4) by blast
  next
    assume ?all
    then have "set ups = set (df_added ?df) \<union> set (map ch_name (df_modified ?df))" by simp
    then show ?thesis unfolding sets using \<open>?all\<close> sets(3) by blast
  next
    assume ?add
    then show ?thesis using sets(1) by blast
  qed
  then show "n \<in> set ups \<Longrightarrow> dhas data n"
    "n \<in> set ups \<Longrightarrow> spec_of c n = None \<or> strategy \<noteq> JStr ''additions_only'' \<and> (\<exists>s. spec_of c n = Some s \<and> active s)"
    "n \<in> set dels \<Longrightarrow> \<not> dhas data n \<and> strategy \<noteq> JStr ''additions_only'' \<and> (\<exists>s. spec_of c n = Some s \<and> active s)"
    "strategy = JStr ''selected'' \<Longrightarrow> \<exists>ns. names_in selected = Some ns \<and> set ups \<union> set dels \<subseteq> set ns"
    "strategy = JStr ''all'' \<Longrightarrow> set ups = ?A \<union> ?M \<and> set dels = ?R"
    by auto
qed

lemma entries_of:
  "(\<And>n. n \<in> set ups \<Longrightarrow> dhas data n) \<Longrightarrow>
   map fst (List.map_filter (\<lambda>n. map_option (Pair n) (dget data n)) ups) = ups \<and>
   set (List.map_filter (\<lambda>n. map_option (Pair n) (dget data n)) ups) =
     {(n, x). n \<in> set ups \<and> dget data n = Some x}"
  by (induction ups) (auto simp: List.map_filter_simps split: option.splits)

lemma apply_diff_effect:
  assumes ok: "cfg_ok c" and p: "parses_specs p" and data: "introspected data"
    and w: "select_writes (compute_diff data (registry_specs c)) strategy selected = Some (ups, dels)"
    and r: "apply_diff st p al sw (compute_diff data (registry_specs c)) data strategy selected c = (r, c')"
  shows "leaves_but (set ups \<union> set dels) c c'"
    and "r = Inr x \<Longrightarrow> (\<forall>n \<in> set ups. \<exists>d s. dget data n = Some (d, Some s) \<and> made c' n s) \<and>
      (\<forall>n \<in> set dels. entry_of (cf_reg c') n = None)"
proof -
  have wf: "wf_dict data" using data by (simp add: introspected_def)
  note ws = writes_of [OF wf ok w]
  let ?ds = "List.map_filter (\<lambda>n. map_option (Pair n) (dget data n)) ups"
  obtain f1 c1 where one: "upsert_pass st p al (sw_now sw) (sw_upsert sw) ?ds c = (f1, c1)"
    by (rule prod.exhaust)
  obtain f2 c2 where two: "delete_pass st (sw_now sw) (sw_delete sw) dels c1 = (f2, c2)"
    by (rule prod.exhaust)
  have ds: "map fst ?ds = ups" "set ?ds = {(n, x). n \<in> set ups \<and> dget data n = Some x}"
    by (rule conjunct1 [OF entries_of] conjunct2 [OF entries_of], erule ws(2))+
  have all: "\<not> list_ex (\<lambda>n. \<not> dhas data n) ups" using ws(2) by (simp add: list_ex_iff)
  have c2: "c2 = c'" "\<And>x. r = Inr x \<Longrightarrow> f1 = [] \<and> f2 = []"
  proof -
    have "apply_diff st p al sw (compute_diff data (registry_specs c)) data strategy selected c =
        (if f1 = [] \<and> f2 = [] then (Inr (sort ups, sort dels), c2) else (Inl (Failed Service_error), c2))"
      by (simp only: apply_diff_def w option.case prod.case one two all if_False)
    with r show "c2 = c'" "\<And>x. r = Inr x \<Longrightarrow> f1 = [] \<and> f2 = []"
      by (simp_all only: prod.inject sum.distinct split: if_split_asm) simp_all
  qed
  have named: "(n, d, sp) \<in> set ?ds \<Longrightarrow> dev_name d = n" for n d sp
  proof -
    assume "(n, d, sp) \<in> set ?ds"
    then have "(n, d, sp) \<in> set data" unfolding ds(2) by (simp add: map_of_SomeD)
    then show "dev_name d = n" using data unfolding introspected_def by blast
  qed
  have up: "leaves_but (set ups) c c1 \<and>
      (f1 = [] \<longrightarrow> (\<forall>(n, d, sp) \<in> set ?ds. \<exists>s. sp = Some s \<and> made c1 n s))"
  proof -
    have "fst ` set ?ds = set ups" using ds(1) by (metis set_map)
    moreover have "distinct (map fst ?ds)" using ds(1) ws(1) by simp
    ultimately show ?thesis using upserts_effect [OF ok p named _ one] by simp
  qed
  note del = deletes_effect [OF leaves_ok [OF conjunct1 [OF up]] two [unfolded c2(1)]]
  show "leaves_but (set ups \<union> set dels) c c'"
    by (rule leaves_trans [OF conjunct1 [OF up] conjunct1 [OF del]]) simp
  assume "r = Inr x"
  then have f: "f1 = []" "f2 = []" using c2(2) by auto
  have "\<exists>d s. dget data n = Some (d, Some s) \<and> made c' n s" if n: "n \<in> set ups" for n
  proof -
    obtain d sp where d: "dget data n = Some (d, sp)" using ws(2) [OF n] by auto
    then have "(n, d, sp) \<in> set ?ds" using ds(2) n by simp
    from bspec [OF mp [OF conjunct2 [OF up] f(1)] this]
    obtain s where s: "sp = Some s" "made c1 n s" by blast
    have "n \<notin> set dels" using ws(2,4) n by blast
    from made_kept [OF s(2) conjunct1 [OF del] this] show ?thesis using d s(1) by blast
  qed
  then show "(\<forall>n \<in> set ups. \<exists>d s. dget data n = Some (d, Some s) \<and> made c' n s) \<and>
      (\<forall>n \<in> set dels. entry_of (cf_reg c') n = None)"
    using del f(2) by blast
qed

section \<open>Synchronisation\<close>

lemma sync_steps:
  assumes "apply_sync st p al sw data strategy selected c = (r, c')"
  obtains "c' = c" "\<exists>e. r = Inl e"
  | ups dels r1 where "select_writes (compute_diff data (registry_specs c)) strategy selected = Some (ups, dels)"
    "apply_diff st p al sw (compute_diff data (registry_specs c)) data strategy selected c = (r1, c')"
    "\<And>x df. r = Inr (x, df) \<Longrightarrow> r1 = Inr x \<and> df = compute_diff data (registry_specs c')"
proof (cases "diff_against_registry st (sw_before sw) data c")
  case (Inl e)
  then have "c' = c \<and> (\<exists>e. r = Inl e)" using assms by (auto simp: apply_sync_def)
  then show ?thesis using that(1) by blast
next
  case (Inr df)
  have seen: "diff_against_registry st net data x = Inr y \<Longrightarrow> y = compute_diff data (registry_specs x)" for net x y
    by (auto simp: diff_against_registry_def dest!: query_value split: sum.splits)
  obtain r1 c1 where one: "apply_diff st p al sw df data strategy selected c = (r1, c1)" by (metis prod.exhaust)
  have c1: "c1 = c'" using assms Inr one by (auto simp: apply_sync_def split: sum.splits)
  show ?thesis
  proof (cases "select_writes df strategy selected")
    case None
    then have "r1 = Inl Bad_arguments" "c1 = c" using one by (simp_all add: apply_diff_def)
    then have "c' = c \<and> (\<exists>e. r = Inl e)" using assms Inr one by (auto simp: apply_sync_def)
    then show ?thesis using that(1) by blast
  next
    case (Some w)
    obtain ups dels where w: "w = (ups, dels)" by (cases w)
    show ?thesis
    proof (rule that(2))
      show "r1 = Inr x \<and> df' = compute_diff data (registry_specs c')" if "r = Inr (x, df')" for x df'
        using assms Inr one that seen by (auto simp: apply_sync_def split: sum.splits)
    qed (use Some w one c1 seen [OF Inr] in simp_all)
  qed
qed


lemma changed_by_framework:
  assumes "json_ok (JList (spec_args s))" "json_ok (JDict (spec_kwargs s))"
  shows "set (changed_keys (spec_json (s\<lparr>spec_framework := fw\<rparr>)) (payload_spec s)) \<subseteq>
     (if fw = None then {} else {''framework''})"
proof -
  have "py_eq (get_or_none (spec_json (s\<lparr>spec_framework := fw\<rparr>)) k) (get_or_none (payload_spec s) k)"
    if "k \<noteq> ''framework'' \<or> fw = None" for k
    using that py_eq_refl [OF assms(1)] py_eq_refl [OF assms(2)]
    by (auto simp: get_or_none_def spec_json_def payload_spec_def framework_json_def simp del: py_eq.simps(1,2))
  then show ?thesis by (auto simp: changed_keys_def simp del: py_eq.simps)
qed

lemma introspected_spec:
  assumes "introspected data" "dget data n = Some (d, Some s)"
  shows "active s" "spec_framework s = None" "json_ok (JList (spec_args s))" "json_ok (JDict (spec_kwargs s))"
  using assms by (auto simp: introspected_def dest!: map_of_SomeD simp del: json_ok.simps)


text \<open>
  C37: The difference never becomes empty. A device whose specification in the registry is exactly the
  one the worker found is reported as modified, with no changed field: the registry's answer has
  the field \<open>framework\<close>, the worker's description has not, and \<open>compute_diff\<close> compares the two
  objects as wholes.
\<close>

theorem diff_never_settles:
  assumes "startup profile t lm empty_store [] = Some c0" and "profile_ok profile"
    and "names_kept p" and "list_all proper_request rqs"
    and "c = fold (\<lambda>rq c. snd (handle p al rq c)) rqs c0" and "introspected data"
    and "dget data n = Some (d, Some sp)" and "get_instantiation_spec n (cf_reg c) = Some sp"
    and "config_service_diff_handler st net True data [] c = Some df"
  shows "\<exists>x \<in> set (df_modified df). ch_name x = n \<and> ch_fields x = [] \<and> \<not> diff_is_empty df"
proof -
  have "spv_ok []" by (simp add: spv_ok_def wf_dict_def)
  then have start: "cfg_ok c0" "is_seeded (cf_store c0)"
    using startup_ok [OF assms(1,2)] started_seeded [OF assms(1)] by auto
  from requests_ok [OF start assms(3,4)] have ok: "cfg_ok c" by (simp add: assms(5))
  have df: "df = compute_diff data (registry_specs c)"
    using assms(9)
    by (auto simp: config_service_diff_handler_def diff_against_registry_def dest!: query_value
        split: sum.splits if_splits)
  note sp = introspected_spec [OF assms(6,7)]
  have "sp = sp\<lparr>spec_framework := None\<rparr>" using sp(2) by (cases sp) simp
  then have "ch_fields (change_of_spec n sp sp) = []"
    using changed_by_framework [OF sp(3,4), of None] by (auto simp: change_of_spec_def)
  moreover have "change_of_spec n sp sp \<in> set (df_modified df)"
    unfolding df in_modified [OF ok] using assms(7,8) sp(1) by (auto simp: spec_of_def)
  ultimately show ?thesis
    by (intro bexI [of _ "change_of_spec n sp sp"]) (auto simp: change_of_spec_def diff_is_empty_def)
qed

end
