(* ===== verification/DeviceDiffDemo.thy ===== *)
theory DeviceDiffDemo
  imports DeviceDiffProps OverlayDemo
begin

text \<open>Concrete synchronisations in which the hypotheses of the properties of the difference hold.\<close>

text \<open>A stand-in for pydantic that reads all fields of a specification.\<close>

definition framework_of :: "json option \<Rightarrow> framework option" where
  "framework_of j = (if j = Some (JStr ''ophyd-sync'') then Some Ophyd_sync
     else if j = Some (JStr ''ophyd-async'') then Some Ophyd_async else None)"

definition read_spec :: "dict \<Rightarrow> spec option" where
  "read_spec f =
     (case (dget f ''name'', dget f ''device_class'', dget f ''args'', dget f ''kwargs'', dget f ''active'') of
        (Some (JStr n), Some (JStr k), Some (JList xs), Some (JDict kw), Some (JBool b)) \<Rightarrow>
          Some \<lparr>spec_name = n, device_class = k, spec_args = xs, spec_kwargs = kw, active = b,
                spec_framework = framework_of (dget f ''framework'')\<rparr>
      | _ \<Rightarrow> None)"

definition full_models :: models where
  "full_models = demo_models\<lparr>dump_spec := spec_json, valid_spec := read_spec\<rparr>"

lemma framework_of_json: "framework_of (Some (framework_json fw)) = fw"
  by (simp add: framework_of_def framework_json_def split: option.splits framework.splits)

lemma full_models_ok: "parses_specs full_models"
proof -
  have merged: "read_spec (dupdate (spec_json old) (payload_spec new)) =
      Some (new\<lparr>spec_framework := spec_framework old\<rparr>)" for old new
    by (simp add: read_spec_def dupdate_def spec_json_def payload_spec_def framework_of_json)
  have alone: "read_spec (payload_spec new) = Some (new\<lparr>spec_framework := None\<rparr>)" for new
    by (simp add: read_spec_def payload_spec_def framework_of_def)
  have names: "names_kept full_models"
    using demo_models_ok by (simp add: names_kept_def full_models_def)
  show ?thesis
    using names unfolding parses_specs_def
    by (simp add: full_models_def merged alone demo_models_def wf_dict_def)
qed

text \<open>
  The registry has \<open>m1\<close> with old arguments, \<open>m2\<close> disabled and \<open>m3\<close>; the worker has \<open>m1\<close>, \<open>m2\<close>
  and \<open>m4\<close>. The first answer to the creation of \<open>m4\<close> is lost.
\<close>

definition diff_config :: config where
  "diff_config = fold (\<lambda>rq c. snd (handle full_models [] rq c))
     [demo_add 1 ''m1'', demo_add 2 ''m2'', demo_add 3 ''m3'', Disable True 4 ''m2''] demo_start"

definition found :: "string \<Rightarrow> string \<times> device \<times> spec option" where
  "found n = (n, demo_device n [], Some ((demo_spec n True)\<lparr>spec_args := [JStr n]\<rparr>))"

definition diff_data :: device_data where
  "diff_data = [found ''m1'', found ''m2'', found ''m4'']"

definition diff_world :: sync_world where
  "diff_world = \<lparr>sw_now = 5, sw_before = [Fine], sw_upsert = (\<lambda>n. ([Lost_reply, Fine], [Fine])),
     sw_delete = (\<lambda>n. [Lost_request, Fine]), sw_after = [Fine]\<rparr>"

definition diff_sync :: "(sync_error + (string list \<times> string list) \<times> device_diff) \<times> config" where
  "diff_sync = apply_sync demo_settings full_models [] diff_world diff_data (JStr ''all'') JNull diff_config"

definition diff_after :: device_diff where
  "diff_after = compute_diff diff_data (registry_specs (snd diff_sync))"

lemma diff_requests: "list_all proper_request [demo_add 1 ''m1'', demo_add 2 ''m2'', demo_add 3 ''m3'', Disable True 4 ''m2'']"
  by (simp add: demo_add_def)

lemma diff_data_ok: "introspected diff_data"
  by (auto simp: introspected_def diff_data_def found_def wf_dict_def demo_device_def demo_spec_def)

lemma diff_sync_value: "fst diff_sync = Inr (([''m1'', ''m4''], [''m3'']), diff_after)"
  by code_simp

lemma diff_after_values: "map ch_name (df_modified diff_after) = [''m1'', ''m4'']"
    "df_disabled diff_after = [''m2'']"
  by code_simp+

lemma diff_disabled: "spec_of diff_config ''m2'' \<noteq> None \<and> \<not> active (the (spec_of diff_config ''m2''))"
  by code_simp



text \<open>A registry that holds exactly what the worker found.\<close>

definition settled_config :: config where
  "settled_config = fold (\<lambda>rq c. snd (handle full_models [] rq c)) [demo_add 1 ''m1''] demo_start"

definition settled_data :: device_data where
  "settled_data = [(''m1'', demo_device ''m1'' [], Some (demo_spec ''m1'' True))]"

lemma settled_spec: "get_instantiation_spec ''m1'' (cf_reg settled_config) = Some (demo_spec ''m1'' True)"
  by code_simp

lemma settled_data_ok: "introspected settled_data"
  by (auto simp: introspected_def settled_data_def wf_dict_def demo_device_def demo_spec_def)

theorem diff_never_settles_instance:
  "\<exists>x \<in> set (df_modified (compute_diff settled_data (registry_specs settled_config))).
     ch_name x = ''m1'' \<and> ch_fields x = []"
proof -
  have names: "names_kept full_models" using full_models_ok by (simp add: parses_specs_def)
  have rqs: "list_all proper_request [demo_add 1 ''m1'']" by (simp add: demo_add_def)
  have d: "dget settled_data ''m1'' = Some (demo_device ''m1'' [], Some (demo_spec ''m1'' True))"
    by (simp add: settled_data_def)
  have "config_service_diff_handler demo_settings [Fine] True settled_data [] settled_config =
      Some (compute_diff settled_data (registry_specs settled_config))"
    by (simp add: config_service_diff_handler_def unsupported_def demo_settings_def default_settings_def
        diff_against_registry_def query_def request_def classify_def)
  from diff_never_settles [OF demo_start_eq empty_profile_ok names rqs settled_config_def settled_data_ok d
      settled_spec this]
  show ?thesis by blast
qed

end
