(* ===== verification/JsonRpc.thy ===== *)
theory JsonRpc
  imports PyValue
begin

text \<open>
  The message handler of the JSON-RPC protocol (\<open>common/json_rpc.py\<close>) that the manager, the worker
  and the watchdog use over their pipes, and the format of requests (\<open>format_jsonrpc_msg\<close> in
  \<open>common/comms.py\<close>). A method is given by what \<open>inspect.getcallargs\<close> says about parameters and by
  what the handler does; the wording of error messages, which contains \<open>repr\<close> texts, is an argument.
\<close>

text \<open>An exception: the name of its class and its text.\<close>

type_synonym exn = "string \<times> string"

record 's rpc_method =
  rm_call_args :: "json \<Rightarrow> string option"
  rm_run :: "json \<Rightarrow> 's \<Rightarrow> (exn + json) \<times> 's"

type_synonym 's rpc_methods = "(string \<times> 's rpc_method) list"

definition add_method :: "'s rpc_method \<Rightarrow> string \<Rightarrow> 's rpc_methods \<Rightarrow> 's rpc_methods" where
  "add_method handler name ms = dset name handler ms"

definition get_error_msg :: "int \<Rightarrow> string" where
  "get_error_msg code =
     (if code = -32700 then ''Parse error''
      else if code = -32600 then ''Invalid request''
      else if code = -32601 then ''Method not found''
      else if code = -32602 then ''Invalid params''
      else if code = -32603 then ''Internal error''
      else if code = -32000 then ''Server error''
      else ''Unknown error'')"

datatype rpc_text =
    Invalid_format json
  | Invalid_params json
  | Unfit_params json string
  | Unknown_method string
  | Unhashable json
  | Not_iterable json
  | Unparsed string

type_synonym wording = "rpc_text \<Rightarrow> string"

definition error_response :: "json \<Rightarrow> int \<Rightarrow> exn \<Rightarrow> json" where
  "error_response msg_id code ex =
     JDict [(''jsonrpc'', JStr ''2.0''), (''id'', msg_id),
       (''error'', JDict [(''code'', JInt code), (''message'', JStr (get_error_msg code)),
          (''data'', JDict [(''type'', JStr (fst ex)), (''message'', JStr (snd ex))])])]"

definition result_response :: "json \<Rightarrow> json \<Rightarrow> json" where
  "result_response msg_id result =
     JDict [(''jsonrpc'', JStr ''2.0''), (''id'', msg_id), (''result'', result)]"

text \<open>The body of the outer \<open>try\<close>: an error code with an exception, or the result of the handler.\<close>

fun is_params :: "json \<Rightarrow> bool" where
  "is_params (JList _) = True"
| "is_params (JDict _) = True"
| "is_params _ = False"

definition find_method :: "'s rpc_methods \<Rightarrow> json \<Rightarrow> 's rpc_method option" where
  "find_method ms m = (case m of JStr name \<Rightarrow> dget ms name | _ \<Rightarrow> None)"

definition call_method ::
    "wording \<Rightarrow> 's rpc_methods \<Rightarrow> dict \<Rightarrow> json \<Rightarrow> 's \<Rightarrow> (int \<times> exn + json) \<times> 's" where
  "call_method wd ms d m s =
     (let params = (case dget d ''params'' of None \<Rightarrow> JDict [] | Some p \<Rightarrow> p) in
      if \<not> is_params params then (Inl (-32602, ''TypeError'', wd (Invalid_params (JDict d))), s)
      else if \<not> hashable m then (Inl (0, ''TypeError'', wd (Unhashable m)), s)
      else case find_method ms m of
        None \<Rightarrow> (Inl (-32601, ''TypeError'', wd (Unknown_method (case m of JStr n \<Rightarrow> n | _ \<Rightarrow> ''''))), s)
      | Some h \<Rightarrow>
          (case rm_call_args h params of
             Some why \<Rightarrow> (Inl (-32602, ''TypeError'', wd (Unfit_params (JDict d) why)), s)
           | None \<Rightarrow>
               (case rm_run h params s of
                  (Inl ex, s') \<Rightarrow> (Inl (-32000, ex), s')
                | (Inr result, s') \<Rightarrow> (Inr result, s'))))"

definition try_call ::
    "wording \<Rightarrow> 's rpc_methods \<Rightarrow> json \<Rightarrow> 's \<Rightarrow> json \<times> (int \<times> exn + json) \<times> 's" where
  "try_call wd ms msg s =
     (case msg of
        JDict d \<Rightarrow>
          (case (dget d ''method'', dget d ''jsonrpc'') of
             (Some m, Some v) \<Rightarrow>
               if \<not> py_eq v (JStr ''2.0'')
               then (JNull, Inl (-32600, ''TypeError'', wd (Invalid_format msg)), s)
               else (case dget d ''id'' of None \<Rightarrow> JNull | Some i \<Rightarrow> i, call_method wd ms d m s)
           | _ \<Rightarrow> (JNull, Inl (-32600, ''TypeError'', wd (Invalid_format msg)), s))
      | _ \<Rightarrow> (JNull, Inl (-32600, ''TypeError'', wd (Invalid_format msg)), s))"

text \<open>\<open>"id" not in msg\<close> stands before the \<open>try\<close>, so for a message that is a number or null it raises.\<close>

definition handle_single_msg ::
    "wording \<Rightarrow> 's rpc_methods \<Rightarrow> json \<Rightarrow> 's \<Rightarrow> (exn + json option) \<times> 's" where
  "handle_single_msg wd ms msg s =
     (case py_contains ''id'' msg of
        Inl _ \<Rightarrow> (Inl (''TypeError'', wd (Not_iterable msg)), s)
      | Inr has_id \<Rightarrow>
          (case try_call wd ms msg s of
             (msg_id, Inl (code, ex), s') \<Rightarrow>
               (Inr (if has_id then Some (error_response msg_id code ex) else None), s')
           | (msg_id, Inr result, s') \<Rightarrow>
               (Inr (if has_id then Some (result_response msg_id result) else None), s')))"

fun handle_msgs ::
    "wording \<Rightarrow> 's rpc_methods \<Rightarrow> json list \<Rightarrow> json list \<Rightarrow> 's \<Rightarrow> (exn + json list) \<times> 's" where
  "handle_msgs wd ms [] response s = (Inr response, s)"
| "handle_msgs wd ms (msg # msgs) response s =
     (case handle_single_msg wd ms msg s of
        (Inl ex, s') \<Rightarrow> (Inl ex, s')
      | (Inr None, s') \<Rightarrow> handle_msgs wd ms msgs response s'
      | (Inr (Some r), s') \<Rightarrow> handle_msgs wd ms msgs (response @ [r]) s')"

text \<open>\<open>decoded\<close>: what \<open>_decode\<close> makes of the message; all responses can be encoded.\<close>

definition handle_message ::
    "wording \<Rightarrow> 's rpc_methods \<Rightarrow> string + json \<Rightarrow> 's \<Rightarrow> json option \<times> 's" where
  "handle_message wd ms decoded s =
     (case decoded of
        Inl why \<Rightarrow> (Some (error_response JNull (-32700) (''TypeError'', wd (Unparsed why))), s)
      | Inr full \<Rightarrow>
          (case handle_msgs wd ms (case full of JList msgs \<Rightarrow> msgs | _ \<Rightarrow> [full]) [] s of
             (Inl ex, s') \<Rightarrow> (Some (error_response JNull (-32700) ex), s')
           | (Inr response, s') \<Rightarrow>
               (if response = [] then None
                else Some (case full of JList _ \<Rightarrow> JList response | _ \<Rightarrow> hd response), s')))"

section \<open>Requests\<close>

text \<open>\<open>uid\<close>: the fresh identifier.\<close>

definition format_jsonrpc_msg :: "string \<Rightarrow> json option \<Rightarrow> bool \<Rightarrow> string \<Rightarrow> json" where
  "format_jsonrpc_msg m params notification uid =
     JDict ([(''method'', JStr m), (''jsonrpc'', JStr ''2.0'')]
       @ (case params of None \<Rightarrow> [] | Some p \<Rightarrow> [(''params'', p)])
       @ (if notification then [] else [(''id'', JStr uid)]))"

text \<open>A single request is answered under its identifier, by a result or an error.\<close>

definition answers_to :: "string \<Rightarrow> json \<Rightarrow> bool" where
  "answers_to uid r \<longleftrightarrow>
     (\<exists>result. r = result_response (JStr uid) result) \<or> (\<exists>code ex. r = error_response (JStr uid) code ex)"

lemma handle_dict:
  "handle_message wd ms (Inr (JDict d)) s =
     (case try_call wd ms (JDict d) s of (msg_id, x, s') \<Rightarrow>
        (if dhas d ''id''
         then Some (case x of Inl (code, ex) \<Rightarrow> error_response msg_id code ex
                    | Inr result \<Rightarrow> result_response msg_id result)
         else None, s'))"
  by (simp add: handle_message_def handle_single_msg_def split: prod.splits sum.splits)

lemma try_call_id:
  assumes "dget d ''method'' = Some (JStr m)" "dget d ''jsonrpc'' = Some (JStr ''2.0'')"
    and "dget d ''id'' = Some i"
  shows "fst (try_call wd ms (JDict d) s) = i"
  using assms by (simp add: try_call_def)

lemma handle_request:
  "\<exists>r s'. handle_message wd ms (Inr (format_jsonrpc_msg m params False uid)) s = (Some r, s') \<and>
     answers_to uid r"
proof -
  define d where "d = [(''method'', JStr m), (''jsonrpc'', JStr ''2.0'')]
       @ (case params of None \<Rightarrow> [] | Some p \<Rightarrow> [(''params'', p)]) @ [(''id'', JStr uid)]"
  have get: "dget d ''method'' = Some (JStr m)" "dget d ''jsonrpc'' = Some (JStr ''2.0'')"
    "dget d ''id'' = Some (JStr uid)"
    by (simp_all add: d_def split: option.splits)
  obtain i x s' where t: "try_call wd ms (JDict d) s = (i, x, s')" by (metis prod.exhaust)
  have i: "i = JStr uid" using try_call_id [OF get] t by (metis fst_conv)
  have "format_jsonrpc_msg m params False uid = JDict d" by (simp add: format_jsonrpc_msg_def d_def)
  then show ?thesis using get(3)
    by (auto simp: handle_dict t i answers_to_def split: sum.splits)
qed

lemma handle_notification:
  "fst (handle_message wd ms (Inr (format_jsonrpc_msg m params True uid)) s) = None"
  by (simp add: format_jsonrpc_msg_def handle_dict split: prod.splits option.splits)

text \<open>
  A number in a batch spoils it: the answers to the messages before it are dropped, although these
  messages have been handled.
\<close>

lemma handle_msgs_append:
  "handle_msgs wd ms (xs @ ys) rs s =
     (case handle_msgs wd ms xs rs s of (Inl ex, s') \<Rightarrow> (Inl ex, s') | (Inr rs', s') \<Rightarrow> handle_msgs wd ms ys rs' s')"
  by (induction wd ms xs rs s rule: handle_msgs.induct) (auto split: prod.splits sum.splits option.splits)

lemma batch_answers_dropped:
  assumes "handle_msgs wd ms msgs [] s = (Inr rs, s')"
  shows "handle_message wd ms (Inr (JList (msgs @ JInt i # later))) s =
     (Some (error_response JNull (-32700) (''TypeError'', wd (Not_iterable (JInt i)))), s')"
  using assms by (simp add: handle_message_def handle_msgs_append handle_single_msg_def py_contains_def)

end
