(* ===== verification/PipeRpc.thy ===== *)
theory PipeRpc
  imports JsonRpc
begin

text \<open>
  The pipe between the manager and its processes (\<open>common/comms.py\<close>): \<open>PipeJsonRpcSendAsync\<close> sends
  requests one at a time from the event loop through a sending and a receiving thread;
  \<open>PipeJsonRpcReceive\<close> buffers and handles them in two threads. A step of any thread or task is an
  event, and any order of events is possible. Identifiers of messages are \<open>uid n\<close> for the \<open>n\<close>-th call.
\<close>

section \<open>Calls and outcomes\<close>

record rpc_call =
  ca_no :: nat
  ca_method :: string
  ca_params :: "json option"
  ca_note :: bool

definition msg_of :: "(nat \<Rightarrow> string) \<Rightarrow> rpc_call \<Rightarrow> json" where
  "msg_of uid c = format_jsonrpc_msg (ca_method c) (ca_params c) (ca_note c) (uid (ca_no c))"

datatype outcome =
    Answer json
  | Json_rpc_error string json string
  | Unknown_response
  | Timed_out
  | Sent

fun text_of :: "json \<Rightarrow> string" where
  "text_of (JStr t) = t"
| "text_of _ = ''''"

definition read_response :: "json \<Rightarrow> outcome" where
  "read_response r =
     (case r of
        JDict d \<Rightarrow>
          (case dget d ''result'' of
             Some v \<Rightarrow> Answer v
           | None \<Rightarrow>
               (case dget d ''error'' of
                  Some (JDict e) \<Rightarrow>
                    (let code = (case dget e ''code'' of None \<Rightarrow> JNull | Some c \<Rightarrow> c);
                         text = (case dget e ''message'' of None \<Rightarrow> '''' | Some m \<Rightarrow> text_of m) in
                     case dget e ''data'' of
                       Some (JDict x) \<Rightarrow>
                         Json_rpc_error
                           (text @ '': '' @ (case dget x ''message'' of None \<Rightarrow> '''' | Some m \<Rightarrow> text_of m))
                           code (case dget x ''type'' of None \<Rightarrow> '''' | Some t \<Rightarrow> text_of t)
                     | _ \<Rightarrow> Json_rpc_error text code ''CommJsonRpcError'')
                | _ \<Rightarrow> Unknown_response))
      | _ \<Rightarrow> Unknown_response)"

definition response_id :: "json \<Rightarrow> json option" where
  "response_id r = (case r of JDict d \<Rightarrow> dget d ''id'' | _ \<Rightarrow> None)"

section \<open>The state of both ends\<close>

text \<open>
  \<open>ac_sent\<close>: \<open>fut_send\<close> is done; \<open>ac_receiving\<close>: the coroutine waits for \<open>_fut_recv\<close>; \<open>ac_reply\<close>: its result.
\<close>

record active =
  ac_call :: rpc_call
  ac_sent :: bool
  ac_receiving :: bool
  ac_reply :: "json option"

text \<open>
  \<open>pp_buffer\<close>: \<open>_msg_send_buffer\<close>; \<open>pp_hand\<close>: the message the sending thread has taken;
  \<open>pp_sent_tasks\<close>, \<open>pp_reply_tasks\<close>: callbacks scheduled on the event loop; \<open>pp_there\<close>, \<open>pp_back\<close>: the
  contents of the pipe; \<open>pp_inbox\<close>: \<open>_msg_recv_buffer\<close>; \<open>pp_server\<close>: the state the handlers work on.
\<close>

record 's pipe_state =
  pp_next :: nat
  pp_active :: "active option"
  pp_expected :: "string option"
  pp_buffer :: "(nat \<times> json) list"
  pp_hand :: "(nat \<times> json) list"
  pp_sent_tasks :: "nat list"
  pp_there :: "json list"
  pp_inbox :: "json list"
  pp_back :: "json list"
  pp_reply_tasks :: "json list"
  pp_server :: 's
  pp_done :: "(rpc_call \<times> outcome) list"

definition fresh_pipe :: "'s \<Rightarrow> 's pipe_state" where
  "fresh_pipe s = \<lparr>pp_next = 0, pp_active = None, pp_expected = None, pp_buffer = [], pp_hand = [],
     pp_sent_tasks = [], pp_there = [], pp_inbox = [], pp_back = [], pp_reply_tasks = [],
     pp_server = s, pp_done = []\<rparr>"

section \<open>The caller\<close>

text \<open>\<open>send_msg\<close> under its lock, up to the first wait; a full buffer counts as a timeout.\<close>

definition finish_call :: "outcome \<Rightarrow> active \<Rightarrow> 's pipe_state \<Rightarrow> 's pipe_state" where
  "finish_call out a st =
     st\<lparr>pp_active := None, pp_buffer := [], pp_expected := None,
        pp_done := pp_done st @ [(ac_call a, out)]\<rparr>"

definition begin_call ::
    "(nat \<Rightarrow> string) \<Rightarrow> string \<Rightarrow> json option \<Rightarrow> bool \<Rightarrow> 's pipe_state \<Rightarrow> 's pipe_state" where
  "begin_call uid m params note st =
     (let c = \<lparr>ca_no = pp_next st, ca_method = m, ca_params = params, ca_note = note\<rparr>;
          a = \<lparr>ac_call = c, ac_sent = False, ac_receiving = False, ac_reply = None\<rparr>;
          st' = st\<lparr>pp_next := pp_next st + 1, pp_active := Some a,
                   pp_expected := (if note then pp_expected st else Some (uid (ca_no c)))\<rparr> in
      if pp_buffer st \<noteq> [] then finish_call Timed_out a st'
      else st'\<lparr>pp_buffer := [(ca_no c, msg_of uid c)]\<rparr>)"

text \<open>The coroutine continues when the future it waits for is done.\<close>

definition continue_call :: "'s pipe_state \<Rightarrow> 's pipe_state" where
  "continue_call st =
     (case pp_active st of
        None \<Rightarrow> st
      | Some a \<Rightarrow>
          if \<not> ac_receiving a then
            (if \<not> ac_sent a then st
             else if ca_note (ac_call a) then finish_call Sent a st
             else st\<lparr>pp_active := Some (a\<lparr>ac_receiving := True\<rparr>)\<rparr>)
          else (case ac_reply a of None \<Rightarrow> st | Some r \<Rightarrow> finish_call (read_response r) a st))"

text \<open>\<open>wait_for\<close> gives up only while its future is not done.\<close>

definition time_out :: "'s pipe_state \<Rightarrow> 's pipe_state" where
  "time_out st =
     (case pp_active st of
        None \<Rightarrow> st
      | Some a \<Rightarrow>
          if (if ac_receiving a then ac_reply a = None else \<not> ac_sent a)
          then finish_call Timed_out a st else st)"

section \<open>Threads and callbacks of the sending end\<close>

definition take_message :: "'s pipe_state \<Rightarrow> 's pipe_state" where
  "take_message st =
     (if pp_hand st = [] then st\<lparr>pp_hand := pp_buffer st, pp_buffer := []\<rparr> else st)"

text \<open>The sending thread writes to the pipe, or fails and drops the message.\<close>

definition write_message :: "bool \<Rightarrow> 's pipe_state \<Rightarrow> 's pipe_state" where
  "write_message ok st =
     (case pp_hand st of
        [] \<Rightarrow> st
      | (n, msg) # rest \<Rightarrow>
          if ok then st\<lparr>pp_hand := rest, pp_there := pp_there st @ [msg],
                        pp_sent_tasks := pp_sent_tasks st @ [n]\<rparr>
          else st\<lparr>pp_hand := rest\<rparr>)"

definition response_sent :: "'s pipe_state \<Rightarrow> 's pipe_state" where
  "response_sent st =
     (case pp_sent_tasks st of
        [] \<Rightarrow> st
      | n # rest \<Rightarrow>
          st\<lparr>pp_sent_tasks := rest,
             pp_active := map_option (\<lambda>a. if ca_no (ac_call a) = n then a\<lparr>ac_sent := True\<rparr> else a)
               (pp_active st)\<rparr>)"

definition read_reply :: "'s pipe_state \<Rightarrow> 's pipe_state" where
  "read_reply st =
     (case pp_back st of
        [] \<Rightarrow> st
      | r # rest \<Rightarrow> st\<lparr>pp_back := rest, pp_reply_tasks := pp_reply_tasks st @ [r]\<rparr>)"

definition response_received :: "'s pipe_state \<Rightarrow> 's pipe_state" where
  "response_received st =
     (case pp_reply_tasks st of
        [] \<Rightarrow> st
      | r # rest \<Rightarrow>
          let st' = st\<lparr>pp_reply_tasks := rest\<rparr> in
          (case pp_expected st of
             None \<Rightarrow> st'
           | Some i \<Rightarrow>
               if response_id r \<noteq> Some (JStr i) then st'
               else st'\<lparr>pp_expected := None,
                  pp_active := map_option
                    (\<lambda>a. if ac_reply a = None then a\<lparr>ac_reply := Some r\<rparr> else a) (pp_active st)\<rparr>))"

section \<open>Threads of the receiving end\<close>

definition msg_recv_buffer_size :: nat where
  "msg_recv_buffer_size = 100"

definition receive_message :: "'s pipe_state \<Rightarrow> 's pipe_state" where
  "receive_message st =
     (case pp_there st of
        [] \<Rightarrow> st
      | msg # rest \<Rightarrow>
          st\<lparr>pp_there := rest,
             pp_inbox := (if length (pp_inbox st) < msg_recv_buffer_size then pp_inbox st @ [msg]
                          else pp_inbox st)\<rparr>)"

text \<open>A response that cannot be sent is dropped with a message in the log.\<close>

definition handle_msg :: "wording \<Rightarrow> 's rpc_methods \<Rightarrow> bool \<Rightarrow> 's pipe_state \<Rightarrow> 's pipe_state" where
  "handle_msg wd ms ok st =
     (case pp_inbox st of
        [] \<Rightarrow> st
      | msg # rest \<Rightarrow>
          (case handle_message wd ms (Inr msg) (pp_server st) of
             (resp, s') \<Rightarrow>
               st\<lparr>pp_inbox := rest, pp_server := s',
                  pp_back := pp_back st @ (case resp of Some r \<Rightarrow> if ok then [r] else [] | None \<Rightarrow> [])\<rparr>))"

section \<open>Runs\<close>

datatype pipe_event =
    Begin_call string "json option" bool
  | Continue_call
  | Time_out
  | Take_message
  | Write_message bool
  | Response_sent
  | Read_reply
  | Response_received
  | Receive_message
  | Handle_msg bool

text \<open>A call waits for the lock while another one is active.\<close>

fun pipe_step ::
    "(nat \<Rightarrow> string) \<Rightarrow> wording \<Rightarrow> 's rpc_methods \<Rightarrow> pipe_event \<Rightarrow> 's pipe_state \<Rightarrow> 's pipe_state" where
  "pipe_step uid wd ms (Begin_call m params note) st =
     (if pp_active st = None then begin_call uid m params note st else st)"
| "pipe_step uid wd ms Continue_call st = continue_call st"
| "pipe_step uid wd ms Time_out st = time_out st"
| "pipe_step uid wd ms Take_message st = take_message st"
| "pipe_step uid wd ms (Write_message ok) st = write_message ok st"
| "pipe_step uid wd ms Response_sent st = response_sent st"
| "pipe_step uid wd ms Read_reply st = read_reply st"
| "pipe_step uid wd ms Response_received st = response_received st"
| "pipe_step uid wd ms Receive_message st = receive_message st"
| "pipe_step uid wd ms (Handle_msg ok) st = handle_msg wd ms ok st"

definition pipe_run ::
    "(nat \<Rightarrow> string) \<Rightarrow> wording \<Rightarrow> 's rpc_methods \<Rightarrow> pipe_event list \<Rightarrow> 's pipe_state \<Rightarrow> 's pipe_state" where
  "pipe_run uid wd ms es st = fold (pipe_step uid wd ms) es st"

section \<open>What a call amounts to\<close>

text \<open>
  Seen from outside, a request is lost, or handled with its reply lost, or answered; the caller of
  a lost request or reply gets a timeout.
\<close>

datatype pipe = Request_lost | Reply_lost | Delivered

definition send :: "pipe \<Rightarrow> ('s \<Rightarrow> 'a \<times> 's) \<Rightarrow> 's \<Rightarrow> 'a option \<times> 's" where
  "send p handler s =
     (case p of
        Request_lost \<Rightarrow> (None, s)
      | Reply_lost \<Rightarrow> (None, snd (handler s))
      | Delivered \<Rightarrow> (case handler s of (r, s') \<Rightarrow> (Some r, s')))"

definition send_msg ::
    "(nat \<Rightarrow> string) \<Rightarrow> wording \<Rightarrow> 's rpc_methods \<Rightarrow> pipe \<Rightarrow> rpc_call \<Rightarrow> 's \<Rightarrow> outcome \<times> 's" where
  "send_msg uid wd ms p c s =
     (case send p (handle_message wd ms (Inr (msg_of uid c))) s of
        (None, s') \<Rightarrow> (Timed_out, s')
      | (Some None, s') \<Rightarrow> (Sent, s')
      | (Some (Some r), s') \<Rightarrow> (read_response r, s'))"

fun send_all ::
    "(nat \<Rightarrow> string) \<Rightarrow> wording \<Rightarrow> 's rpc_methods \<Rightarrow> (pipe \<times> rpc_call) list \<Rightarrow> 's \<Rightarrow> outcome list \<times> 's" where
  "send_all uid wd ms [] s = ([], s)"
| "send_all uid wd ms ((p, c) # pcs) s =
     (case send_msg uid wd ms p c s of
        (out, s') \<Rightarrow> (case send_all uid wd ms pcs s' of (outs, s'') \<Rightarrow> (out # outs, s'')))"

end
