(* ===== verification/PipeProps.thy ===== *)
theory PipeProps
  imports PipeRpc
begin

text \<open>
  The pipe is linear: whatever the order of threads and callbacks, every call amounts to a request
  that is handled at most once, in the order of the calls, and answered with its own reply.
\<close>

section \<open>Calls and handled calls\<close>

definition calls :: "'s pipe_state \<Rightarrow> rpc_call list" where
  "calls st = map fst (pp_done st) @ (case pp_active st of None \<Rightarrow> [] | Some a \<Rightarrow> [ac_call a])"

fun handled ::
    "(nat \<Rightarrow> string) \<Rightarrow> wording \<Rightarrow> 's rpc_methods \<Rightarrow> rpc_call list \<Rightarrow> 's \<Rightarrow> (rpc_call \<times> json option) list \<times> 's" where
  "handled uid wd ms [] s = ([], s)"
| "handled uid wd ms (c # cs) s =
     (case handle_message wd ms (Inr (msg_of uid c)) s of
        (r, s') \<Rightarrow> (case handled uid wd ms cs s' of (rs, s'') \<Rightarrow> ((c, r) # rs, s'')))"

lemma handled_append:
  "handled uid wd ms (cs @ ds) s =
     (case handled uid wd ms cs s of
        (rs, s') \<Rightarrow> (case handled uid wd ms ds s' of (rs', s'') \<Rightarrow> (rs @ rs', s'')))"
  by (induction cs arbitrary: s) (auto split: prod.splits)

lemma map_fst_handled: "map fst (fst (handled uid wd ms cs s)) = cs"
  by (induction cs arbitrary: s) (auto split: prod.splits, metis fst_conv)

lemma handled_reply:
  "(c, Some r) \<in> set (fst (handled uid wd ms cs s)) \<Longrightarrow>
     c \<in> set cs \<and> \<not> ca_note c \<and> answers_to (uid (ca_no c)) r"
proof (induction cs arbitrary: s)
  case (Cons d cs)
  obtain x s' where x: "handle_message wd ms (Inr (msg_of uid d)) s = (x, s')" by (rule prod.exhaust)
  obtain rs s'' where rs: "handled uid wd ms cs s' = (rs, s'')" by (rule prod.exhaust)
  have *: "(c, Some r) = (d, x) \<or> (c, Some r) \<in> set (fst (handled uid wd ms cs s'))"
    using Cons.prems by (auto simp: x rs)
  have "\<not> ca_note d \<and> answers_to (uid (ca_no d)) r" if "x = Some r"
    using x that handle_notification [of wd ms "ca_method d" "ca_params d" "uid (ca_no d)" s]
      handle_request [of wd ms "ca_method d" "ca_params d" "uid (ca_no d)" s]
    by (cases "ca_note d") (auto simp: msg_of_def)
  with * Cons.IH show ?case by auto
qed simp

lemma response_id_answers [simp]: "answers_to u r \<Longrightarrow> response_id r = Some (JStr u)"
  by (auto simp: answers_to_def response_id_def result_response_def error_response_def)

lemma read_response_done [simp]: "read_response r \<noteq> Timed_out" "read_response r \<noteq> Sent"
  by (auto simp: read_response_def Let_def split: json.splits option.splits)

section \<open>The invariant\<close>

text \<open>\<open>settled\<close>: the outcome of a call in view of the calls handled so far.\<close>

definition settled :: "(rpc_call \<times> json option) list \<Rightarrow> rpc_call \<times> outcome \<Rightarrow> bool" where
  "settled rs = (\<lambda>(c, out). out = Timed_out \<or> (out = Sent \<and> ca_note c) \<or>
     (\<exists>r. (c, Some r) \<in> set rs \<and> out = read_response r))"

definition flight :: "'s pipe_state \<Rightarrow> json list" where
  "flight st = pp_inbox st @ pp_there st @ map snd (pp_hand st) @ map snd (pp_buffer st)"

definition pipe_ok ::
    "(nat \<Rightarrow> string) \<Rightarrow> wording \<Rightarrow> 's rpc_methods \<Rightarrow> 's \<Rightarrow> nat set \<Rightarrow> rpc_call list \<Rightarrow> 's pipe_state \<Rightarrow> bool" where
  "pipe_ok uid wd ms s N F st \<longleftrightarrow>
     (let H = handled uid wd ms (filter (\<lambda>c. ca_no c \<in> N) (calls st)) s in
      map ca_no (calls st) = [0..<pp_next st] \<and>
      map (msg_of uid) F = flight st \<and> set F \<subseteq> set (calls st) \<and> sorted_wrt (<) (map ca_no F) \<and>
      N \<subseteq> {..<pp_next st} \<and> (\<forall>c \<in> set F. \<forall>n \<in> N. n < ca_no c) \<and>
      pp_server st = snd H \<and>
      (\<forall>r \<in> set (pp_back st @ pp_reply_tasks st). \<exists>c. (c, Some r) \<in> set (fst H)) \<and>
      (\<forall>a r. pp_active st = Some a \<longrightarrow> ac_reply a = Some r \<longrightarrow> (ac_call a, Some r) \<in> set (fst H)) \<and>
      (\<forall>co \<in> set (pp_done st). settled (fst H) co) \<and>
      (\<forall>i. pp_expected st = Some i \<longrightarrow>
         (\<exists>a. pp_active st = Some a \<and> \<not> ca_note (ac_call a) \<and> i = uid (ca_no (ac_call a)))))"

lemma pipe_ok_fresh: "pipe_ok uid wd ms s {} [] (fresh_pipe s)"
  by (simp add: pipe_ok_def calls_def fresh_pipe_def flight_def Let_def)

text \<open>A message is dropped.\<close>

lemma flight_split:
  assumes "map g F = xs @ ys @ zs" "sorted_wrt (<) (map ca_no F)"
  obtains F1 F2 F3 where "F = F1 @ F2 @ F3" "map g F1 = xs" "map g F2 = ys" "map g F3 = zs"
    "sorted_wrt (<) (map ca_no (F1 @ F3))"
proof -
  from assms(1) obtain F1 F' where F1: "F = F1 @ F'" "map g F1 = xs" "map g F' = ys @ zs"
    by (metis append_eq_map_conv)
  then obtain F2 F3 where "F' = F2 @ F3" "map g F2 = ys" "map g F3 = zs"
    by (metis append_eq_map_conv)
  moreover from this F1 assms(2) have "sorted_wrt (<) (map ca_no (F1 @ F3))"
    by (simp add: sorted_wrt_append)
  ultimately show ?thesis using F1 that by blast
qed

lemma pipe_ok_drop:
  assumes "pipe_ok uid wd ms s N (F1 @ F2 @ F3) st"
    and "flight st' = map (msg_of uid) (F1 @ F3)" "sorted_wrt (<) (map ca_no (F1 @ F3))"
    and "calls st' = calls st" "pp_next st' = pp_next st" "pp_server st' = pp_server st"
    and "pp_back st' = pp_back st" "pp_reply_tasks st' = pp_reply_tasks st"
    and "pp_active st' = pp_active st" "pp_done st' = pp_done st" "pp_expected st' = pp_expected st"
  shows "pipe_ok uid wd ms s N (F1 @ F3) st'"
  using assms unfolding pipe_ok_def Let_def by (simp add: ball_Un)

lemma pipe_ok_same:
  assumes "pipe_ok uid wd ms s N F st"
    and "flight st' = flight st"
    and "calls st' = calls st" "pp_next st' = pp_next st" "pp_server st' = pp_server st"
    and "set (pp_back st' @ pp_reply_tasks st') = set (pp_back st @ pp_reply_tasks st)"
    and "pp_active st' = pp_active st" "pp_done st' = pp_done st" "pp_expected st' = pp_expected st"
  shows "pipe_ok uid wd ms s N F st'"
  using assms unfolding pipe_ok_def Let_def by simp

lemma calls_simps:
  "calls (st\<lparr>pp_buffer := b\<rparr>) = calls st" "calls (st\<lparr>pp_hand := h\<rparr>) = calls st"
  "calls (st\<lparr>pp_there := t\<rparr>) = calls st" "calls (st\<lparr>pp_sent_tasks := k\<rparr>) = calls st"
  "calls (st\<lparr>pp_inbox := i\<rparr>) = calls st" "calls (st\<lparr>pp_back := k'\<rparr>) = calls st"
  "calls (st\<lparr>pp_reply_tasks := k'\<rparr>) = calls st" "calls (st\<lparr>pp_server := v\<rparr>) = calls st"
  "calls (st\<lparr>pp_expected := e\<rparr>) = calls st" "calls (st\<lparr>pp_next := n\<rparr>) = calls st"
  by (simp_all add: calls_def)

section \<open>Steps of the caller\<close>

lemma ok_finish:
  assumes ok: "pipe_ok uid wd ms s N F st" and a: "pp_active st = Some a"
    and out: "out = Timed_out \<or> (out = Sent \<and> ca_note (ac_call a)) \<or>
      (\<exists>r. ac_reply a = Some r \<and> out = read_response r)"
  shows "\<exists>F'. pipe_ok uid wd ms s N F' (finish_call out a st)"
proof -
  have f: "map (msg_of uid) F = (pp_inbox st @ pp_there st @ map snd (pp_hand st)) @ map snd (pp_buffer st) @ []"
    "sorted_wrt (<) (map ca_no F)"
    using ok by (simp_all add: pipe_ok_def flight_def Let_def)
  obtain F1 F2 F3 where F: "F = F1 @ F2 @ F3"
    "map (msg_of uid) F1 = pp_inbox st @ pp_there st @ map snd (pp_hand st)" "map (msg_of uid) F3 = []"
    "sorted_wrt (<) (map ca_no (F1 @ F3))"
    using flight_split [OF f] by metis
  have c: "calls (finish_call out a st) = calls st" by (simp add: calls_def finish_call_def a)
  define rs where "rs = fst (handled uid wd ms (filter (\<lambda>c. ca_no c \<in> N) (calls st)) s)"
  have "settled rs (ac_call a, out)"
    using out ok a by (auto simp: settled_def pipe_ok_def Let_def rs_def)
  then have "pipe_ok uid wd ms s N (F1 @ F3) (finish_call out a st)"
    using ok F unfolding pipe_ok_def Let_def c
    by (simp add: finish_call_def flight_def rs_def [symmetric])
  then show ?thesis by blast
qed

lemma ok_begin:
  assumes ok: "pipe_ok uid wd ms s N F st" and a: "pp_active st = None"
  shows "\<exists>F'. pipe_ok uid wd ms s N F' (begin_call uid m params note st)"
proof -
  let ?c = "\<lparr>ca_no = pp_next st, ca_method = m, ca_params = params, ca_note = note\<rparr>"
  let ?a = "\<lparr>ac_call = ?c, ac_sent = False, ac_receiving = False, ac_reply = None\<rparr>"
  define st' where "st' = st\<lparr>pp_next := pp_next st + 1, pp_active := Some ?a,
     pp_expected := (if note then pp_expected st else Some (uid (ca_no ?c)))\<rparr>"
  have c: "calls st' = calls st @ [?c]" by (simp add: calls_def a st'_def)
  have N: "N \<subseteq> {..<pp_next st}" using ok by (simp add: pipe_ok_def Let_def)
  then have "pp_next st \<notin> N" by auto
  then have h: "filter (\<lambda>c. ca_no c \<in> N) (calls st') = filter (\<lambda>c. ca_no c \<in> N) (calls st)"
    by (simp add: c)
  have e: "pp_expected st = None" using ok a by (auto simp: pipe_ok_def Let_def)
  have fl: "flight st' = flight st" by (simp add: flight_def st'_def)
  have F: "set F \<subseteq> set (calls st)" "map ca_no (calls st) = [0..<pp_next st]"
    using ok by (simp_all add: pipe_ok_def Let_def)
  have below: "ca_no x < pp_next st" if "x \<in> set F" for x
  proof -
    have "ca_no x \<in> set (map ca_no (calls st))" using that F(1) by auto
    then show ?thesis unfolding F(2) by simp
  qed
  have fields: "pp_next st' = Suc (pp_next st)" "pp_active st' = Some ?a" "pp_server st' = pp_server st"
    "pp_back st' = pp_back st" "pp_reply_tasks st' = pp_reply_tasks st" "pp_done st' = pp_done st"
    "pp_expected st' = (if note then pp_expected st else Some (uid (pp_next st)))"
    by (simp_all add: st'_def)
  have ok': "pipe_ok uid wd ms s N F st'"
    using ok unfolding pipe_ok_def Let_def h
    by (auto simp: c fl fields e)
  show ?thesis
  proof (cases "pp_buffer st = []")
    case True
    have "begin_call uid m params note st = st'\<lparr>pp_buffer := [(ca_no ?c, msg_of uid ?c)]\<rparr>"
      by (simp add: begin_call_def Let_def st'_def True)
    moreover have "flight (st'\<lparr>pp_buffer := [(ca_no ?c, msg_of uid ?c)]\<rparr>) = flight st @ [msg_of uid ?c]"
      by (simp add: flight_def st'_def True)
    ultimately have "pipe_ok uid wd ms s N (F @ [?c]) (begin_call uid m params note st)"
      using ok' below N unfolding pipe_ok_def Let_def
      by (auto simp: calls_simps c fl fields sorted_wrt_append)
    then show ?thesis by blast
  next
    case False
    then have "begin_call uid m params note st = finish_call Timed_out ?a st'"
      by (simp add: begin_call_def Let_def st'_def)
    then show ?thesis using ok_finish [OF ok', of ?a] by (simp add: st'_def)
  qed
qed

lemma ok_continue:
  assumes ok: "pipe_ok uid wd ms s N F st"
  shows "\<exists>F'. pipe_ok uid wd ms s N F' (continue_call st)"
proof (cases "pp_active st")
  case None
  then show ?thesis using ok by (auto simp: continue_call_def)
next
  case (Some a)
  have "pipe_ok uid wd ms s N F (st\<lparr>pp_active := Some (a\<lparr>ac_receiving := True\<rparr>)\<rparr>)"
  proof -
    have "calls (st\<lparr>pp_active := Some (a\<lparr>ac_receiving := True\<rparr>)\<rparr>) = calls st"
      by (simp add: calls_def Some)
    then show ?thesis using ok Some unfolding pipe_ok_def Let_def by (auto simp: flight_def)
  qed
  then show ?thesis
    using ok Some ok_finish [OF ok Some]
    by (auto simp: continue_call_def split: option.splits)
qed

lemma ok_time_out:
  assumes "pipe_ok uid wd ms s N F st"
  shows "\<exists>F'. pipe_ok uid wd ms s N F' (time_out st)"
  using assms ok_finish [OF assms, of _ Timed_out] by (auto simp: time_out_def split: option.splits)

section \<open>Steps of threads and callbacks\<close>

lemma ok_take:
  assumes "pipe_ok uid wd ms s N F st"
  shows "pipe_ok uid wd ms s N F (take_message st)"
  by (rule pipe_ok_same [OF assms]) (auto simp: take_message_def flight_def calls_def)

lemma ok_write:
  assumes ok: "pipe_ok uid wd ms s N F st"
  shows "\<exists>F'. pipe_ok uid wd ms s N F' (write_message b st)"
proof (cases "pp_hand st")
  case Nil
  with ok show ?thesis by (auto simp: write_message_def)
next
  case (Cons nm rest)
  obtain n msg where nm: "nm = (n, msg)" by (rule prod.exhaust)
  show ?thesis
  proof (cases b)
    case True
    have "pipe_ok uid wd ms s N F (write_message b st)"
      by (rule pipe_ok_same [OF ok]) (auto simp: write_message_def Cons nm True flight_def calls_def)
    then show ?thesis by blast
  next
    case False
    have "map (msg_of uid) F = (pp_inbox st @ pp_there st) @ [msg] @ map snd rest @ map snd (pp_buffer st)"
      "sorted_wrt (<) (map ca_no F)"
      using ok by (simp_all add: pipe_ok_def flight_def Let_def Cons nm)
    then obtain F1 F2 F3 where F: "F = F1 @ F2 @ F3" "map (msg_of uid) F1 = pp_inbox st @ pp_there st"
      "map (msg_of uid) F3 = map snd rest @ map snd (pp_buffer st)" "sorted_wrt (<) (map ca_no (F1 @ F3))"
      using flight_split by metis
    have "pipe_ok uid wd ms s N (F1 @ F3) (write_message b st)"
      by (rule pipe_ok_drop [OF ok [unfolded F(1)] _ F(4)])
        (use F(2,3) in \<open>auto simp: write_message_def Cons nm False flight_def calls_def\<close>)
    then show ?thesis by blast
  qed
qed

lemma ok_sent:
  assumes ok: "pipe_ok uid wd ms s N F st"
  shows "pipe_ok uid wd ms s N F (response_sent st)"
proof (cases "pp_sent_tasks st")
  case Nil
  with ok show ?thesis by (simp add: response_sent_def)
next
  case (Cons n rest)
  show ?thesis
  proof (cases "pp_active st")
    case None
    show ?thesis
      by (rule pipe_ok_same [OF ok]) (simp_all add: response_sent_def Cons None flight_def calls_def)
  next
    case (Some a)
    define a' where "a' = (if ca_no (ac_call a) = n then a\<lparr>ac_sent := True\<rparr> else a)"
    have a': "ac_call a' = ac_call a" "ac_reply a' = ac_reply a" by (simp_all add: a'_def)
    have e: "response_sent st = st\<lparr>pp_sent_tasks := rest, pp_active := Some a'\<rparr>"
      by (simp add: response_sent_def Cons Some a'_def)
    have c: "calls (response_sent st) = calls st" by (simp add: e calls_def Some a')
    show ?thesis
      using ok unfolding pipe_ok_def Let_def c by (simp add: e Some a' flight_def)
  qed
qed

lemma ok_read:
  assumes "pipe_ok uid wd ms s N F st"
  shows "pipe_ok uid wd ms s N F (read_reply st)"
  by (rule pipe_ok_same [OF assms]) (auto simp: read_reply_def flight_def calls_def split: list.splits)

lemma ok_receive:
  assumes ok: "pipe_ok uid wd ms s N F st"
  shows "\<exists>F'. pipe_ok uid wd ms s N F' (receive_message st)"
proof (cases "pp_there st")
  case Nil
  with ok show ?thesis by (auto simp: receive_message_def)
next
  case (Cons msg rest)
  show ?thesis
  proof (cases "length (pp_inbox st) < msg_recv_buffer_size")
    case True
    have "pipe_ok uid wd ms s N F (receive_message st)"
      by (rule pipe_ok_same [OF ok]) (auto simp: receive_message_def Cons True flight_def calls_def)
    then show ?thesis by blast
  next
    case False
    let ?rest = "rest @ map snd (pp_hand st) @ map snd (pp_buffer st)"
    have "map (msg_of uid) F = pp_inbox st @ [msg] @ ?rest" "sorted_wrt (<) (map ca_no F)"
      using ok by (simp_all add: pipe_ok_def flight_def Let_def Cons)
    then obtain F1 F2 F3 where F: "F = F1 @ F2 @ F3" "map (msg_of uid) F1 = pp_inbox st"
      "map (msg_of uid) F3 = ?rest" "sorted_wrt (<) (map ca_no (F1 @ F3))"
      using flight_split by metis
    have "pipe_ok uid wd ms s N (F1 @ F3) (receive_message st)"
      by (rule pipe_ok_drop [OF ok [unfolded F(1)] _ F(4)])
        (use F(2,3) in \<open>auto simp: receive_message_def Cons False flight_def calls_def\<close>)
    then show ?thesis by blast
  qed
qed

text \<open>A reply is accepted only by the call it answers.\<close>

lemma same_call:
  assumes "map ca_no (calls st) = [0..<pp_next st]" "c \<in> set (calls st)" "d \<in> set (calls st)"
    and "ca_no c = ca_no d"
  shows "c = d"
proof -
  have "distinct (map ca_no (calls st))" by (simp add: assms(1))
  then show ?thesis using assms(2-) by (metis distinct_map inj_onD)
qed

lemma ok_received:
  assumes ok: "pipe_ok uid wd ms s N F st" and uid: "inj uid"
  shows "pipe_ok uid wd ms s N F (response_received st)"
proof (cases "pp_reply_tasks st")
  case Nil
  with ok show ?thesis by (simp add: response_received_def)
next
  case (Cons r rest)
  define H where "H = fst (handled uid wd ms (filter (\<lambda>c. ca_no c \<in> N) (calls st)) s)"
  have drop: "pipe_ok uid wd ms s N F (st\<lparr>pp_reply_tasks := rest\<rparr>)"
    using ok unfolding pipe_ok_def Let_def by (auto simp: calls_simps flight_def Cons)
  show ?thesis
  proof (cases "\<exists>i. pp_expected st = Some i \<and> response_id r = Some (JStr i)")
    case False
    then have "response_received st = st\<lparr>pp_reply_tasks := rest\<rparr>"
      by (auto simp: response_received_def Cons Let_def split: option.splits)
    with drop show ?thesis by simp
  next
    case True
    then obtain i where i: "pp_expected st = Some i" "response_id r = Some (JStr i)" by blast
    obtain c where c: "(c, Some r) \<in> set H"
      using ok Cons unfolding pipe_ok_def Let_def H_def [symmetric] by fastforce
    have cc: "c \<in> set (calls st)" "answers_to (uid (ca_no c)) r"
      using handled_reply [OF c [unfolded H_def]] by auto
    obtain a where a: "pp_active st = Some a" "i = uid (ca_no (ac_call a))"
      using ok i(1) unfolding pipe_ok_def Let_def by blast
    have "ca_no c = ca_no (ac_call a)"
      using i(2) cc(2) a(2) uid by (auto simp: inj_eq)
    moreover have "ac_call a \<in> set (calls st)" by (simp add: calls_def a(1))
    moreover have "map ca_no (calls st) = [0..<pp_next st]" using ok by (simp add: pipe_ok_def Let_def)
    ultimately have "c = ac_call a" using cc(1) same_call by blast
    with c have own: "(ac_call a, Some r) \<in> set H" by simp
    let ?a = "if ac_reply a = None then a\<lparr>ac_reply := Some r\<rparr> else a"
    have e: "response_received st =
        st\<lparr>pp_reply_tasks := rest, pp_expected := None, pp_active := Some ?a\<rparr>"
      using i a(1) by (simp add: response_received_def Cons)
    have cs: "calls (response_received st) = calls st" by (simp add: e calls_def a(1))
    show ?thesis
      using ok own a(1) unfolding pipe_ok_def Let_def cs H_def [symmetric]
      by (auto simp: e flight_def Cons)
  qed
qed

section \<open>The handler\<close>

lemma ok_handle:
  assumes ok: "pipe_ok uid wd ms s N F st"
  shows "\<exists>N' F'. pipe_ok uid wd ms s N' F' (handle_msg wd ms b st)"
proof (cases "pp_inbox st")
  case Nil
  with ok show ?thesis by (auto simp: handle_msg_def)
next
  case (Cons msg rest)
  have f: "map (msg_of uid) F = flight st" "set F \<subseteq> set (calls st)" "sorted_wrt (<) (map ca_no F)"
      "N \<subseteq> {..<pp_next st}" "\<forall>c \<in> set F. \<forall>n \<in> N. n < ca_no c"
      "map ca_no (calls st) = [0..<pp_next st]"
    using ok by (simp_all add: pipe_ok_def Let_def)
  obtain c F' where F: "F = c # F'" "msg = msg_of uid c"
    "map (msg_of uid) F' = rest @ pp_there st @ map snd (pp_hand st) @ map snd (pp_buffer st)"
    using f(1) by (cases F) (auto simp: flight_def Cons)
  have above: "\<forall>n \<in> N. n < ca_no c" and inc: "c \<in> set (calls st)" using f(2,5) F(1) by auto
  obtain us vs where cs: "calls st = us @ c # vs" using inc by (metis split_list)
  have sorted: "sorted_wrt (<) (map ca_no (us @ c # vs))" using f(6) cs by (metis sorted_wrt_upt)
  let ?in = "\<lambda>N. filter (\<lambda>c. ca_no c \<in> N)"
  let ?N = "insert (ca_no c) N"
  have later: "ca_no x \<notin> ?N" if "x \<in> set vs" for x
    using sorted above that by (auto simp: sorted_wrt_append dest: less_asym)
  have before: "ca_no x \<noteq> ca_no c" if "x \<in> set us" for x
    using sorted that by (auto simp: sorted_wrt_append)
  have vs: "?in ?N vs = []" "?in N vs = []" using later by (auto simp: filter_empty_conv)
  have us: "?in ?N us = ?in N us" using before by (metis (mono_tags, lifting) filter_cong insert_iff)
  have cN: "ca_no c \<notin> N" using above by auto
  have in': "?in ?N (calls st) = ?in N (calls st) @ [c]" using us vs cN by (simp add: cs)
  obtain H s1 where H: "handled uid wd ms (?in N (calls st)) s = (H, s1)" by (rule prod.exhaust)
  obtain r s2 where r: "handle_message wd ms (Inr (msg_of uid c)) s1 = (r, s2)" by (rule prod.exhaust)
  have H': "handled uid wd ms (?in ?N (calls st)) s = (H @ [(c, r)], s2)"
    unfolding in' handled_append H by (simp add: r)
  have s1: "pp_server st = s1" using ok by (simp add: pipe_ok_def Let_def H)
  let ?st = "handle_msg wd ms b st"
  have st: "?st = st\<lparr>pp_inbox := rest, pp_server := s2,
      pp_back := pp_back st @ (case r of Some x \<Rightarrow> if b then [x] else [] | None \<Rightarrow> [])\<rparr>"
    by (simp add: handle_msg_def Cons F(2) s1 r)
  have c': "calls ?st = calls st" by (simp add: st calls_simps)
  have "\<forall>co \<in> set (pp_done st). settled (H @ [(c, r)]) co"
    using ok unfolding pipe_ok_def Let_def H by (auto simp: settled_def)
  moreover have "\<forall>d \<in> set F'. \<forall>n \<in> ?N. n < ca_no d" using f(3,5) F(1) by auto
  moreover have "?N \<subseteq> {..<pp_next st}"
  proof -
    have "ca_no c \<in> set (map ca_no (calls st))" using inc by simp
    then show ?thesis using f(4,6) by auto
  qed
  ultimately have "pipe_ok uid wd ms s ?N F' ?st"
    using ok F f(3) unfolding pipe_ok_def Let_def c' H H'
    by (auto simp: st flight_def split: option.splits)
  then show ?thesis by blast
qed

lemma pipe_ok_step:
  assumes "pipe_ok uid wd ms s N F st" "inj uid"
  shows "\<exists>N' F'. pipe_ok uid wd ms s N' F' (pipe_step uid wd ms e st)"
proof (cases e)
  case (Begin_call m params quiet)
  then show ?thesis
    using ok_begin [OF assms(1), of m params quiet] assms(1)
    by (cases "pp_active st") (simp, blast, auto)
next
  case Continue_call
  then show ?thesis using ok_continue [OF assms(1)] by (simp, blast)
next
  case Time_out
  then show ?thesis using ok_time_out [OF assms(1)] by (simp, blast)
next
  case Take_message
  then show ?thesis using ok_take [OF assms(1)] by (simp, blast)
next
  case (Write_message b)
  then show ?thesis using ok_write [OF assms(1)] by (simp, blast)
next
  case Response_sent
  then show ?thesis using ok_sent [OF assms(1)] by (simp, blast)
next
  case Read_reply
  then show ?thesis using ok_read [OF assms(1)] by (simp, blast)
next
  case Response_received
  then show ?thesis using ok_received [OF assms] by (simp, blast)
next
  case Receive_message
  then show ?thesis using ok_receive [OF assms(1)] by (simp, blast)
next
  case (Handle_msg b)
  then show ?thesis using ok_handle [OF assms(1)] by auto
qed

lemma pipe_ok_run:
  assumes "inj uid"
  shows "\<exists>N F. pipe_ok uid wd ms s N F (pipe_run uid wd ms es (fresh_pipe s))"
proof (induction es rule: rev_induct)
  case Nil
  show ?case by (intro exI [of _ "{}"] exI [of _ "[]"]) (simp add: pipe_run_def pipe_ok_fresh)
next
  case (snoc e es)
  then show ?case using pipe_ok_step [OF _ assms] by (fastforce simp: pipe_run_def)
qed

section \<open>Linear order\<close>

text \<open>What each call amounts to, given the calls handled and its outcome.\<close>

definition amounts_to :: "nat set \<Rightarrow> rpc_call \<times> outcome \<Rightarrow> pipe" where
  "amounts_to N = (\<lambda>(c, out).
     if ca_no c \<notin> N then Request_lost else if out \<in> {Timed_out, Sent} then Reply_lost else Delivered)"

lemma send_all_handled:
  assumes "distinct (map fst made)"
    and "\<forall>co \<in> set made. settled (fst (handled uid wd ms (filter (\<lambda>c. ca_no c \<in> N) (map fst made)) s)) co"
  shows "\<exists>outs. send_all uid wd ms (map (\<lambda>co. (amounts_to N co, fst co)) made) s =
        (outs, snd (handled uid wd ms (filter (\<lambda>c. ca_no c \<in> N) (map fst made)) s)) \<and>
      list_all2 (\<lambda>(c, out) out'. ca_note c \<or> out' = out) made outs"
  using assms
proof (induction made arbitrary: s)
  case (Cons co made)
  obtain c out where co: "co = (c, out)" by (rule prod.exhaust)
  let ?h = "\<lambda>made s. handled uid wd ms (filter (\<lambda>c. ca_no c \<in> N) (map fst made)) s"
  have new: "c \<notin> fst ` set made" using Cons.prems(1) by (simp add: co)
  obtain r s1 where r: "handle_message wd ms (Inr (msg_of uid c)) s = (r, s1)" by (rule prod.exhaust)
  define s' where "s' = (if ca_no c \<in> N then s1 else s)"
  obtain rs s2 where h: "?h made s' = (rs, s2)" by (rule prod.exhaust)
  have h': "?h (co # made) s = (if ca_no c \<in> N then (c, r) # rs else rs, s2)"
    using h by (auto simp: co r s'_def)
  have "\<forall>x \<in> set (co # made). settled (if ca_no c \<in> N then (c, r) # rs else rs) x"
    using Cons.prems(2) unfolding h' by simp
  then have out: "settled (if ca_no c \<in> N then (c, r) # rs else rs) (c, out)"
    and others: "\<forall>x \<in> set made. settled (if ca_no c \<in> N then (c, r) # rs else rs) x"
    by (auto simp only: co list.set insert_iff)
  have notin: "(c, y) \<notin> set rs" for y
    using new map_fst_handled [of uid wd ms "filter (\<lambda>c. ca_no c \<in> N) (map fst made)" s'] h
    by (metis filter_is_subset fst_conv image_eqI list.set_map subsetD)
  have "\<forall>x \<in> set made. settled rs x"
  proof
    fix x assume x: "x \<in> set made"
    then have "fst x \<noteq> c" using new by auto
    with others x show "settled rs x" by (auto simp: settled_def split: if_splits)
  qed
  then obtain outs where outs: "send_all uid wd ms (map (\<lambda>co. (amounts_to N co, fst co)) made) s' = (outs, s2)"
      "list_all2 (\<lambda>(c, out) out'. ca_note c \<or> out' = out) made outs"
    using Cons.IH [of s'] Cons.prems(1) h by auto
  have mine: "out = Timed_out \<or> (out = Sent \<and> ca_note c) \<or>
      (\<exists>y. ca_no c \<in> N \<and> r = Some y \<and> out = read_response y)"
    using out notin by (auto simp: settled_def split: if_splits)
  have "\<exists>out'. send_msg uid wd ms (amounts_to N co) c s = (out', s') \<and> (ca_note c \<or> out' = out)"
    using mine by (auto simp: amounts_to_def co send_msg_def send_def r s'_def)
  then obtain out' where "send_msg uid wd ms (amounts_to N co) c s = (out', s')" "ca_note c \<or> out' = out"
    by blast
  then have all: "send_all uid wd ms (map (\<lambda>co. (amounts_to N co, fst co)) (co # made)) s = (out' # outs, s2)"
    using outs(1) by (simp add: co)
  have server: "snd (?h (co # made) s) = s2" by (simp only: h' snd_conv)
  have same: "list_all2 (\<lambda>(c, out) out'. ca_note c \<or> out' = out) (co # made) (out' # outs)"
    using outs(2) \<open>ca_note c \<or> out' = out\<close> by (simp add: co)
  show ?case
    by (rule exI [of _ "out' # outs"], rule conjI) (simp only: all server, rule same)
qed simp

text \<open> C4: The pipe is linear. Whatever threads and callbacks do in whatever order - delays, timeouts
followed by late replies, dropped messages, a full buffer - the calls made so far amount to calls one
after the other, each lost, handled with its reply lost, or answered: the handlers have run at most
once for each call, in the order of the calls, and a caller that got an answer got its own. \<close>
theorem pipe_is_linear:
  assumes "inj uid"
  shows "let st = pipe_run uid wd ms es (fresh_pipe s) in
     \<exists>ps outs. length ps = length (calls st) \<and>
       send_all uid wd ms (zip ps (calls st)) s = (outs, pp_server st) \<and>
       (\<forall>i < length (pp_done st). ca_note (calls st ! i) \<or> outs ! i = snd (pp_done st ! i))"
proof -
  define st where "st = pipe_run uid wd ms es (fresh_pipe s)"
  obtain N F where ok: "pipe_ok uid wd ms s N F st" using pipe_ok_run [OF assms] by (metis st_def)
  define made where "made = pp_done st @ (case pp_active st of None \<Rightarrow> [] | Some a \<Rightarrow> [(ac_call a, Timed_out)])"
  have c: "map fst made = calls st" by (simp add: made_def calls_def split: option.splits)
  define H where "H = handled uid wd ms (filter (\<lambda>c. ca_no c \<in> N) (map fst made)) s"
  have "distinct (map ca_no (calls st))" using ok by (simp add: pipe_ok_def Let_def)
  then have d: "distinct (map fst made)" unfolding c by (simp add: distinct_map)
  have "\<forall>co \<in> set made. settled (fst H) co"
    using ok unfolding pipe_ok_def Let_def H_def c by (auto simp: made_def settled_def split: option.splits)
  then obtain outs where outs: "send_all uid wd ms (map (\<lambda>co. (amounts_to N co, fst co)) made) s = (outs, snd H)"
      "list_all2 (\<lambda>(c, out) out'. ca_note c \<or> out' = out) made outs"
    using send_all_handled [OF d, of uid wd ms N s] unfolding H_def by blast
  have z: "map (\<lambda>co. (amounts_to N co, fst co)) made = zip (map (amounts_to N) made) (calls st)"
    by (simp add: c [symmetric] zip_map_map zip_same_conv_map)
  have "snd H = pp_server st" using ok by (simp add: pipe_ok_def Let_def H_def c)
  with outs(1) have 1: "send_all uid wd ms (zip (map (amounts_to N) made) (calls st)) s = (outs, pp_server st)"
    by (simp add: z)
  have 2: "ca_note (calls st ! i) \<or> outs ! i = snd (pp_done st ! i)" if i: "i < length (pp_done st)" for i
  proof -
    have "i < length made" "made ! i = pp_done st ! i" using i by (simp_all add: made_def nth_append)
    then have "case made ! i of (c, out) \<Rightarrow> ca_note c \<or> outs ! i = out" "calls st ! i = fst (made ! i)"
      using outs(2) by (auto simp: list_all2_conv_all_nth c [symmetric])
    then show ?thesis using \<open>made ! i = pp_done st ! i\<close> by (auto split: prod.splits)
  qed
  have "length (map (amounts_to N) made) = length (calls st)" by (simp add: c [symmetric])
  with 1 2 show ?thesis unfolding st_def [symmetric] Let_def by blast
qed

text \<open>A counter behind a pipe: the first call times out before its message is even written, its
late reply arrives during the second call and is ignored.\<close>

definition counter :: "nat rpc_methods" where
  "counter = [(''next'', \<lparr>rm_call_args = (\<lambda>_. None), rm_run = (\<lambda>_ n. (Inr (JInt (int n)), Suc n))\<rparr>)]"

definition late_reply :: "pipe_event list" where
  "late_reply = [Begin_call ''next'' None False, Take_message, Time_out, Begin_call ''next'' None False,
     Write_message True, Receive_message, Handle_msg True, Take_message, Write_message True, Read_reply,
     Response_sent, Response_sent, Continue_call, Response_received, Continue_call, Receive_message,
     Handle_msg True, Read_reply, Response_received, Continue_call]"

lemma late_reply_outcomes:
  "map snd (pp_done (pipe_run (\<lambda>n. replicate n CHR ''x'') (\<lambda>_. '''') counter late_reply (fresh_pipe 7))) =
     [Timed_out, Answer (JInt 8)]"
  by (simp add: late_reply_def pipe_run_def fresh_pipe_def begin_call_def take_message_def time_out_def
      finish_call_def write_message_def receive_message_def handle_msg_def read_reply_def response_sent_def
      continue_call_def response_received_def msg_of_def format_jsonrpc_msg_def handle_dict try_call_def
      call_method_def find_method_def counter_def result_response_def response_id_def read_response_def
      msg_recv_buffer_size_def Let_def)

lemma pipe_is_linear_instance:
  "let st = pipe_run (\<lambda>n. replicate n CHR ''x'') (\<lambda>_. '''') counter late_reply (fresh_pipe 7) in
     \<exists>ps outs. length ps = length (calls st) \<and>
       send_all (\<lambda>n. replicate n CHR ''x'') (\<lambda>_. '''') counter (zip ps (calls st)) 7 = (outs, pp_server st) \<and>
       (\<forall>i < length (pp_done st). ca_note (calls st ! i) \<or> outs ! i = snd (pp_done st ! i))"
  by (rule pipe_is_linear) (simp add: inj_def)

end
