(* ===== verification/TaskResults.thy ===== *)
theory TaskResults
  imports PipeRpc
begin

text \<open>
  The results of tasks (scripts and functions executed in the worker): the table of the manager
  (\<open>task_results.py\<close>), the list of the worker and its request \<open>request_task_results\<close>
  (\<open>worker.py\<close>), and the download with acknowledgements between them (\<open>manager.py\<close>,
  \<open>_load_task_results_from_worker\<close>). The clock is an argument.
\<close>

section \<open>The table of the manager\<close>

type_synonym timed_payload = "rat \<times> json"

record task_table =
  tt_running :: "(string \<times> timed_payload) list"
  tt_times :: "(string \<times> rat) list"
  tt_data :: "(string \<times> timed_payload) list"

definition empty_table :: task_table where
  "empty_table = \<lparr>tt_running = [], tt_times = [], tt_data = []\<rparr>"

definition clear_table :: "task_table \<Rightarrow> task_table" where
  "clear_table tt = tt\<lparr>tt_running := [], tt_times := [], tt_data := []\<rparr>"

definition clear_running_tasks :: "task_table \<Rightarrow> task_table" where
  "clear_running_tasks tt = tt\<lparr>tt_running := []\<rparr>"

text \<open>\<open>payload or {}\<close>.\<close>

definition or_empty :: "json \<Rightarrow> json" where
  "or_empty j = (if truthy j then j else JDict [])"

definition add_running_task :: "rat \<Rightarrow> string \<Rightarrow> json \<Rightarrow> task_table \<Rightarrow> task_table" where
  "add_running_task now uid payload tt =
     tt\<lparr>tt_running := dset uid (now, or_empty payload) (tt_running tt)\<rparr>"

definition remove_running_task :: "string \<Rightarrow> task_table \<Rightarrow> task_table" where
  "remove_running_task uid tt = tt\<lparr>tt_running := ddel uid (tt_running tt)\<rparr>"

text \<open>The oldest completed tasks are dropped while they are older than the threshold.\<close>

fun expire :: "rat \<Rightarrow> (string \<times> rat) list \<Rightarrow> (string \<times> timed_payload) list \<Rightarrow>
    (string \<times> rat) list \<times> (string \<times> timed_payload) list" where
  "expire threshold [] data = ([], data)"
| "expire threshold ((uid, t) # ts) data =
     (if t < threshold then expire threshold ts (ddel uid data) else ((uid, t) # ts, data))"

definition clean_completed_tasks :: "rat \<Rightarrow> rat \<Rightarrow> task_table \<Rightarrow> task_table" where
  "clean_completed_tasks retention now tt =
     (case expire (now - retention) (tt_times tt) (tt_data tt) of
        (ts, data) \<Rightarrow> tt\<lparr>tt_times := ts, tt_data := data\<rparr>)"

definition add_completed_task :: "rat \<Rightarrow> rat \<Rightarrow> string \<Rightarrow> json \<Rightarrow> task_table \<Rightarrow> task_table" where
  "add_completed_task retention now uid payload tt =
     (let tt' = remove_running_task uid (clean_completed_tasks retention now tt) in
      tt'\<lparr>tt_data := dset uid (now, or_empty payload) (tt_data tt'),
          tt_times := tt_times tt' @ [(uid, now)]\<rparr>)"

definition get_task_info :: "string \<Rightarrow> task_table \<Rightarrow> string \<times> json" where
  "get_task_info uid tt =
     (case dget (tt_data tt) uid of
        Some (t, payload) \<Rightarrow> (''completed'', payload)
      | None \<Rightarrow> (case dget (tt_running tt) uid of
            Some (t, payload) \<Rightarrow> (''running'', payload)
          | None \<Rightarrow> (''not_found'', JDict [])))"

section \<open>The list of the worker\<close>

text \<open>A result: the UID of the task and the fields that are sent on to clients.\<close>

type_synonym task_res = "string \<times> json"

definition request_task_results :: "string list \<Rightarrow> task_res list \<Rightarrow> task_res list \<times> task_res list" where
  "request_task_results ack_uids completed =
     (let kept = filter (\<lambda>r. fst r \<notin> set ack_uids) completed in (kept, kept))"

section \<open>The download\<close>

text \<open>
  \<open>ds_received\<close>: \<open>_task_results_received_uids\<close>. The result of the task the manager waits for in
  the foreground is stored by a coroutine that first makes the manager idle: \<open>ds_deferred\<close>.
\<close>

record downloads =
  ds_worker :: "task_res list"
  ds_received :: "string list"
  ds_deferred :: "task_res list"
  ds_table :: task_table

fun take_results ::
    "rat \<Rightarrow> rat \<Rightarrow> string option \<Rightarrow> string list \<Rightarrow> task_res list \<Rightarrow> task_res list \<times> task_table \<Rightarrow>
     task_res list \<times> task_table" where
  "take_results retention now foreground already [] acc = acc"
| "take_results retention now foreground already ((uid, res) # rs) (deferred, tt) =
     take_results retention now foreground already rs
       (if uid \<in> set already then (deferred, tt)
        else if foreground = Some uid then (deferred @ [(uid, res)], tt)
        else (deferred, add_completed_task retention now uid res tt))"

definition load_task_results ::
    "rat \<Rightarrow> pipe \<Rightarrow> rat \<Rightarrow> string option \<Rightarrow> downloads \<Rightarrow> downloads" where
  "load_task_results retention pipe now foreground ds =
     (case send pipe (request_task_results (ds_received ds)) (ds_worker ds) of
        (None, kept) \<Rightarrow> ds\<lparr>ds_worker := kept\<rparr>
      | (Some results, kept) \<Rightarrow>
          (case take_results retention now foreground (ds_received ds) results (ds_deferred ds, ds_table ds) of
             (deferred, tt) \<Rightarrow>
               ds\<lparr>ds_worker := kept, ds_received := map fst results, ds_deferred := deferred, ds_table := tt\<rparr>))"

text \<open>The deferred coroutine.\<close>

definition store_deferred :: "rat \<Rightarrow> rat \<Rightarrow> downloads \<Rightarrow> downloads" where
  "store_deferred retention now ds =
     (case ds_deferred ds of
        [] \<Rightarrow> ds
      | (uid, res) # rs \<Rightarrow>
          ds\<lparr>ds_deferred := rs, ds_table := add_completed_task retention now uid res (ds_table ds)\<rparr>)"

section \<open>Sessions\<close>

text \<open>
  What happens between opening and closing an environment: the manager starts background tasks,
  the worker finishes tasks, the manager downloads (one download at a time, as the guard of the
  code enforces), and the deferred results are stored.
\<close>

datatype task_event =
    Begin rat string json
  | Finish string json
  | Download pipe rat "string option"
  | Store rat

fun task_step :: "rat \<Rightarrow> task_event \<Rightarrow> downloads \<Rightarrow> downloads" where
  "task_step retention (Begin now uid payload) ds =
     ds\<lparr>ds_table := add_running_task now uid payload (ds_table ds)\<rparr>"
| "task_step retention (Finish uid res) ds = ds\<lparr>ds_worker := ds_worker ds @ [(uid, res)]\<rparr>"
| "task_step retention (Download pipe now foreground) ds = load_task_results retention pipe now foreground ds"
| "task_step retention (Store now) ds = store_deferred retention now ds"

definition task_run :: "rat \<Rightarrow> task_event list \<Rightarrow> downloads \<Rightarrow> downloads" where
  "task_run retention es ds = fold (task_step retention) es ds"

definition opened :: "task_table \<Rightarrow> downloads" where
  "opened tt = \<lparr>ds_worker = [], ds_received = [], ds_deferred = [], ds_table = tt\<rparr>"

text \<open>What the worker has finished, and the moments at which the table is written.\<close>

fun finished_tasks :: "task_event list \<Rightarrow> task_res list" where
  "finished_tasks [] = []"
| "finished_tasks (Finish uid res # es) = (uid, res) # finished_tasks es"
| "finished_tasks (e # es) = finished_tasks es"

fun in_window :: "rat \<Rightarrow> rat \<Rightarrow> task_event \<Rightarrow> bool" where
  "in_window t0 retention (Download pipe now foreground) = (t0 \<le> now \<and> now \<le> t0 + retention)"
| "in_window t0 retention (Store now) = (t0 \<le> now \<and> now \<le> t0 + retention)"
| "in_window t0 retention e = True"

end
