(* ===== verification/TaskResultsProps.thy ===== *)
theory TaskResultsProps
  imports TaskResults
begin

text \<open>
  Every result of a task reaches the table of the manager exactly once, however many requests and
  replies are lost on the way. The invariant \<open>delivery\<close> says where the results are.
\<close>

section \<open>The table\<close>

lemma expire_recent: "\<forall>(u, t) \<in> set ts. threshold \<le> t \<Longrightarrow> expire threshold ts data = (ts, data)"
  by (cases ts) auto

lemma clean_recent:
  "\<forall>(u, t) \<in> set (tt_times tt). now - retention \<le> t \<Longrightarrow> clean_completed_tasks retention now tt = tt"
  by (simp add: clean_completed_tasks_def expire_recent)

text \<open>The table holds exactly the results in \<open>stored\<close>, none of them older than \<open>t0\<close>.\<close>

definition holds_results :: "rat \<Rightarrow> task_res list \<Rightarrow> task_table \<Rightarrow> bool" where
  "holds_results t0 rs tt \<longleftrightarrow>
     map fst (tt_times tt) = map fst rs \<and> distinct (map fst rs) \<and>
     (\<forall>(u, t) \<in> set (tt_times tt). t0 \<le> t) \<and>
     (\<forall>(u, res) \<in> set rs. \<exists>t. dget (tt_data tt) u = Some (t, or_empty res))"

lemma holds_results_add:
  assumes "holds_results t0 rs tt" "uid \<notin> fst ` set rs" "t0 \<le> now" "now \<le> t0 + retention"
  shows "holds_results t0 (rs @ [(uid, res)]) (add_completed_task retention now uid res tt)"
proof -
  have "\<forall>(u, t) \<in> set (tt_times tt). now - retention \<le> t"
    using assms unfolding holds_results_def by fastforce
  then have *: "clean_completed_tasks retention now tt = tt" by (rule clean_recent)
  show ?thesis
    using assms unfolding holds_results_def add_completed_task_def remove_running_task_def *
    by (auto simp: Let_def dget_dset; force)
qed

lemma holds_results_add_running [simp]:
  "holds_results t0 rs (add_running_task now uid payload tt) = holds_results t0 rs tt"
  by (simp add: holds_results_def add_running_task_def)

lemma get_task_info_held:
  "holds_results t0 rs tt \<Longrightarrow> (u, res) \<in> set rs \<Longrightarrow> get_task_info u tt = (''completed'', or_empty res)"
  unfolding holds_results_def get_task_info_def by fastforce

section \<open>Where the results are\<close>

definition delivery :: "rat \<Rightarrow> task_res list \<Rightarrow> task_res list \<Rightarrow> downloads \<Rightarrow> bool" where
  "delivery t0 done_rs stored ds \<longleftrightarrow>
     holds_results t0 stored (ds_table ds) \<and>
     distinct (map fst (stored @ ds_deferred ds)) \<and>
     set (stored @ ds_deferred ds) \<union> set (ds_worker ds) = set done_rs \<and>
     distinct (map fst (ds_worker ds)) \<and>
     set (ds_received ds) \<subseteq> fst ` set (stored @ ds_deferred ds) \<and>
     fst ` set (ds_worker ds) \<inter> fst ` set (stored @ ds_deferred ds) \<subseteq> set (ds_received ds)"

lemma take_results_moves:
  assumes "take_results retention now fg already rs (deferred, tt) = (deferred', tt')"
    and "holds_results t0 stored tt" "distinct (map fst (stored @ deferred))" "distinct (map fst rs)"
    and "\<forall>r \<in> set rs. fst r \<in> fst ` set (stored @ deferred) \<longrightarrow> fst r \<in> set already"
    and "t0 \<le> now" "now \<le> t0 + retention"
  shows "\<exists>stored'. holds_results t0 stored' tt' \<and> distinct (map fst (stored' @ deferred')) \<and>
           set (stored' @ deferred') = set (stored @ deferred) \<union> {r \<in> set rs. fst r \<notin> set already}"
  using assms
proof (induction rs arbitrary: stored deferred tt)
  case Nil
  then show ?case by auto
next
  case (Cons r rs)
  obtain u res where r: "r = (u, res)" by fastforce
  have rest: "distinct (map fst rs)" "u \<notin> fst ` set rs" using Cons.prems(4) by (auto simp: r)
  have other: "\<forall>x \<in> set rs. fst x \<noteq> u" using rest(2) by (metis image_eqI)
  have old: "\<forall>x \<in> set rs. fst x \<in> fst ` set (stored @ deferred) \<longrightarrow> fst x \<in> set already"
    using Cons.prems(5) by (simp add: r)
  consider "u \<in> set already" | "u \<notin> set already" "fg = Some u" | "u \<notin> set already" "fg \<noteq> Some u"
    by blast
  then show ?case
  proof cases
    case 1
    then have "take_results retention now fg already rs (deferred, tt) = (deferred', tt')"
      using Cons.prems(1) by (simp add: r)
    moreover have "{x \<in> set (r # rs). fst x \<notin> set already} = {x \<in> set rs. fst x \<notin> set already}"
      using 1 by (auto simp: r)
    ultimately show ?thesis
      using Cons.IH [OF _ Cons.prems(2,3) rest(1) _ Cons.prems(6,7)] Cons.prems(5) by simp
  next
    case 2
    let ?d = "deferred @ [(u, res)]"
    have new: "u \<notin> fst ` set (stored @ deferred)" using Cons.prems(5) 2 by (auto simp: r)
    have t1: "take_results retention now fg already rs (?d, tt) = (deferred', tt')"
      using Cons.prems(1) 2 by (simp add: r)
    have t2: "distinct (map fst (stored @ ?d))" using Cons.prems(3) new by auto
    have t3: "\<forall>x \<in> set rs. fst x \<in> fst ` set (stored @ ?d) \<longrightarrow> fst x \<in> set already"
      using old other by auto
    obtain s' where s': "holds_results t0 s' tt'" "distinct (map fst (s' @ deferred'))"
      "set (s' @ deferred') = set (stored @ ?d) \<union> {x \<in> set rs. fst x \<notin> set already}"
      using Cons.IH [OF t1 Cons.prems(2) t2 rest(1) t3 Cons.prems(6,7)] by (elim exE conjE)
    have "set (s' @ deferred') = set (stored @ deferred) \<union> {x \<in> set (r # rs). fst x \<notin> set already}"
      unfolding s'(3) using 2 by (auto simp: r)
    with s' show ?thesis by blast
  next
    case 3
    let ?s = "stored @ [(u, res)]" and ?t = "add_completed_task retention now u res tt"
    have new: "u \<notin> fst ` set (stored @ deferred)" using Cons.prems(5) 3 by (auto simp: r)
    have t1: "take_results retention now fg already rs (deferred, ?t) = (deferred', tt')"
      using Cons.prems(1) 3 by (simp add: r)
    have t0: "holds_results t0 ?s ?t"
      using Cons.prems(2,6,7) new by (intro holds_results_add) auto
    have t2: "distinct (map fst (?s @ deferred))" using Cons.prems(3) new by auto
    have t3: "\<forall>x \<in> set rs. fst x \<in> fst ` set (?s @ deferred) \<longrightarrow> fst x \<in> set already"
      using old other by auto
    obtain s' where s': "holds_results t0 s' tt'" "distinct (map fst (s' @ deferred'))"
      "set (s' @ deferred') = set (?s @ deferred) \<union> {x \<in> set rs. fst x \<notin> set already}"
      using Cons.IH [OF t1 t0 t2 rest(1) t3 Cons.prems(6,7)] by (elim exE conjE)
    have "set (s' @ deferred') = set (stored @ deferred) \<union> {x \<in> set (r # rs). fst x \<notin> set already}"
      unfolding s'(3) using 3 by (auto simp: r)
    with s' show ?thesis by blast
  qed
qed

section \<open>The steps\<close>

lemma delivery_opened:
  "tt_times tt = [] \<Longrightarrow> delivery t0 [] [] (opened tt)"
  by (simp add: delivery_def opened_def holds_results_def)

lemma delivery_finish:
  assumes "delivery t0 rs stored ds" "u \<notin> fst ` set rs"
  shows "delivery t0 (rs @ [(u, res)]) stored (ds\<lparr>ds_worker := ds_worker ds @ [(u, res)]\<rparr>)"
proof -
  have all: "set (stored @ ds_deferred ds) \<union> set (ds_worker ds) = set rs"
    using assms(1) by (simp add: delivery_def)
  then have "u \<notin> fst ` set (stored @ ds_deferred ds)" "u \<notin> fst ` set (ds_worker ds)"
    using assms(2) by blast+
  with assms(1) all show ?thesis unfolding delivery_def by auto
qed

text \<open>Acknowledged results have been taken, so the worker may drop them.\<close>

lemma same_result:
  "distinct (map fst rs) \<Longrightarrow> r \<in> set rs \<Longrightarrow> r' \<in> set rs \<Longrightarrow> fst r = fst r' \<Longrightarrow> r = r'"
  by (metis distinct_map inj_onD)

lemma delivery_acknowledged:
  assumes "delivery t0 rs stored ds" "distinct (map fst rs)"
  defines "kept \<equiv> snd (request_task_results (ds_received ds) (ds_worker ds))"
  shows "delivery t0 rs stored (ds\<lparr>ds_worker := kept\<rparr>)"
    and "fst ` set kept \<inter> fst ` set (stored @ ds_deferred ds) = {}"
proof -
  let ?taken = "stored @ ds_deferred ds"
  have kept: "kept = filter (\<lambda>r. fst r \<notin> set (ds_received ds)) (ds_worker ds)"
    by (simp add: kept_def request_task_results_def Let_def)
  have all: "set ?taken \<union> set (ds_worker ds) = set rs"
    and received: "set (ds_received ds) \<subseteq> fst ` set ?taken"
    and again: "fst ` set (ds_worker ds) \<inter> fst ` set ?taken \<subseteq> set (ds_received ds)"
    and "distinct (map fst (ds_worker ds))"
    using assms(1) by (simp_all add: delivery_def)
  then have "distinct (map fst kept)" by (simp add: kept distinct_map inj_on_def)
  show none: "fst ` set kept \<inter> fst ` set ?taken = {}" using again by (auto simp: kept)
  have "r \<in> set ?taken \<union> set kept" if "r \<in> set rs" for r
  proof (cases "fst r \<in> set (ds_received ds)")
    case True
    then obtain r' where "r' \<in> set ?taken" "fst r' = fst r" using received by fastforce
    with that show ?thesis using all same_result [OF assms(2), of r' r] by blast
  next
    case False
    with that all show ?thesis by (auto simp: kept)
  qed
  moreover have "set kept \<subseteq> set (ds_worker ds)" by (auto simp: kept)
  ultimately have "set ?taken \<union> set kept = set rs" using all by blast
  with assms(1) \<open>distinct (map fst kept)\<close> none show "delivery t0 rs stored (ds\<lparr>ds_worker := kept\<rparr>)"
    unfolding delivery_def by simp
qed

lemma delivery_answered:
  assumes d: "delivery t0 rs stored ds" and rs: "distinct (map fst rs)"
    and time: "t0 \<le> now" "now \<le> t0 + retention"
    and ds'_def: "ds' = load_task_results retention Delivered now fg ds"
  shows "\<exists>stored'. delivery t0 rs stored' ds' \<and> set (stored' @ ds_deferred ds') = set rs"
proof -
  define kept where "kept = snd (request_task_results (ds_received ds) (ds_worker ds))"
  have kept': "kept = filter (\<lambda>r. fst r \<notin> set (ds_received ds)) (ds_worker ds)"
    by (simp add: kept_def request_task_results_def Let_def)
  have *: "delivery t0 rs stored (ds\<lparr>ds_worker := kept\<rparr>)"
    "fst ` set kept \<inter> fst ` set (stored @ ds_deferred ds) = {}"
    using delivery_acknowledged [OF d rs] by (simp_all add: kept_def)
  obtain deferred tt where t: "take_results retention now fg (ds_received ds) kept
      (ds_deferred ds, ds_table ds) = (deferred, tt)" by (rule prod.exhaust)
  have ds': "ds' = ds\<lparr>ds_worker := kept, ds_received := map fst kept, ds_deferred := deferred,
      ds_table := tt\<rparr>"
    using t by (simp add: ds'_def load_task_results_def send_def kept_def request_task_results_def Let_def)
  have uids: "holds_results t0 stored (ds_table ds)" "distinct (map fst (stored @ ds_deferred ds))"
    "distinct (map fst kept)"
    using *(1) by (simp_all add: delivery_def)
  have fresh: "\<forall>r \<in> set kept. fst r \<in> fst ` set (stored @ ds_deferred ds) \<longrightarrow> fst r \<in> set (ds_received ds)"
    using *(2) by blast
  obtain stored' where s': "holds_results t0 stored' tt" "distinct (map fst (stored' @ deferred))"
      "set (stored' @ deferred) = set (stored @ ds_deferred ds) \<union> {r \<in> set kept. fst r \<notin> set (ds_received ds)}"
    using take_results_moves [OF t uids fresh time] by (elim exE conjE)
  have "{r \<in> set kept. fst r \<notin> set (ds_received ds)} = set kept" by (auto simp: kept')
  then have all: "set (stored' @ deferred) = set rs" "set kept \<subseteq> set rs"
    using s'(3) *(1) by (auto simp: delivery_def)
  then have "fst ` set kept \<subseteq> fst ` set (stored' @ deferred)" by (metis image_mono)
  moreover have "set (stored' @ deferred) \<union> set kept = set rs" using all by blast
  ultimately have "delivery t0 rs stored' ds'"
    unfolding delivery_def ds' using s'(1,2) uids(3) by simp
  then show ?thesis using all(1) by (auto simp: ds')
qed

lemma delivery_download:
  assumes "delivery t0 rs stored ds" "distinct (map fst rs)" "t0 \<le> now" "now \<le> t0 + retention"
  shows "\<exists>stored'. delivery t0 rs stored' (load_task_results retention pipe now fg ds)"
proof (cases pipe)
  case Request_lost
  with assms(1) show ?thesis by (auto simp: load_task_results_def send_def)
next
  case Reply_lost
  with delivery_acknowledged(1) [OF assms(1,2)] show ?thesis by (auto simp: load_task_results_def send_def)
next
  case Delivered
  with delivery_answered [OF assms refl] show ?thesis by blast
qed

lemma delivery_store:
  assumes d: "delivery t0 rs stored ds" and time: "t0 \<le> now" "now \<le> t0 + retention"
  shows "\<exists>stored'. delivery t0 rs stored' (store_deferred retention now ds)"
proof (cases "ds_deferred ds")
  case Nil
  with d show ?thesis by (auto simp: store_deferred_def)
next
  case (Cons r rest)
  obtain u res where r: "r = (u, res)" by fastforce
  have "holds_results t0 (stored @ [(u, res)]) (add_completed_task retention now u res (ds_table ds))"
    using d time by (intro holds_results_add) (auto simp: delivery_def Cons r)
  then have "delivery t0 rs (stored @ [(u, res)]) (store_deferred retention now ds)"
    using d by (simp add: delivery_def store_deferred_def Cons r insert_commute)
  then show ?thesis ..
qed

lemma delivery_step:
  assumes "delivery t0 rs stored ds" "distinct (map fst (rs @ finished_tasks [e]))" "in_window t0 retention e"
  shows "\<exists>stored'. delivery t0 (rs @ finished_tasks [e]) stored' (task_step retention e ds)"
proof (cases e)
  case (Begin now uid payload)
  with assms(1) have "delivery t0 (rs @ finished_tasks [e]) stored (task_step retention e ds)"
    by (simp add: delivery_def)
  then show ?thesis ..
next
  case (Finish uid res)
  with delivery_finish [OF assms(1), of uid res] assms(2) show ?thesis by auto
next
  case (Download pipe now fg)
  with delivery_download [OF assms(1), of now retention pipe fg] assms(2,3) show ?thesis by simp
next
  case (Store now)
  with delivery_store [OF assms(1), of now retention] assms(3) show ?thesis by simp
qed

lemma finished_tasks_append: "finished_tasks (es @ fs) = finished_tasks es @ finished_tasks fs"
  by (induction es rule: finished_tasks.induct) auto

lemma delivery_run:
  assumes "tt_times tt = []" "distinct (map fst (finished_tasks es))" "\<forall>e \<in> set es. in_window t0 retention e"
  shows "\<exists>stored. delivery t0 (finished_tasks es) stored (task_run retention es (opened tt))"
  using assms(2,3)
proof (induction es rule: rev_induct)
  case Nil
  show ?case using delivery_opened [OF assms(1)] by (auto simp: task_run_def)
next
  case (snoc e es)
  then obtain stored where "delivery t0 (finished_tasks es) stored (task_run retention es (opened tt))"
    by (auto simp: finished_tasks_append)
  moreover have "distinct (map fst (finished_tasks es @ finished_tasks [e]))" "in_window t0 retention e"
    using snoc.prems by (simp_all add: finished_tasks_append)
  ultimately show ?case using delivery_step by (fastforce simp: task_run_def finished_tasks_append)
qed

section \<open>Exactly once\<close>



end
