(* ===== verification/ManagerState.thy ===== *)
theory ManagerState
  imports Overlay Coordinator PlanQueueReach
begin

text \<open>
  The state of the queue server manager (\<open>manager/manager.py\<close>, class \<open>RunEngineManager\<close>):
  the lock set by users (\<open>LockInfo\<close>), the flags that drive the execution of the queue, and the
  components the manager owns. Coroutines the code schedules with \<open>create_task\<close> or
  \<open>ensure_future\<close> are entries of \<open>mg_jobs\<close>: a coroutine that waits is cut at the await, and the
  remainder is a job of its own.
\<close>

section \<open>The user lock\<close>

record lock_info =
  li_environment :: json
  li_queue :: json
  li_key :: json
  li_note :: json
  li_time :: json
  li_user :: json
  li_uid :: json
  li_emergency :: "string option"

definition cleared_lock :: "string option \<Rightarrow> string \<Rightarrow> lock_info" where
  "cleared_lock emergency uid =
     \<lparr>li_environment = JBool False, li_queue = JBool False, li_key = JNull, li_note = JNull,
      li_time = JNull, li_user = JNull, li_uid = JStr uid, li_emergency = emergency\<rparr>"

definition is_set :: "lock_info \<Rightarrow> bool" where
  "is_set li = (truthy (li_environment li) \<or> truthy (li_queue li))"

definition check_lock_key :: "json \<Rightarrow> bool \<Rightarrow> lock_info \<Rightarrow> bool" where
  "check_lock_key key use_emergency_key li =
     (\<not> is_set li \<or> py_eq key (li_key li) \<or>
      use_emergency_key \<and> (case li_emergency li of None \<Rightarrow> False | Some ek \<Rightarrow> ek \<noteq> [] \<and> key = JStr ek))"

definition lock_to_dict :: "lock_info \<Rightarrow> json" where
  "lock_to_dict li = JDict
     [(''environment'', li_environment li), (''queue'', li_queue li), (''lock_key'', li_key li),
      (''note'', li_note li), (''user'', li_user li), (''time'', li_time li), (''uid'', li_uid li)]"

definition lock_from_dict :: "json \<Rightarrow> lock_info \<Rightarrow> py_error + lock_info" where
  "lock_from_dict j li =
     (case j of
        JDict d \<Rightarrow>
          (case (dget d ''environment'', dget d ''queue'', dget d ''lock_key'', dget d ''note'',
                 dget d ''user'', dget d ''time'', dget d ''uid'') of
             (Some e, Some q, Some k, Some n, Some u, Some t, Some i) \<Rightarrow>
               Inr (li\<lparr>li_environment := e, li_queue := q, li_key := k, li_note := n, li_user := u,
                       li_time := t, li_uid := i\<rparr>)
           | _ \<Rightarrow> Inl KeyError)
      | _ \<Rightarrow> Inl AttributeError)"

section \<open>The manager\<close>

datatype mstate =
    INITIALIZING
  | IDLE
  | PAUSED
  | CREATING_ENVIRONMENT
  | STARTING_QUEUE
  | EXECUTING_QUEUE
  | EXECUTING_TASK
  | CLOSING_ENVIRONMENT
  | DESTROYING_ENVIRONMENT

text \<open>The last downloaded state of the worker, as far as the manager acts on it.\<close>

record worker_state =
  ws_environment :: string
  ws_re :: "string option"
  ws_report :: bool
  ws_shutdown :: bool
  ws_item :: json
  ws_task :: "string option"
  ws_deferred_pause :: bool

text \<open>The future that opening and closing an environment wait for.\<close>

datatype future = No_future | Waiting | Resolved bool

text \<open>
  Scheduled coroutines. \<open>Start_plan\<close> begins \<open>_start_plan_task\<close>; the four jobs after it are its
  remainders at the staleness check, the device locking, the reset of the worker and the upload.
\<close>

datatype job =
    Start_worker
  | Start_worker_wait
  | Stop_worker
  | Stop_worker_wait
  | Kill_worker
  | Kill_worker_wait
  | Start_plan bool bool json
  | Plan_check json json
  | Plan_lock json json
  | Plan_reset json
  | Plan_run json
  | Set_state mstate bool
  | Plan_report
  | Unexpected_shutdown
  | Autostart

record 'o mgr =
  mg_state :: mstate
  mg_env :: bool
  mg_ws :: "worker_state option"
  mg_stop_pending :: bool
  mg_pause_pending :: bool
  mg_autostart :: bool
  mg_future :: future
  mg_timeouts :: nat
  mg_death_handled :: bool
  mg_task :: "string option"
  mg_groups :: "string list"
  mg_lock :: lock_info
  mg_pq :: pq
  mg_coord :: coord
  mg_config :: config
  mg_sync :: sync_state
  mg_worker :: "'o worker"
  mg_jobs :: "job list"

type_synonym ('o, 'a) mgm = "('o mgr, 'a) prog"

text \<open>Calls of the plan queue.\<close>

definition in_pq :: "'a pqm \<Rightarrow> ('o, 'a) mgm" where
  "in_pq m = (\<lambda>s. case m (mg_pq s) of (r, q) \<Rightarrow> (r, s\<lparr>mg_pq := q\<rparr>))"

lemma wp_in_pq:
  "wp (in_pq m) Q E s = wp m (\<lambda>x q. Q x (s\<lparr>mg_pq := q\<rparr>)) (\<lambda>e q. E e (s\<lparr>mg_pq := q\<rparr>)) (mg_pq s)"
  by (simp add: wp_def in_pq_def split: prod.splits sum.splits)

lemma run_in_pq [run_simps]: "in_pq m s = (case m (mg_pq s) of (r, q) \<Rightarrow> (r, s\<lparr>mg_pq := q\<rparr>))"
  by (simp add: in_pq_def)

definition set_mstate :: "mstate \<Rightarrow> ('o, unit) mgm" where
  "set_mstate x = upd (\<lambda>s. s\<lparr>mg_state := x\<rparr>)"

definition schedule :: "job \<Rightarrow> ('o, unit) mgm" where
  "schedule j = upd (\<lambda>s. s\<lparr>mg_jobs := mg_jobs s @ [j]\<rparr>)"

lemma wp_set_mstate [wp_rules]: "wp (set_mstate x) Q E s = Q () (s\<lparr>mg_state := x\<rparr>)"
  by (simp add: set_mstate_def wp_rules)

lemma wp_schedule [wp_rules]: "wp (schedule j) Q E s = Q () (s\<lparr>mg_jobs := mg_jobs s @ [j]\<rparr>)"
  by (simp add: schedule_def wp_rules)

text \<open>
  \<open>set_queue_stop_pending\<close> and \<open>set_queue_autostart_enabled\<close> keep a copy in the queue's store.
\<close>

definition set_queue_stop_pending :: "bool \<Rightarrow> ('o, unit) mgm" where
  "set_queue_stop_pending b =
     sq (upd (\<lambda>s. s\<lparr>mg_stop_pending := b\<rparr>))
       (in_pq (info_save ''stop_pending_info'' (JDict [(''enabled'', JBool b)])))"

definition set_queue_autostart_enabled :: "bool \<Rightarrow> ('o, unit) mgm" where
  "set_queue_autostart_enabled b =
     sq (upd (\<lambda>s. s\<lparr>mg_autostart := b\<rparr>))
       (in_pq (info_save ''autostart_mode_info'' (JDict [(''enabled'', JBool b)])))"

text \<open>\<open>_autostart_push\<close> wakes the autostart coroutine, which polls anyway.\<close>

definition re_state :: "'o mgr \<Rightarrow> string option" where
  "re_state s = (case mg_ws s of None \<Rightarrow> None | Some ws \<Rightarrow> ws_re ws)"

section \<open>Programs that keep a property\<close>

definition stable :: "('s \<Rightarrow> bool) \<Rightarrow> ('s, 'a) prog \<Rightarrow> bool" where
  "stable I m \<longleftrightarrow> (\<forall>s. I s \<longrightarrow> wp m (\<lambda>_. I) (\<lambda>_. I) s)"

named_theorems stable_rules "programs that keep a property of the state"

lemma stableD: "stable I m \<Longrightarrow> I s \<Longrightarrow> wp m (\<lambda>_. I) (\<lambda>_. I) s"
  by (simp add: stable_def)

lemma stable_run: "stable I m \<Longrightarrow> I s \<Longrightarrow> m s = (r, t) \<Longrightarrow> I t"
  by (rule wp_both [OF stableD])

lemma stable_pure:
  "stable I (ret x)" "stable I (raise e)" "stable I (gets f)" "stable I (lift r)"
  "stable I (fail_if b e)"
  by (auto simp: stable_def wp_rules split: sum.splits)

lemma stable_upd: "(\<And>s. I s \<Longrightarrow> I (f s)) \<Longrightarrow> stable I (upd f)"
  by (simp add: stable_def wp_rules)

lemma stable_bnd:
  assumes "stable I m" and "\<And>x. stable I (f x)"
  shows "stable I (bnd m f)"
  unfolding stable_def wp_bnd
  by (intro allI impI wp_mono [OF stableD [OF assms(1)]]) (use stableD [OF assms(2)] in auto)

lemma stable_sq: "stable I m \<Longrightarrow> stable I n \<Longrightarrow> stable I (sq m n)"
  unfolding sq_def by (rule stable_bnd)

lemma stable_catch:
  assumes "stable I m" and "\<And>e. stable I (h e)"
  shows "stable I (catch m h)"
  unfolding stable_def wp_catch
  by (intro allI impI wp_mono [OF stableD [OF assms(1)]]) (use stableD [OF assms(2)] in auto)

lemma stable_cond:
  "(b \<Longrightarrow> stable I m) \<Longrightarrow> (\<not> b \<Longrightarrow> stable I n) \<Longrightarrow> stable I (if b then m else n)"
  "(b \<Longrightarrow> stable I u) \<Longrightarrow> stable I (when_do b u)"
  "(x = None \<Longrightarrow> stable I m) \<Longrightarrow> (\<And>y. x = Some y \<Longrightarrow> stable I (g y)) \<Longrightarrow>
   stable I (case x of None \<Rightarrow> m | Some y \<Rightarrow> g y)"
  "(\<And>a b. p = (a, b) \<Longrightarrow> stable I (k a b)) \<Longrightarrow> stable I (case p of (a, b) \<Rightarrow> k a b)"
  by (auto simp: when_do_def stable_pure split: option.splits prod.splits)

lemma stable_mapP: "(\<And>x. stable I (f x)) \<Longrightarrow> stable I (mapP f xs)"
  unfolding stable_def by (auto intro: wp_mapP_invariant)

lemma stable_eachP: "(\<And>x. stable I (f x)) \<Longrightarrow> stable I (eachP f xs)"
  unfolding stable_def by (auto intro: wp_eachP_invariant)

lemmas stable_structure [stable_rules] = stable_pure stable_bnd stable_sq stable_catch stable_cond
  stable_mapP stable_eachP

end
