(* ===== verification/ManagerLock.thy ===== *)
theory ManagerLock
  imports ManagerState
begin

text \<open>
  Locking the manager for other users (\<open>manager/manager.py\<close>): the handlers of the \<open>lock\<close>,
  \<open>unlock\<close> and \<open>lock_info\<close> requests, the check of the lock key that the other handlers start
  with, and the copy of the lock in the queue's store, which a restarted manager reads. A
  request is the dictionary of its parameters.
\<close>

section \<open>Requests\<close>

record reply =
  rep_ok :: bool
  rep_item :: json
  rep_info :: json

abbreviation reply :: "bool \<Rightarrow> json \<Rightarrow> json \<Rightarrow> reply" where
  "reply ok item info \<equiv> \<lparr>rep_ok = ok, rep_item = item, rep_info = info\<rparr>"

text \<open>\<open>try: m except Exception: success = False\<close>, with the values the reply then carries.\<close>

definition failing :: "json \<Rightarrow> json \<Rightarrow> ('s, reply) prog \<Rightarrow> ('s, reply) prog" where
  "failing item info m = catch m (\<lambda>_. ret (reply False item info))"

definition check_request_for_unsupported_params :: "string list \<Rightarrow> dict \<Rightarrow> ('s, unit) prog" where
  "check_request_for_unsupported_params names req =
     fail_if (list_ex (\<lambda>kv. fst kv \<notin> set names) req) ValueError"

text \<open>\<open>request.get(name, dflt)\<close>.\<close>

definition param :: "string \<Rightarrow> json \<Rightarrow> dict \<Rightarrow> json" where
  "param name dflt req = (case dget req name of None \<Rightarrow> dflt | Some v \<Rightarrow> v)"

fun nonempty_str :: "json \<Rightarrow> bool" where
  "nonempty_str (JStr s) = (s \<noteq> [])"
| "nonempty_str _ = False"

text \<open>A required parameter that must be a non-empty string.\<close>

definition required_str :: "string \<Rightarrow> dict \<Rightarrow> ('s, json) prog" where
  "required_str name req =
     (case dget req name of
        None \<Rightarrow> raise ValueError
      | Some v \<Rightarrow> if nonempty_str v then ret v else raise ValueError)"

section \<open>The key check of the handlers\<close>

definition locked_for :: "bool \<Rightarrow> bool \<Rightarrow> lock_info \<Rightarrow> bool" where
  "locked_for check_environment check_queue li =
     (check_environment \<and> truthy (li_environment li) \<or> check_queue \<and> truthy (li_queue li))"

definition validate_lock_key :: "json \<Rightarrow> bool \<Rightarrow> bool \<Rightarrow> ('o, unit) mgm" where
  "validate_lock_key key check_environment check_queue =
     bnd (gets mg_lock) (\<lambda>li.
     let locked = locked_for check_environment check_queue li in
     (case key of
        JNull \<Rightarrow> fail_if locked ValueError
      | JStr _ \<Rightarrow> fail_if (locked \<and> \<not> check_lock_key key False li) ValueError
      | _ \<Rightarrow> raise ValueError))"

section \<open>The handlers of the lock\<close>

definition format_lock_info :: "lock_info \<Rightarrow> json" where
  "format_lock_info li = JDict
     [(''environment'', li_environment li), (''queue'', li_queue li), (''user'', li_user li),
      (''time'', li_time li), (''note'', li_note li),
      (''emergency_lock_key_is_set'',
         JBool (case li_emergency li of None \<Rightarrow> False | Some k \<Rightarrow> k \<noteq> []))]"

definition save_lock_info :: "('o, unit) mgm" where
  "save_lock_info = bnd (gets mg_lock) (\<lambda>li. in_pq (info_save ''lock_info'' (lock_to_dict li)))"

definition load_lock_info :: "('o, unit) mgm" where
  "load_lock_info =
     bnd (in_pq (info_retrieve ''lock_info'')) (\<lambda>r.
       case r of
         None \<Rightarrow> ret ()
       | Some d \<Rightarrow> when_do (truthy d)
           (bnd (gets mg_lock) (\<lambda>li.
            bnd (lift (lock_from_dict d li)) (\<lambda>li'. upd (\<lambda>s. s\<lparr>mg_lock := li'\<rparr>)))))"

definition set_lock :: "json \<Rightarrow> json \<Rightarrow> json \<Rightarrow> json \<Rightarrow> json \<Rightarrow> ('o, unit) mgm" where
  "set_lock env_locked queue_locked key note user =
     sq (fail_if (\<not> truthy env_locked \<and> \<not> truthy queue_locked) ValueError)
    (bnd (in_pq time_time) (\<lambda>t.
     bnd (in_pq new_item_uid) (\<lambda>uid.
     upd (\<lambda>s. s\<lparr>mg_lock := (mg_lock s)\<lparr>li_environment := env_locked, li_queue := queue_locked,
       li_key := key, li_note := note, li_user := user, li_time := JFloat t, li_uid := JStr uid\<rparr>\<rparr>))))"

definition clear_lock :: "('o, unit) mgm" where
  "clear_lock =
     bnd (in_pq new_item_uid) (\<lambda>uid.
     upd (\<lambda>s. s\<lparr>mg_lock := cleared_lock (li_emergency (mg_lock s)) uid\<rparr>))"

text \<open>The reply carries the formatted lock and its UID.\<close>

definition lock_reply :: "bool \<Rightarrow> lock_info \<Rightarrow> reply" where
  "lock_reply ok li = reply ok (format_lock_info li) (li_uid li)"

definition lock_handler :: "dict \<Rightarrow> ('o, reply) mgm" where
  "lock_handler req =
     failing (JDict []) JNull
       (sq (check_request_for_unsupported_params
              [''lock_key'', ''note'', ''environment'', ''queue'', ''user''] req)
       (bnd (required_str ''user'' req) (\<lambda>user.
        bnd (required_str ''lock_key'' req) (\<lambda>key.
        let note = param ''note'' JNull req in
        sq (fail_if (case note of JNull \<Rightarrow> False | JStr _ \<Rightarrow> False | _ \<Rightarrow> True) ValueError)
       (bnd (gets mg_lock) (\<lambda>li.
        if check_lock_key key False li then
          sq (set_lock (param ''environment'' (JBool False) req) (param ''queue'' (JBool False) req)
                key note user)
         (bnd (gets mg_lock) (\<lambda>li'. sq save_lock_info (ret (lock_reply True li'))))
        else raise ValueError))))))"

definition lock_info_handler :: "dict \<Rightarrow> ('o, reply) mgm" where
  "lock_info_handler req =
     failing (JDict []) JNull
       (sq (check_request_for_unsupported_params [''lock_key''] req)
       (bnd (gets mg_lock) (\<lambda>li.
        failing (format_lock_info li) (li_uid li)
          (let key = param ''lock_key'' JNull req in
           sq (when_do (key \<noteq> JNull) (validate_lock_key key True True)) (ret (lock_reply True li))))))"

definition unlock_handler :: "dict \<Rightarrow> ('o, reply) mgm" where
  "unlock_handler req =
     failing (JDict []) JNull
       (sq (check_request_for_unsupported_params [''lock_key''] req)
       (bnd (required_str ''lock_key'' req) (\<lambda>key.
        bnd (gets mg_lock) (\<lambda>li.
        if \<not> is_set li then ret (lock_reply True li)
        else if check_lock_key key True li then
          sq clear_lock (bnd (gets mg_lock) (\<lambda>li'. sq save_lock_info (ret (lock_reply True li'))))
        else ret (lock_reply False li)))))"

end
