(* ===== verification/ManagerQueue.thy ===== *)
theory ManagerQueue
  imports ManagerLock
begin

text \<open>
  The request handlers of the manager that read and edit the queue and the history
  (\<open>manager/manager.py\<close>). Each checks its parameters and the lock key, validates submitted
  items and calls the plan queue; every exception becomes a reply with \<open>success = False\<close>.
  Whether a plan's parameters fit its description and whether a user group may call a
  function are decided by code that inspects Python signatures: the parameter \<open>policy\<close>.
\<close>

section \<open>Submitted items\<close>

record policy =
  pl_plan :: "json \<Rightarrow> string \<Rightarrow> bool"
  pl_function :: "json \<Rightarrow> string \<Rightarrow> bool"

text \<open>\<open>_get_item_from_request(item=...)\<close>: the item type, if the item is a dictionary with one.\<close>

definition item_type_supported :: "string list \<Rightarrow> json \<Rightarrow> string option" where
  "item_type_supported types item =
     (case item of
        JDict d \<Rightarrow> (case dget d ''item_type'' of
            Some (JStr t) \<Rightarrow> if t \<in> set types then Some t else None
          | _ \<Rightarrow> None)
      | _ \<Rightarrow> None)"

definition queue_item_types :: "string list" where
  "queue_item_types = [''plan'', ''instruction'']"

definition get_item_from_request :: "dict \<Rightarrow> ('s, json) prog" where
  "get_item_from_request req =
     (case dget req ''item'' of None \<Rightarrow> raise ValueError | Some item \<Rightarrow> ret item)"

definition supported_type :: "json \<Rightarrow> ('s, string) prog" where
  "supported_type item =
     (case item_type_supported queue_item_types item of None \<Rightarrow> raise BareException | Some t \<Rightarrow> ret t)"

definition get_user_info_from_request :: "dict \<Rightarrow> ('o, json \<times> string) mgm" where
  "get_user_info_from_request req =
     (case dget req ''user_group'' of
        None \<Rightarrow> raise ValueError
      | Some g \<Rightarrow> (case dget req ''user'' of
            None \<Rightarrow> raise ValueError
          | Some u \<Rightarrow> (case g of
                JStr ugroup \<Rightarrow>
                  bnd (gets mg_groups) (\<lambda>groups.
                  if ugroup \<in> set groups then ret (u, ugroup) else raise ValueError)
              | _ \<Rightarrow> if hashable g then raise ValueError else raise TypeError)))"

definition function_valid :: "policy \<Rightarrow> dict \<Rightarrow> string \<Rightarrow> bool" where
  "function_valid pl d ugroup =
     (case dget d ''name'' of
        None \<Rightarrow> False
      | Some nm \<Rightarrow>
          (case dget d ''args'' of None \<Rightarrow> True | Some (JList _) \<Rightarrow> True | _ \<Rightarrow> False) \<and>
          (case dget d ''kwargs'' of None \<Rightarrow> True | Some (JDict _) \<Rightarrow> True | _ \<Rightarrow> False) \<and>
          pl_function pl nm ugroup)"

definition item_valid :: "policy \<Rightarrow> string \<Rightarrow> string \<Rightarrow> dict \<Rightarrow> bool" where
  "item_valid pl item_type ugroup d =
     (if item_type = ''plan'' then pl_plan pl (JDict d) ugroup
      else if item_type = ''instruction'' then dget d ''name'' = Some (JStr ''queue_stop'')
      else if item_type = ''function'' then function_valid pl d ugroup
      else False)"

text \<open>\<open>_prepare_item\<close>: the item to store and the UID it was submitted with.\<close>

definition prepare_request_item ::
    "policy \<Rightarrow> json \<Rightarrow> string \<Rightarrow> json \<Rightarrow> string \<Rightarrow> bool \<Rightarrow> ('o, json \<times> json) mgm" where
  "prepare_request_item pl item item_type user ugroup generate_new_uid =
     (case item of
        JDict d \<Rightarrow>
          sq (fail_if (\<not> item_valid pl item_type ugroup d) RuntimeError)
            (let d1 = dset ''user_group'' (JStr ugroup) (dset ''user'' user d);
                 original = (case dget d1 ''item_uid'' of None \<Rightarrow> JNull | Some u \<Rightarrow> u)
             in if generate_new_uid
                then bnd (in_pq new_item_uid) (\<lambda>u. ret (JDict (dset ''item_uid'' (JStr u) d1), original))
                else if dhas d1 ''item_uid'' then ret (JDict d1, original)
                else raise RuntimeError)
      | _ \<Rightarrow> raise AttributeError)"

section \<open>Reading\<close>

definition queue_get_handler :: "dict \<Rightarrow> ('o, reply) mgm" where
  "queue_get_handler req =
     failing (JDict [(''items'', JList []), (''running_item'', JDict [])]) (JStr [])
       (sq (check_request_for_unsupported_params [] req)
       (bnd (in_pq get_queue_full) (\<lambda>(items, running_item, uid).
        ret (reply True (JDict [(''items'', JList items), (''running_item'', running_item)]) (JStr uid)))))"

definition queue_item_get_handler :: "dict \<Rightarrow> ('o, reply) mgm" where
  "queue_item_get_handler req =
     failing (JDict []) JNull
       (sq (check_request_for_unsupported_params [''pos'', ''uid''] req)
       (bnd (in_pq (get_item (param ''pos'' JNull req) (param ''uid'' JNull req))) (\<lambda>item.
        ret (reply True item JNull))))"

definition history_get_handler :: "dict \<Rightarrow> ('o, reply) mgm" where
  "history_get_handler req =
     failing (JList []) (JStr [])
       (sq (check_request_for_unsupported_params [] req)
       (bnd (in_pq get_history) (\<lambda>(items, uid). ret (reply True (JList items) (JStr uid)))))"

section \<open>Editing\<close>

text \<open>What every editing handler does first.\<close>

definition queue_request :: "string list \<Rightarrow> dict \<Rightarrow> ('o, unit) mgm" where
  "queue_request names req =
     sq (check_request_for_unsupported_params (names @ [''lock_key'']) req)
       (validate_lock_key (param ''lock_key'' JNull req) False True)"

definition queue_mode_set_handler :: "dict \<Rightarrow> ('o, reply) mgm" where
  "queue_mode_set_handler req =
     failing JNull JNull
       (sq (queue_request [''mode''] req)
       (case dget req ''mode'' of
          None \<Rightarrow> raise BareException
        | Some mode \<Rightarrow>
            sq (in_pq (set_plan_queue_mode mode True)) (ret (reply True JNull JNull))))"

definition queue_item_add_handler :: "policy \<Rightarrow> dict \<Rightarrow> ('o, reply) mgm" where
  "queue_item_add_handler pl req =
     failing JNull JNull
       (sq (queue_request [''user_group'', ''user'', ''item'', ''pos'', ''before_uid'', ''after_uid''] req)
       (bnd (get_item_from_request req) (\<lambda>item.
        failing item JNull
          (bnd (supported_type item) (\<lambda>t.
           bnd (get_user_info_from_request req) (\<lambda>(user, ugroup).
           bnd (prepare_request_item pl item t user ugroup True) (\<lambda>(item, _).
           failing item JNull
             (bnd (in_pq (add_item_to_queue item (param ''pos'' JNull req)
                     (param ''before_uid'' JNull req) (param ''after_uid'' JNull req) True))
                (\<lambda>(item, qsize). ret (reply True item (JInt qsize)))))))))))"

text \<open>\<open>for x in v\<close>.\<close>

definition py_iter :: "json \<Rightarrow> py_error + json list" where
  "py_iter v =
     (case v of
        JList xs \<Rightarrow> Inr xs
      | JDict d \<Rightarrow> Inr (map (\<lambda>kv. JStr (fst kv)) d)
      | JStr s \<Rightarrow> Inr (map (\<lambda>c. JStr [c]) s)
      | _ \<Rightarrow> Inl TypeError)"

text \<open>One item of a batch: prepared, or as submitted with a failure.\<close>

definition validate_item_info :: "policy \<Rightarrow> json \<Rightarrow> string \<Rightarrow> json \<Rightarrow> ('o, json \<times> bool) mgm" where
  "validate_item_info pl user ugroup item =
     catch (bnd (supported_type item) (\<lambda>t.
            bnd (prepare_request_item pl item t user ugroup True) (\<lambda>(prep, _). ret (prep, True))))
       (\<lambda>_. ret (item, False))"

definition validate_item_batch :: "policy \<Rightarrow> json list \<Rightarrow> json \<Rightarrow> string \<Rightarrow> ('o, (json \<times> bool) list) mgm" where
  "validate_item_batch pl items user ugroup = mapP (validate_item_info pl user ugroup) items"

definition reply_to_batch :: "bool \<Rightarrow> json \<Rightarrow> bool list \<Rightarrow> ('o, reply) mgm" where
  "reply_to_batch ok items results =
     bnd (in_pq get_queue_size) (\<lambda>n.
     ret (reply ok (JDict [(''items'', items), (''results'', JList (map JBool results))]) (JInt n)))"

definition queue_item_add_batch_handler :: "policy \<Rightarrow> dict \<Rightarrow> ('o, reply) mgm" where
  "queue_item_add_batch_handler pl req =
     catch
       (sq (queue_request [''user_group'', ''user'', ''items'', ''pos'', ''before_uid'', ''after_uid''] req)
       (case dget req ''items'' of
          None \<Rightarrow> raise BareException
        | Some items \<Rightarrow>
            bnd (get_user_info_from_request req) (\<lambda>(user, ugroup).
            bnd (lift (py_iter items)) (\<lambda>infos.
            bnd (validate_item_batch pl infos user ugroup) (\<lambda>preps.
            if list_all snd preps then
              catch
                (bnd (in_pq (add_batch_to_queue (map fst preps) (param ''pos'' JNull req)
                        (param ''before_uid'' JNull req) (param ''after_uid'' JNull req) True))
                   (\<lambda>(added, results, _, success). reply_to_batch success (JList added) results))
                (\<lambda>_. reply_to_batch False (JList []) (map snd preps))
            else reply_to_batch False items (map snd preps))))))
       (\<lambda>_. reply_to_batch False (JList []) [])"

definition queue_item_update_handler :: "policy \<Rightarrow> dict \<Rightarrow> ('o, reply) mgm" where
  "queue_item_update_handler pl req =
     failing JNull (JInt 0)
       (sq (queue_request [''user_group'', ''user'', ''item'', ''replace''] req)
       (bnd (get_item_from_request req) (\<lambda>item.
        failing item (JInt 0)
          (bnd (supported_type item) (\<lambda>t.
           bnd (get_user_info_from_request req) (\<lambda>(user, ugroup).
           bnd (prepare_request_item pl item t user ugroup (truthy (param ''replace'' (JBool False) req)))
             (\<lambda>(item, original).
           failing item (JInt 0)
             (bnd (in_pq (replace_item item original))
                (\<lambda>(item, qsize). ret (reply True item (JInt qsize)))))))))))"

definition queue_item_remove_handler :: "dict \<Rightarrow> ('o, reply) mgm" where
  "queue_item_remove_handler req =
     failing (JDict []) JNull
       (sq (queue_request [''pos'', ''uid''] req)
       (bnd (in_pq (pop_item_from_queue (param ''pos'' JNull req) (param ''uid'' JNull req)))
          (\<lambda>(item, qsize). ret (reply True item (JInt qsize)))))"

definition queue_item_remove_batch_handler :: "dict \<Rightarrow> ('o, reply) mgm" where
  "queue_item_remove_batch_handler req =
     failing (JList []) JNull
       (sq (queue_request [''uids'', ''ignore_missing''] req)
       (let uids = param ''uids'' JNull req in
        sq (fail_if (uids = JNull) BareException)
       (bnd (in_pq (pop_item_from_queue_batch uids (truthy (param ''ignore_missing'' (JBool True) req))))
          (\<lambda>(items, qsize). ret (reply True (JList items) (JInt qsize))))))"

definition queue_item_move_handler :: "dict \<Rightarrow> ('o, reply) mgm" where
  "queue_item_move_handler req =
     failing (JDict []) JNull
       (sq (queue_request [''pos'', ''uid'', ''pos_dest'', ''before_uid'', ''after_uid''] req)
       (bnd (in_pq (move_item (param ''pos'' JNull req) (param ''uid'' JNull req)
               (param ''pos_dest'' JNull req) (param ''before_uid'' JNull req)
               (param ''after_uid'' JNull req)))
          (\<lambda>(item, qsize). ret (reply True item (JInt qsize)))))"

definition queue_item_move_batch_handler :: "dict \<Rightarrow> ('o, reply) mgm" where
  "queue_item_move_batch_handler req =
     failing (JList []) JNull
       (sq (queue_request [''uids'', ''pos_dest'', ''before_uid'', ''after_uid'', ''reorder''] req)
       (let uids = param ''uids'' JNull req in
        sq (fail_if (uids = JNull) BareException)
       (bnd (in_pq (move_batch uids (param ''pos_dest'' JNull req) (param ''before_uid'' JNull req)
               (param ''after_uid'' JNull req) (truthy (param ''reorder'' (JBool False) req))))
          (\<lambda>(items, qsize). ret (reply True (JList items) (JInt qsize))))))"

definition queue_clear_handler :: "dict \<Rightarrow> ('o, reply) mgm" where
  "queue_clear_handler req =
     failing JNull JNull
       (sq (queue_request [] req) (sq (in_pq clear_queue) (ret (reply True JNull JNull))))"

definition history_clear_handler :: "dict \<Rightarrow> ('o, reply) mgm" where
  "history_clear_handler req =
     failing JNull JNull
       (sq (check_request_for_unsupported_params [''lock_key'', ''size'', ''item_uid''] req)
       (sq (validate_lock_key (param ''lock_key'' JNull req) False True)
       (let size = param ''size'' JNull req; item_uid = param ''item_uid'' JNull req in
        sq (if size \<noteq> JNull \<and> item_uid \<noteq> JNull then raise ValueError
            else if size \<noteq> JNull then
              (case as_int size of
                 None \<Rightarrow> raise ValueError
               | Some n \<Rightarrow> in_pq (trim_history (Some n) JNull))
            else if item_uid \<noteq> JNull then
              (case item_uid of
                 JStr _ \<Rightarrow> in_pq (trim_history None item_uid)
               | _ \<Rightarrow> raise ValueError)
            else in_pq clear_history)
          (ret (reply True JNull JNull)))))"

section \<open>All of them\<close>

datatype queue_call =
    Queue_get
  | Queue_item_get
  | History_get
  | Queue_mode_set
  | Queue_item_add
  | Queue_item_add_batch
  | Queue_item_update
  | Queue_item_remove
  | Queue_item_remove_batch
  | Queue_item_move
  | Queue_item_move_batch
  | Queue_clear
  | History_clear

fun edits :: "queue_call \<Rightarrow> bool" where
  "edits Queue_get = False"
| "edits Queue_item_get = False"
| "edits History_get = False"
| "edits _ = True"

fun queue_handler :: "policy \<Rightarrow> queue_call \<Rightarrow> dict \<Rightarrow> ('o, reply) mgm" where
  "queue_handler pl Queue_get = queue_get_handler"
| "queue_handler pl Queue_item_get = queue_item_get_handler"
| "queue_handler pl History_get = history_get_handler"
| "queue_handler pl Queue_mode_set = queue_mode_set_handler"
| "queue_handler pl Queue_item_add = queue_item_add_handler pl"
| "queue_handler pl Queue_item_add_batch = queue_item_add_batch_handler pl"
| "queue_handler pl Queue_item_update = queue_item_update_handler pl"
| "queue_handler pl Queue_item_remove = queue_item_remove_handler"
| "queue_handler pl Queue_item_remove_batch = queue_item_remove_batch_handler"
| "queue_handler pl Queue_item_move = queue_item_move_handler"
| "queue_handler pl Queue_item_move_batch = queue_item_move_batch_handler"
| "queue_handler pl Queue_clear = queue_clear_handler"
| "queue_handler pl History_clear = history_clear_handler"

end
