(* ===== verification/ManagerRun.thy ===== *)
theory ManagerRun
  imports ManagerQueue
begin

text \<open>
  What the manager does with the environment and the running queue (\<open>manager/manager.py\<close>):
  opening, closing and destroying the worker, polling its state, starting plans, processing
  their reports, stopping and pausing. What worker and watchdog answer is an argument of the
  step that receives it. The worker runs plain Python, not an IPython kernel, so that reserving
  the kernel always succeeds.
\<close>

section \<open>Parameters\<close>

text \<open>
  The settings of the configuration service client, its classes and models, how a device is
  built from its specification, and the devices a plan refers to, in sorted order
  (\<open>extract_device_names_from_plan\<close>).
\<close>

record 'o site =
  si_settings :: settings
  si_models :: models
  si_classes :: "string list"
  si_inst :: "spec \<Rightarrow> 'o option"
  si_devices :: "json \<Rightarrow> string list"

definition str_of :: "json \<Rightarrow> string" where
  "str_of j = (case j of JStr s \<Rightarrow> s | _ \<Rightarrow> [])"

section \<open>Calls of the coordinator\<close>

definition in_coord :: "(cstate \<Rightarrow> 'a \<times> cstate) \<Rightarrow> ('o, 'a) mgm" where
  "in_coord f = (\<lambda>s. case f (mg_coord s, mg_config s) of
     (r, (co, c)) \<Rightarrow> (Inr r, s\<lparr>mg_coord := co, mg_config := c\<rparr>))"

lemma wp_in_coord:
  "wp (in_coord f) Q E s =
     (case f (mg_coord s, mg_config s) of (r, (co, c)) \<Rightarrow> Q r (s\<lparr>mg_coord := co, mg_config := c\<rparr>))"
  by (simp add: wp_def in_coord_def split: prod.splits)

lemma run_in_coord [run_simps]:
  "in_coord f s = (case f (mg_coord s, mg_config s) of
     (r, (co, c)) \<Rightarrow> (Inr r, s\<lparr>mg_coord := co, mg_config := c\<rparr>))"
  by (simp add: in_coord_def)

text \<open>The network during a request and the service's time when it arrives.\<close>

type_synonym net_time = "net list \<times> rat"

definition unlock_devices_mg :: "'o site \<Rightarrow> net_time \<Rightarrow> bool \<Rightarrow> ('o, cs_error + unit) mgm" where
  "unlock_devices_mg si nt suppress =
     in_coord (unlock_devices_co (si_settings si) (fst nt) (snd nt) suppress)"

definition release_lock_mg :: "'o site \<Rightarrow> net_time \<Rightarrow> bool \<Rightarrow> ('o, bool) mgm" where
  "release_lock_mg si nt suppress =
     in_coord (release_plan_scope_lock (si_settings si) (fst nt) (snd nt) suppress)"

section \<open>The future of the environment\<close>

definition complete_manager_task :: "bool \<Rightarrow> ('o, unit) mgm" where
  "complete_manager_task result =
     upd (\<lambda>s. if mg_future s = Waiting then s\<lparr>mg_future := Resolved result\<rparr> else s)"

definition confirm_re_worker_exit :: "bool \<Rightarrow> bool \<Rightarrow> ('o, bool) mgm" where
  "confirm_re_worker_exit confirmed joined =
     bnd (gets mg_env) (\<lambda>env.
     if env then sq (upd (\<lambda>s. s\<lparr>mg_env := False, mg_ws := None\<rparr>)) (ret (confirmed \<and> joined))
     else ret False)"

section \<open>Opening the environment\<close>

definition start_re_worker :: "('o, bool) mgm" where
  "start_re_worker =
     bnd (gets (\<lambda>s. \<not> mg_env s \<and> mg_state s = IDLE)) (\<lambda>accepted.
     sq (when_do accepted (sq (set_mstate CREATING_ENVIRONMENT) (schedule Start_worker))) (ret accepted))"

text \<open>\<open>launched\<close>: the registry could be read and the watchdog created the process.\<close>

definition start_re_worker_task :: "'o site \<Rightarrow> bool \<Rightarrow> ('o, unit) mgm" where
  "start_re_worker_task si launched =
     bnd (gets (\<lambda>s. mg_env s \<or> mg_state s \<notin> {IDLE, CREATING_ENVIRONMENT})) (\<lambda>rejected.
     when_do (\<not> rejected)
       (sq (upd (\<lambda>s. s\<lparr>mg_future := Waiting, mg_timeouts := 0, mg_death_handled := False\<rparr>))
       (sq (when_do (sg_enabled (si_settings si))
              (bnd (in_pq new_item_uid) (\<lambda>uid.
               upd (\<lambda>s. s\<lparr>mg_coord := new_env_lock_item_id uid (mg_coord s)\<rparr>))))
         (if launched then schedule Start_worker_wait else set_mstate IDLE))))"

text \<open>
  The first synchronisation of an environment (\<open>sync_on_env_open\<close> of the coordinator): bootstrap
  of an empty registry, the version cursor, and with environment scope the lock on all devices.
  \<open>ow_data = None\<close>: the worker's lists could not be downloaded.
\<close>

record open_world =
  ow_now :: rat
  ow_probe :: "net list"
  ow_boot :: "string \<Rightarrow> net list \<times> net list"
  ow_boot2 :: "string \<Rightarrow> net list \<times> net list"
  ow_feed :: "net list"
  ow_devices :: "string list"
  ow_data :: "device_data option"
  ow_prefetched :: "(string \<times> spec) list option"
  ow_unlock :: "net list"
  ow_lock :: "net list"
  ow_force :: "net list"
  ow_relock :: "net list"

definition sync_on_env_open ::
    "'o site \<Rightarrow> open_world \<Rightarrow> device_data \<Rightarrow> coord \<times> config \<times> sync_state \<Rightarrow>
     (cs_error + unit) \<times> (coord \<times> config \<times> sync_state)" where
  "sync_on_env_open si ow data x =
     (case x of (co, c, sy) \<Rightarrow>
      case sync_devices_on_env_open (si_settings si) (si_models si) (si_classes si) (ow_now ow)
             (ow_probe ow) (ow_boot ow) (ow_boot2 ow) (ow_feed ow) (ow_devices ow) data
             (ow_prefetched ow) c of
        (Inl e, c1) \<Rightarrow> (Inl e, (co, c1, sy))
      | (Inr sy', c1) \<Rightarrow>
          (case lock_environment (si_settings si) (ow_unlock ow) (ow_lock ow) (ow_force ow)
                  (ow_relock ow) (ow_now ow) (ow_devices ow) (co, c1) of
             (Inl e, (co', c2)) \<Rightarrow> (Inl e, (co', c2, sy))
           | (Inr _, (co', c2)) \<Rightarrow> (Inr (), (co', c2, sy'))))"

definition load_lists_from_worker :: "'o site \<Rightarrow> open_world \<Rightarrow> ('o, bool) mgm" where
  "load_lists_from_worker si ow =
     (case ow_data ow of
        None \<Rightarrow> ret False
      | Some data \<Rightarrow> (\<lambda>s.
          if \<not> sg_enabled (si_settings si) then (Inr True, s)
          else case sync_on_env_open si ow data (mg_coord s, mg_config s, mg_sync s) of
              (r, (co, c, sy)) \<Rightarrow>
                (case r of Inl e \<Rightarrow> Inl RuntimeError | Inr _ \<Rightarrow> Inr True,
                 s\<lparr>mg_coord := co, mg_config := c, mg_sync := sy\<rparr>)))"

text \<open>
  The rest of the task when the worker reports: \<open>w\<close> is the worker that came up. A failed
  synchronisation is reported and leaves the environment open.
\<close>

definition start_re_worker_done ::
    "'o site \<Rightarrow> open_world \<Rightarrow> 'o worker \<Rightarrow> bool \<Rightarrow> bool \<Rightarrow> bool \<Rightarrow> ('o, unit) mgm" where
  "start_re_worker_done si ow w confirmed joined result =
     sq (if result then
           sq (upd (\<lambda>s. s\<lparr>mg_env := True, mg_pause_pending := False, mg_worker := w\<rparr>))
             (when_do (sg_enabled (si_settings si))
               (catch (bnd (load_lists_from_worker si ow) (\<lambda>loaded. fail_if (\<not> loaded) RuntimeError))
                  (\<lambda>_. ret ())))
         else
           sq (upd (\<lambda>s. s\<lparr>mg_env := True\<rparr>))
             (bnd (confirm_re_worker_exit confirmed joined) (\<lambda>_.
              upd (\<lambda>s. s\<lparr>mg_env := False, mg_ws := None, mg_pause_pending := False\<rparr>))))
       (set_mstate IDLE)"

section \<open>Closing and destroying it\<close>

definition stop_re_worker :: "('o, bool) mgm" where
  "stop_re_worker =
     bnd (gets (\<lambda>s. mg_env s \<and> mg_state s = IDLE)) (\<lambda>accepted.
     sq (when_do accepted (sq (set_mstate CLOSING_ENVIRONMENT) (schedule Stop_worker))) (ret accepted))"

definition end_closing :: "('o, unit) mgm" where
  "end_closing = upd (\<lambda>s. s\<lparr>mg_state := IDLE, mg_task := None\<rparr>)"

definition stop_re_worker_task :: "bool \<Rightarrow> ('o, unit) mgm" where
  "stop_re_worker_task accepted =
     bnd (gets mg_env) (\<lambda>env.
     if \<not> env then set_mstate IDLE
     else bnd (gets mg_state) (\<lambda>st.
     if st \<notin> {IDLE, CLOSING_ENVIRONMENT} then ret ()
     else sq (upd (\<lambda>s. s\<lparr>mg_future := Waiting\<rparr>))
            (if accepted then sq (set_mstate CLOSING_ENVIRONMENT) (schedule Stop_worker_wait)
             else end_closing)))"

definition stop_re_worker_done :: "'o site \<Rightarrow> net_time \<Rightarrow> bool \<Rightarrow> bool \<Rightarrow> ('o, unit) mgm" where
  "stop_re_worker_done si nt confirmed joined =
     bnd (confirm_re_worker_exit confirmed joined) (\<lambda>ok.
     sq (when_do (ok \<and> sg_enabled (si_settings si)) (bnd (unlock_devices_mg si nt False) (\<lambda>_. ret ())))
       end_closing)"

definition kill_re_worker :: "('o, bool) mgm" where
  "kill_re_worker =
     bnd (gets (\<lambda>s. mg_env s \<or> mg_state s = CREATING_ENVIRONMENT)) (\<lambda>accepted.
     sq (when_do accepted (sq (complete_manager_task False) (schedule Kill_worker))) (ret accepted))"

definition kill_re_worker_task :: "('o, unit) mgm" where
  "kill_re_worker_task = sq (set_mstate DESTROYING_ENVIRONMENT) (schedule Kill_worker_wait)"

definition set_failed :: "string \<Rightarrow> ('o, unit) mgm" where
  "set_failed err_msg =
     bnd (in_pq (set_processed_item_as_stopped (JStr ''failed'') (JList []) (JList []) (JStr err_msg) (JStr [])))
       (\<lambda>_. ret ())"

definition kill_re_worker_done :: "'o site \<Rightarrow> net_time \<Rightarrow> ('o, unit) mgm" where
  "kill_re_worker_done si nt =
     sq (upd (\<lambda>s. s\<lparr>mg_state := IDLE, mg_env := False, mg_ws := None\<rparr>))
    (sq (when_do (sg_enabled (si_settings si)) (bnd (unlock_devices_mg si nt True) (\<lambda>_. ret ())))
    (sq (set_failed ''RE Worker environment was destroyed'')
      (upd (\<lambda>s. s\<lparr>mg_task := None\<rparr>))))"

definition handle_unexpected_worker_shutdown :: "'o site \<Rightarrow> net_time \<Rightarrow> bool \<Rightarrow> bool \<Rightarrow> ('o, unit) mgm" where
  "handle_unexpected_worker_shutdown si nt confirmed joined =
     bnd (confirm_re_worker_exit confirmed joined) (\<lambda>_.
     when_do (sg_enabled (si_settings si)) (bnd (unlock_devices_mg si nt True) (\<lambda>_. ret ())))"

section \<open>Polling the worker\<close>

definition worker_state_timeout_limit :: nat where
  "worker_state_timeout_limit = 5"

text \<open>\<open>dead\<close>: the watchdog answers, and positively says that the process is gone.\<close>

definition handle_possible_worker_death :: "bool \<Rightarrow> ('o, unit) mgm" where
  "handle_possible_worker_death dead =
     bnd (gets (\<lambda>s. (mg_env s \<or> mg_state s = CREATING_ENVIRONMENT) \<and>
            mg_state s \<noteq> DESTROYING_ENVIRONMENT \<and> \<not> mg_death_handled s)) (\<lambda>relevant.
     when_do relevant
       (sq (upd (\<lambda>s. s\<lparr>mg_timeouts := Suc (mg_timeouts s)\<rparr>))
       (bnd (gets mg_timeouts) (\<lambda>n.
        when_do (worker_state_timeout_limit \<le> n \<and> dead)
          (sq (upd (\<lambda>s. s\<lparr>mg_death_handled := True, mg_timeouts := 0\<rparr>))
          (bnd (gets mg_state) (\<lambda>st.
           if st \<in> {CREATING_ENVIRONMENT, CLOSING_ENVIRONMENT}
           then complete_manager_task (st = CLOSING_ENVIRONMENT)
           else schedule Kill_worker)))))))"

definition worker_answered :: "worker_state \<Rightarrow> ('o, unit) mgm" where
  "worker_answered ws =
     sq (upd (\<lambda>s. s\<lparr>mg_timeouts := 0, mg_ws := Some ws,
           mg_pause_pending := (ws_re ws \<noteq> Some ''paused'' \<and> mg_pause_pending s)\<rparr>))
    (sq (when_do (ws_shutdown ws) (schedule Unexpected_shutdown))
    (bnd (gets mg_state) (\<lambda>st.
     if st = CLOSING_ENVIRONMENT then
       when_do (ws_environment ws = ''closing'') (complete_manager_task True)
     else if st = CREATING_ENVIRONMENT then
       sq (when_do (ws_environment ws \<in> {''idle'', ''executing_plan'', ''executing_task''})
             (complete_manager_task True))
         (when_do (ws_environment ws = ''closing'') (complete_manager_task False))
     else when_do (st \<in> {EXECUTING_QUEUE, PAUSED} \<and> ws_report ws) (schedule Plan_report))))"

definition periodic_worker_state_request_once :: "worker_state option \<Rightarrow> bool \<Rightarrow> ('o, unit) mgm" where
  "periodic_worker_state_request_once answer dead =
     bnd (gets (\<lambda>s. (mg_env s \<or> mg_state s = CREATING_ENVIRONMENT) \<and>
            mg_state s \<noteq> DESTROYING_ENVIRONMENT)) (\<lambda>relevant.
     when_do relevant
       (case answer of None \<Rightarrow> handle_possible_worker_death dead | Some ws \<Rightarrow> worker_answered ws))"

end
