(* ===== verification/ManagerPlans.thy ===== *)
theory ManagerPlans
  imports ManagerRun
begin

text \<open>
  How the manager runs the queue (\<open>manager/manager.py\<close>): starting the queue or a single item,
  the steps of \<open>_start_plan_task\<close> between its awaits, plan reports, stopping, pausing, the
  autostart mode and foreground tasks; and the recovery of its state after a restart.
\<close>

section \<open>Stopping the queue\<close>

definition queue_stop_activate :: "('o, bool) mgm" where
  "queue_stop_activate =
     bnd (gets mg_state) (\<lambda>st.
     if st \<notin> {EXECUTING_QUEUE, STARTING_QUEUE} then ret False
     else sq (set_queue_stop_pending True) (ret True))"

definition queue_stop_deactivate :: "('o, bool) mgm" where
  "queue_stop_deactivate = sq (set_queue_stop_pending False) (ret True)"

definition autostart_enable :: "('o, bool) mgm" where
  "autostart_enable =
     bnd (gets mg_autostart) (\<lambda>on.
     sq (when_do (\<not> on) (sq (set_queue_autostart_enabled True) (schedule Autostart))) (ret True))"

definition autostart_disable :: "('o, bool) mgm" where
  "autostart_disable =
     bnd (gets mg_autostart) (\<lambda>on.
     sq (when_do on (set_queue_autostart_enabled False)) (ret True))"

definition set_manager_state :: "mstate \<Rightarrow> bool \<Rightarrow> ('o, unit) mgm" where
  "set_manager_state target autostart_off =
     sq (fail_if (target \<notin> {IDLE, PAUSED}) ValueError)
    (sq (upd (\<lambda>s. s\<lparr>mg_state := target, mg_pause_pending := False, mg_task := None\<rparr>))
    (sq (when_do (target = IDLE) (bnd queue_stop_deactivate (\<lambda>_. ret ())))
      (when_do autostart_off (bnd autostart_disable (\<lambda>_. ret ())))))"

section \<open>Starting\<close>

definition ready_to_start :: "'o mgr \<Rightarrow> bool" where
  "ready_to_start s = (mg_env s \<and> re_state s \<noteq> None \<and> mg_state s = IDLE)"

definition begin_start :: "('o, unit) mgm" where
  "begin_start = sq (bnd queue_stop_deactivate (\<lambda>_. ret ())) (set_mstate STARTING_QUEUE)"

definition start_plan_mg :: "('o, bool) mgm" where
  "start_plan_mg =
     bnd (gets ready_to_start) (\<lambda>ready.
     sq (when_do ready (sq begin_start (schedule (Start_plan False False JNull)))) (ret ready))"

text \<open>The item is given a new UID; the caller is told whether it was started.\<close>

definition start_single_plan :: "json \<Rightarrow> ('o, bool \<times> json \<times> json) mgm" where
  "start_single_plan item =
     bnd (gets ready_to_start) (\<lambda>ready.
     if \<not> ready then ret (False, item, JNull)
     else catch
       (sq begin_start
       (bnd (in_pq (set_new_item_uuid item)) (\<lambda>item'.
        bnd (in_pq get_queue_size) (\<lambda>n.
        sq (schedule (Start_plan False False item')) (ret (True, item', JInt n))))))
       (\<lambda>_. ret (False, item, JNull)))"

text \<open>\<open>_start_plan_task\<close> up to the first request.\<close>

definition start_next_item :: "json \<Rightarrow> ('o, unit) mgm" where
  "start_next_item single =
     bnd (if truthy single then ret single else in_pq (get_item (JStr ''front'') JNull)) (\<lambda>item.
     sq (upd (\<lambda>s. s\<lparr>mg_pause_pending := False\<rparr>))
    (bnd (lift (py_getitem item ''item_type'')) (\<lambda>item_type.
     if py_eq item_type (JStr ''plan'') then schedule (Plan_check item single)
     else if py_eq item_type (JStr ''instruction'') then
       bnd (lift (py_getitem item ''name'')) (\<lambda>nm.
       when_do (py_eq nm (JStr ''queue_stop''))
         (bnd (in_pq (process_next_item single)) (\<lambda>_.
          sq (set_mstate EXECUTING_QUEUE) (schedule (Start_plan True True JNull)))))
     else ret ())))"

definition start_plan_task :: "bool \<Rightarrow> bool \<Rightarrow> json \<Rightarrow> ('o, unit) mgm" where
  "start_plan_task stop_queue autostart_off single =
     (if truthy single then start_next_item single
      else
        bnd (in_pq get_queue_size) (\<lambda>n_pending_plans.
        bnd (gets mg_stop_pending) (\<lambda>stop_pending.
        bnd (gets mg_pause_pending) (\<lambda>pause_pending.
        if stop_pending \<or> stop_queue then schedule (Set_state IDLE (stop_pending \<or> autostart_off))
        else if n_pending_plans = 0 then schedule (Set_state IDLE False)
        else if pause_pending then schedule (Set_state IDLE False)
        else start_next_item single))))"

text \<open>The staleness check; \<open>reload\<close>: the worker's new lists could be downloaded.\<close>

definition plan_check :: "'o site \<Rightarrow> net list \<Rightarrow> net list \<Rightarrow> bool \<Rightarrow> json \<Rightarrow> json \<Rightarrow> ('o, unit) mgm" where
  "plan_check si netc nets reload item single = (\<lambda>s.
     case check_staleness_before_plan (si_settings si) (si_inst si) netc nets reload (mg_config s)
            (mg_sync s, mg_worker s) of
       (r, (sy, w)) \<Rightarrow>
         (Inr (),
          let s' = s\<lparr>mg_sync := sy, mg_worker := w\<rparr> in
          (case r of
             Inl e \<Rightarrow> s'\<lparr>mg_state := IDLE\<rparr>
           | Inr _ \<Rightarrow> s'\<lparr>mg_jobs := mg_jobs s @
               [if sg_enabled (si_settings si) \<and> sg_scope (si_settings si) = Plan_scope
                then Plan_lock item single else Plan_reset single]\<rparr>)))"

definition plan_lock :: "'o site \<Rightarrow> net list \<Rightarrow> net list \<Rightarrow> net list \<Rightarrow> rat \<Rightarrow> json \<Rightarrow> json \<Rightarrow> ('o, unit) mgm" where
  "plan_lock si netu netg netl now item single =
     bnd (lift (py_getitem item ''item_uid'')) (\<lambda>uid.
     bnd (lift (py_getitem item ''name'')) (\<lambda>nm.
     bnd (in_coord (lock_devices_for_plan (si_settings si) netu netg netl now (si_devices si item)
            (str_of uid) (str_of nm))) (\<lambda>r.
     case r of Inl e \<Rightarrow> set_mstate IDLE | Inr _ \<Rightarrow> schedule (Plan_reset single))))"

definition opt_field :: "dict \<Rightarrow> string \<Rightarrow> json \<Rightarrow> json" where
  "opt_field d k dflt = (case dget d k of None \<Rightarrow> dflt | Some v \<Rightarrow> v)"

text \<open>What is sent to the worker: a missing required field raises KeyError.\<close>

definition plan_info_of :: "json \<Rightarrow> py_error + json" where
  "plan_info_of plan =
     (case plan of
        JDict d \<Rightarrow>
          ebind (item_at d ''name'') (\<lambda>nm. ebind (item_at d ''user'') (\<lambda>user.
          ebind (item_at d ''user_group'') (\<lambda>ug. ebind (item_at d ''item_uid'') (\<lambda>uid.
            Inr (JDict [(''name'', nm), (''args'', opt_field d ''args'' (JList [])),
              (''kwargs'', opt_field d ''kwargs'' (JDict [])), (''user'', user), (''user_group'', ug),
              (''meta'', opt_field d ''meta'' (JDict [])), (''item_uid'', uid)])))))
      | _ \<Rightarrow> Inl TypeError)"

text \<open>The worker's reset, then the item leaves the queue and is sent to the worker.\<close>

definition plan_reset :: "'o site \<Rightarrow> net_time \<Rightarrow> bool \<Rightarrow> json \<Rightarrow> ('o, unit) mgm" where
  "plan_reset si nt accepted single =
     (if \<not> accepted then
        bnd (release_lock_mg si nt True) (\<lambda>_. set_mstate IDLE)
      else
        bnd (in_pq (process_next_item single)) (\<lambda>plan.
        bnd (lift (plan_info_of plan)) (\<lambda>info. schedule (Plan_run info))))"

text \<open>The worker takes the plan, or refuses it with a message.\<close>

definition plan_run :: "'o site \<Rightarrow> net_time \<Rightarrow> bool \<Rightarrow> string \<Rightarrow> ('o, unit) mgm" where
  "plan_run si nt accepted err_msg =
     (if accepted then set_mstate EXECUTING_QUEUE
      else sq (set_failed err_msg)
          (bnd (release_lock_mg si nt True) (\<lambda>_. set_mstate IDLE)))"

section \<open>Plan reports\<close>

record plan_report =
  rp_state :: string
  rp_uids :: json
  rp_scan_ids :: json
  rp_err_msg :: json
  rp_err_tb :: json
  rp_stop_queue :: bool

definition running_immediate :: "json \<Rightarrow> py_error + bool" where
  "running_immediate item =
     ebind (py_get item ''properties'' (JDict [])) (\<lambda>p.
     ebind (py_get p ''immediate_execution'' (JBool False)) (\<lambda>v. Inr (truthy v)))"

definition process_plan_report :: "'o site \<Rightarrow> net_time \<Rightarrow> plan_report option \<Rightarrow> ('o, unit) mgm" where
  "process_plan_report si nt answer =
     (case answer of
        None \<Rightarrow>
          sq (set_failed ''Internal RE Manager error occurred. Report the error to the development team'')
         (bnd (release_lock_mg si nt True) (\<lambda>_.
          upd (\<lambda>s. s\<lparr>mg_state := IDLE, mg_pause_pending := False\<rparr>)))
      | Some rp \<Rightarrow>
          let es = JStr (rp_state rp) in
          bnd (gets (\<lambda>s. item_at (pq_mode (mg_pq s)) ''ignore_failures'')) (\<lambda>ig.
          bnd (lift ig) (\<lambda>ignore_failures.
          if rp_state rp \<in> {''completed'', ''unknown''} \<or>
             rp_state rp = ''failed'' \<and> truthy ignore_failures then
            bnd (in_pq get_running_item_info) (\<lambda>item.
            bnd (lift (running_immediate item)) (\<lambda>immediate.
            bnd (in_pq (set_processed_item_as_completed es (rp_uids rp) (rp_scan_ids rp)
                   (rp_err_msg rp) (rp_err_tb rp))) (\<lambda>_.
            bnd (release_lock_mg si nt False) (\<lambda>released.
            if released then start_plan_task (rp_stop_queue rp \<or> immediate) False JNull
            else schedule (Set_state IDLE True)))))
          else if rp_state rp \<in> {''failed'', ''stopped'', ''aborted'', ''halted''} then
            bnd (in_pq (set_processed_item_as_stopped es (rp_uids rp) (rp_scan_ids rp)
                   (rp_err_msg rp) (rp_err_tb rp))) (\<lambda>_.
            bnd (release_lock_mg si nt True) (\<lambda>_. schedule (Set_state IDLE True)))
          else if rp_state rp = ''paused'' then schedule (Set_state PAUSED False)
          else ret ())))"

section \<open>Pausing and continuing\<close>

definition re_pause :: "bool \<Rightarrow> ('o, bool) mgm" where
  "re_pause accepted =
     bnd (gets (\<lambda>s. mg_env s \<and> re_state s \<noteq> None)) (\<lambda>ready.
     sq (when_do (ready \<and> accepted) (upd (\<lambda>s. s\<lparr>mg_pause_pending := True\<rparr>))) (ret (ready \<and> accepted)))"

definition continue_run_engine :: "bool \<Rightarrow> ('o, bool) mgm" where
  "continue_run_engine accepted =
     bnd (gets (\<lambda>s. (mg_state s, mg_env s, re_state s))) (\<lambda>(st, env, re).
     if st \<noteq> PAUSED then ret False
     else if \<not> env then ret False
     else if re = None then raise RuntimeError
     else sq (when_do accepted (set_mstate EXECUTING_QUEUE)) (ret accepted))"

section \<open>Autostart\<close>

text \<open>One round of \<open>_autostart_task\<close>.\<close>

definition autostart_round :: "('o, unit) mgm" where
  "autostart_round =
     bnd (gets mg_autostart) (\<lambda>on.
     when_do on
       (bnd (in_pq get_queue_size) (\<lambda>n.
        bnd (gets (\<lambda>s. mg_state s = IDLE \<and> re_state s \<noteq> None)) (\<lambda>idle.
        sq (when_do (n \<noteq> 0 \<and> idle) (bnd start_plan_mg (\<lambda>_. ret ())))
          (schedule Autostart)))))"

section \<open>Tasks\<close>

text \<open>
  Uploading a script or calling a function in the worker; \<open>answer\<close> is the UID of the task if
  the worker accepted. The result of the foreground task makes the manager idle again.
\<close>

definition start_task :: "bool \<Rightarrow> string option \<Rightarrow> ('o, bool) mgm" where
  "start_task run_in_background answer =
     bnd (gets (\<lambda>s. mg_env s \<and> (run_in_background \<or> mg_state s = IDLE))) (\<lambda>ready.
     if \<not> ready then ret False
     else sq (when_do (\<not> run_in_background)
            (case answer of
               Some uid \<Rightarrow> upd (\<lambda>s. s\<lparr>mg_state := EXECUTING_TASK, mg_task := Some uid\<rparr>)
             | None \<Rightarrow> upd (\<lambda>s. s\<lparr>mg_state := IDLE, mg_task := None\<rparr>)))
         (ret (answer \<noteq> None)))"

definition task_result :: "string \<Rightarrow> ('o, unit) mgm" where
  "task_result uid =
     bnd (gets (\<lambda>s. mg_state s = EXECUTING_TASK \<and> mg_task s = Some uid)) (\<lambda>current.
     when_do current (schedule (Set_state IDLE False)))"

section \<open>Start of the manager process\<close>

definition stored_flag :: "json option \<Rightarrow> bool" where
  "stored_flag r =
     (case r of Some (JDict d) \<Rightarrow> (case dget d ''enabled'' of Some v \<Rightarrow> truthy v | None \<Rightarrow> False) | _ \<Rightarrow> False)"

text \<open>
  A new manager process: nothing is known but the configured emergency key and the store.
\<close>

definition new_manager ::
    "string option \<Rightarrow> string list \<Rightarrow> pq \<Rightarrow> config \<Rightarrow> 'o worker \<Rightarrow> 'o mgr" where
  "new_manager emergency groups q c w =
     \<lparr>mg_state = INITIALIZING, mg_env = False, mg_ws = None, mg_stop_pending = False,
      mg_pause_pending = False, mg_autostart = False, mg_future = No_future, mg_timeouts = 0,
      mg_death_handled = False, mg_task = None, mg_groups = groups,
      mg_lock = cleared_lock emergency (pq_uuids q (pq_next q)),
      mg_pq = q\<lparr>pq_next := pq_next q + 2\<rparr>,
      mg_coord = new_coord (pq_uuids q (Suc (pq_next q))), mg_config = c,
      mg_sync = initial_sync, mg_worker = w, mg_jobs = []\<rparr>"

text \<open>What the state of a live worker tells a restarted manager.\<close>

definition task_found :: "worker_state \<Rightarrow> bool" where
  "task_found ws = (ws_re ws = Some ''executing_task'' \<and> ws_task ws \<noteq> None)"

definition plan_found :: "worker_state \<Rightarrow> bool" where
  "plan_found ws =
     (\<not> task_found ws \<and> truthy (ws_item ws) \<and> (ws_report ws \<or> ws_re ws \<noteq> Some ''idle''))"

definition recover_state :: "worker_state \<Rightarrow> json \<Rightarrow> 'o mgr \<Rightarrow> 'o mgr" where
  "recover_state ws plan_stored s =
     (if task_found ws then s\<lparr>mg_state := EXECUTING_TASK, mg_task := ws_task ws\<rparr>
      else if plan_found ws then
        (let s' = s\<lparr>mg_pause_pending := ws_deferred_pause ws\<rparr> in
         if py_contains ''item_uid'' plan_stored = Inr True then
           s'\<lparr>mg_state := (if ws_re ws \<in> {Some ''paused'', Some ''pausing''} then PAUSED
                          else EXECUTING_QUEUE)\<rparr>
         else s')
      else s)"

text \<open>
  \<open>first\<close>: this is not a restart; \<open>alive\<close>: the watchdog says the worker runs; \<open>answer\<close>: the
  state it reports; \<open>sync\<close>: the guarded synchronisation with the registry.
\<close>

definition restore_flags :: "bool \<Rightarrow> ('o, unit) mgm" where
  "restore_flags first =
     bnd (in_pq (info_retrieve ''stop_pending_info'')) (\<lambda>sp.
     sq (set_queue_stop_pending (\<not> first \<and> stored_flag sp))
    (bnd (in_pq (info_retrieve ''autostart_mode_info'')) (\<lambda>am.
     set_queue_autostart_enabled (\<not> first \<and> stored_flag am))))"

definition recover_worker :: "bool \<Rightarrow> ('o, unit) mgm \<Rightarrow> worker_state option \<Rightarrow> ('o, unit) mgm" where
  "recover_worker alive sync answer =
     sq (upd (\<lambda>s. s\<lparr>mg_env := alive\<rparr>))
       (if alive then
          sq (catch sync (\<lambda>_. ret ()))
         (sq (upd (\<lambda>s. s\<lparr>mg_ws := answer\<rparr>))
            (case answer of
               None \<Rightarrow> ret ()
             | Some ws \<Rightarrow>
                 bnd (in_pq get_running_item_info) (\<lambda>plan_stored. upd (recover_state ws plan_stored))))
        else upd (\<lambda>s. s\<lparr>mg_ws := None\<rparr>))"

definition settle_unknown_plan :: "('o, unit) mgm" where
  "settle_unknown_plan =
     bnd (gets mg_state) (\<lambda>st.
     when_do (st \<notin> {EXECUTING_QUEUE, PAUSED})
       (bnd (in_pq (set_processed_item_as_completed (JStr ''unknown'') (JList []) (JList [])
          (JStr ''Plan exit status was lost due to restart of the RE Manager process'') (JStr [])))
          (\<lambda>_. ret ())))"

definition manager_start ::
    "bool \<Rightarrow> bool \<Rightarrow> ('o, unit) mgm \<Rightarrow> worker_state option \<Rightarrow> ('o, unit) mgm" where
  "manager_start first alive sync answer =
     sq (in_pq (pq_start (Inr ())))
    (sq (restore_flags first)
    (sq (catch load_lock_info (\<lambda>_. ret ()))
    (sq (recover_worker alive sync answer)
    (sq settle_unknown_plan
    (sq (bnd (gets mg_autostart) (\<lambda>on. when_do on (schedule Autostart)))
       (upd (\<lambda>s. if mg_state s = INITIALIZING then s\<lparr>mg_state := IDLE\<rparr> else s)))))))"

end
