(* ===== verification/ManagerQueueProps.thy ===== *)
theory ManagerQueueProps
  imports ManagerQueue
begin

text \<open>
  The request handlers keep the plan queue consistent whatever a client sends, and a locked
  queue does not change without the key.
\<close>

section \<open>Programs that only touch the queue\<close>

text \<open>A later state of the manager that differs in a still consistent queue.\<close>

definition requeued :: "'o mgr \<Rightarrow> 'o mgr \<Rightarrow> bool" where
  "requeued s t \<longleftrightarrow> t = s\<lparr>mg_pq := mg_pq t\<rparr> \<and> safe (mg_pq s) (mg_pq t)"

lemma requeued_refl [simp]: "requeued s s \<longleftrightarrow> pq_wf (mg_pq s)"
  by (simp add: requeued_def)

lemma requeued_trans: "requeued s t \<Longrightarrow> requeued t u \<Longrightarrow> requeued s u"
  by (cases s; cases t; cases u) (auto simp: requeued_def intro: safe_trans)

abbreviation mkeeps :: "'o mgr \<Rightarrow> ('o, 'a) mgm \<Rightarrow> bool" where
  "mkeeps s \<equiv> stable (requeued s)"

lemma mkeeps_bnd_local:
  assumes "\<And>t. requeued s t \<Longrightarrow> wp m (\<lambda>x u. requeued t u \<and> P x u) (\<lambda>_. requeued t) t"
    and "\<And>x u. requeued s u \<Longrightarrow> P x u \<Longrightarrow> mkeeps u (f x)"
  shows "mkeeps s (bnd m f)"
  unfolding stable_def wp_bnd
proof (intro allI impI)
  fix t
  assume t: "requeued s t"
  show "wp m (\<lambda>x. wp (f x) (\<lambda>_. requeued s) (\<lambda>_. requeued s)) (\<lambda>_. requeued s) t"
  proof (rule wp_mono [OF assms(1) [OF t]])
    fix x u
    assume u: "requeued t u \<and> P x u"
    then have su: "requeued s u" using t requeued_trans by blast
    have "requeued u u" using su by (simp add: requeued_def safe_def)
    from stableD [OF assms(2) [OF su conjunct2 [OF u]] this]
    show "wp (f x) (\<lambda>_. requeued s) (\<lambda>_. requeued s) u"
      by (rule wp_mono) (erule requeued_trans [OF su])+
  qed (erule requeued_trans [OF t])
qed

lemma stable_failing [stable_rules]: "stable I m \<Longrightarrow> stable I (failing i n m)"
  unfolding failing_def by (intro stable_rules)

text \<open>A call of the queue, from what the queue's own theory says.\<close>

lemma requeued_pq: "requeued s t \<Longrightarrow> safe (mg_pq s) q \<Longrightarrow> requeued s (t\<lparr>mg_pq := q\<rparr>)"
  by (cases s; cases t) (simp add: requeued_def)

lemma mkeeps_in_pq: "keeps (mg_pq s) m \<Longrightarrow> mkeeps s (in_pq m)"
  unfolding stable_def wp_in_pq
proof (intro allI impI)
  fix t
  assume k: "keeps (mg_pq s) m" and t: "requeued s t"
  then have "safe (mg_pq s) (mg_pq t)" by (simp add: requeued_def)
  from keepsD [OF k this]
  show "wp m (\<lambda>x q. requeued s (t\<lparr>mg_pq := q\<rparr>)) (\<lambda>e q. requeued s (t\<lparr>mg_pq := q\<rparr>)) (mg_pq t)"
    by (rule wp_mono) (use requeued_pq [OF t] in blast)+
qed

declare mkeeps_in_pq [stable_rules]

lemma keeps_get_queue_size [keep_rules]: "keeps s get_queue_size"
  unfolding get_queue_size_def by (intro keep_rules)

text \<open>The checks of a request change nothing.\<close>

lemma stable_params [stable_rules]:
  "stable I (check_request_for_unsupported_params ns req)" "stable I (required_str k req)"
  unfolding check_request_for_unsupported_params_def required_str_def by (intro stable_rules)+

lemma stable_validate_lock_key [stable_rules]: "stable I (validate_lock_key k e q)"
proof -
  have "stable I (case k of JNull \<Rightarrow> fail_if b ValueError
      | JStr x \<Rightarrow> fail_if c ValueError | _ \<Rightarrow> raise ValueError)" for b c
    by (cases k) (simp_all add: stable_pure)
  then show ?thesis unfolding validate_lock_key_def Let_def by (intro stable_rules)
qed

lemma stable_queue_request [stable_rules]: "stable I (queue_request ns req)"
  unfolding queue_request_def by (intro stable_rules)

lemma stable_supported_type [stable_rules]: "stable I (supported_type item)"
  unfolding supported_type_def by (intro stable_rules)

lemma stable_get_item [stable_rules]: "stable I (get_item_from_request req)"
  unfolding get_item_from_request_def by (intro stable_rules)

lemma stable_user_info [stable_rules]: "stable I (get_user_info_from_request req)"
proof -
  have "stable I (case g of JStr ug \<Rightarrow> bnd (gets mg_groups) (\<lambda>gs. if ug \<in> set gs then ret (u, ug) else raise ValueError)
      | _ \<Rightarrow> if hashable g then raise ValueError else raise TypeError)" for g u
    by (cases g) (simp_all add: stable_rules)
  then show ?thesis unfolding get_user_info_from_request_def by (intro stable_rules)
qed

section \<open>Submitted items\<close>

text \<open>
  The items of a request. Of them only the shape is assumed that JSON gives (no repeated keys),
  that \<open>properties\<close> and \<open>result\<close> are dictionaries, and that no client guesses a UID the
  manager will generate.
\<close>

definition submitted :: "dict \<Rightarrow> json list" where
  "submitted req =
     (case dget req ''item'' of None \<Rightarrow> [] | Some item \<Rightarrow> [item]) @
     (case dget req ''items'' of None \<Rightarrow> [] | Some v \<Rightarrow> (case py_iter v of Inl e \<Rightarrow> [] | Inr xs \<Rightarrow> xs))"

definition request_ok :: "'o mgr \<Rightarrow> dict \<Rightarrow> bool" where
  "request_ok s req \<longleftrightarrow> list_all (item_arg_ok (pq_uuids (mg_pq s)) (pq_next (mg_pq s))) (submitted req)"

abbreviation arg_ok :: "'o mgr \<Rightarrow> json \<Rightarrow> bool" where
  "arg_ok s \<equiv> item_arg_ok (pq_uuids (mg_pq s)) (pq_next (mg_pq s))"

lemma requeued_arg: "arg_ok s item \<Longrightarrow> requeued s t \<Longrightarrow> arg_ok t item"
  using safe_arg by (auto simp: requeued_def)

lemma prepared_arg:
  assumes t: "pq_wf (mg_pq t)" and arg: "arg_ok t item"
  shows "wp (prepare_request_item pl item ty user ug new)
     (\<lambda>x u. requeued t u \<and> arg_ok u (fst x)) (\<lambda>_. requeued t) t"
proof (cases item)
  case (JDict d)
  let ?n = "pq_next (mg_pq t)" and ?us = "pq_uuids (mg_pq t)"
  let ?d1 = "dset ''user_group'' (JStr ug) (dset ''user'' user d)"
  have shape: "wf_dict ?d1" "dict_field ?d1 ''properties''" "dict_field ?d1 ''result''"
    and uid: "dget ?d1 ''item_uid'' = dget d ''item_uid''"
    using arg JDict by (auto simp: item_arg_ok_def dict_field_dset dget_dset)
  have fresh: "item_arg_ok ?us (Suc ?n) (JDict (dset ''item_uid'' (JStr (?us ?n)) ?d1))"
    using shape pq_wf_inj [OF t]
    by (auto simp: item_arg_ok_def dict_field_dset dget_dset unused_from_def inj_eq)
  have old: "item_arg_ok ?us ?n (JDict ?d1)"
    using shape arg uid by (simp add: JDict item_arg_ok_def)
  have use: "requeued t (t\<lparr>mg_pq := use_uuid (mg_pq t)\<rparr>)"
    using t by (simp add: requeued_def safe_bump)
  show ?thesis
    using t fresh old use
    by (simp add: prepare_request_item_def JDict wp_rules wp_in_pq pq_wp Let_def split: option.splits)
qed (simp_all add: prepare_request_item_def wp_rules t)

lemma validated_arg:
  assumes t: "pq_wf (mg_pq t)" and arg: "arg_ok t item"
  shows "wp (validate_item_info pl user ug item)
     (\<lambda>x u. requeued t u \<and> arg_ok u (fst x)) (\<lambda>_. requeued t) t"
proof -
  have p: "wp (prepare_request_item pl item ty user ug True)
      (\<lambda>x u. requeued t u \<and> (case x of (prep, _) \<Rightarrow> arg_ok u prep))
      (\<lambda>e. wp (ret (item, False)) (\<lambda>x u. requeued t u \<and> arg_ok u (fst x)) (\<lambda>_. requeued t)) t" for ty
    by (rule wp_mono [OF prepared_arg [OF t arg]])
      (auto simp: wp_rules split_beta intro: requeued_arg [OF arg])
  show ?thesis
    unfolding validate_item_info_def wp_catch wp_bnd [of "supported_type item"]
    by (cases "item_type_supported queue_item_types item")
      (use p in \<open>auto simp: supported_type_def wp_rules t arg\<close>)
qed

lemma batch_args:
  assumes "pq_wf (mg_pq t)" "list_all (arg_ok t) items"
  shows "wp (validate_item_batch pl items user ug)
     (\<lambda>xs u. requeued t u \<and> list_all (arg_ok u) (map fst xs)) (\<lambda>_. requeued t) t"
  unfolding validate_item_batch_def using assms
proof (induction items arbitrary: t)
  case Nil
  then show ?case by (simp add: wp_rules)
next
  case (Cons item items)
  let ?I = "validate_item_info pl user ug"
  have arg: "arg_ok t item" and args: "list_all (arg_ok t) items" using Cons.prems(2) by simp_all
  have rest: "wp (mapP ?I items) (\<lambda>ys v. requeued t v \<and> list_all (arg_ok v) (map fst (y # ys))) (\<lambda>_. requeued t) u"
    if u: "requeued t u" "arg_ok u (fst y)" for u y
  proof -
    have wf: "pq_wf (mg_pq u)" and as: "list_all (arg_ok u) items"
      using u(1) args requeued_arg [OF _ u(1)] by (auto simp: requeued_def safe_def list_all_iff)
    show ?thesis
      by (rule wp_mono [OF Cons.IH [OF wf as]])
        (use u requeued_trans [OF u(1)] requeued_arg [OF u(2)] in auto)
  qed
  show ?case
    unfolding mapP.simps wp_bnd wp_ret
    by (rule wp_mono [OF validated_arg [OF Cons.prems(1) arg]], rule wp_mono [OF rest]) auto
qed

section \<open>Every handler\<close>

lemma mkeeps_reply_to_batch [stable_rules]: "mkeeps s (reply_to_batch ok i r)"
  unfolding reply_to_batch_def by (intro stable_rules keep_rules)

lemma mkeeps_prepared:
  assumes arg: "arg_ok s item" and "\<And>x u. requeued s u \<Longrightarrow> arg_ok u (fst x) \<Longrightarrow> mkeeps u (f x)"
  shows "mkeeps s (bnd (prepare_request_item pl item ty user ug new) f)"
proof (rule mkeeps_bnd_local)
  fix t
  assume t: "requeued s t"
  show "wp (prepare_request_item pl item ty user ug new)
      (\<lambda>x u. requeued t u \<and> arg_ok u (fst x)) (\<lambda>_. requeued t) t"
    by (rule prepared_arg [OF _ requeued_arg [OF arg t]]) (use t in \<open>simp add: requeued_def safe_def\<close>)
qed (rule assms(2))

lemma request_item: "request_ok s req \<Longrightarrow> dget req ''item'' = Some item \<Longrightarrow> arg_ok s item"
  by (simp add: request_ok_def submitted_def)

lemma request_items:
  "request_ok s req \<Longrightarrow> dget req ''items'' = Some v \<Longrightarrow> py_iter v = Inr xs \<Longrightarrow> list_all (arg_ok s) xs"
  by (simp add: request_ok_def submitted_def)

lemma mkeeps_with_item:
  assumes "request_ok s req" "\<And>item. arg_ok s item \<Longrightarrow> mkeeps s (f item)"
  shows "mkeeps s (bnd (get_item_from_request req) f)"
proof (cases "dget req ''item''")
  case None
  then show ?thesis by (auto simp: get_item_from_request_def stable_def wp_rules)
next
  case (Some item)
  then show ?thesis using stableD [OF assms(2) [OF request_item [OF assms(1) Some]]]
    by (simp add: get_item_from_request_def stable_def wp_rules)
qed

lemma mkeeps_add:
  assumes "request_ok s req"
  shows "mkeeps s (queue_item_add_handler pl req)"
  unfolding queue_item_add_handler_def
  by (intro stable_rules mkeeps_with_item [OF assms] mkeeps_prepared)
    (auto simp: public_defs intro!: stable_rules keep_rules)

lemma mkeeps_update:
  assumes "request_ok s req"
  shows "mkeeps s (queue_item_update_handler pl req)"
  unfolding queue_item_update_handler_def
  by (intro stable_rules mkeeps_with_item [OF assms] mkeeps_prepared)
    (auto simp: public_defs intro!: stable_rules keep_rules)

lemma mkeeps_add_batch:
  assumes "request_ok s req"
  shows "mkeeps s (queue_item_add_batch_handler pl req)"
proof -
  have body: "mkeeps s (bnd (validate_item_batch pl infos user ug) f)"
    if "list_all (arg_ok s) infos" "\<And>u xs. requeued s u \<Longrightarrow> list_all (arg_ok u) (map fst xs) \<Longrightarrow> mkeeps u (f xs)"
    for infos user ug f
  proof (rule mkeeps_bnd_local)
    fix t
    assume t: "requeued s t"
    have "list_all (arg_ok t) infos" using that(1) requeued_arg [OF _ t] by (auto simp: list_all_iff)
    then show "wp (validate_item_batch pl infos user ug)
        (\<lambda>xs u. requeued t u \<and> list_all (arg_ok u) (map fst xs)) (\<lambda>_. requeued t) t"
      using t by (intro batch_args) (simp_all add: requeued_def safe_def)
  qed (rule that(2))
  have iter: "mkeeps s (bnd (lift (py_iter v)) f)"
    if "dget req ''items'' = Some v" "\<And>xs. list_all (arg_ok s) xs \<Longrightarrow> mkeeps s (f xs)" for v f
    using request_items [OF assms that(1)] stableD [OF that(2)]
    by (cases "py_iter v") (auto simp: stable_def wp_rules)
  show ?thesis
    unfolding queue_item_add_batch_handler_def
    by (intro stable_rules iter body)
      (auto simp: public_defs list_all_iff intro!: stable_rules keep_rules)
qed

text \<open>The other handlers take no items.\<close>

lemma mkeeps_others [stable_rules]:
  "mkeeps s (queue_get_handler req)" "mkeeps s (queue_item_get_handler req)"
  "mkeeps s (history_get_handler req)" "mkeeps s (queue_mode_set_handler req)"
  "mkeeps s (queue_item_remove_handler req)" "mkeeps s (queue_item_remove_batch_handler req)"
  "mkeeps s (queue_item_move_handler req)" "mkeeps s (queue_item_move_batch_handler req)"
  "mkeeps s (queue_clear_handler req)"
  unfolding queue_get_handler_def queue_item_get_handler_def history_get_handler_def
    queue_mode_set_handler_def queue_item_remove_handler_def queue_item_remove_batch_handler_def
    queue_item_move_handler_def queue_item_move_batch_handler_def queue_clear_handler_def
    public_defs get_queue_full_body_def Let_def
  by (intro stable_rules keep_rules)+

lemma mkeeps_history_clear [stable_rules]: "mkeeps s (history_clear_handler req)"
proof -
  have "mkeeps s (case uid of JStr x \<Rightarrow> in_pq (trim_history None uid) | _ \<Rightarrow> raise ValueError)" for uid
    by (cases uid) (auto simp: public_defs intro!: stable_rules keep_rules)
  then show ?thesis
    unfolding history_clear_handler_def public_defs Let_def by (intro stable_rules keep_rules)
qed

lemma mkeeps_handler: "request_ok s req \<Longrightarrow> mkeeps s (queue_handler pl c req)"
  by (cases c) (simp_all add: mkeeps_add mkeeps_update mkeeps_add_batch stable_rules)

section \<open>Properties\<close>

lemma wp_top: "wp m (\<lambda>_ _. True) (\<lambda>_ _. True) s"
  by (simp add: wp_def split: prod.splits sum.splits)

lemma wp_failing_top: "wp (failing i n m) (\<lambda>_ _. True) (\<lambda>_ _. False) s"
  by (simp add: failing_def wp_catch wp_ret wp_top)

lemma wp_reply_to_batch_top: "wp (reply_to_batch ok i r) (\<lambda>_ _. True) (\<lambda>_ _. False) = (\<lambda>_. True)"
  by (rule ext) (simp add: reply_to_batch_def get_queue_size_def wp_rules wp_in_pq)

lemma handler_replies: "wp (queue_handler pl c req) (\<lambda>_ _. True) (\<lambda>_ _. False) s"
proof (cases c)
  case Queue_item_add_batch
  then show ?thesis by (simp add: queue_item_add_batch_handler_def wp_catch wp_reply_to_batch_top wp_top)
qed (simp_all add: queue_get_handler_def queue_item_get_handler_def history_get_handler_def
    queue_mode_set_handler_def queue_item_add_handler_def queue_item_update_handler_def
    queue_item_remove_handler_def queue_item_remove_batch_handler_def queue_item_move_handler_def
    queue_item_move_batch_handler_def queue_clear_handler_def history_clear_handler_def wp_failing_top)


lemma locked_queue_request:
  assumes "truthy (li_queue (mg_lock s))" "\<not> py_eq (param ''lock_key'' JNull req) (li_key (mg_lock s))"
  shows "queue_request ns req s = (Inl ValueError, s)"
    and "validate_lock_key (param ''lock_key'' JNull req) False True s = (Inl ValueError, s)"
proof -
  show "validate_lock_key (param ''lock_key'' JNull req) False True s = (Inl ValueError, s)"
    using assms
    by (auto simp: validate_lock_key_def run_simps locked_for_def check_lock_key_def is_set_def Let_def
        split: json.splits)
  then show "queue_request ns req s = (Inl ValueError, s)"
    by (simp add: queue_request_def check_request_for_unsupported_params_def run_simps)
qed

text \<open>
  A locked queue changes only with the key. While a user holds the lock on the queue, every
  request to edit the queue or the history that does not carry the user's key is refused and
  leaves the whole manager as it was.
\<close>

theorem queue_lock_protects:
  assumes "edits c" "truthy (li_queue (mg_lock s))"
    and "\<not> py_eq (param ''lock_key'' JNull req) (li_key (mg_lock s))"
  shows "\<exists>rep. queue_handler pl c req s = (Inr rep, s) \<and> \<not> rep_ok rep"
  using assms(1)
  by (cases c)
    (simp_all add: queue_mode_set_handler_def queue_item_add_handler_def queue_item_update_handler_def
      queue_item_add_batch_handler_def reply_to_batch_def get_queue_size_def
      queue_item_remove_handler_def queue_item_remove_batch_handler_def queue_item_move_handler_def
      queue_item_move_batch_handler_def queue_clear_handler_def history_clear_handler_def failing_def
      check_request_for_unsupported_params_def
      run_simps locked_queue_request [OF assms(2,3)])

end
