(* ===== verification/ManagerCalls.thy ===== *)
theory ManagerCalls
  imports ManagerPlans ManagerQueueProps
begin

text \<open>
  The requests a client can make of the manager (\<open>manager/manager.py\<close>) beyond editing the
  queue, the dispatch of all requests, and the manager as a state machine: requests one at a
  time, scheduled coroutines in any order, polls of the worker, and requests of others to the
  configuration service, interleaved arbitrarily.
\<close>

section \<open>Handlers of the environment and the run engine\<close>

text \<open>What these handlers do first; then they report whether the manager accepted.\<close>

definition environment_request :: "string list \<Rightarrow> dict \<Rightarrow> ('o, unit) mgm" where
  "environment_request names req =
     sq (check_request_for_unsupported_params (names @ [''lock_key'']) req)
       (validate_lock_key (param ''lock_key'' JNull req) True False)"

definition simple_handler :: "('o, bool) mgm \<Rightarrow> dict \<Rightarrow> ('o, reply) mgm" where
  "simple_handler m req =
     failing JNull JNull
       (sq (environment_request [] req) (bnd m (\<lambda>ok. ret (reply ok JNull JNull))))"

definition queue_autostart_handler :: "dict \<Rightarrow> ('o, reply) mgm" where
  "queue_autostart_handler req =
     failing JNull JNull
       (sq (environment_request [''enable''] req)
       (case dget req ''enable'' of
          None \<Rightarrow> raise ValueError
        | Some (JBool b) \<Rightarrow>
            bnd (if b then autostart_enable else autostart_disable) (\<lambda>ok. ret (reply ok JNull JNull))
        | _ \<Rightarrow> raise TypeError))"

definition re_pause_handler :: "bool \<Rightarrow> dict \<Rightarrow> ('o, reply) mgm" where
  "re_pause_handler accepted req =
     failing JNull JNull
       (sq (environment_request [''option''] req)
       (let option = param ''option'' (JStr ''deferred'') req in
        if option = JStr ''deferred'' \<or> option = JStr ''immediate''
        then bnd (re_pause accepted) (\<lambda>ok. ret (reply ok JNull JNull))
        else ret (reply False JNull JNull)))"

definition queue_item_execute_handler :: "policy \<Rightarrow> dict \<Rightarrow> ('o, reply) mgm" where
  "queue_item_execute_handler pl req =
     failing JNull JNull
       (sq (environment_request [''item'', ''user_group'', ''user''] req)
       (bnd (get_item_from_request req) (\<lambda>item.
        failing item JNull
          (bnd (supported_type item) (\<lambda>t.
           bnd (get_user_info_from_request req) (\<lambda>(user, ugroup).
           bnd (prepare_request_item pl item t user ugroup True) (\<lambda>(item, _).
           bnd (start_single_plan item) (\<lambda>(ok, item, n). ret (reply ok item n)))))))))"

section \<open>All requests\<close>

datatype call =
    Queue_call queue_call
  | Queue_item_execute
  | Environment_open
  | Environment_close
  | Environment_destroy
  | Queue_start
  | Queue_stop
  | Queue_stop_cancel
  | Queue_autostart
  | Re_pause bool
  | Re_continue bool
  | User_lock
  | User_lock_info
  | User_unlock

fun call_handler :: "policy \<Rightarrow> call \<Rightarrow> dict \<Rightarrow> ('o, reply) mgm" where
  "call_handler pl (Queue_call c) = queue_handler pl c"
| "call_handler pl Queue_item_execute = queue_item_execute_handler pl"
| "call_handler pl Environment_open = simple_handler start_re_worker"
| "call_handler pl Environment_close = simple_handler stop_re_worker"
| "call_handler pl Environment_destroy = simple_handler kill_re_worker"
| "call_handler pl Queue_start = simple_handler start_plan_mg"
| "call_handler pl Queue_stop = simple_handler queue_stop_activate"
| "call_handler pl Queue_stop_cancel = simple_handler queue_stop_deactivate"
| "call_handler pl Queue_autostart = queue_autostart_handler"
| "call_handler pl (Re_pause accepted) = re_pause_handler accepted"
| "call_handler pl (Re_continue accepted) = simple_handler (continue_run_engine accepted)"
| "call_handler pl User_lock = lock_handler"
| "call_handler pl User_lock_info = lock_info_handler"
| "call_handler pl User_unlock = unlock_handler"

text \<open>Which part of the manager a request is about, as the user lock distinguishes them.\<close>

fun about_queue :: "call \<Rightarrow> bool" where
  "about_queue (Queue_call c) = edits c"
| "about_queue _ = False"

fun about_environment :: "call \<Rightarrow> bool" where
  "about_environment (Queue_call c) = False"
| "about_environment User_lock = False"
| "about_environment User_lock_info = False"
| "about_environment User_unlock = False"
| "about_environment _ = True"

section \<open>The machine\<close>

text \<open>The answers from outside that one run of a scheduled coroutine consumes.\<close>

record 'o answers =
  an_ok :: bool
  an_message :: string
  an_joined :: bool
  an_open :: open_world
  an_worker :: "'o worker"
  an_net :: net_time
  an_check :: "net list"
  an_specs :: "net list"
  an_reload :: bool
  an_get :: "net list"
  an_lock :: "net list"
  an_report :: "plan_report option"

definition resolved :: "'o mgr \<Rightarrow> bool" where
  "resolved s = (case mg_future s of Resolved b \<Rightarrow> b | _ \<Rightarrow> False)"

fun run_job :: "'o site \<Rightarrow> 'o answers \<Rightarrow> job \<Rightarrow> ('o, unit) mgm" where
  "run_job si an Start_worker = start_re_worker_task si (an_ok an)"
| "run_job si an Start_worker_wait =
     bnd (gets resolved) (start_re_worker_done si (an_open an) (an_worker an) (an_ok an) (an_joined an))"
| "run_job si an Stop_worker = stop_re_worker_task (an_ok an)"
| "run_job si an Stop_worker_wait = stop_re_worker_done si (an_net an) (an_ok an) (an_joined an)"
| "run_job si an Kill_worker = kill_re_worker_task"
| "run_job si an Kill_worker_wait = kill_re_worker_done si (an_net an)"
| "run_job si an (Start_plan stop_queue autostart_off single) =
     start_plan_task stop_queue autostart_off single"
| "run_job si an (Plan_check item single) =
     plan_check si (an_check an) (an_specs an) (an_reload an) item single"
| "run_job si an (Plan_lock item single) =
     plan_lock si (fst (an_net an)) (an_get an) (an_lock an) (snd (an_net an)) item single"
| "run_job si an (Plan_reset single) = plan_reset si (an_net an) (an_ok an) single"
| "run_job si an (Plan_run info) = plan_run si (an_net an) (an_ok an) (an_message an)"
| "run_job si an (Set_state target autostart_off) = set_manager_state target autostart_off"
| "run_job si an Plan_report = process_plan_report si (an_net an) (an_report an)"
| "run_job si an Unexpected_shutdown =
     handle_unexpected_worker_shutdown si (an_net an) (an_ok an) (an_joined an)"
| "run_job si an Autostart = autostart_round"

text \<open>The two coroutines that wait for the future can only go on once it is resolved.\<close>

fun can_run :: "job \<Rightarrow> 'o mgr \<Rightarrow> bool" where
  "can_run Start_worker_wait s = (mg_future s \<noteq> No_future \<and> mg_future s \<noteq> Waiting)"
| "can_run Stop_worker_wait s = (mg_future s \<noteq> No_future \<and> mg_future s \<noteq> Waiting)"
| "can_run _ s = True"

definition drop_job :: "job \<Rightarrow> 'o mgr \<Rightarrow> 'o mgr" where
  "drop_job j s = s\<lparr>mg_jobs := remove1 j (mg_jobs s)\<rparr>"

text \<open>
  A coroutine that raises ends there; what it changed before stays. A start of the process that
  raises gives no running manager.
\<close>

inductive mstep :: "'o site \<Rightarrow> policy \<Rightarrow> 'o mgr \<Rightarrow> 'o mgr \<Rightarrow> bool" for si pl where
  request: "request_ok s req \<Longrightarrow> call_handler pl c req s = (r, t) \<Longrightarrow> mstep si pl s t"
| task: "start_task bg answer s = (r, t) \<Longrightarrow> mstep si pl s t"
| task_done: "task_result uid s = (r, t) \<Longrightarrow> mstep si pl s t"
| coroutine: "j \<in> set (mg_jobs s) \<Longrightarrow> can_run j s \<Longrightarrow> run_job si an j (drop_job j s) = (r, t) \<Longrightarrow> mstep si pl s t"
| poll: "periodic_worker_state_request_once answer dead s = (r, t) \<Longrightarrow> mstep si pl s t"
| service: "mstep si pl s (s\<lparr>mg_config := snd (handle (si_models si) (si_classes si) rq (mg_config s))\<rparr>)"
| heartbeat:
    "in_coord (heartbeat_once (si_settings si) netr netl now now2 (\<lambda>co. co) (\<lambda>co. co)) s = (r, t) \<Longrightarrow>
     mstep si pl s t"
| restart:
    "manager_start False alive (bnd (load_lists_from_worker si ow) (\<lambda>_. ret ())) answer
       (new_manager emergency groups (restarted (mg_pq s)) (mg_config s) (mg_worker s)) = (Inr (), t) \<Longrightarrow>
     mstep si pl s t"

inductive mreach :: "'o site \<Rightarrow> policy \<Rightarrow> 'o mgr \<Rightarrow> bool" for si pl where
  first_start:
    "inj us \<Longrightarrow>
     manager_start True alive (bnd (load_lists_from_worker si ow) (\<lambda>_. ret ())) answer
       (new_manager emergency groups (pq_init name empty_store us 0 ck 0) c w) = (Inr (), t) \<Longrightarrow>
     mreach si pl t"
| next_step: "mreach si pl s \<Longrightarrow> mstep si pl s t \<Longrightarrow> mreach si pl t"

end
