(* ===== verification/ManagerSteps.thy ===== *)
theory ManagerSteps
  imports ManagerCalls
begin

text \<open>
  What a property of the manager has to satisfy to survive all its steps. The locale
  \<open>manager_invariant\<close> names the primitive effects: a property that depends only on the queue,
  the user lock, the two stored flags and the scheduled coroutines, and that the calls of the
  queue keep, is kept by every operation of the manager.
\<close>

section \<open>The interface\<close>

text \<open>The item submitted for immediate execution that a coroutine carries.\<close>

fun job_single :: "job \<Rightarrow> json" where
  "job_single (Start_plan _ _ x) = x"
| "job_single (Plan_check _ x) = x"
| "job_single (Plan_lock _ x) = x"
| "job_single (Plan_reset x) = x"
| "job_single _ = JNull"

definition core :: "'o mgr \<Rightarrow> pq \<times> lock_info \<times> bool \<times> bool \<times> job list" where
  "core s = (mg_pq s, mg_lock s, mg_stop_pending s, mg_autostart s, mg_jobs s)"

lemma stable_env_request [stable_rules]: "stable I (environment_request ns req)"
  unfolding environment_request_def by (intro stable_rules)

lemma stable_simple [stable_rules]: "stable I m \<Longrightarrow> stable I (simple_handler m req)"
  unfolding simple_handler_def by (intro stable_rules)

text \<open>\<open>x\<close> is an item the coroutines may carry.\<close>

locale manager_invariant =
  fixes I :: "'o mgr \<Rightarrow> bool" and x :: json
  assumes core_only: "core s = core t \<Longrightarrow> I s \<Longrightarrow> I t"
    and scheduled: "job_single j \<in> {JNull, x} \<Longrightarrow> I s \<Longrightarrow> I (s\<lparr>mg_jobs := mg_jobs s @ [j]\<rparr>)"
    and stop_saved: "stable I (set_queue_stop_pending b)"
    and autostart_saved: "stable I (set_queue_autostart_enabled b)"
    and lock_saved: "stable I (lock_handler req)" "stable I (unlock_handler req)" "stable I load_lock_info"
    and processed: "stable I (in_pq (set_processed_item_as_completed a1 a2 a3 a4 a5))"
      "stable I (in_pq (set_processed_item_as_stopped a1 a2 a3 a4 a5))"
      "x' \<in> {JNull, x} \<Longrightarrow> stable I (in_pq (process_next_item x'))"
    and queue_read: "stable I (in_pq get_queue_size)" "stable I (in_pq get_running_item_info)"
      "stable I (in_pq (get_item a1 a2))" "stable I (in_pq (info_retrieve key))"
      "stable I (in_pq new_item_uid)"
begin

lemma stable_core: "(\<And>s. core (f s) = core s) \<Longrightarrow> stable I (upd f)"
  by (rule stable_upd) (metis core_only)

lemma stable_schedule [stable_rules]: "job_single j \<in> {JNull, x} \<Longrightarrow> stable I (schedule j)"
  using scheduled by (simp add: stable_def wp_rules)

lemma stable_mstate [stable_rules]: "stable I (set_mstate ms)"
  unfolding set_mstate_def by (rule stable_core) (simp add: core_def)

lemma stable_in_coord [stable_rules]: "stable I (in_coord f)"
  using core_only by (auto simp: stable_def wp_in_coord core_def split: prod.splits)

lemmas stable_assumed [stable_rules] = stop_saved autostart_saved lock_saved processed queue_read

lemma stable_cs [stable_rules]:
  "stable I (unlock_devices_mg si nt b)" "stable I (release_lock_mg si nt b)"
  unfolding unlock_devices_mg_def release_lock_mg_def by (intro stable_rules)+

lemma stable_complete_task [stable_rules]: "stable I (complete_manager_task b)"
  unfolding complete_manager_task_def by (intro stable_core) (simp add: core_def)

lemma stable_confirm [stable_rules]: "stable I (confirm_re_worker_exit a b)"
  unfolding confirm_re_worker_exit_def by (intro stable_rules stable_core) (simp add: core_def)

lemma stable_set_failed [stable_rules]: "stable I (set_failed m)"
  unfolding set_failed_def by (intro stable_rules)

section \<open>Operations\<close>

lemma stable_queue_stop [stable_rules]:
  "stable I queue_stop_activate" "stable I queue_stop_deactivate"
  unfolding queue_stop_activate_def queue_stop_deactivate_def by (intro stable_rules)+

lemma stable_autostart_switch [stable_rules]:
  "stable I autostart_enable" "stable I autostart_disable"
  unfolding autostart_enable_def autostart_disable_def by (intro stable_rules; simp add: core_def)+

lemma stable_begin_start [stable_rules]: "stable I begin_start"
  unfolding begin_start_def by (intro stable_rules)

lemma stable_start_plan [stable_rules]: "stable I start_plan_mg"
  unfolding start_plan_mg_def by (intro stable_rules) (simp add: core_def)

lemma stable_environment [stable_rules]:
  "stable I start_re_worker" "stable I stop_re_worker"
  "stable I kill_re_worker"
  unfolding start_re_worker_def stop_re_worker_def kill_re_worker_def by (intro stable_rules; simp add: core_def)+

lemma stable_load_lists [stable_rules]: "stable I (load_lists_from_worker si ow)"
  using core_only
  by (auto simp: load_lists_from_worker_def stable_def wp_def ret_def core_def split: option.splits prod.splits sum.splits)

lemma stable_set_manager_state [stable_rules]: "stable I (set_manager_state t off)"
  unfolding set_manager_state_def by (intro stable_rules stable_core) (simp add: core_def)

lemma stable_start_next [stable_rules]: "x' \<in> {JNull, x} \<Longrightarrow> stable I (start_next_item x')"
  unfolding start_next_item_def by (intro stable_rules stable_core; simp add: core_def)

lemma stable_start_plan_task [stable_rules]: "x' \<in> {JNull, x} \<Longrightarrow> stable I (start_plan_task stop off x')"
  unfolding start_plan_task_def by (intro stable_rules; simp add: core_def)

lemma stable_plan_check:
  assumes "x' \<in> {JNull, x}"
  shows "stable I (plan_check si n1 n2 reload item x')"
proof -
  have core: "I (s\<lparr>mg_sync := sy, mg_worker := w\<rparr>)" "I (s\<lparr>mg_sync := sy, mg_worker := w, mg_state := IDLE\<rparr>)"
    if "I s" for s sy w
    using core_only [OF _ that] by (simp_all add: core_def)
  have job: "I (s\<lparr>mg_sync := sy, mg_worker := w, mg_jobs := mg_jobs s @ [j]\<rparr>)"
    if "I s" "job_single j = x'" for s sy w j
    using scheduled [of j, OF _ core(1) [OF that(1)]] assms that(2) by simp
  show ?thesis
    using core(2) job by (auto simp: plan_check_def stable_def wp_def Let_def split: prod.splits sum.splits)
qed

lemma stable_plan_lock:
  assumes "x' \<in> {JNull, x}"
  shows "stable I (plan_lock si n1 n2 n3 t item x')"
proof -
  have "stable I (case r of Inl e \<Rightarrow> set_mstate IDLE | Inr u \<Rightarrow> schedule (Plan_reset x'))"
    for r :: "cs_error + unit"
    using assms by (cases r) (simp_all add: stable_rules)
  then show ?thesis unfolding plan_lock_def by (intro stable_rules)
qed

lemma stable_plan_reset: "x' \<in> {JNull, x} \<Longrightarrow> stable I (plan_reset si nt ok x')"
  unfolding plan_reset_def by (intro stable_rules; simp add: core_def)

lemma stable_plan_run: "stable I (plan_run si nt ok msg)"
  unfolding plan_run_def by (intro stable_rules)

lemma stable_report: "stable I (process_plan_report si nt answer)"
  unfolding process_plan_report_def Let_def by (intro stable_rules stable_core; simp add: core_def)

lemma stable_autostart_round: "stable I autostart_round"
  unfolding autostart_round_def by (intro stable_rules; simp add: core_def)

lemma stable_worker_tasks:
  "stable I (start_re_worker_task si b)" "stable I (start_re_worker_done si ow w c1 c2 r)"
  "stable I (stop_re_worker_task b)" "stable I (stop_re_worker_done si nt c1 c2)"
  "stable I kill_re_worker_task" "stable I (kill_re_worker_done si nt)"
  "stable I (handle_unexpected_worker_shutdown si nt c1 c2)"
  unfolding start_re_worker_task_def start_re_worker_done_def stop_re_worker_task_def
    stop_re_worker_done_def end_closing_def kill_re_worker_task_def kill_re_worker_done_def
    handle_unexpected_worker_shutdown_def
  by (intro stable_rules stable_core; simp add: core_def)+

lemma run_job_ok: "job_single j \<in> {JNull, x} \<Longrightarrow> stable I (run_job si an j)"
  by (cases j) (auto simp: stable_rules stable_plan_check stable_plan_lock stable_plan_reset stable_plan_run
      stable_report stable_autostart_round stable_worker_tasks intro!: stable_bnd stable_pure)

lemma stable_poll: "stable I (periodic_worker_state_request_once answer dead)"
  unfolding periodic_worker_state_request_once_def handle_possible_worker_death_def worker_answered_def
  by (intro stable_rules stable_core; simp add: core_def)

section \<open>Requests\<close>

lemma stable_lock_info: "stable I (lock_info_handler req)"
  unfolding lock_info_handler_def Let_def by (intro stable_rules)

lemma stable_autostart_handler: "stable I (queue_autostart_handler req)"
proof -
  have "stable I (case v of JBool b \<Rightarrow>
      bnd (if b then autostart_enable else autostart_disable) (\<lambda>ok. ret (reply ok JNull JNull))
    | _ \<Rightarrow> raise TypeError)" for v
    by (cases v) (auto intro!: stable_rules)
  then show ?thesis unfolding queue_autostart_handler_def by (intro stable_rules)
qed

lemma stable_continue: "stable I (continue_run_engine b)"
  unfolding continue_run_engine_def by (intro stable_rules)

lemma stable_pause_handler: "stable I (re_pause_handler b req)"
  unfolding re_pause_handler_def re_pause_def Let_def by (intro stable_rules stable_core) (simp add: core_def)

lemma stable_other_calls:
  assumes "c \<noteq> Queue_item_execute" "\<nexists>q. c = Queue_call q"
  shows "stable I (call_handler pl c req)"
  using assms
  by (cases c)
    (simp_all add: stable_lock_info lock_saved stable_autostart_handler stable_pause_handler
      stable_simple [OF stable_environment(1)] stable_simple [OF stable_environment(2)]
      stable_simple [OF stable_environment(3)] stable_simple [OF stable_start_plan]
      stable_simple [OF stable_queue_stop(1)] stable_simple [OF stable_queue_stop(2)]
      stable_simple [OF stable_continue])

section \<open>Start of the process\<close>

lemma stable_start_rest:
  "stable I (restore_flags first)" "stable I (catch load_lock_info (\<lambda>_. ret ()))"
  "stable I (recover_worker alive (bnd (load_lists_from_worker si ow) (\<lambda>_. ret ())) answer)"
  "stable I settle_unknown_plan"
  "stable I (bnd (gets mg_autostart) (\<lambda>on. when_do on (schedule Autostart)))"
  "stable I (upd (\<lambda>s. if mg_state s = INITIALIZING then s\<lparr>mg_state := IDLE\<rparr> else s))"
  unfolding restore_flags_def recover_worker_def settle_unknown_plan_def
  by (intro stable_rules stable_core; simp add: core_def recover_state_def Let_def)+

end

end
