(* ===== verification/ManagerInv.thy ===== *)
theory ManagerInv
  imports ManagerSteps
begin

text \<open>
  The plan queue stays consistent under everything the manager does, in any interleaving of
  requests, scheduled coroutines, polls and restarts.
\<close>

section \<open>The invariant\<close>

abbreviation single_ok :: "pq \<Rightarrow> json \<Rightarrow> bool" where
  "single_ok q \<equiv> immediate_arg_ok (pq_uuids q) (pq_next q)"

definition mgr_ok :: "json \<Rightarrow> 'o mgr \<Rightarrow> bool" where
  "mgr_ok x s \<longleftrightarrow> pq_wf (mg_pq s) \<and> single_ok (mg_pq s) x \<and>
     list_all (\<lambda>j. single_ok (mg_pq s) (job_single j)) (mg_jobs s)"

lemma single_ok_null [simp]: "immediate_arg_ok us n JNull"
  by (simp add: immediate_arg_ok_def item_arg_ok_def)

lemma single_ok_later: "single_ok q x \<Longrightarrow> safe q q' \<Longrightarrow> single_ok q' x"
  using immediate_arg_mono by (auto simp: safe_def later_def)

lemma mgr_ok_pq:
  assumes "mgr_ok x s" "safe (mg_pq s) q"
  shows "mgr_ok x (s\<lparr>mg_pq := q\<rparr>)"
  using assms single_ok_later [OF _ assms(2)] by (auto simp: mgr_ok_def safe_def list_all_iff)

lemma mgr_ok_requeued: "mgr_ok x s \<Longrightarrow> requeued s t \<Longrightarrow> mgr_ok x t"
  unfolding requeued_def using mgr_ok_pq by metis

lemma mgr_ok_wf: "mgr_ok x s \<Longrightarrow> pq_wf (mg_pq s)"
  by (simp add: mgr_ok_def)

lemma mgr_ok_single: "mgr_ok x s \<Longrightarrow> single_ok (mg_pq s) x"
  by (simp add: mgr_ok_def)

lemma mgr_ok_null: "mgr_ok x s \<Longrightarrow> mgr_ok JNull s"
  by (simp add: mgr_ok_def)

lemma mgr_ok_drop: "mgr_ok x s \<Longrightarrow> mgr_ok x (drop_job j s)"
  using set_remove1_subset [of j "mg_jobs s"] by (auto simp: mgr_ok_def drop_job_def list_all_iff)

text \<open>Changes of other components do not matter.\<close>

lemma mgr_ok_frame [simp]:
  "mgr_ok x (s\<lparr>mg_state := a1\<rparr>) = mgr_ok x s" "mgr_ok x (s\<lparr>mg_env := a2\<rparr>) = mgr_ok x s"
  "mgr_ok x (s\<lparr>mg_ws := a3\<rparr>) = mgr_ok x s" "mgr_ok x (s\<lparr>mg_stop_pending := a4\<rparr>) = mgr_ok x s"
  "mgr_ok x (s\<lparr>mg_pause_pending := a5\<rparr>) = mgr_ok x s" "mgr_ok x (s\<lparr>mg_autostart := a6\<rparr>) = mgr_ok x s"
  "mgr_ok x (s\<lparr>mg_future := a7\<rparr>) = mgr_ok x s" "mgr_ok x (s\<lparr>mg_timeouts := a8\<rparr>) = mgr_ok x s"
  "mgr_ok x (s\<lparr>mg_death_handled := a9\<rparr>) = mgr_ok x s" "mgr_ok x (s\<lparr>mg_task := b1\<rparr>) = mgr_ok x s"
  "mgr_ok x (s\<lparr>mg_lock := b2\<rparr>) = mgr_ok x s" "mgr_ok x (s\<lparr>mg_coord := b3\<rparr>) = mgr_ok x s"
  "mgr_ok x (s\<lparr>mg_config := b4\<rparr>) = mgr_ok x s" "mgr_ok x (s\<lparr>mg_sync := b5\<rparr>) = mgr_ok x s"
  "mgr_ok x (s\<lparr>mg_worker := b6\<rparr>) = mgr_ok x s"
  by (simp_all add: mgr_ok_def)

lemma mgr_ok_job [simp]:
  "mgr_ok x (s\<lparr>mg_jobs := mg_jobs s @ [j]\<rparr>) \<longleftrightarrow> mgr_ok x s \<and> single_ok (mg_pq s) (job_single j)"
  by (auto simp: mgr_ok_def)

section \<open>Calls\<close>

lemma stable_in_pq:
  assumes "\<And>q. pq_wf q \<Longrightarrow> single_ok q x \<Longrightarrow> wp m (\<lambda>_. safe q) (\<lambda>_. safe q) q"
  shows "stable (mgr_ok x) (in_pq m)"
  unfolding stable_def wp_in_pq
proof (intro allI impI)
  fix s
  assume s: "mgr_ok x s"
  from assms [OF mgr_ok_wf [OF s] mgr_ok_single [OF s]]
  show "wp m (\<lambda>_ q. mgr_ok x (s\<lparr>mg_pq := q\<rparr>)) (\<lambda>_ q. mgr_ok x (s\<lparr>mg_pq := q\<rparr>)) (mg_pq s)"
    by (rule wp_mono) (erule mgr_ok_pq [OF s])+
qed

lemma stable_keeps:
  assumes "\<And>q. single_ok q x \<Longrightarrow> keeps q m"
  shows "stable (mgr_ok x) (in_pq m)"
  by (rule stable_in_pq, rule keeps_start, rule assms)

lemma pq_wf_info:
  assumes "pq_wf s" and "key \<in> {''stop_pending_info'', ''autostart_mode_info'', ''lock_info''}"
  shows "pq_wf (s\<lparr>pq_store := snd (store_set (name_info key s) v (pq_store s))\<rparr>)"
proof -
  let ?t = "s\<lparr>pq_store := snd (store_set (name_info key s) v (pq_store s))\<rparr>"
  have "queue ?t = queue s" "history ?t = history s" "running ?t = running s"
    using assms(2) by (auto simp: queue_def history_def running_def store_set_def name_defs name_info_def)
  then show ?thesis using assms(1) by (simp add: pq_wf_def)
qed

lemma keeps_info_save [keep_rules]:
  "key \<in> {''stop_pending_info'', ''autostart_mode_info'', ''lock_info''} \<Longrightarrow> keeps s (info_save key v)"
  unfolding keeps_def info_save_def
  using pq_wf_info by (auto simp: wp_st split_beta safe_def later_def)

lemma keeps_info_retrieve [keep_rules]: "keeps s (info_retrieve key)"
  by (auto simp: keeps_def info_retrieve_def wp_st store_get_def)

lemma keeps_new_item_uid [keep_rules]: "keeps s new_item_uid"
  by (auto simp: keeps_def pq_wp safe_bump)

text \<open>The interface of \<open>manager_invariant\<close> on this invariant.\<close>

lemma mgr_ok_core: "core s = core t \<Longrightarrow> mgr_ok x s \<Longrightarrow> mgr_ok x t"
  by (simp add: mgr_ok_def core_def)

lemma stable_mgr_ok: "stable (mgr_ok x) (upd f)" if "\<And>s. core (f s) = core s"
  by (rule stable_upd) (rule mgr_ok_core [OF that [symmetric]])

lemma stable_info_save [stable_rules]:
  "key \<in> {''stop_pending_info'', ''autostart_mode_info'', ''lock_info''} \<Longrightarrow>
   stable (mgr_ok x) (in_pq (info_save key v))"
  by (intro stable_keeps keep_rules)

lemma stable_flags:
  "stable (mgr_ok x) (set_queue_stop_pending b)" "stable (mgr_ok x) (set_queue_autostart_enabled b)"
  unfolding set_queue_stop_pending_def set_queue_autostart_enabled_def
  by (intro stable_rules stable_upd; simp)+

lemma stable_queue_reads:
  "stable (mgr_ok x) (in_pq get_queue_size)" "stable (mgr_ok x) (in_pq get_running_item_info)"
  "stable (mgr_ok x) (in_pq (get_item a b))" "stable (mgr_ok x) (in_pq (info_retrieve key))"
  "stable (mgr_ok x) (in_pq new_item_uid)" "stable (mgr_ok x) (in_pq time_time)"
  by (rule stable_keeps, auto simp: get_running_item_info_def get_item_def intro!: keep_rules)+

lemma stable_locks:
  "stable (mgr_ok x) save_lock_info" "stable (mgr_ok x) load_lock_info"
  "stable (mgr_ok x) (set_lock e q k n u)" "stable (mgr_ok x) clear_lock"
  unfolding save_lock_info_def load_lock_info_def set_lock_def clear_lock_def
  by (intro stable_rules stable_queue_reads stable_upd; simp)+

lemma stable_lock_handlers:
  "stable (mgr_ok x) (lock_handler req)" "stable (mgr_ok x) (unlock_handler req)"
  unfolding lock_handler_def unlock_handler_def Let_def
  by (intro stable_rules stable_locks)+

lemma stable_processed:
  "stable (mgr_ok x) (in_pq (set_processed_item_as_completed a b c d e))"
  "stable (mgr_ok x) (in_pq (set_processed_item_as_stopped a b c d e))"
  by (rule stable_in_pq, simp add: set_processed_item_as_completed_def set_processed_item_as_stopped_def
      wp_with_lock keep_completed keep_stopped)+

lemma stable_process_next: "x' \<in> {JNull, x} \<Longrightarrow> stable (mgr_ok x) (in_pq (process_next_item x'))"
  by (rule stable_keeps) (auto simp: process_next_item_def intro!: keep_rules)

interpretation mok: manager_invariant "mgr_ok x" x for x
  by unfold_locales
    (auto intro: mgr_ok_core stable_flags stable_lock_handlers stable_locks stable_processed
      stable_process_next stable_queue_reads dest: mgr_ok_single)

section \<open>Requests\<close>

text \<open>An item for immediate execution gets its UID from the manager.\<close>

lemma prepared_single:
  assumes "pq_wf (mg_pq t)" "arg_ok t item"
  shows "wp (prepare_request_item pl item ty user ug True)
     (\<lambda>x u. requeued t u \<and> single_ok (mg_pq u) (fst x)) (\<lambda>_. requeued t) t"
proof -
  have "wp (prepare_request_item pl item ty user ug True)
      (\<lambda>x u. \<exists>d v. fst x = JDict d \<and> dget d ''item_uid'' = Some (JStr v)) (\<lambda>_ _. True) t"
    by (auto simp: prepare_request_item_def wp_rules wp_in_pq pq_wp Let_def dget_dset split: json.splits)
  from wp_conj [OF prepared_arg [OF assms] this]
  show ?thesis by (rule wp_mono) (auto simp: immediate_arg_ok_def)
qed

lemma renewed_single:
  assumes "pq_wf q" "single_ok q (JDict d)"
  shows "immediate_arg_ok (pq_uuids q) (Suc (pq_next q)) (JDict (dset ''item_uid'' (JStr (pq_uuids q (pq_next q))) d))"
  using assms(2) pq_wf_inj [OF assms(1)]
  by (auto simp: immediate_arg_ok_def item_arg_ok_def dict_field_dset dget_dset unused_from_def inj_eq)

lemma stable_start_single: "stable (mgr_ok item) (start_single_plan item)"
proof -
  have put: "stable (mgr_ok item) (bnd (in_pq (set_new_item_uuid item)) (\<lambda>i.
      bnd (in_pq get_queue_size) (\<lambda>n. sq (schedule (Start_plan False False i)) (ret (True, i, JInt n)))))"
    unfolding stable_def
  proof (intro allI impI)
    fix s
    assume s: "mgr_ok item s"
    have "mgr_ok item (s\<lparr>mg_pq := use_uuid (mg_pq s)\<rparr>)"
      using mgr_ok_wf [OF s] by (intro mgr_ok_pq [OF s] safe_bump(3)) simp
    then show "wp (bnd (in_pq (set_new_item_uuid item)) (\<lambda>i.
        bnd (in_pq get_queue_size) (\<lambda>n. sq (schedule (Start_plan False False i)) (ret (True, i, JInt n)))))
        (\<lambda>_. mgr_ok item) (\<lambda>_. mgr_ok item) s"
      using s renewed_single [OF mgr_ok_wf [OF s]] mgr_ok_single [OF s]
      by (cases item) (simp_all add: wp_rules wp_in_pq pq_wp get_queue_size_def)
  qed
  show ?thesis unfolding start_single_plan_def by (intro stable_rules put)
qed

lemma stable_execute:
  assumes "request_ok s req" "mgr_ok JNull s"
  shows "wp (queue_item_execute_handler pl req) (\<lambda>_. mgr_ok JNull) (\<lambda>_. mgr_ok JNull) s"
proof -
  let ?rest = "\<lambda>item t. bnd (get_user_info_from_request req) (\<lambda>(user, ugroup).
      bnd (prepare_request_item pl item t user ugroup True) (\<lambda>(item, _).
      bnd (start_single_plan item) (\<lambda>(ok, item, n). ret (reply ok item n))))"
  have start: "wp (start_single_plan i) (\<lambda>_. mgr_ok JNull) (\<lambda>_. mgr_ok JNull) u"
    if "mgr_ok JNull u" "single_ok (mg_pq u) i" for i u
  proof -
    have "mgr_ok i u" using that by (simp add: mgr_ok_def)
    from stableD [OF stable_start_single this] show ?thesis by (rule wp_mono) (erule mgr_ok_null)+
  qed
  have body: "wp (?rest item t) (\<lambda>_. mgr_ok JNull) (\<lambda>_. mgr_ok JNull) s" if "arg_ok s item" for item t
  proof -
    have prep: "wp (prepare_request_item pl item t user ug True)
        (\<lambda>x. wp (case x of (item, _) \<Rightarrow> bnd (start_single_plan item) (\<lambda>(ok, item, n). ret (reply ok item n)))
           (\<lambda>_. mgr_ok JNull) (\<lambda>_. mgr_ok JNull)) (\<lambda>_. mgr_ok JNull) s" for user ug
    proof (rule wp_mono [OF prepared_single [OF mgr_ok_wf [OF assms(2)] that]])
      fix x u
      assume u: "requeued s u \<and> single_ok (mg_pq u) (fst x)"
      then have "mgr_ok JNull u" using mgr_ok_requeued [OF assms(2)] by blast
      from start [OF this conjunct2 [OF u]]
      show "wp (case x of (item, _) \<Rightarrow> bnd (start_single_plan item) (\<lambda>(ok, item, n). ret (reply ok item n)))
           (\<lambda>_. mgr_ok JNull) (\<lambda>_. mgr_ok JNull) u"
        by (simp add: split_beta wp_bnd wp_ret)
    qed (rule mgr_ok_requeued [OF assms(2)])
    have user: "wp (get_user_info_from_request req) Q E s" if "\<And>x. Q x s" "\<And>e. E e s" for Q E
      using that by (auto simp: get_user_info_from_request_def wp_rules split: option.splits json.splits)
    show ?thesis unfolding wp_bnd [of "get_user_info_from_request req"]
      by (rule user) (use prep assms(2) in \<open>auto simp: wp_bnd [of "prepare_request_item _ _ _ _ _ _"] split_beta\<close>)
  qed
  have env: "wp (environment_request ns req) Q E s" if "\<And>x. Q x s" "\<And>e. E e s" for ns Q E
    using that by (auto simp: environment_request_def check_request_for_unsupported_params_def
        validate_lock_key_def wp_rules Let_def split: json.splits)
  show ?thesis
    unfolding queue_item_execute_handler_def failing_def [of JNull] wp_catch [of _ "\<lambda>_. ret (reply False JNull JNull)"]
      wp_sq wp_ret
  proof (rule env)
    fix x :: unit
    show "wp (bnd (get_item_from_request req) (\<lambda>item. failing item JNull (bnd (supported_type item) (?rest item))))
        (\<lambda>_. mgr_ok JNull) (\<lambda>e. mgr_ok JNull) s"
    proof (cases "dget req ''item''")
      case None
      then show ?thesis using assms(2) by (simp add: get_item_from_request_def wp_rules)
    next
      case (Some item)
      from body [OF request_item [OF assms(1) Some]] assms(2) Some show ?thesis
        by (simp add: get_item_from_request_def wp_bnd [of "ret _"] wp_ret failing_def wp_catch
            wp_bnd [of "supported_type _"] supported_type_def wp_bnd [of "raise _"] wp_raise split: option.splits)
    qed
  qed (rule assms(2))
qed

lemma call_ok:
  assumes "request_ok s req" "mgr_ok JNull s" "call_handler pl c req s = (r, t)"
  shows "mgr_ok JNull t"
proof (cases "\<exists>q. c = Queue_call q")
  case True
  then obtain q where "queue_handler pl q req s = (r, t)" using assms(3) by auto
  moreover have "requeued s s" using mgr_ok_wf [OF assms(2)] by simp
  ultimately have "requeued s t" using stable_run [OF mkeeps_handler [OF assms(1)]] by blast
  then show ?thesis by (rule mgr_ok_requeued [OF assms(2)])
next
  case False
  show ?thesis
  proof (cases "c = Queue_item_execute")
    case True
    then show ?thesis using wp_both [OF stable_execute [OF assms(1,2)]] assms(3) by simp
  next
    case other: False
    show ?thesis by (rule stable_run [OF mok.stable_other_calls [OF other False] assms(2,3)])
  qed
qed

section \<open>Reachable states\<close>

lemma start_ok:
  assumes "store_ok q" "mode_ok q" "\<not> pq_opened q"
    and run: "manager_start first alive (bnd (load_lists_from_worker si ow) (\<lambda>_. ret ())) answer
       (new_manager em groups q c w) = (r, t)"
  shows "mgr_ok JNull t"
proof -
  let ?s = "new_manager em groups q c w"
  let ?rest = "sq (restore_flags first) (sq (catch load_lock_info (\<lambda>_. ret ()))
    (sq (recover_worker alive (bnd (load_lists_from_worker si ow) (\<lambda>_. ret ())) answer)
    (sq settle_unknown_plan (sq (bnd (gets mg_autostart) (\<lambda>on. when_do on (schedule Autostart)))
       (upd (\<lambda>s. if mg_state s = INITIALIZING then s\<lparr>mg_state := IDLE\<rparr> else s))))))"
  have rest: "stable (mgr_ok JNull) ?rest" by (intro stable_rules mok.stable_start_rest)
  have pq: "mg_pq ?s = q\<lparr>pq_next := pq_next q + 2\<rparr>" "mg_jobs ?s = []"
    by (simp_all add: new_manager_def)
  have "store_ok (mg_pq ?s)" "mode_ok (mg_pq ?s)" "\<not> pq_opened (mg_pq ?s)"
    using store_ok_later [OF assms(1), of "mg_pq ?s"] assms(2,3)
    by (simp_all add: pq mode_ok_def queue_def history_def running_def name_defs)
  note start = wp_pq_start [OF this]
  have "wp (manager_start first alive (bnd (load_lists_from_worker si ow) (\<lambda>_. ret ())) answer)
      (\<lambda>_. mgr_ok JNull) (\<lambda>_. mgr_ok JNull) ?s"
    unfolding manager_start_def wp_sq [of "in_pq _"] wp_in_pq
  proof (rule wp_mono [OF start])
    fix x q'
    assume "pq_wf q'"
    then have "mgr_ok JNull (?s\<lparr>mg_pq := q'\<rparr>)" by (simp add: mgr_ok_def pq)
    then show "wp ?rest (\<lambda>_. mgr_ok JNull) (\<lambda>_. mgr_ok JNull) (?s\<lparr>mg_pq := q'\<rparr>)"
      by (rule stableD [OF rest])
  qed (simp add: mgr_ok_def pq)
  from wp_both [OF this run] show ?thesis .
qed

lemma step_ok:
  assumes "mstep si pl s t" "mgr_ok JNull s"
  shows "mgr_ok JNull t"
  using assms
proof (induction rule: mstep.induct)
  case (request s req c r t)
  then show ?case using call_ok by blast
next
  case (task bg answer s r t)
  have "stable (mgr_ok JNull) (start_task bg answer)"
    unfolding start_task_def by (intro stable_rules stable_upd) simp_all
  from stable_run [OF this task(2,1)] show ?case .
next
  case (task_done uid s r t)
  have "stable (mgr_ok JNull) (task_result uid)"
    unfolding task_result_def by (intro stable_rules) simp
  from stable_run [OF this task_done(2,1)] show ?case .
next
  case (coroutine j s an r t)
  have "mgr_ok (job_single j) (drop_job j s)"
    using coroutine(1,4) mgr_ok_drop [OF coroutine(4)] by (auto simp: mgr_ok_def list_all_iff drop_job_def)
  from mgr_ok_null [OF stable_run [OF mok.run_job_ok [OF insertI2 [OF singletonI]] this coroutine(3)]] show ?case .
next
  case (poll answer dead s r t)
  then show ?case using stable_run [OF mok.stable_poll] by blast
next
  case (heartbeat netr netl now now2 s r t)
  then show ?case using stable_run [OF mok.stable_in_coord] by blast
next
  case (restart alive ow answer em groups s t)
  have "store_ok (restarted (mg_pq s))"
    by (rule store_ok_later [OF pq_wf_store_ok [OF mgr_ok_wf [OF restart(2)]]]) simp_all
  moreover have "mode_ok (restarted (mg_pq s))" by (simp add: mode_ok_def default_mode_valid)
  ultimately show ?case using start_ok [OF _ _ _ restart(1)] by simp
qed simp

lemma mreach_ok: "mreach si pl s \<Longrightarrow> mgr_ok JNull s"
proof (induction rule: mreach.induct)
  case (first_start us alive ow answer em groups name ck c w t)
  let ?i = "pq_init name empty_store us 0 ck 0"
  have "store_ok ?i"
    using first_start(1)
    by (simp add: store_ok_def pq_init_def empty_store_def queue_def history_def running_def
        good_running_def reserved_def)
  moreover have "mode_ok ?i" "\<not> pq_opened ?i"
    by (simp_all add: mode_ok_def pq_init_def default_mode_valid)
  ultimately show ?case using start_ok [OF _ _ _ first_start(2)] by blast
next
  case (next_step s t)
  then show ?case using step_ok by blast
qed

text \<open>
  C2: The queue survives everything the manager does. In every state the manager can reach, whatever
  requests clients send, in whatever order scheduled coroutines run, whatever the worker, the
  watchdog and the configuration service answer, and however often the manager is restarted,
  the queued items have pairwise distinct UIDs, each is registered with exactly the stored
  content, and the UID of a running plan taken from the queue is reserved and not in the queue.
\<close>

theorem manager_keeps_queue:
  assumes "mreach si pl s"
  shows "distinct (map the_uid (queue (mg_pq s))) \<and>
     list_all (\<lambda>j. pq_uid_dict (mg_pq s) (the_uid j) = Some j) (queue (mg_pq s)) \<and>
     (reserved (running (mg_pq s)) \<longrightarrow>
        pq_uid_dict (mg_pq s) (the_uid (running (mg_pq s))) \<noteq> None \<and>
        the_uid (running (mg_pq s)) \<notin> the_uid ` set (queue (mg_pq s)))"
  using queue_okD(3,4,7,8) [OF pq_wf_queue_ok [OF mgr_ok_wf [OF mreach_ok [OF assms]]]]
  by (auto simp: list_all_iff)

end
