(* ===== verification/QueueFrames.thy ===== *)
theory QueueFrames
  imports ManagerSteps
begin

text \<open>
  The manager keeps values of its own in the queue's store (\<open>info_save\<close>): the pending stop, the
  autostart mode and the user lock. No operation of the queue touches their keys, and none takes
  away the lock that \<open>pq_start\<close> creates.
\<close>

section \<open>The saved values\<close>

definition saved :: "string \<Rightarrow> pq \<Rightarrow> json option" where
  "saved key q = st_kv (pq_store q) (name_info key q)"

type_synonym info = "bool \<times> string \<times> json option \<times> json option \<times> json option"

definition info_view :: "pq \<Rightarrow> info" where
  "info_view q = (pq_has_lock q, pq_prefix q, saved ''stop_pending_info'' q, saved ''autostart_mode_info'' q,
     saved ''lock_info'' q)"

abbreviation framed :: "info \<Rightarrow> 'a pqm \<Rightarrow> bool" where
  "framed v \<equiv> stable (\<lambda>q. info_view q = v)"

named_theorems frame_rules "queue programs that keep the saved values"

lemma sizes_store [simp]:
  "pq_has_lock (set_sizes a b c q) = pq_has_lock q" "pq_prefix (set_sizes a b c q) = pq_prefix q"
  "pq_store (set_sizes a b c q) = pq_store q"
  by (simp_all add: set_sizes_def del: size_updates)

lemma framed_upd:
  assumes "\<And>q. pq_has_lock (f q) = pq_has_lock q \<and> pq_prefix (f q) = pq_prefix q \<and> pq_store (f q) = pq_store q"
  shows "framed v (upd f)"
  using assms by (simp add: stable_def wp_upd info_view_def saved_def name_info_def)

lemma framed_st:
  assumes "\<And>q. st_kv (snd (f q (pq_store q))) (pq_prefix q @ ''stop_pending_info'') =
          st_kv (pq_store q) (pq_prefix q @ ''stop_pending_info'') \<and>
      st_kv (snd (f q (pq_store q))) (pq_prefix q @ ''autostart_mode_info'') =
          st_kv (pq_store q) (pq_prefix q @ ''autostart_mode_info'') \<and>
      st_kv (snd (f q (pq_store q))) (pq_prefix q @ ''lock_info'') =
          st_kv (pq_store q) (pq_prefix q @ ''lock_info'')"
  shows "framed v (st f)"
  using assms by (simp add: stable_def wp_st info_view_def saved_def name_info_def split_beta)

lemma framed_store [frame_rules]:
  "framed v (st (\<lambda>s. store_get (a s)))" "framed v (st (\<lambda>s. store_len (a s)))"
  "framed v (st (\<lambda>s. store_range (a s) i j))" "framed v (st (\<lambda>s. store_index (a s) k))"
  "framed v (st (\<lambda>s. store_push_front (a s) x))" "framed v (st (\<lambda>s. store_push_back (a s) x))"
  "framed v (st (\<lambda>s. store_pop_front (a s)))" "framed v (st (\<lambda>s. store_pop_back (a s)))"
  "framed v (st (\<lambda>s. store_insert (a s) wh x y))" "framed v (st (\<lambda>s. store_remove (a s) x))"
  "framed v (st (\<lambda>s. store_trim (a s) i j))"
  "framed v (st (\<lambda>s. store_set (name_running_plan s) x))"
  "framed v (st (\<lambda>s. store_set (name_plan_queue_mode s) x))"
  "framed v (st (\<lambda>s. store_delete [name_plan_queue s]))"
  "framed v (st (\<lambda>s. store_delete [name_plan_history s]))"
  by (rule framed_st; simp add: store_defs name_defs split: list.split option.split)+

lemma framed_fresh [frame_rules]:
  "framed v new_item_uid" "framed v time_time" "framed v renew_queue_uid" "framed v renew_history_uid"
  unfolding new_item_uid_def time_time_def renew_queue_uid_def renew_history_uid_def
  by (intro stable_rules framed_upd; simp)+

lemma framed_dict [frame_rules]:
  "framed v uid_dict_clear" "framed v (is_uid_in_dict u)" "framed v (uid_dict_add i)"
  "framed v (uid_dict_remove u)" "framed v (uid_dict_update i)" "framed v (uid_dict_get_item u)"
  "framed v (verify_item_type i)" "framed v (set_new_item_uuid i)" "framed v (verify_item i us)"
  unfolding uid_dict_clear_def is_uid_in_dict_def uid_dict_add_def uid_dict_remove_def
    uid_dict_update_def uid_dict_get_item_def uid_dict_put_def verify_item_type_def
    set_new_item_uuid_def verify_item_def
  by (intro stable_rules frame_rules framed_upd; simp)+

lemma framed_reads [frame_rules]:
  "framed v get_queue_body" "framed v get_queue_size_body" "framed v get_history_size_body"
  "framed v get_running_item_info_body" "framed v is_item_running_body" "framed v get_history_body"
  "framed v get_queue_size" "framed v get_running_item_info"
  unfolding get_queue_body_def get_queue_size_body_def get_history_size_body_def
    get_running_item_info_body_def is_item_running_body_def get_history_body_def
    get_queue_size_def get_running_item_info_def
  by (intro stable_rules frame_rules)+

lemma framed_refresh [frame_rules]:
  "framed v refresh_queue_size" "framed v refresh_history_size" "framed v refresh_running_info"
  "framed v refresh_running" "framed v refresh_all"
  "framed v (set_running_item_info x)" "framed v clear_running_item_info"
  unfolding refresh_queue_size_def refresh_history_size_def refresh_running_info_def
    refresh_running_def refresh_all_def set_running_item_info_def clear_running_item_info_def
  by (intro stable_rules frame_rules framed_upd; simp)+

lemma framed_lookup [frame_rules]:
  "framed v (get_index_by_uid u)" "framed v (get_index_by_uid_batch us)" "framed v (uid_is_running u)"
  "framed v (get_item_body p u)" "framed v (remove_item_body i b)"
  unfolding get_index_by_uid_def get_index_by_uid_batch_def uid_is_running_def get_item_body_def
    remove_item_body_def Let_def
  by (intro stable_rules frame_rules)+

lemma framed_pop [frame_rules]: "framed v (pop_item_from_queue_body p u)"
  unfolding pop_item_from_queue_body_def Let_def by (intro stable_rules frame_rules)

lemma framed_pop_uids [frame_rules]: "framed v (pop_uids us)"
proof (induction us)
  case Nil
  show ?case unfolding pop_uids.simps by (intro stable_rules)
next
  case (Cons u us)
  show ?case unfolding pop_uids.simps by (intro stable_rules frame_rules Cons)
qed

lemma framed_pop_batch [frame_rules]: "framed v (pop_item_from_queue_batch_body us im)"
  unfolding pop_item_from_queue_batch_body_def check_repeated_def check_missing_def
  by (intro stable_rules frame_rules)

lemma framed_add [frame_rules]: "framed v (add_item_to_queue_body i p b a f)"
  unfolding add_item_to_queue_body_def prepare_item_def insert_next_to_uid_def insert_at_pos_def Let_def
  by (intro stable_rules frame_rules framed_upd) simp

lemma framed_add_loop [frame_rules]: "framed v (add_batch_loop p b a f us items)"
proof (induction items arbitrary: us)
  case Nil
  show ?case unfolding add_batch_loop.simps by (intro stable_rules)
next
  case (Cons i items)
  show ?case unfolding add_batch_loop.simps by (intro stable_rules frame_rules Cons)
qed

lemma framed_add_batch [frame_rules]: "framed v (add_batch_to_queue_body items p b a f)"
  unfolding add_batch_to_queue_body_def undo_added_def Let_def by (intro stable_rules frame_rules)

lemma framed_replace [frame_rules]: "framed v (replace_item_body i u)"
  unfolding replace_item_body_def swap_item_def by (intro stable_rules frame_rules)

lemma framed_move [frame_rules]: "framed v (move_item_body p u pd b a)"
  unfolding move_item_body_def to_index_error_def move_destination_def reinsert_item_def Let_def
  by (intro stable_rules frame_rules framed_upd) simp

lemma framed_move_uids [frame_rules]: "framed v (move_uids pd b a l us)"
proof (induction us arbitrary: l)
  case Nil
  show ?case unfolding move_uids.simps by (intro stable_rules)
next
  case (Cons u us)
  show ?case unfolding move_uids.simps by (intro stable_rules frame_rules Cons)
qed

lemma framed_move_batch [frame_rules]: "framed v (move_batch_body us pd b a r)"
  unfolding move_batch_body_def check_repeated_def check_missing_def Let_def
  by (intro stable_rules frame_rules)

lemma framed_clear [frame_rules]: "framed v clear_queue_body" "framed v clear_history_body"
  "framed v (trim_history_body n u)" "framed v (add_to_history i)"
  unfolding clear_queue_body_def clear_history_body_def trim_history_body_def add_to_history_def Let_def
  by (intro stable_rules frame_rules framed_upd; simp)+

lemma framed_execution [frame_rules]:
  "framed v (start_plan im i)" "framed v (add_result i t a b c d e)" "framed v (with_item_uid i)"
  unfolding start_plan_def add_result_def with_item_uid_def by (intro stable_rules frame_rules)+

lemma framed_set_next [frame_rules]: "framed v (set_next_item_as_running_body i)"
  unfolding set_next_item_as_running_body_def Let_def by (intro stable_rules frame_rules)

lemma framed_process [frame_rules]: "framed v (process_next_item_body i)"
  unfolding process_next_item_body_def process_item_def Let_def by (intro stable_rules frame_rules)

lemma framed_finish [frame_rules]:
  "framed v (set_processed_item_as_completed_body a b c d e)"
  "framed v (set_processed_item_as_stopped_body a b c d e)"
  unfolding set_processed_item_as_stopped_body_def set_processed_item_as_completed_body_def
  by (intro stable_rules frame_rules)+

lemma framed_mode [frame_rules]: "framed v (set_plan_queue_mode m b)" "framed v load_plan_queue_mode"
  unfolding set_plan_queue_mode_def load_plan_queue_mode_def with_lock_def Let_def
  by (intro stable_rules frame_rules framed_upd; simp)+

lemma started_view:
  assumes "\<not> pq_opened q"
  shows "wp (pq_start (Inr ())) (\<lambda>_ t. info_view t = (True, snd (info_view q))) (\<lambda>_ _. True) q"
proof -
  have rest: "framed v (sq (lift (Inr ())) (sq (upd (\<lambda>s. s\<lparr>pq_opened := True\<rparr>)) (sq queue_clean
      (sq uid_dict_initialize (sq load_plan_queue_mode (sq refresh_all
      (sq renew_queue_uid renew_history_uid)))))))" for v
    unfolding queue_clean_def uid_dict_initialize_def by (intro stable_rules frame_rules framed_upd; simp)
  have "wp (pq_start (Inr ())) (\<lambda>_ t. info_view t = (True, snd (info_view q)))
      (\<lambda>_ t. info_view t = (True, snd (info_view q))) q"
    unfolding pq_start_def wp_bnd wp_gets wp_when_do wp_sq [of "upd _" "sq (lift _) _"] wp_upd
    using assms stableD [OF rest, of "q\<lparr>pq_has_lock := True\<rparr>"]
    by (simp add: info_view_def [of q] info_view_def [of "q\<lparr>pq_has_lock := True\<rparr>"] saved_def name_info_def)
  then show ?thesis by (rule wp_mono) simp_all
qed

lemma framed_lock [frame_rules]: "framed v m \<Longrightarrow> framed v (with_lock m)"
  unfolding with_lock_def by (intro stable_rules)

lemma framed_public [frame_rules]:
  "framed v get_queue_full" "framed v (get_item a1 a2)" "framed v get_history"
  "framed v (pop_item_from_queue a1 a2)" "framed v (pop_item_from_queue_batch a3 a4)"
  "framed v (add_item_to_queue a1 a2 a5 a6 a4)" "framed v (add_batch_to_queue a7 a2 a5 a6 a4)"
  "framed v (replace_item a1 a2)" "framed v (move_item a1 a2 a5 a6 a8)"
  "framed v (move_batch a1 a2 a5 a6 a4)" "framed v clear_queue" "framed v clear_history"
  "framed v (trim_history a9 a1)" "framed v (process_next_item a1)"
  "framed v (set_processed_item_as_completed a1 a2 a5 a6 a8)"
  "framed v (set_processed_item_as_stopped a1 a2 a5 a6 a8)"
  unfolding public_defs get_queue_full_body_def by (intro stable_rules frame_rules)+

end
