(* ===== verification/ManagerRestart.thy ===== *)
theory ManagerRestart
  imports ManagerInv QueueFrames
begin

text \<open>
  What a restarted manager process finds again: the user lock, the pending stop and the autostart
  mode follow the values saved in the queue's store in every reachable state.
\<close>

section \<open>The saved values follow the manager\<close>

definition enabled_info :: "bool \<Rightarrow> json" where
  "enabled_info b = JDict [(''enabled'', JBool b)]"

lemma enabled_info_eq [simp]: "enabled_info b = enabled_info c \<longleftrightarrow> b = c"
  by (simp add: enabled_info_def)

fun lock_kept :: "json option \<Rightarrow> lock_info \<Rightarrow> bool" where
  "lock_kept None li = (\<not> is_set li)"
| "lock_kept (Some d) li = (d = lock_to_dict li)"

definition flags_saved :: "'o mgr \<Rightarrow> bool" where
  "flags_saved s \<longleftrightarrow>
     saved ''stop_pending_info'' (mg_pq s) = Some (enabled_info (mg_stop_pending s)) \<and>
     saved ''autostart_mode_info'' (mg_pq s) = Some (enabled_info (mg_autostart s)) \<and>
     lock_kept (saved ''lock_info'' (mg_pq s)) (mg_lock s) \<and> pq_has_lock (mg_pq s)"

lemma saved_bump [simp]: "saved k (use_uuid q) = saved k q" "saved k (use_tick q) = saved k q"
  by (simp_all add: saved_def name_info_def use_uuid_def use_tick_def)

lemma saved_set:
  "saved k (q\<lparr>pq_store := snd (store_set (name_info key q) v (pq_store q))\<rparr>) =
     (if k = key then Some v else saved k q)"
  by (auto simp: saved_def name_info_def store_defs)

lemma flags_saved_core: "core s = core t \<Longrightarrow> flags_saved s \<Longrightarrow> flags_saved t"
  by (simp add: core_def flags_saved_def)

lemma stable_framed:
  assumes "\<And>v. framed v m"
  shows "stable flags_saved (in_pq m)"
  unfolding stable_def wp_in_pq
proof (intro allI impI)
  fix s :: "'o mgr"
  assume s: "flags_saved s"
  from stableD [OF assms [of "info_view (mg_pq s)"] refl]
  show "wp m (\<lambda>_ q. flags_saved (s\<lparr>mg_pq := q\<rparr>)) (\<lambda>_ q. flags_saved (s\<lparr>mg_pq := q\<rparr>)) (mg_pq s)"
    by (rule wp_mono) (use s in \<open>simp_all add: flags_saved_def info_view_def\<close>)
qed

lemma framed_info [frame_rules]: "framed v (info_retrieve key)"
  unfolding info_retrieve_def by (intro frame_rules)

lemma stable_conj: "stable I m \<Longrightarrow> stable J m \<Longrightarrow> stable (\<lambda>s. I s \<and> J s) m"
  unfolding stable_def by (auto intro: wp_conj)

lemma wp_retrieve: "wp (info_retrieve key) Q E q = Q (saved key q) q"
  by (simp add: info_retrieve_def wp_st store_get_def saved_def)

lemma wp_save [wp_rules]:
  "wp (info_save key v) Q E q = Q () (q\<lparr>pq_store := snd (store_set (name_info key q) v (pq_store q))\<rparr>)"
  by (simp add: info_save_def wp_st split_beta)

lemma flags_switch:
  "stable flags_saved (set_queue_stop_pending b)" "stable flags_saved (set_queue_autostart_enabled b)"
  by (simp_all add: stable_def wp_rules wp_in_pq set_queue_stop_pending_def set_queue_autostart_enabled_def
      flags_saved_def saved_set enabled_info_def)

lemma flags_load: "stable flags_saved load_lock_info"
  by (auto simp: stable_def wp_rules wp_in_pq load_lock_info_def info_retrieve_def wp_st store_get_def
      flags_saved_def lock_from_dict_def lock_to_dict_def saved_def split: option.splits)

lemma flags_lock:
  "stable flags_saved (sq (set_lock e q k n u) (bnd (gets mg_lock) (\<lambda>li. sq save_lock_info (ret (f li)))))"
  "stable flags_saved (sq clear_lock (bnd (gets mg_lock) (\<lambda>li. sq save_lock_info (ret (f li)))))"
  by (auto simp: stable_def set_lock_def clear_lock_def save_lock_info_def wp_rules wp_in_pq pq_wp
      flags_saved_def saved_set)

lemma flags_lock_handlers:
  "stable flags_saved (lock_handler req)" "stable flags_saved (unlock_handler req)"
  unfolding lock_handler_def unlock_handler_def Let_def by (intro stable_rules flags_lock)+

interpretation flags: manager_invariant flags_saved x for x
  by unfold_locales
    (auto simp: flags_saved_def core_def intro: flags_switch flags_lock_handlers flags_load stable_framed
      frame_rules)

section \<open>Requests\<close>

lemma flags_prepare: "stable flags_saved (prepare_request_item pl item ty user ug new)"
  unfolding prepare_request_item_def Let_def
  by (cases item; simp only: json.case; intro stable_rules stable_framed frame_rules)

lemma flags_queue_handler: "stable flags_saved (queue_handler pl c req)"
proof -
  have "stable flags_saved (case uid of JStr x \<Rightarrow> in_pq (trim_history None uid) | _ \<Rightarrow> raise ValueError)"
    for uid
    by (cases uid) (auto intro!: stable_rules stable_framed frame_rules)
  then show ?thesis
    by (cases c; simp; unfold queue_get_handler_def queue_item_get_handler_def history_get_handler_def
        queue_mode_set_handler_def queue_item_add_handler_def queue_item_update_handler_def
        queue_item_add_batch_handler_def reply_to_batch_def validate_item_batch_def validate_item_info_def
        queue_item_remove_handler_def queue_item_remove_batch_handler_def queue_item_move_handler_def
        queue_item_move_batch_handler_def queue_clear_handler_def history_clear_handler_def Let_def;
        intro stable_rules flags_prepare stable_framed frame_rules)
qed

lemma flags_execute: "stable flags_saved (queue_item_execute_handler pl req)"
  unfolding queue_item_execute_handler_def start_single_plan_def begin_start_def set_mstate_def
    schedule_def environment_request_def queue_stop_deactivate_def
  by (intro stable_rules flags_prepare flags_switch stable_framed frame_rules stable_upd;
      simp add: flags_saved_def)

lemma flags_call: "stable flags_saved (call_handler pl c req)"
proof (cases "c = Queue_item_execute \<or> (\<exists>q. c = Queue_call q)")
  case True
  then show ?thesis using flags_queue_handler flags_execute by auto
next
  case False
  then show ?thesis by (intro flags.stable_other_calls) auto
qed

section \<open>Start of the process\<close>

lemma info_view_simps:
  "info_view q = (pq_has_lock q, pq_prefix q, saved ''stop_pending_info'' q, saved ''autostart_mode_info'' q, saved ''lock_info'' q)"
  by (simp add: info_view_def)

definition viewed :: "info \<Rightarrow> 'o mgr \<Rightarrow> bool" where
  "viewed v s \<longleftrightarrow> flags_saved s \<and> info_view (mg_pq s) = v"

lemma lock_dict_again:
  "lock_from_dict (lock_to_dict l) li = Inr (l\<lparr>li_emergency := li_emergency li\<rparr>)"
  "lock_to_dict (l\<lparr>li_emergency := e\<rparr>) = lock_to_dict l"
  by (simp_all add: lock_from_dict_def lock_to_dict_def)

lemma viewed_framed:
  assumes "\<And>v. framed v m"
  shows "stable (viewed v) (in_pq m)"
proof -
  have "stable (\<lambda>s. info_view (mg_pq s) = v) (in_pq m :: ('o, 'a) mgm)"
    unfolding stable_def wp_in_pq by (auto intro: stableD [OF assms])
  from stable_conj [OF stable_framed [OF assms] this]
  show ?thesis by (simp add: viewed_def [abs_def])
qed

lemma viewed_rest:
  "stable (viewed v) (recover_worker alive (bnd (load_lists_from_worker si ow) (\<lambda>_. ret ())) answer)"
  "stable (viewed v) settle_unknown_plan"
  "stable (viewed v) (bnd (gets mg_autostart) (\<lambda>on. when_do on (schedule Autostart)))"
  "stable (viewed v) (upd (\<lambda>s. if mg_state s = INITIALIZING then s\<lparr>mg_state := IDLE\<rparr> else s))"
proof -
  have lists: "stable (viewed v) (load_lists_from_worker si ow)"
    by (auto simp: load_lists_from_worker_def stable_def wp_def ret_def viewed_def flags_saved_def
        split: option.splits prod.splits sum.splits)
  have recover: "viewed v s \<Longrightarrow> viewed v (recover_state ws plan s)" for ws plan s
    by (simp add: recover_state_def Let_def viewed_def flags_saved_def)
  show "stable (viewed v) (recover_worker alive (bnd (load_lists_from_worker si ow) (\<lambda>_. ret ())) answer)"
    unfolding recover_worker_def
    by (intro stable_rules lists viewed_framed frame_rules stable_upd)
      (simp_all add: recover, simp_all add: viewed_def flags_saved_def)
  show "stable (viewed v) settle_unknown_plan"
    unfolding settle_unknown_plan_def by (intro stable_rules viewed_framed frame_rules)
  show "stable (viewed v) (bnd (gets mg_autostart) (\<lambda>on. when_do on (schedule Autostart)))"
    "stable (viewed v) (upd (\<lambda>s. if mg_state s = INITIALIZING then s\<lparr>mg_state := IDLE\<rparr> else s))"
    unfolding schedule_def by (intro stable_rules stable_upd; simp add: viewed_def flags_saved_def)+
qed

lemma viewed_load:
  assumes "saved ''stop_pending_info'' (mg_pq s) = Some (enabled_info (mg_stop_pending s))"
    and "saved ''autostart_mode_info'' (mg_pq s) = Some (enabled_info (mg_autostart s))"
    and "\<not> is_set (mg_lock s)" and "pq_has_lock (mg_pq s)" and "saved ''lock_info'' (mg_pq s) \<in> {None} \<union> Some ` range lock_to_dict"
  shows "wp (catch load_lock_info (\<lambda>_. ret ())) (\<lambda>_. viewed (info_view (mg_pq s))) (\<lambda>_ _. False) s"
proof -
  have set: "truthy (lock_to_dict l)" for l by (simp add: lock_to_dict_def)
  show ?thesis
    using assms
    by (auto simp: wp_rules wp_in_pq load_lock_info_def info_retrieve_def wp_st store_get_def set lock_dict_again
        viewed_def flags_saved_def saved_def [of "''lock_info''", symmetric] split: option.splits)
qed

abbreviation rest_of_start :: "bool \<Rightarrow> 'o site \<Rightarrow> open_world \<Rightarrow> worker_state option \<Rightarrow> ('o, unit) mgm" where
  "rest_of_start alive si ow answer \<equiv>
     sq (recover_worker alive (bnd (load_lists_from_worker si ow) (\<lambda>_. ret ())) answer)
    (sq settle_unknown_plan
    (sq (bnd (gets mg_autostart) (\<lambda>on. when_do on (schedule Autostart)))
       (upd (\<lambda>s. if mg_state s = INITIALIZING then s\<lparr>mg_state := IDLE\<rparr> else s))))"

lemma viewed_after_load:
  assumes "saved ''stop_pending_info'' (mg_pq s) = Some (enabled_info (mg_stop_pending s))"
    and "saved ''autostart_mode_info'' (mg_pq s) = Some (enabled_info (mg_autostart s))"
    and "\<not> is_set (mg_lock s)" and "pq_has_lock (mg_pq s)" and "saved ''lock_info'' (mg_pq s) \<in> {None} \<union> Some ` range lock_to_dict"
  shows "wp (sq (catch load_lock_info (\<lambda>_. ret ())) (rest_of_start alive si ow answer))
     (\<lambda>_. viewed (info_view (mg_pq s))) (\<lambda>_ _. True) s"
  unfolding wp_sq [of "catch load_lock_info _"]
proof (rule wp_mono [OF viewed_load [OF assms]])
  fix u :: "'a mgr"
  assume u: "viewed (info_view (mg_pq s)) u"
  have "stable (viewed (info_view (mg_pq s))) (rest_of_start alive si ow answer)"
    by (intro stable_rules viewed_rest)
  from stableD [OF this u]
  show "wp (rest_of_start alive si ow answer) (\<lambda>_. viewed (info_view (mg_pq s))) (\<lambda>_ _. True) u"
    by (rule wp_mono) simp_all
qed simp

text \<open>
  A started process has the flags and the lock that the store holds; a restarted one changes none
  of them in the store.
\<close>

lemma restored_flags:
  assumes "info_view q' = (True, snd (info_view q))"
    and "first \<or> saved ''stop_pending_info'' q = Some (enabled_info b)"
    and "first \<or> saved ''autostart_mode_info'' q = Some (enabled_info c)"
    and "\<not> is_set (mg_lock s)"
  shows "wp (restore_flags first) (\<lambda>_ s.
      saved ''stop_pending_info'' (mg_pq s) = Some (enabled_info (mg_stop_pending s)) \<and>
      saved ''autostart_mode_info'' (mg_pq s) = Some (enabled_info (mg_autostart s)) \<and>
      \<not> is_set (mg_lock s) \<and> saved ''lock_info'' (mg_pq s) = saved ''lock_info'' q \<and>
      (\<not> first \<longrightarrow> snd (info_view (mg_pq s)) = snd (info_view q)) \<and> pq_has_lock (mg_pq s)) (\<lambda>_ _. True) (s\<lparr>mg_pq := q'\<rparr>)"
  using assms
  by (auto simp: restore_flags_def set_queue_stop_pending_def set_queue_autostart_enabled_def wp_rules
      wp_in_pq wp_retrieve info_view_def saved_set enabled_info_def stored_flag_def is_set_def)

lemma start_saves:
  assumes lock: "saved ''lock_info'' q \<in> {None} \<union> Some ` range lock_to_dict"
    and stop: "first \<or> saved ''stop_pending_info'' q = Some (enabled_info b)"
    and auto: "first \<or> saved ''autostart_mode_info'' q = Some (enabled_info c)"
    and run: "manager_start first alive (bnd (load_lists_from_worker si ow) (\<lambda>_. ret ())) answer
       (new_manager em groups q cf w) = (Inr (), t)" and "\<not> pq_opened q"
  shows "flags_saved t \<and> (\<not> first \<longrightarrow> snd (info_view (mg_pq t)) = snd (info_view q))"
proof -
  let ?s = "new_manager em groups q cf w"
  let ?Q = "\<lambda>_ t. flags_saved t \<and> (\<not> first \<longrightarrow> snd (info_view (mg_pq t)) = snd (info_view q))"
  have view: "snd (info_view (mg_pq ?s)) = snd (info_view q)" "\<not> pq_opened (mg_pq ?s)" and none: "\<not> is_set (mg_lock ?s)"
    using assms(5) by (simp_all add: new_manager_def info_view_def saved_def name_info_def is_set_def cleared_lock_def)
  have started: "wp (sq (restore_flags first)
      (sq (catch load_lock_info (\<lambda>_. ret ())) (rest_of_start alive si ow answer))) ?Q (\<lambda>_ _. True) (?s\<lparr>mg_pq := q'\<rparr>)"
    if q': "info_view q' = (True, snd (info_view q))" for q'
    unfolding wp_sq [of "restore_flags first"]
  proof (rule wp_mono [OF restored_flags [OF q' stop auto none]], elim conjE)
    fix s :: "'a mgr"
    assume flags: "saved ''stop_pending_info'' (mg_pq s) = Some (enabled_info (mg_stop_pending s))"
      "saved ''autostart_mode_info'' (mg_pq s) = Some (enabled_info (mg_autostart s))"
      "\<not> is_set (mg_lock s)" "pq_has_lock (mg_pq s)" and l: "saved ''lock_info'' (mg_pq s) = saved ''lock_info'' q"
      and v: "\<not> first \<longrightarrow> snd (info_view (mg_pq s)) = snd (info_view q)"
    show "wp (sq (catch load_lock_info (\<lambda>_. ret ())) (rest_of_start alive si ow answer)) ?Q (\<lambda>_ _. True) s"
      by (rule wp_mono [OF viewed_after_load [OF flags]]) (use lock l v in \<open>auto simp: viewed_def\<close>)
  qed simp
  have "wp (manager_start first alive (bnd (load_lists_from_worker si ow) (\<lambda>_. ret ())) answer)
      ?Q (\<lambda>_ _. True) ?s"
    unfolding manager_start_def wp_sq [of "in_pq _"] wp_in_pq
    by (rule wp_mono [OF started_view [OF view(2)]]) (use started view(1) in auto)
  then show ?thesis using run by (simp add: wp_def)
qed

section \<open>Every reachable state\<close>

lemma lock_kept_shape: "lock_kept r li \<Longrightarrow> r \<in> {None} \<union> Some ` range lock_to_dict"
  by (cases r) auto

lemma lock_kept_same:
  assumes "lock_kept r l" "lock_kept r m"
  shows "is_set m = is_set l" "is_set l \<Longrightarrow> m = l\<lparr>li_emergency := li_emergency m\<rparr>"
  using assms by (cases r; cases l; cases m; simp add: lock_to_dict_def is_set_def)+

lemma start_emergency:
  "stable (\<lambda>s. li_emergency (mg_lock s) = e)
     (manager_start first alive (bnd (load_lists_from_worker si ow) (\<lambda>_. ret ())) answer)"
proof -
  let ?I = "\<lambda>s. li_emergency (mg_lock s) = e"
  have pq: "stable ?I (in_pq m)" for m
    by (auto simp: stable_def wp_def in_pq_def split: prod.splits sum.splits)
  have lists: "stable ?I (load_lists_from_worker si ow)"
    by (auto simp: load_lists_from_worker_def stable_def wp_def ret_def split: option.splits prod.splits sum.splits)
  have lock: "stable ?I load_lock_info"
    by (auto simp: load_lock_info_def stable_def wp_rules wp_in_pq wp_retrieve lock_from_dict_def
        split: option.splits json.splits)
  show ?thesis
    unfolding manager_start_def restore_flags_def set_queue_stop_pending_def set_queue_autostart_enabled_def
      recover_worker_def settle_unknown_plan_def schedule_def
    by (intro stable_rules pq lists lock stable_upd; simp add: recover_state_def Let_def)
qed

lemma restarted_view: "saved k (restarted q) = saved k q" "snd (info_view (restarted q)) = snd (info_view q)"
  by (simp_all add: info_view_def saved_def restarted_def name_info_def pq_init_def)

lemma restarted_closed: "\<not> pq_opened (restarted q)"
  by (simp add: restarted_def pq_init_def)

lemma restart_saves:
  assumes "flags_saved s"
    and "manager_start False alive (bnd (load_lists_from_worker si ow) (\<lambda>_. ret ())) answer
       (new_manager em groups (restarted (mg_pq s)) cf w) = (Inr (), t)"
  shows "flags_saved t \<and> info_view (mg_pq t) = info_view (mg_pq s)"
  using start_saves [OF _ _ _ assms(2) restarted_closed, of "mg_stop_pending s" "mg_autostart s"] assms(1)
    lock_kept_shape [of "saved ''lock_info'' (mg_pq s)" "mg_lock s"]
  by (simp add: flags_saved_def restarted_view) (auto simp: info_view_def)

lemma step_saves:
  assumes "mstep si pl s t" "flags_saved s"
  shows "flags_saved t"
  using assms
proof (induction rule: mstep.induct)
  case (request s req c r t)
  then show ?case using stable_run [OF flags_call] by blast
next
  case (task bg answer s r t)
  have "stable flags_saved (start_task bg answer)"
    unfolding start_task_def by (intro stable_rules stable_upd; simp add: flags_saved_def)
  from stable_run [OF this task(2,1)] show ?case .
next
  case (task_done uid s r t)
  have "stable flags_saved (task_result uid)"
    unfolding task_result_def schedule_def by (intro stable_rules stable_upd) (simp add: flags_saved_def)
  from stable_run [OF this task_done(2,1)] show ?case .
next
  case (coroutine j s an r t)
  have "flags_saved (drop_job j s)" using coroutine(4) by (simp add: flags_saved_def drop_job_def)
  from stable_run [OF flags.run_job_ok [OF insertI2 [OF singletonI]] this coroutine(3)] show ?case .
next
  case (poll answer dead s r t)
  then show ?case using stable_run [OF flags.stable_poll] by blast
next
  case (heartbeat netr netl now now2 s r t)
  then show ?case using stable_run [OF flags.stable_in_coord] by blast
next
  case (restart alive ow answer em groups s t)
  then show ?case using restart_saves by blast
qed (simp add: flags_saved_def)

lemma reach_saves: "mreach si pl s \<Longrightarrow> flags_saved s"
proof (induction rule: mreach.induct)
  case (first_start us alive ow answer em groups name ck c w t)
  show ?case
    using start_saves [OF _ _ _ first_start(2)] by (simp add: saved_def pq_init_def empty_store_def)
next
  case (next_step s t)
  then show ?case using step_saves by blast
qed

section \<open>A restart succeeds\<close>

lemma wp_initialize_total:
  assumes ok: "store_ok s" and r: "running s = JDict [] \<or> the_uid (running s) \<notin> the_uid ` set (queue s)"
  shows "wp uid_dict_initialize (\<lambda>_ _. True) (\<lambda>_ _. False) s"
proof -
  let ?s = "set_dict (\<lambda>_. None) (bump_queue s)"
  have q: "\<And>j. j \<in> set (queue s) \<Longrightarrow> good_item j" and d: "distinct (map the_uid (queue s))"
    and g: "running s \<noteq> JDict [] \<Longrightarrow> good_item (running s)"
    using ok by (auto simp: store_ok_def good_running_def)
  have reg: "wp (eachP uid_dict_add (queue s))
     (\<lambda>_ t. same_but_dict ?s t \<and> pq_uid_dict t = registered (queue s)) (\<lambda>_ _. False) ?s"
    using wp_register_all [OF q d, of ?s] by simp
  have "wp (when_do (truthy (running s)) (uid_dict_add (running s))) (\<lambda>_ _. True) (\<lambda>_ _. False) t"
    if "pq_uid_dict t = registered (queue s)" for t
  proof (cases "running s = JDict []")
    case False
    then have "registered (queue s) (the_uid (running s)) = None" using r by (simp add: registered_None)
    then show ?thesis using g [OF False] that by (simp add: pq_wp)
  qed (simp add: wp_rules)
  then show ?thesis
    unfolding uid_dict_initialize_def wp_bnd [of get_queue_body] wp_get_queue_body split_conv wp_sq
      wp_uid_dict_clear wp_bnd [of get_running_item_info_body] wp_get_running_item_info_body
    by (intro wp_mono [OF reg]) (auto simp: same_but_dict_def)
qed

lemma wp_start_total:
  assumes ok: "store_ok s" and "\<not> pq_opened s"
    and r: "running s = JDict [] \<or> the_uid (running s) \<notin> the_uid ` set (queue s)"
  shows "wp (pq_start (Inr ())) (\<lambda>_ _. True) (\<lambda>_ _. False) s"
proof -
  let ?s = "s\<lparr>pq_has_lock := True, pq_opened := True\<rparr>"
  have v: "queue ?s = queue s" "history ?s = history s" "running ?s = running s"
    by (simp_all add: queue_def history_def running_def name_defs)
  have ok': "store_ok ?s" using ok by (simp add: store_ok_def v)
  let ?t = "set_sizes (int (length (queue ?s))) (pq_history_size ?s) (running ?s) ?s"
  have ok2: "store_ok ?t" using ok' by (simp add: store_ok_def)
  have rest: "wp (sq load_plan_queue_mode (sq refresh_all (sq renew_queue_uid renew_history_uid)))
      (\<lambda>_ _. True) (\<lambda>_ _. False) t" for t
    by (simp add: load_plan_queue_mode_def refresh_all_def pq_wp wp_st store_get_def Let_def wp_top
        split: option.splits sum.splits)
  have "wp uid_dict_initialize
      (\<lambda>_. wp (sq load_plan_queue_mode (sq refresh_all (sq renew_queue_uid renew_history_uid)))
        (\<lambda>_ _. True) (\<lambda>_ _. False)) (\<lambda>_ _. False) ?t"
    by (rule wp_mono [OF wp_initialize_total [OF ok2]]) (use rest r v in auto)
  then show ?thesis
    using assms(2)
    by (simp add: pq_start_def wp_sq_fun wp_bnd wp_gets wp_when_do wp_upd wp_lift
        wp_queue_clean [OF ok'] v)
qed

text \<open>The queue's lock stays, and with it every part of the start returns.\<close>

definition held :: "'o mgr \<Rightarrow> bool" where
  "held s \<longleftrightarrow> mgr_ok JNull s \<and> pq_has_lock (mg_pq s)"

abbreviation lock_held :: "'o mgr \<Rightarrow> bool" where
  "lock_held s \<equiv> pq_has_lock (mg_pq s)"

lemma held_framed:
  assumes "\<And>v. framed v m"
  shows "stable lock_held (in_pq m)"
  unfolding stable_def wp_in_pq
proof (intro allI impI)
  fix s :: "'o mgr"
  assume s: "lock_held s"
  from stableD [OF assms [of "info_view (mg_pq s)"] refl]
  show "wp m (\<lambda>_ q. lock_held (s\<lparr>mg_pq := q\<rparr>)) (\<lambda>_ q. lock_held (s\<lparr>mg_pq := q\<rparr>)) (mg_pq s)"
    by (rule wp_mono) (use s in \<open>simp_all add: info_view_def\<close>)
qed

lemma held_save: "stable lock_held (in_pq (info_save key v))"
  by (simp add: stable_def wp_in_pq wp_rules)

lemma held_parts:
  "stable held (restore_flags first)" "stable held (catch load_lock_info (\<lambda>_. ret ()))"
  "stable held (recover_worker alive (bnd (load_lists_from_worker si ow) (\<lambda>_. ret ())) answer)"
  "stable held settle_unknown_plan"
proof -
  have lists: "stable lock_held (load_lists_from_worker si ow)"
    by (auto simp: load_lists_from_worker_def stable_def wp_def ret_def split: option.splits prod.splits sum.splits)
  have parts: "stable lock_held (restore_flags first)" "stable lock_held (catch load_lock_info (\<lambda>_. ret ()))"
    "stable lock_held (recover_worker alive (bnd (load_lists_from_worker si ow) (\<lambda>_. ret ())) answer)"
    "stable lock_held settle_unknown_plan"
    unfolding restore_flags_def set_queue_stop_pending_def set_queue_autostart_enabled_def load_lock_info_def
      recover_worker_def settle_unknown_plan_def
    by (intro stable_rules held_framed held_save lists frame_rules stable_upd;
        simp add: recover_state_def Let_def)+
  show "stable held (restore_flags first)" "stable held (catch load_lock_info (\<lambda>_. ret ()))"
    "stable held (recover_worker alive (bnd (load_lists_from_worker si ow) (\<lambda>_. ret ())) answer)"
    "stable held settle_unknown_plan"
    unfolding held_def [abs_def] by (intro stable_conj mok.stable_start_rest parts)+
qed

lemma wp_settle: "held s \<Longrightarrow> wp settle_unknown_plan (\<lambda>_ _. True) (\<lambda>_ _. False) s"
proof -
  assume h: "held s"
  then have wf: "pq_wf (mg_pq s)" by (simp add: held_def mgr_ok_def)
  obtain b where loop: "item_at (pq_mode (mg_pq s)) ''loop'' = Inr (JBool b)" using pq_wf_loop [OF wf] .
  have "wp (set_processed_item_as_completed_body es ru si em et) (\<lambda>_ _. True) (\<lambda>_ _. False) (mg_pq s)"
    for es ru si em et
  proof (cases "running (mg_pq s) = JDict []")
    case True
    then show ?thesis using loop
      by (simp add: set_processed_item_as_completed_body_def pq_wp refresh_all_def)
  next
    case False
    show ?thesis by (rule wp_mono [OF wp_completed [OF wf loop False]]) simp_all
  qed
  then show ?thesis using h
    by (simp add: settle_unknown_plan_def wp_rules wp_in_pq set_processed_item_as_completed_def wp_with_lock
        held_def)
qed

lemma total_sq:
  assumes "stable I m" "\<And>s. I s \<Longrightarrow> wp m (\<lambda>_ _. True) (\<lambda>_ _. False) s"
    and "\<And>s. I s \<Longrightarrow> wp n (\<lambda>_ _. True) (\<lambda>_ _. False) s" "I s"
  shows "wp (sq m n) (\<lambda>_ _. True) (\<lambda>_ _. False) s"
  unfolding wp_sq
  by (rule wp_mono [OF wp_conj [OF stableD [OF assms(1,4)] assms(2) [OF assms(4)]]]) (use assms(3) in auto)

lemma start_total:
  assumes "store_ok q" "mode_ok q" "\<not> pq_opened q"
    and "running q = JDict [] \<or> the_uid (running q) \<notin> the_uid ` set (queue q)"
  shows "wp (manager_start first alive (bnd (load_lists_from_worker si ow) (\<lambda>_. ret ())) answer)
     (\<lambda>_ _. True) (\<lambda>_ _. False) (new_manager em groups q cf w)"
proof -
  let ?s = "new_manager em groups q cf w"
  let ?q = "q\<lparr>pq_next := pq_next q + 2\<rparr>"
  have pq: "mg_pq ?s = ?q" "mg_jobs ?s = []" by (simp_all add: new_manager_def)
  have view: "queue ?q = queue q" "running ?q = running q" "history ?q = history q" "\<not> pq_opened ?q"
    using assms(3) by (simp_all add: queue_def running_def history_def name_defs)
  have st: "store_ok ?q" "mode_ok ?q"
    using store_ok_later [OF assms(1), of ?q] assms(2) view by (simp_all add: mode_ok_def)
  have last: "wp (sq (bnd (gets mg_autostart) (\<lambda>on. when_do on (schedule Autostart)))
      (upd (\<lambda>s. if mg_state s = INITIALIZING then s\<lparr>mg_state := IDLE\<rparr> else s))) (\<lambda>_ _. True) (\<lambda>_ _. False) u" for u
    by (simp add: wp_rules)
  have rest: "wp (sq (restore_flags first) (sq (catch load_lock_info (\<lambda>_. ret ()))
      (sq (recover_worker alive (bnd (load_lists_from_worker si ow) (\<lambda>_. ret ())) answer)
      (sq settle_unknown_plan (sq (bnd (gets mg_autostart) (\<lambda>on. when_do on (schedule Autostart)))
         (upd (\<lambda>s. if mg_state s = INITIALIZING then s\<lparr>mg_state := IDLE\<rparr> else s)))))))
      (\<lambda>_ _. True) (\<lambda>_ _. False) u" if "held u" for u
    by (intro total_sq [OF held_parts(1) _ _ that] total_sq [OF held_parts(2)] total_sq [OF held_parts(3)]
        total_sq [OF held_parts(4)] wp_settle last)
      (simp_all add: restore_flags_def set_queue_stop_pending_def set_queue_autostart_enabled_def wp_rules
        wp_in_pq wp_retrieve wp_top recover_worker_def get_running_item_info_def split: option.splits)
  have "wp (pq_start (Inr ())) (\<lambda>_ t. pq_wf t \<and> pq_has_lock t) (\<lambda>_ _. False) ?q"
  proof (rule wp_mono [OF wp_conj [OF wp_start_total [OF st(1) view(4)]
        wp_conj [OF wp_pq_start [OF st view(4)] started_view [OF view(4)]]]])
  qed (use assms(4) view in \<open>auto simp: info_view_def\<close>)
  then show ?thesis
    unfolding manager_start_def wp_sq [of "in_pq _"] wp_in_pq pq
    by (rule wp_mono) (auto intro!: rest simp: held_def mgr_ok_def pq)
qed

lemma restart_total:
  assumes "mreach si pl s" "\<not> is_immediate (running (mg_pq s))"
    and "manager_start first alive (bnd (load_lists_from_worker si ow) (\<lambda>_. ret ())) answer
       (new_manager emergency groups (restarted (mg_pq s)) c w) = (r, t)"
  shows "r = Inr ()"
proof -
  let ?q = "mg_pq s"
  have wf: "pq_wf ?q" by (rule mgr_ok_wf [OF mreach_ok [OF assms(1)]])
  have st: "store_ok (restarted ?q)"
    by (rule store_ok_later [OF pq_wf_store_ok [OF wf]]) simp_all
  have "running ?q = JDict [] \<or> the_uid (running ?q) \<notin> the_uid ` set (queue ?q)"
    using queue_okD(8) [OF pq_wf_queue_ok [OF wf]] assms(2) by (auto simp: reserved_def)
  moreover have "mode_ok (restarted ?q)" by (simp add: mode_ok_def default_mode_valid)
  ultimately have "wp (manager_start first alive (bnd (load_lists_from_worker si ow) (\<lambda>_. ret ())) answer)
     (\<lambda>_ _. True) (\<lambda>_ _. False) (new_manager emergency groups (restarted ?q) c w)"
    by (intro start_total [OF st _ restarted_closed]) simp_all
  then show ?thesis using assms(3) by (cases r) (simp_all add: wp_def)
qed

text \<open>
  C7: A restarted manager goes on as its predecessor was told to. Whatever happened before, when the
  manager process dies and a new one starts on the same store, the start succeeds (unless an item
  submitted for immediate execution was running), and the new manager has the same user lock with the
  same key (the emergency key is the one configured for the new process), the same pending stop
  of the queue, and the same autostart mode; if nobody held the lock, nobody holds it now.
\<close>

theorem restart_keeps_orders:
  assumes "mreach si pl s"
    and "manager_start False alive (bnd (load_lists_from_worker si ow) (\<lambda>_. ret ())) answer
       (new_manager emergency groups (restarted (mg_pq s)) c w) = (r, t)"
  shows "(\<not> is_immediate (running (mg_pq s)) \<longrightarrow> r = Inr ()) \<and>
     (r = Inr () \<longrightarrow>
        mg_stop_pending t = mg_stop_pending s \<and> mg_autostart t = mg_autostart s \<and>
        is_set (mg_lock t) = is_set (mg_lock s) \<and>
        (is_set (mg_lock s) \<longrightarrow> mg_lock t = (mg_lock s)\<lparr>li_emergency := emergency\<rparr>))"
proof (intro conjI impI)
  show "r = Inr ()" if "\<not> is_immediate (running (mg_pq s))"
    by (rule restart_total [OF assms(1) that assms(2)])
next
  assume r: "r = Inr ()"
  note s = reach_saves [OF assms(1)]
  note t = restart_saves [OF s assms(2) [unfolded r]]
  have e: "li_emergency (mg_lock t) = emergency"
    by (rule stable_run [OF start_emergency _ assms(2)]) (simp add: new_manager_def cleared_lock_def)
  show "mg_stop_pending t = mg_stop_pending s" "mg_autostart t = mg_autostart s"
    "is_set (mg_lock t) = is_set (mg_lock s)"
    "is_set (mg_lock s) \<Longrightarrow> mg_lock t = (mg_lock s)\<lparr>li_emergency := emergency\<rparr>"
    using s t e lock_kept_same [of _ "mg_lock s" "mg_lock t"] by (auto simp: flags_saved_def info_view_def)
qed

end
