(* ===== verification/ManagerDrain.thy ===== *)
theory ManagerDrain
  imports ManagerRestart
begin

text \<open>
  Running the queue to its end: with a worker that accepts and completes every plan and without
  an external configuration service, the plans of the queue run in order and the manager becomes
  idle after a bounded number of steps.
\<close>

section \<open>A round of the manager\<close>

text \<open>
  One step of the event loop: the oldest scheduled coroutine runs, or if there is none the worker
  is polled.
\<close>

definition turn :: "'o site \<Rightarrow> 'o answers \<Rightarrow> worker_state \<Rightarrow> 'o mgr \<Rightarrow> 'o mgr" where
  "turn si an ws s =
     (case mg_jobs s of
        j # js \<Rightarrow> snd (run_job si an j (drop_job j s))
      | [] \<Rightarrow> snd (periodic_worker_state_request_once (Some ws) False s))"

fun turns :: "'o site \<Rightarrow> 'o answers \<Rightarrow> worker_state \<Rightarrow> nat \<Rightarrow> 'o mgr \<Rightarrow> 'o mgr" where
  "turns si an ws 0 s = s"
| "turns si an ws (Suc n) s = turns si an ws n (turn si an ws s)"

text \<open>A plan in the queue that can be sent to the worker.\<close>

definition queued_plan :: "json \<Rightarrow> bool" where
  "queued_plan j \<longleftrightarrow> item_type_of j = Some (JStr ''plan'') \<and> \<not> is_immediate j \<and>
     (\<exists>info. plan_info_of j = Inr info)"

lemma timed_info:
  assumes "good_item j" "plan_info_of j = Inr info"
  shows "plan_info_of (timed j s) = Inr info"
proof -
  obtain d where "j = JDict d" using assms(1) by (rule good_itemE)
  then show ?thesis using assms(2)
    by (simp add: plan_info_of_def timed_def with_property_def dget_dset opt_field_def item_at_def)
qed

lemma wp_process_front:
  assumes wf: "pq_wf q" and q: "queue q = j # xs" "running q = JDict []"
    and j: "item_type_of j = Some (JStr ''plan'')" and "item_at (pq_mode q) ''loop'' = Inr l"
  shows "wp (process_next_item_body JNull)
     (\<lambda>x t. x = timed j q \<and> pq_wf t \<and> queue t = xs \<and> history t = history q \<and> running t = timed j q \<and>
        pq_mode t = pq_mode q \<and> pq_has_lock t = pq_has_lock q \<and>
        pq_queue_size t = int (length xs) \<and> pq_running_info t = timed j q) (\<lambda>_ _. False) q"
proof -
  have g: "good_item j" using pq_wf_item [OF wf, of j] q by simp
  then obtain d where d: "j = JDict d" by (rule good_itemE)
  have ty: "py_getitem j ''item_type'' = Inr (JStr ''plan'')" using j d
    by (simp add: item_type_of_def)
  show ?thesis
    using assms ty g pq_wf_started_queue [OF wf q(1)]
    by (simp add: process_next_item_body_def process_item_def set_next_item_as_running_body_def
        pq_wp wp_get_item_pos pos_index_def wp_start_plan [OF wf] refresh_running_def)
qed

lemma pq_wf_ignore:
  assumes "pq_wf s"
  obtains b where "item_at (pq_mode s) ''ignore_failures'' = Inr (JBool b)"
proof -
  have *: "validate_mode_items d ks = Inr ks' \<Longrightarrow> k \<in> set ks \<Longrightarrow> k \<notin> set ks' \<Longrightarrow>
      \<exists>b. dget d k = Some (JBool b)" for d ks ks' k
    by (induction d ks rule: validate_mode_items.induct) (force split: if_splits json.splits)+
  from assms obtain ks' where "validate_mode_items (pq_mode s) [''loop'', ''ignore_failures''] = Inr ks'"
    "ks' = []"
    by (auto simp: pq_wf_def validate_plan_queue_mode_def ebind_def split: sum.splits if_splits)
  from * [OF this(1), of "''ignore_failures''"] this(2) show ?thesis using that by auto
qed

section \<open>One plan\<close>

definition at_plan :: "json list \<Rightarrow> json list \<Rightarrow> 'o mgr \<Rightarrow> bool" where
  "at_plan q hs s \<longleftrightarrow>
     pq_wf (mg_pq s) \<and> pq_has_lock (mg_pq s) \<and> item_at (pq_mode (mg_pq s)) ''loop'' = Inr (JBool False) \<and>
     running (mg_pq s) = JDict [] \<and> queue (mg_pq s) = q \<and> history (mg_pq s) = hs \<and>
     \<not> mg_stop_pending s \<and> \<not> mg_pause_pending s \<and> mg_env s \<and>
     mg_state s \<in> {STARTING_QUEUE, EXECUTING_QUEUE} \<and>
     mg_jobs s = [case q of [] \<Rightarrow> Set_state IDLE False | j # _ \<Rightarrow> Plan_check j JNull]"

text \<open>The worker accepts, runs the plan to its end and reports that.\<close>

definition cooperative :: "'o answers \<Rightarrow> worker_state \<Rightarrow> bool" where
  "cooperative an ws \<longleftrightarrow> an_ok an \<and> ws_report ws \<and> \<not> ws_shutdown ws \<and>
     (\<exists>rp. an_report an = Some rp \<and> rp_state rp = ''completed'' \<and> \<not> rp_stop_queue rp)"

lemma turn_check:
  assumes "\<not> sg_enabled (si_settings si)" "mg_jobs s = [Plan_check j JNull]"
  shows "turn si an ws s = s\<lparr>mg_jobs := [Plan_reset JNull]\<rparr>"
  using assms by (simp add: turn_def plan_check_def check_staleness_before_plan_def drop_job_def)

lemma turn_reset:
  assumes "mg_jobs s = [Plan_reset JNull]" "an_ok an" "pq_has_lock (mg_pq s)"
    and "process_next_item_body JNull (mg_pq s) = (Inr x, q)" "plan_info_of x = Inr info"
  shows "turn si an ws s = s\<lparr>mg_pq := q, mg_jobs := [Plan_run info]\<rparr>"
  using assms
  by (simp add: turn_def plan_reset_def run_simps process_next_item_def with_lock_def drop_job_def
      schedule_def)

lemma turn_run:
  assumes "mg_jobs s = [Plan_run info]" "an_ok an"
  shows "turn si an ws s = s\<lparr>mg_state := EXECUTING_QUEUE, mg_jobs := []\<rparr>"
  using assms by (simp add: turn_def plan_run_def run_simps drop_job_def set_mstate_def)

lemma turn_poll:
  assumes "mg_jobs s = []" "mg_env s" "mg_state s = EXECUTING_QUEUE" "ws_report ws" "\<not> ws_shutdown ws"
  shows "turn si an ws s = s\<lparr>mg_timeouts := 0, mg_ws := Some ws,
     mg_pause_pending := (ws_re ws \<noteq> Some ''paused'' \<and> mg_pause_pending s), mg_jobs := [Plan_report]\<rparr>"
  using assms
  by (simp add: turn_def periodic_worker_state_request_once_def worker_answered_def run_simps when_do_def
      schedule_def)

lemma run_front:
  assumes "pq_wf q" "pq_has_lock q" "queue q = j # xs"
  shows "get_item (JStr ''front'') JNull q = (Inr j, q)"
proof -
  have "good_item j" using pq_wf_item [OF assms(1), of j] assms(3) by simp
  then have "wp (get_item (JStr ''front'') JNull) (\<lambda>x t. x = j \<and> t = q) (\<lambda>_ _. False) q"
    using assms by (simp add: get_item_def pq_wp wp_get_item_pos pos_index_def)
  from wp_returns [OF this] show ?thesis by auto
qed

lemma run_start_plan_task:
  assumes "pq_wf (mg_pq s)" "pq_has_lock (mg_pq s)"
    and "pq_queue_size (mg_pq s) = int (length (queue (mg_pq s)))"
    and "\<not> mg_stop_pending s" "\<not> mg_pause_pending s" "list_all queued_plan (queue (mg_pq s))"
  shows "start_plan_task False False JNull s = (Inr (), s\<lparr>mg_jobs := mg_jobs s @
     [case queue (mg_pq s) of [] \<Rightarrow> Set_state IDLE False | j # _ \<Rightarrow> Plan_check j JNull]\<rparr>)"
proof (cases "queue (mg_pq s)")
  case Nil
  then show ?thesis using assms
    by (simp add: start_plan_task_def run_simps get_queue_size_def schedule_def)
next
  case (Cons j xs)
  have "good_item j" using pq_wf_item [OF assms(1), of j] Cons by simp
  then obtain d where d: "j = JDict d" by (rule good_itemE)
  then have ty: "py_getitem j ''item_type'' = Inr (JStr ''plan'')"
    using assms(6) Cons by (simp add: queued_plan_def item_type_of_def)
  have same: "s\<lparr>mg_pause_pending := False\<rparr> = s" using assms(5) by simp
  show ?thesis using assms Cons run_front [OF assms(1,2) Cons] ty same
    by (simp add: start_plan_task_def start_next_item_def run_simps get_queue_size_def schedule_def)
qed

lemma turn_report:
  assumes "mg_jobs s = [Plan_report]" "an_report an = Some rp" "rp_state rp = ''completed''" "\<not> rp_stop_queue rp"
    and "\<not> sg_enabled (si_settings si)" "pq_has_lock (mg_pq s)"
    and "running_immediate (pq_running_info (mg_pq s)) = Inr False"
    and "item_at (pq_mode (mg_pq s)) ''ignore_failures'' = Inr ig"
    and "set_processed_item_as_completed_body (JStr ''completed'') (rp_uids rp) (rp_scan_ids rp)
       (rp_err_msg rp) (rp_err_tb rp) (mg_pq s) = (Inr e, q)"
  shows "turn si an ws s = snd (start_plan_task False False JNull (s\<lparr>mg_jobs := [], mg_pq := q\<rparr>))"
  using assms
  by (simp add: turn_def process_plan_report_def run_simps drop_job_def Let_def get_running_item_info_def
      set_processed_item_as_completed_def with_lock_def release_lock_mg_def release_plan_scope_lock_def)

lemma timed_immediate:
  assumes "good_item j" "\<not> is_immediate j"
  shows "running_immediate (timed j q) = Inr False"
proof -
  obtain d where d: "j = JDict d" using assms(1) by (rule good_itemE)
  then show ?thesis using assms(2) timed_good(4) [OF assms(1), of q]
    by (simp add: running_immediate_def timed_def with_property_def is_immediate_def props_of_sub dget_dset
        split: option.splits)
qed

lemma turns_5: "turns si an ws 5 s = turn si an ws (turn si an ws (turn si an ws (turn si an ws (turn si an ws s))))"
  by (simp add: eval_nat_numeral)

lemma turns_add: "turns si an ws (m + n) s = turns si an ws n (turns si an ws m s)"
  by (induction m arbitrary: s) simp_all

text \<open>The five turns of a plan; each may get answers of its own.\<close>

lemma round_turns:
  assumes at: "at_plan (j # xs) hs s" and j: "list_all queued_plan (j # xs)" "plan_info_of j = Inr info"
    and off: "\<not> sg_enabled (si_settings si)"
    and s1_def: "s1 = turn si an1 ws1 s" and s2_def: "s2 = turn si an2 ws2 s1"
    and s3_def: "s3 = turn si an3 ws3 s2" and s4_def: "s4 = turn si an4 ws4 s3"
  shows "mg_jobs s = [Plan_check j JNull]" "mg_jobs s1 = [Plan_reset JNull]"
    "an_ok an2 \<Longrightarrow> mg_jobs s2 = [Plan_run info]"
    "an_ok an2 \<Longrightarrow> an_ok an3 \<Longrightarrow> mg_jobs s3 = []"
    "an_ok an2 \<Longrightarrow> an_ok an3 \<Longrightarrow> ws_report ws4 \<Longrightarrow> \<not> ws_shutdown ws4 \<Longrightarrow> mg_jobs s4 = [Plan_report]"
    "an_ok an2 \<Longrightarrow> an_ok an3 \<Longrightarrow> ws_report ws4 \<Longrightarrow> \<not> ws_shutdown ws4 \<Longrightarrow> an_report an5 = Some rp \<Longrightarrow>
       rp_state rp = ''completed'' \<Longrightarrow> \<not> rp_stop_queue rp \<Longrightarrow>
       \<exists>e. the_uid e = the_uid j \<and> at_plan xs (hs @ [e]) (turn si an5 ws5 s4)"
proof -
  note s = at [unfolded at_plan_def]
  have pj: "item_type_of j = Some (JStr ''plan'')" "\<not> is_immediate j" using j(1) by (simp_all add: queued_plan_def)
  have g: "good_item j" using s pq_wf_item [of "mg_pq s" j] by simp
  let ?r = "timed j (mg_pq s)"
  obtain q where q: "process_next_item_body JNull (mg_pq s) = (Inr ?r, q)" "pq_wf q" "queue q = xs"
    "history q = hs" "running q = ?r" "pq_mode q = pq_mode (mg_pq s)" "pq_has_lock q" "pq_running_info q = ?r"
    using wp_returns [OF wp_process_front [of "mg_pq s" j xs, OF _ _ _ pj(1)]] s by auto
  obtain b where b: "item_at (pq_mode q) ''ignore_failures'' = Inr (JBool b)" using q(2) by (rule pq_wf_ignore)
  have ne: "running q \<noteq> JDict []" "\<not> is_immediate (running q)"
    using timed_good [OF g, of "mg_pq s"] pj(2) q(5) by (auto simp: good_running_def)
  have loop: "item_at (pq_mode q) ''loop'' = Inr (JBool False)" using s q(6) by simp
  let ?t1 = "s\<lparr>mg_jobs := [Plan_reset JNull]\<rparr>"
  let ?t2 = "?t1\<lparr>mg_pq := q, mg_jobs := [Plan_run info]\<rparr>"
  let ?t3 = "?t2\<lparr>mg_state := EXECUTING_QUEUE, mg_jobs := []\<rparr>"
  let ?t4 = "?t3\<lparr>mg_timeouts := 0, mg_ws := Some ws4,
     mg_pause_pending := (ws_re ws4 \<noteq> Some ''paused'' \<and> mg_pause_pending ?t3), mg_jobs := [Plan_report]\<rparr>"
  show "mg_jobs s = [Plan_check j JNull]" using s by simp
  then have t1: "turn si an1 ws1 s = ?t1" by (rule turn_check [OF off])
  show "mg_jobs s1 = [Plan_reset JNull]" by (simp add: s1_def t1)
  have t2: "s2 = ?t2" if "an_ok an2"
    unfolding s2_def s1_def t1
    by (rule turn_reset [OF _ that _ _ timed_info [OF g j(2)]]) (use s q(1) in simp_all)
  then show "an_ok an2 \<Longrightarrow> mg_jobs s2 = [Plan_run info]" by simp
  have t3: "s3 = ?t3" if ok: "an_ok an2" "an_ok an3"
    unfolding s3_def t2 [OF ok(1)] by (rule turn_run [OF _ ok(2)]) simp
  then show "an_ok an2 \<Longrightarrow> an_ok an3 \<Longrightarrow> mg_jobs s3 = []" by simp
  have t4: "s4 = ?t4" if ok: "an_ok an2" "an_ok an3" "ws_report ws4" "\<not> ws_shutdown ws4"
    unfolding s4_def t3 [OF ok(1,2)]
    by (rule turn_poll [OF _ _ _ ok(3,4)]) (use s in simp_all)
  then show "an_ok an2 \<Longrightarrow> an_ok an3 \<Longrightarrow> ws_report ws4 \<Longrightarrow> \<not> ws_shutdown ws4 \<Longrightarrow> mg_jobs s4 = [Plan_report]"
    by simp
  assume ok: "an_ok an2" "an_ok an3" "ws_report ws4" "\<not> ws_shutdown ws4"
    and rp: "an_report an5 = Some rp" "rp_state rp = ''completed''" "\<not> rp_stop_queue rp"
  let ?e = "finished (JStr ''completed'') (rp_uids rp) (rp_scan_ids rp) (rp_err_msg rp) (rp_err_tb rp) q"
  obtain q' where q': "set_processed_item_as_completed_body (JStr ''completed'') (rp_uids rp) (rp_scan_ids rp)
      (rp_err_msg rp) (rp_err_tb rp) q = (Inr ?e, q')" "has_view q q' xs (hs @ [?e]) (JDict [])
      ((pq_uid_dict q)(the_uid (running q) := None))"
    using wp_returns [OF wp_completed [OF q(2) loop ne(1), of "JStr ''completed''" "rp_uids rp" "rp_scan_ids rp"
      "rp_err_msg rp" "rp_err_tb rp"]] ne(2) q(3,4) by (auto simp: Let_def)
  have wf': "pq_wf q'"
    using wp_both [OF keep_completed [OF q(2)] q'(1)] by (simp add: safe_def)
  have t5: "turn si an5 ws5 ?t4 = snd (start_plan_task False False JNull (?t4\<lparr>mg_jobs := [], mg_pq := q'\<rparr>))"
    by (rule turn_report [where e = ?e and ig = "JBool b", OF _ rp off])
      (use q(6,7,8) q'(1) timed_immediate [OF g pj(2)] b in simp_all)
  have t6: "start_plan_task False False JNull (?t4\<lparr>mg_jobs := [], mg_pq := q'\<rparr>) = (Inr (),
     ?t4\<lparr>mg_jobs := [] @ [case xs of [] \<Rightarrow> Set_state IDLE False | i # _ \<Rightarrow> Plan_check i JNull], mg_pq := q'\<rparr>)"
    using run_start_plan_task [of "?t4\<lparr>mg_jobs := [], mg_pq := q'\<rparr>"] wf' q'(2) q(7) s j(1)
    by (simp add: has_view_def)
  have u: "the_uid ?e = the_uid j"
    using finished_good(2) [OF q(2) ne(1)] timed_good(2) [OF g] q(5) by simp
  have "at_plan xs (hs @ [?e]) (turn si an5 ws5 s4)"
    unfolding t4 [OF ok] t5 t6
    using s wf' q'(2) q(6,7) by (simp add: at_plan_def has_view_def)
  with u show "\<exists>e. the_uid e = the_uid j \<and> at_plan xs (hs @ [e]) (turn si an5 ws5 s4)" by blast
qed

lemma round:
  assumes "at_plan (j # xs) hs s" "list_all queued_plan (j # xs)"
    and "\<not> sg_enabled (si_settings si)" "cooperative an ws"
  shows "\<exists>e. the_uid e = the_uid j \<and> at_plan xs (hs @ [e]) (turns si an ws 5 s)"
proof -
  obtain info where info: "plan_info_of j = Inr info" using assms(2) by (auto simp: queued_plan_def)
  obtain rp where "an_ok an" "ws_report ws" "\<not> ws_shutdown ws" "an_report an = Some rp"
    "rp_state rp = ''completed''" "\<not> rp_stop_queue rp"
    using assms(4) by (auto simp: cooperative_def)
  then show ?thesis unfolding turns_5 by (intro round_turns(6) [OF assms(1,2) info assms(3) refl refl refl refl])
qed

lemma rounds:
  assumes "at_plan q hs s" "list_all queued_plan q" "\<not> sg_enabled (si_settings si)" "cooperative an ws"
  shows "\<exists>es. map the_uid es = map the_uid q \<and> at_plan [] (hs @ es) (turns si an ws (5 * length q) s)"
  using assms(1,2)
proof (induction q arbitrary: hs s)
  case (Cons j q)
  obtain e where e: "the_uid e = the_uid j" "at_plan q (hs @ [e]) (turns si an ws 5 s)"
    using round [OF Cons.prems assms(3,4)] by blast
  obtain es where "map the_uid es = map the_uid q"
    "at_plan [] ((hs @ [e]) @ es) (turns si an ws (5 * length q) (turns si an ws 5 s))"
    using Cons.IH [OF e(2)] Cons.prems(2) by auto
  with e(1) show ?case
    by (intro exI [of _ "e # es"]) (simp add: turns_add [symmetric])
qed simp

section \<open>The whole queue\<close>

lemma view_info:
  assumes "key \<in> {''stop_pending_info'', ''autostart_mode_info'', ''lock_info''}"
  shows "queue (s\<lparr>pq_store := snd (store_set (name_info key s) v (pq_store s))\<rparr>) = queue s"
    "history (s\<lparr>pq_store := snd (store_set (name_info key s) v (pq_store s))\<rparr>) = history s"
    "running (s\<lparr>pq_store := snd (store_set (name_info key s) v (pq_store s))\<rparr>) = running s"
  using assms by (auto simp: queue_def history_def running_def store_set_def name_defs name_info_def)

definition stop_saved :: "bool \<Rightarrow> pq \<Rightarrow> pq" where
  "stop_saved b q = q\<lparr>pq_store := snd (store_set (name_info ''stop_pending_info'' q)
     (JDict [(''enabled'', JBool b)]) (pq_store q))\<rparr>"

lemma stop_saved_view [simp]:
  "queue (stop_saved b q) = queue q" "history (stop_saved b q) = history q"
  "running (stop_saved b q) = running q" "pq_wf q \<Longrightarrow> pq_wf (stop_saved b q)"
  "pq_has_lock (stop_saved b q) = pq_has_lock q" "pq_mode (stop_saved b q) = pq_mode q"
  "pq_queue_size (stop_saved b q) = pq_queue_size q"
  unfolding stop_saved_def by (simp_all add: view_info pq_wf_info)

lemma run_stop_pending [run_simps]:
  "set_queue_stop_pending b s = (Inr (), s\<lparr>mg_stop_pending := b, mg_pq := stop_saved b (mg_pq s)\<rparr>)"
  by (simp add: set_queue_stop_pending_def run_simps info_save_def st_def stop_saved_def split_beta)

lemma last_turn:
  assumes "at_plan [] hs s"
  shows "turn si an ws s = s\<lparr>mg_jobs := [], mg_state := IDLE, mg_pause_pending := False, mg_task := None,
     mg_stop_pending := False, mg_pq := stop_saved False (mg_pq s)\<rparr>"
  using assms
  by (simp add: at_plan_def turn_def set_manager_state_def queue_stop_deactivate_def run_simps drop_job_def
      when_do_def)

lemma first_turn:
  assumes "pq_wf (mg_pq s)" "pq_has_lock (mg_pq s)" "ready_to_start s" "\<not> mg_pause_pending s" "mg_jobs s = []"
    and "running (mg_pq s) = JDict []" "pq_queue_size (mg_pq s) = int (length (queue (mg_pq s)))"
    and "dget (pq_mode (mg_pq s)) ''loop'' = Some (JBool False)" "list_all queued_plan (queue (mg_pq s))"
    and start: "start_plan_mg s = (r, s1)"
  shows "r = Inr True" "mg_jobs s1 = [Start_plan False False JNull]"
    "turn si an ws s1 = s\<lparr>mg_stop_pending := False, mg_pq := stop_saved False (mg_pq s),
       mg_state := STARTING_QUEUE, mg_jobs := [case queue (mg_pq s) of [] \<Rightarrow> Set_state IDLE False
         | j # _ \<Rightarrow> Plan_check j JNull]\<rparr>"
    "at_plan (queue (mg_pq s)) (history (mg_pq s)) (turn si an ws s1)"
proof -
  let ?q = "queue (mg_pq s)"
  let ?b = "s\<lparr>mg_stop_pending := False, mg_pq := stop_saved False (mg_pq s), mg_state := STARTING_QUEUE\<rparr>"
  have s1: "r = Inr True" "s1 = ?b\<lparr>mg_jobs := [Start_plan False False JNull]\<rparr>"
    using start assms(3,5)
    by (simp_all add: start_plan_mg_def begin_start_def queue_stop_deactivate_def set_mstate_def schedule_def
        run_simps when_do_def)
  then show "r = Inr True" "mg_jobs s1 = [Start_plan False False JNull]" by simp_all
  have "turn si an ws s1 = snd (start_plan_task False False JNull (?b\<lparr>mg_jobs := []\<rparr>))"
    by (simp add: turn_def s1 drop_job_def)
  also have "\<dots> = ?b\<lparr>mg_jobs := [case ?q of [] \<Rightarrow> Set_state IDLE False | j # _ \<Rightarrow> Plan_check j JNull]\<rparr>"
    using run_start_plan_task [of "?b\<lparr>mg_jobs := []\<rparr>"] assms(1,2,4,7,9) by simp
  finally show eq: "turn si an ws s1 =
      ?b\<lparr>mg_jobs := [case ?q of [] \<Rightarrow> Set_state IDLE False | j # _ \<Rightarrow> Plan_check j JNull]\<rparr>" .
  show "at_plan ?q (history (mg_pq s)) (turn si an ws s1)"
    unfolding eq using assms(1-3,4,6,8) by (simp add: at_plan_def ready_to_start_def item_at_def)
qed

text \<open>
  C3: The queue runs to its end. When the queue is started in an idle manager, its items are plans
  that can be sent to the worker, the worker completes each of them, nobody stops the queue, the
  loop mode is off and no configuration service is attached, then after \<open>5 n + 2\<close> steps for \<open>n\<close>
  plans the manager is idle again and has nothing left to do, the queue is empty, nothing is
  running, and the history has grown by exactly one entry per plan, in the order of the queue.
\<close>

theorem queue_drains:
  assumes "mreach si pl s" and "ready_to_start s" "\<not> mg_pause_pending s" "mg_jobs s = []"
    and "running (mg_pq s) = JDict []" "pq_queue_size (mg_pq s) = int (length (queue (mg_pq s)))"
    and "dget (pq_mode (mg_pq s)) ''loop'' = Some (JBool False)" "list_all queued_plan (queue (mg_pq s))"
    and "\<not> sg_enabled (si_settings si)" "cooperative an ws"
    and start: "start_plan_mg s = (r, s1)"
    and t: "t = turns si an ws (5 * length (queue (mg_pq s)) + 2) s1"
  shows "r = Inr True \<and> mg_state t = IDLE \<and> mg_jobs t = [] \<and> mg_env t \<and>
     queue (mg_pq t) = [] \<and> running (mg_pq t) = JDict [] \<and>
     (\<exists>es. history (mg_pq t) = history (mg_pq s) @ es \<and> map the_uid es = map the_uid (queue (mg_pq s)))"
proof -
  let ?q = "queue (mg_pq s)"
  have wf: "pq_wf (mg_pq s)" "pq_has_lock (mg_pq s)"
    using mgr_ok_wf [OF mreach_ok [OF assms(1)]] reach_saves [OF assms(1)] by (simp_all add: flags_saved_def)
  note first = first_turn [OF wf assms(2-8) start]
  obtain es where es: "map the_uid es = map the_uid ?q"
    "at_plan [] (history (mg_pq s) @ es) (turns si an ws (5 * length ?q) (turn si an ws s1))"
    using rounds [OF first(4) assms(8-10)] by blast
  have "t = turn si an ws (turns si an ws (5 * length ?q) (turn si an ws s1))"
    using turns_add [of si an ws "Suc (5 * length ?q)" 1 s1] by (simp add: t)
  then show ?thesis using last_turn [OF es(2)] es first(1) by (auto simp: at_plan_def)
qed

end
