(* ===== verification/ManagerLockProps.thy ===== *)
theory ManagerLockProps
  imports ManagerInv
begin

text \<open>
  The lock of the manager: what it refuses, and that it and the flags of the queue survive a
  restart of the manager process.
\<close>

section \<open>Requests without the key\<close>

text \<open>Does the lock concern a request, and does the request carry a key that opens it?\<close>

definition lock_concerns :: "lock_info \<Rightarrow> call \<Rightarrow> bool" where
  "lock_concerns li c \<longleftrightarrow>
     about_queue c \<and> truthy (li_queue li) \<or>
     about_environment c \<and> truthy (li_environment li) \<or>
     (c = User_lock \<or> c = User_unlock) \<and> is_set li"

definition carries_key :: "lock_info \<Rightarrow> call \<Rightarrow> dict \<Rightarrow> bool" where
  "carries_key li c req = check_lock_key (param ''lock_key'' JNull req) (c = User_unlock) li"

lemma locked_environment_request:
  assumes "truthy (li_environment (mg_lock s))" "\<not> py_eq (param ''lock_key'' JNull req) (li_key (mg_lock s))"
  shows "environment_request ns req s = (Inl ValueError, s)"
proof -
  have "validate_lock_key (param ''lock_key'' JNull req) True False s = (Inl ValueError, s)"
    using assms
    by (auto simp: validate_lock_key_def run_simps locked_for_def check_lock_key_def is_set_def Let_def
        split: json.splits)
  then show ?thesis
    by (simp add: environment_request_def check_request_for_unsupported_params_def run_simps)
qed

lemma required_param: "required_str k req s = (case dget req k of
    Some v \<Rightarrow> if nonempty_str v then (Inr v, s) else (Inl ValueError, s) | None \<Rightarrow> (Inl ValueError, s))"
  by (simp add: required_str_def run_simps split: option.splits)

text \<open>
  C8: A user's lock is effective. While a lock is on the queue or on the environment, every request
  that would change the part that is locked, and every request to take over or to remove the
  lock, is refused unless it carries the key of the lock (or, to remove it, the emergency key),
  and the refused request leaves the manager exactly as it was.
\<close>

theorem lock_refuses:
  assumes "lock_concerns (mg_lock s) c" "\<not> carries_key (mg_lock s) c req"
  shows "\<exists>rep. call_handler pl c req s = (Inr rep, s) \<and> \<not> rep_ok rep"
proof -
  let ?key = "param ''lock_key'' JNull req"
  have key: "\<not> py_eq ?key (li_key (mg_lock s))" and set: "is_set (mg_lock s)"
    using assms(2) by (auto simp: carries_key_def check_lock_key_def)
  have env: "\<exists>rep. call_handler pl c req s = (Inr rep, s) \<and> \<not> rep_ok rep"
    if "about_environment c" "truthy (li_environment (mg_lock s))"
    using that(1)
    by (cases c) (simp_all add: simple_handler_def queue_autostart_handler_def re_pause_handler_def
        queue_item_execute_handler_def failing_def run_simps locked_environment_request [OF that(2) key])
  have lock: "\<exists>rep. lock_handler req s = (Inr rep, s) \<and> \<not> rep_ok rep"
    using key set
    by (auto simp: lock_handler_def failing_def run_simps required_param check_lock_key_def
        check_request_for_unsupported_params_def param_def Let_def split: option.splits)
  have unlock: "\<exists>rep. unlock_handler req s = (Inr rep, s) \<and> \<not> rep_ok rep" if "c = User_unlock"
    using assms(2) set that
    by (auto simp: unlock_handler_def failing_def run_simps required_param carries_key_def lock_reply_def
        check_request_for_unsupported_params_def param_def split: option.splits)
  show ?thesis
    using assms(1) env lock unlock queue_lock_protects [OF _ _ key]
    by (cases c) (auto simp: lock_concerns_def)
qed

end
