(* ===== verification/ManagerRace.thy ===== *)
theory ManagerRace
  imports ManagerDrain ManagerLockProps
begin

text \<open>
  What happens when clients edit the queue while the manager starts a plan. Between the moment
  the front item is chosen (and its devices are locked) and the moment it leaves the queue, the
  coroutine waits for the worker; the queue can change meanwhile.
\<close>

section \<open>The item that leaves the queue\<close>


section \<open>An emptied queue\<close>

text \<open>
  A manager that is starting the queue and has no coroutine left to do it.
\<close>

definition stuck :: "'o mgr \<Rightarrow> bool" where
  "stuck s \<longleftrightarrow> mg_state s = STARTING_QUEUE \<and> set (mg_jobs s) \<subseteq> {Autostart, Unexpected_shutdown}"

lemma emptied_reset:
  assumes "pq_wf (mg_pq s)" "pq_has_lock (mg_pq s)" "queue (mg_pq s) = []"
  shows "plan_reset si nt True JNull s = (Inl IndexError, s)"
proof -
  obtain l where l: "item_at (pq_mode (mg_pq s)) ''loop'' = Inr (JBool l)" using assms(1) by (rule pq_wf_loop)
  have "wp (process_next_item JNull) (\<lambda>_ _. False) (\<lambda>e t. e = IndexError \<and> t = mg_pq s) (mg_pq s)"
    using assms l
    by (simp add: process_next_item_def process_next_item_body_def pq_wp wp_get_item_pos pos_index_def)
  then have "process_next_item JNull (mg_pq s) = (Inl IndexError, mg_pq s)"
    by (auto simp: wp_def split: prod.splits sum.splits)
  then show ?thesis by (simp add: plan_reset_def run_simps)
qed

lemma stuck_pq: "stuck (s\<lparr>mg_pq := q\<rparr>) = stuck s"
  by (simp add: stuck_def)

lemma stuck_in_pq [stable_rules]: "stable stuck (in_pq m)"
  by (auto simp: stable_def wp_def in_pq_def stuck_def split: prod.splits sum.splits)

lemma stuck_schedule: "j \<in> {Autostart, Unexpected_shutdown} \<Longrightarrow> stable stuck (schedule j)"
  by (auto simp: stable_def wp_rules stuck_def)

lemma stuck_upd:
  "(\<And>s. mg_state (f s) = mg_state s \<and> mg_jobs (f s) = mg_jobs s) \<Longrightarrow> stable stuck (upd f)"
  by (rule stable_upd) (simp add: stuck_def)

lemma stuck_coord: "stable stuck (in_coord f)"
  by (auto simp: stable_def wp_in_coord stuck_def split: prod.splits)

lemma stuck_reports: "stable stuck (bnd (gets mg_state) (\<lambda>st.
     if st = CLOSING_ENVIRONMENT then
       when_do (ws_environment ws = ''closing'') (complete_manager_task True)
     else if st = CREATING_ENVIRONMENT then
       sq (when_do (ws_environment ws \<in> {''idle'', ''executing_plan'', ''executing_task''})
             (complete_manager_task True))
         (when_do (ws_environment ws = ''closing'') (complete_manager_task False))
     else when_do (st \<in> {EXECUTING_QUEUE, PAUSED} \<and> ws_report ws) (schedule Plan_report)))"
  by (simp add: stable_def wp_rules stuck_def)

lemma stuck_refused:
  "stable stuck start_re_worker" "stable stuck stop_re_worker" "stable stuck start_plan_mg"
  "stable stuck (start_single_plan item)" "stable stuck (continue_run_engine b)"
  by (auto simp: stable_def wp_rules stuck_def start_re_worker_def stop_re_worker_def start_plan_mg_def
      start_single_plan_def continue_run_engine_def ready_to_start_def)

lemma stuck_switches:
  "stable stuck (set_queue_stop_pending b)" "stable stuck (set_queue_autostart_enabled b)"
  unfolding set_queue_stop_pending_def set_queue_autostart_enabled_def
  by (intro stable_rules stuck_upd; simp)+

lemma stuck_switch_calls:
  "stable stuck queue_stop_activate" "stable stuck queue_stop_deactivate"
  "stable stuck autostart_enable" "stable stuck autostart_disable" "stable stuck (re_pause b)"
  unfolding queue_stop_activate_def queue_stop_deactivate_def autostart_enable_def autostart_disable_def
    re_pause_def
  by (intro stable_rules stuck_switches stuck_schedule stuck_upd; simp)+

lemma stuck_locks:
  "stable stuck (lock_handler req)" "stable stuck (lock_info_handler req)" "stable stuck (unlock_handler req)"
  unfolding lock_handler_def lock_info_handler_def unlock_handler_def set_lock_def clear_lock_def
    save_lock_info_def Let_def
  by (intro stable_rules stuck_upd; simp)+

lemma stuck_autostart: "stable stuck (queue_autostart_handler req)"
proof -
  have "stable stuck (case v of JBool b \<Rightarrow>
      bnd (if b then autostart_enable else autostart_disable) (\<lambda>ok. ret (reply ok JNull JNull))
    | _ \<Rightarrow> raise TypeError)" for v
    by (cases v) (auto intro!: stable_rules stuck_switch_calls)
  then show ?thesis unfolding queue_autostart_handler_def by (intro stable_rules)
qed

lemma stuck_prepare: "stable stuck (prepare_request_item pl item ty user ug new)"
  unfolding prepare_request_item_def Let_def
  by (cases item; simp only: json.case; intro stable_rules)

lemma stuck_execute: "stable stuck (queue_item_execute_handler pl req)"
  unfolding queue_item_execute_handler_def by (intro stable_rules stuck_prepare stuck_refused)

lemma stuck_call:
  assumes "c \<noteq> Environment_destroy" "\<nexists>q. c = Queue_call q"
  shows "stable stuck (call_handler pl c req)"
proof -
  have pause: "stable stuck (re_pause_handler b req)" for b
    unfolding re_pause_handler_def Let_def by (intro stable_rules stuck_switch_calls)
  show ?thesis
    using assms
    by (cases c) (simp_all add: stable_simple stuck_refused stuck_switch_calls stuck_locks stuck_autostart
        stuck_execute pause)
qed

text \<open>The steps of the manager without a destruction of the environment, a dead worker or a restart.\<close>

inductive unhelped :: "'o site \<Rightarrow> policy \<Rightarrow> 'o mgr \<Rightarrow> 'o mgr \<Rightarrow> bool" for si pl where
  other_request:
    "request_ok s req \<Longrightarrow> c \<noteq> Environment_destroy \<Longrightarrow> call_handler pl c req s = (r, t) \<Longrightarrow> unhelped si pl s t"
| any_task: "start_task bg answer s = (r, t) \<Longrightarrow> unhelped si pl s t"
| any_task_done: "task_result uid s = (r, t) \<Longrightarrow> unhelped si pl s t"
| any_coroutine:
    "j \<in> set (mg_jobs s) \<Longrightarrow> can_run j s \<Longrightarrow> run_job si an j (drop_job j s) = (r, t) \<Longrightarrow> unhelped si pl s t"
| live_poll: "periodic_worker_state_request_once answer False s = (r, t) \<Longrightarrow> unhelped si pl s t"
| any_service: "unhelped si pl s (s\<lparr>mg_config := snd (handle (si_models si) (si_classes si) rq (mg_config s))\<rparr>)"

lemma unhelped_step: "unhelped si pl s t \<Longrightarrow> mstep si pl s t"
  by (induction rule: unhelped.induct) (blast intro: mstep.intros)+

lemma stuck_step:
  assumes "unhelped si pl s t" "stuck s" "pq_wf (mg_pq s)"
  shows "stuck t"
  using assms
proof (induction rule: unhelped.induct)
  case (other_request s req c r t)
  show ?case
  proof (cases "\<exists>q. c = Queue_call q")
    case True
    then obtain q where "queue_handler pl q req s = (r, t)" using other_request(3) by auto
    then have "requeued s t" using stable_run [OF mkeeps_handler [OF other_request(1)], of s] other_request(5) by simp
    then show ?thesis using other_request(4) stuck_pq by (metis requeued_def)
  next
    case False
    show ?thesis by (rule stable_run [OF stuck_call [OF other_request(2) False] other_request(4,3)])
  qed
next
  case (any_task bg answer s r t)
  then show ?case by (auto simp: start_task_def run_simps stuck_def when_do_def split: if_splits)
next
  case (any_task_done uid s r t)
  then show ?case by (auto simp: task_result_def run_simps stuck_def when_do_def)
next
  case (any_coroutine j s an r t)
  then have "j = Autostart \<or> j = Unexpected_shutdown" "stuck (drop_job j s)"
    using set_remove1_subset [of j "mg_jobs s"] by (auto simp: stuck_def drop_job_def)
  moreover have "stable stuck (handle_unexpected_worker_shutdown si nt a b)" for nt a b
    unfolding handle_unexpected_worker_shutdown_def confirm_re_worker_exit_def unlock_devices_mg_def
    by (intro stable_rules stuck_coord stuck_upd) simp
  moreover have "stable stuck autostart_round"
    unfolding autostart_round_def by (intro stable_rules stuck_refused stuck_schedule) simp_all
  ultimately show ?case using any_coroutine(3) stable_run by fastforce
next
  case (live_poll answer s r t)
  have "stable stuck (periodic_worker_state_request_once answer False)"
    unfolding periodic_worker_state_request_once_def handle_possible_worker_death_def worker_answered_def
    by (intro stable_rules stuck_upd stuck_reports stuck_schedule) simp_all
  from stable_run [OF this live_poll(2,1)] show ?case .
qed (simp add: stuck_def)

lemma stuck_run:
  assumes "(unhelped si pl)\<^sup>*\<^sup>* s t" "mreach si pl s" "stuck s"
  shows "mreach si pl t \<and> stuck t"
  using assms
proof (induction rule: rtranclp_induct)
  case (step t u)
  then have t: "mreach si pl t" "stuck t" by simp_all
  have "mreach si pl u" using t(1) unhelped_step [OF step(2)] by (rule mreach.next_step)
  moreover have "stuck u" by (rule stuck_step [OF step(2) t(2) mgr_ok_wf [OF mreach_ok [OF t(1)]]])
  ultimately show ?case by simp
qed simp


end
