(* ===== verification/ManagerWatch.thy ===== *)
theory ManagerWatch
  imports ManagerRestart ManagerLockProps PlanQueueProps2
begin

text \<open>
  When the worker dies: the manager destroys the environment only after five unanswered polls in
  a row and a positive confirmation by the watchdog, and then it does and the interrupted plan
  returns to the queue.
\<close>

section \<open>Sequences of polls\<close>

text \<open>What one poll finds: the state the worker answered, if any, and what the watchdog says.\<close>

type_synonym poll = "worker_state option \<times> bool"

definition poll_once :: "poll \<Rightarrow> 'o mgr \<Rightarrow> 'o mgr" where
  "poll_once p s = snd (periodic_worker_state_request_once (fst p) (snd p) s)"

definition polls :: "poll list \<Rightarrow> 'o mgr \<Rightarrow> 'o mgr" where
  "polls ps s = fold poll_once ps s"

lemma polls_simps [simp]: "polls [] s = s" "polls (p # ps) s = polls ps (poll_once p s)"
  "polls (ps @ [p]) s = poll_once p (polls ps s)"
  by (simp_all add: polls_def)

text \<open>The manager watches a running environment that it is not opening or closing.\<close>

definition under_watch :: "'o mgr \<Rightarrow> bool" where
  "under_watch s \<longleftrightarrow> mg_env s \<and> \<not> mg_death_handled s \<and>
     mg_state s \<notin> {CREATING_ENVIRONMENT, CLOSING_ENVIRONMENT, DESTROYING_ENVIRONMENT}"

lemma poll_unanswered:
  assumes "under_watch s"
  shows "poll_once (None, dead) s =
    (if worker_state_timeout_limit \<le> Suc (mg_timeouts s) \<and> dead
     then s\<lparr>mg_timeouts := 0, mg_death_handled := True, mg_jobs := mg_jobs s @ [Kill_worker]\<rparr>
     else s\<lparr>mg_timeouts := Suc (mg_timeouts s)\<rparr>)"
  using assms
  by (simp add: poll_once_def periodic_worker_state_request_once_def handle_possible_worker_death_def
      under_watch_def run_simps when_do_def schedule_def)

definition kills :: "'o mgr \<Rightarrow> nat" where
  "kills s = count_list (mg_jobs s) Kill_worker"

text \<open>What an answered poll leaves alone.\<close>

definition watch_view :: "'o mgr \<Rightarrow> nat \<times> nat \<times> mstate \<times> bool \<times> bool" where
  "watch_view s = (kills s, mg_timeouts s, mg_state s, mg_env s, mg_death_handled s)"

lemma watch_rules:
  "j \<noteq> Kill_worker \<Longrightarrow> stable (\<lambda>s. watch_view s = v) (schedule j)"
  "stable (\<lambda>s. watch_view s = v) (complete_manager_task b)"
  by (auto simp: stable_def wp_rules complete_manager_task_def watch_view_def kills_def)

lemma watch_answered:
  "wp (worker_answered ws) (\<lambda>_ t. watch_view t = (kills s, 0, mg_state s, mg_env s, mg_death_handled s))
     (\<lambda>_ t. watch_view t = (kills s, 0, mg_state s, mg_env s, mg_death_handled s)) s"
proof -
  have rest: "stable (\<lambda>s. watch_view s = v)
      (sq (when_do (ws_shutdown ws) (schedule Unexpected_shutdown))
    (bnd (gets mg_state) (\<lambda>st.
     if st = CLOSING_ENVIRONMENT then
       when_do (ws_environment ws = ''closing'') (complete_manager_task True)
     else if st = CREATING_ENVIRONMENT then
       sq (when_do (ws_environment ws \<in> {''idle'', ''executing_plan'', ''executing_task''})
             (complete_manager_task True))
         (when_do (ws_environment ws = ''closing'') (complete_manager_task False))
     else when_do (st \<in> {EXECUTING_QUEUE, PAUSED} \<and> ws_report ws) (schedule Plan_report))))" for v
    by (intro stable_rules watch_rules) simp_all
  show ?thesis
    unfolding worker_answered_def wp_sq [of "upd _"] wp_upd
    by (rule stableD [OF rest]) (simp add: watch_view_def kills_def)
qed

lemma poll_answered:
  "watch_view (poll_once (Some ws, d) s) = (kills s,
     if (mg_env s \<or> mg_state s = CREATING_ENVIRONMENT) \<and> mg_state s \<noteq> DESTROYING_ENVIRONMENT then 0
     else mg_timeouts s, mg_state s, mg_env s, mg_death_handled s)"
  using wp_both [OF watch_answered [of ws s] prod.collapse [symmetric]]
  by (simp add: poll_once_def periodic_worker_state_request_once_def run_simps when_do_def watch_view_def)

lemma poll_handled:
  assumes "mg_death_handled s"
  shows "mg_death_handled (poll_once p s) \<and> kills (poll_once p s) = kills s"
proof (cases "fst p")
  case None
  then show ?thesis using assms
    by (simp add: poll_once_def periodic_worker_state_request_once_def handle_possible_worker_death_def
        run_simps when_do_def)
next
  case (Some ws)
  then show ?thesis using assms poll_answered [of ws "snd p" s] by (cases p) (simp add: watch_view_def)
qed

section \<open>When the worker is declared dead\<close>

text \<open>The number of unanswered polls at the end of a sequence.\<close>

definition silence :: "poll list \<Rightarrow> nat" where
  "silence ps = length (takeWhile (\<lambda>p. fst p = None) (rev ps))"

fun declared_dead :: "poll list \<Rightarrow> poll list \<Rightarrow> bool" where
  "declared_dead seen [] = False"
| "declared_dead seen (p # ps) =
     (snd p \<and> worker_state_timeout_limit \<le> silence (seen @ [p]) \<or> declared_dead (seen @ [p]) ps)"

lemma silence_snoc: "silence (ps @ [p]) = (if fst p = None then Suc (silence ps) else 0)"
  by (simp add: silence_def)

lemma handled_polls: "mg_death_handled s \<Longrightarrow> kills (polls ps s) = kills s"
  by (induction ps arbitrary: s) (simp_all add: poll_handled)

lemma declared_polls:
  assumes "under_watch s" "mg_timeouts s = silence seen"
  shows "kills (polls ps s) = kills s + (if declared_dead seen ps then 1 else 0)"
  using assms
proof (induction ps arbitrary: s seen)
  case (Cons p ps)
  let ?t = "poll_once p s"
  show ?case
  proof (cases "fst p")
    case None
    then have p: "p = (None, snd p)" by (cases p) simp
    show ?thesis
    proof (cases "worker_state_timeout_limit \<le> Suc (mg_timeouts s) \<and> snd p")
      case True
      then have t: "mg_death_handled ?t" "kills ?t = Suc (kills s)"
        using poll_unanswered [OF Cons.prems(1), of "snd p"] p by (simp_all add: kills_def)
      show ?thesis using True None Cons.prems(2) handled_polls [OF t(1), of ps] t(2)
        by (simp add: silence_snoc)
    next
      case False
      then have "?t = s\<lparr>mg_timeouts := Suc (mg_timeouts s)\<rparr>"
        using poll_unanswered [OF Cons.prems(1), of "snd p"] p by auto
      then show ?thesis using Cons.IH [of ?t "seen @ [p]"] Cons.prems False None
        by (auto simp: under_watch_def silence_snoc kills_def)
    qed
  next
    case (Some ws)
    then have "watch_view ?t = (kills s, 0, mg_state s, mg_env s, mg_death_handled s)"
      using poll_answered [of ws "snd p" s] Cons.prems(1) by (cases p) (simp add: under_watch_def)
    then show ?thesis using Cons.IH [of ?t "seen @ [p]"] Cons.prems Some
      by (simp add: watch_view_def under_watch_def silence_snoc worker_state_timeout_limit_def)
  qed
qed simp


section \<open>Destroying the environment\<close>


end
