(* ===== verification/ManagerDemo.thy ===== *)
theory ManagerDemo
  imports ManagerRace ManagerWatch CoordDemo
begin

text \<open>
  Concrete sessions of the manager, without a configuration service, in which the hypotheses of
  its properties hold.
\<close>

section \<open>A session\<close>

definition demo_site :: "string site" where
  "demo_site = \<lparr>si_settings = default_settings, si_models = demo_models, si_classes = [],
     si_inst = demo_inst, si_devices = (\<lambda>_. [])\<rparr>"

definition plain_config :: config where
  "plain_config = \<lparr>cf_reg = empty_registry, cf_store = RegistryStore.empty_store, cf_pvs = [], cf_locks = demo_locks\<rparr>"

definition plain_worker :: "string worker" where
  "plain_worker = \<lparr>wk_idle = True, wk_ns = Some [], wk_overlay = [], wk_lists = True\<rparr>"

definition demo_policy :: policy where
  "demo_policy = \<lparr>pl_plan = (\<lambda>_ _. True), pl_function = (\<lambda>_ _. True)\<rparr>"

definition no_world :: open_world where
  "no_world = \<lparr>ow_now = 0, ow_probe = [], ow_boot = (\<lambda>_. ([], [])), ow_boot2 = (\<lambda>_. ([], [])),
     ow_feed = [], ow_devices = [], ow_data = None, ow_prefetched = None, ow_unlock = [], ow_lock = [],
     ow_force = [], ow_relock = []\<rparr>"

definition demo_report :: plan_report where
  "demo_report = \<lparr>rp_state = ''completed'', rp_uids = JList [], rp_scan_ids = JList [],
     rp_err_msg = JStr [], rp_err_tb = JStr [], rp_stop_queue = False\<rparr>"

definition demo_answers :: "string answers" where
  "demo_answers = \<lparr>an_ok = True, an_message = [], an_joined = True, an_open = no_world, an_worker = plain_worker,
     an_net = ([], 0), an_check = [], an_specs = [], an_reload = True, an_get = [], an_lock = [],
     an_report = Some demo_report\<rparr>"

definition idle_worker :: worker_state where
  "idle_worker = \<lparr>ws_environment = ''idle'', ws_re = Some ''idle'', ws_report = True, ws_shutdown = False,
     ws_item = JNull, ws_task = None, ws_deferred_pause = False\<rparr>"

definition demo_start_of :: "bool \<Rightarrow> pq \<Rightarrow> (py_error + unit) \<times> string mgr" where
  "demo_start_of first q = manager_start first False (bnd (load_lists_from_worker demo_site no_world) (\<lambda>_. ret ()))
     None (new_manager (Some ''ek'') [''primary''] q plain_config plain_worker)"

definition demo_call :: "call \<Rightarrow> dict \<Rightarrow> string mgr \<Rightarrow> string mgr" where
  "demo_call c req s = snd (call_handler demo_policy c req s)"

definition demo_job :: "job \<Rightarrow> string mgr \<Rightarrow> string mgr" where
  "demo_job j s = snd (run_job demo_site demo_answers j (drop_job j s))"

definition demo_poll :: "string mgr \<Rightarrow> string mgr" where
  "demo_poll s = snd (periodic_worker_state_request_once (Some idle_worker) False s)"

definition add_request :: "string \<Rightarrow> dict" where
  "add_request nm = [(''item'', JDict [(''item_type'', JStr ''plan''), (''name'', JStr nm)]),
     (''user'', JStr ''u''), (''user_group'', JStr ''primary'')]"

definition demo_m0 :: "string mgr" where
  "demo_m0 = snd (demo_start_of True (pq_init ''qs'' empty_store demo_uuid 0 (\<lambda>n. rat_of_nat n) 0))"

definition demo_m1 :: "string mgr" where
  "demo_m1 = demo_poll (demo_job Start_worker_wait (demo_poll (demo_job Start_worker
     (demo_call Environment_open [] demo_m0))))"

definition demo_m2 :: "string mgr" where
  "demo_m2 = demo_call (Queue_call Queue_item_add) (add_request ''a'') demo_m1"

definition view_of :: "string mgr \<Rightarrow>
    (mstate \<times> bool \<times> job list \<times> bool \<times> bool \<times> bool \<times> bool) \<times> string option \<times> json list \<times> json \<times> int \<times> dict" where
  "view_of s = ((mg_state s, mg_env s, mg_jobs s, mg_stop_pending s, mg_pause_pending s,
     truthy (li_environment (mg_lock s)), truthy (li_queue (mg_lock s))), re_state s,
     queue (mg_pq s), running (mg_pq s), pq_queue_size (mg_pq s), pq_mode (mg_pq s))"

lemma reach_call:
  "mreach demo_site demo_policy s \<Longrightarrow> request_ok s req \<Longrightarrow> mreach demo_site demo_policy (demo_call c req s)"
  unfolding demo_call_def by (metis mreach.next_step mstep.request prod.collapse)

lemma reach_job:
  "mreach demo_site demo_policy s \<Longrightarrow> j \<in> set (mg_jobs s) \<Longrightarrow> can_run j s \<Longrightarrow>
   mreach demo_site demo_policy (demo_job j s)"
  unfolding demo_job_def by (metis mreach.next_step mstep.coroutine prod.collapse)

lemma reach_poll: "mreach demo_site demo_policy s \<Longrightarrow> mreach demo_site demo_policy (demo_poll s)"
  unfolding demo_poll_def by (metis mreach.next_step mstep.poll prod.collapse)

lemma empty_request_ok [simp]: "request_ok s []"
  by (simp add: request_ok_def submitted_def)

lemma add_request_ok: "request_ok s (add_request nm)"
  by (simp add: request_ok_def submitted_def add_request_def item_arg_ok_def wf_dict_def
      dict_field_def)

lemma demo_m0_starts: "fst (demo_start_of True (pq_init ''qs'' QueueStore.empty_store demo_uuid 0 (\<lambda>n. rat_of_nat n) 0)) = Inr ()"
  by code_simp

lemma reach_m0: "mreach demo_site demo_policy demo_m0"
proof -
  have "demo_start_of True (pq_init ''qs'' QueueStore.empty_store demo_uuid 0 (\<lambda>n. rat_of_nat n) 0) = (Inr (), demo_m0)"
    using demo_m0_starts by (simp add: demo_m0_def prod_eq_iff)
  from mreach.first_start [OF inj_demo_uuid this [unfolded demo_start_of_def]] show ?thesis .
qed

lemma demo_opening:
  "Start_worker \<in> set (mg_jobs (demo_call Environment_open [] demo_m0))"
  "Start_worker_wait \<in> set (mg_jobs (demo_poll (demo_job Start_worker (demo_call Environment_open [] demo_m0)))) \<and>
   can_run Start_worker_wait (demo_poll (demo_job Start_worker (demo_call Environment_open [] demo_m0)))"
  by code_simp+

lemma reach_m2: "mreach demo_site demo_policy demo_m2"
  unfolding demo_m2_def demo_m1_def
  by (intro reach_call reach_poll reach_job reach_m0 empty_request_ok add_request_ok)
    (use demo_opening in simp_all)

definition demo_plan :: json where
  "demo_plan = JDict
    [(''item_type'', JStr ''plan''), (''name'', JStr ''a''), (''user'', JStr ''u''),
     (''user_group'', JStr ''primary''), (''item_uid'', JStr ''uuuuuuu'')]"

lemma demo_m2_view: "view_of demo_m2 = ((IDLE, True, [], False, False, False, False), Some ''idle'', [demo_plan], JDict [], 1,
     [(''loop'', JBool False), (''ignore_failures'', JBool False)])"
  unfolding demo_plan_def by code_simp

lemma demo_m2_values [simp]:
  "mg_state demo_m2 = IDLE" "mg_env demo_m2" "mg_jobs demo_m2 = []" "\<not> mg_stop_pending demo_m2"
  "\<not> mg_pause_pending demo_m2" "\<not> truthy (li_environment (mg_lock demo_m2))"
  "\<not> truthy (li_queue (mg_lock demo_m2))" "re_state demo_m2 = Some ''idle''" "queue (mg_pq demo_m2) = [demo_plan]"
  "running (mg_pq demo_m2) = JDict []" "pq_queue_size (mg_pq demo_m2) = 1"
  "pq_mode (mg_pq demo_m2) = [(''loop'', JBool False), (''ignore_failures'', JBool False)]"
  using demo_m2_view unfolding view_of_def prod.inject by blast+

lemma demo_plan_values: "item_type_of demo_plan = Some (JStr ''plan'')" "\<not> is_immediate demo_plan"
  "the_uid demo_plan = JStr ''uuuuuuu''" "case plan_info_of demo_plan of Inl e \<Rightarrow> False | Inr x \<Rightarrow> True"
  by code_simp+

lemma demo_plan_ok: "queued_plan demo_plan"
  using demo_plan_values by (auto simp: queued_plan_def split: sum.splits)

text \<open>The queue is started; the manager waits for the worker to be reset; the plan runs.\<close>

abbreviation demo_turn :: "string mgr \<Rightarrow> string mgr" where
  "demo_turn \<equiv> turn demo_site demo_answers idle_worker"

definition demo_queue_started :: "string mgr" where
  "demo_queue_started = demo_call Queue_start [] demo_m2"

definition demo_m3 :: "string mgr" where
  "demo_m3 = demo_turn (demo_turn demo_queue_started)"

definition demo_m4 :: "string mgr" where
  "demo_m4 = demo_turn demo_m3"

lemma reach_turn:
  assumes "mreach demo_site demo_policy s" "mg_jobs s = [j]" "can_run j s"
  shows "mreach demo_site demo_policy (demo_turn s)"
  using reach_job [OF assms(1) _ assms(3)] assms(2) by (simp add: turn_def demo_job_def)

lemma demo_site_off [simp]: "\<not> sg_enabled (si_settings demo_site)"
  by (simp add: demo_site_def default_settings_def)

lemma demo_cooperative: "cooperative demo_answers idle_worker"
  by (simp add: cooperative_def demo_answers_def idle_worker_def demo_report_def)

lemma demo_ready: "ready_to_start demo_m2" "list_all queued_plan (queue (mg_pq demo_m2))"
  "dget (pq_mode (mg_pq demo_m2)) ''loop'' = Some (JBool False)"
  "pq_queue_size (mg_pq demo_m2) = int (length (queue (mg_pq demo_m2)))"
  using demo_plan_ok by (simp_all add: ready_to_start_def)

lemma demo_queue_started_run: "start_plan_mg demo_m2 = (Inr True, demo_queue_started)"
proof -
  have "environment_request [] [] demo_m2 = (Inr (), demo_m2)"
    by (simp add: environment_request_def check_request_for_unsupported_params_def validate_lock_key_def
        param_def locked_for_def run_simps Let_def)
  moreover have run: "start_plan_mg demo_m2 = (Inr True, snd (start_plan_mg demo_m2))"
    using demo_ready(1) by (simp add: start_plan_mg_def run_simps begin_start_def queue_stop_deactivate_def
        when_do_def set_mstate_def schedule_def)
  obtain t where t: "start_plan_mg demo_m2 = (Inr True, t)" using run by blast
  ultimately have "demo_queue_started = t"
    by (simp add: demo_queue_started_def demo_call_def simple_handler_def failing_def run_simps)
  with t show ?thesis by simp
qed

lemma reach_started: "mreach demo_site demo_policy demo_queue_started"
  unfolding demo_queue_started_def by (rule reach_call [OF reach_m2]) simp

lemma demo_m2_queue: "pq_wf (mg_pq demo_m2)" "pq_has_lock (mg_pq demo_m2)"
  using mgr_ok_wf [OF mreach_ok [OF reach_m2]] reach_saves [OF reach_m2] by (simp_all add: flags_saved_def)

lemma demo_checking: "mg_jobs demo_queue_started = [Start_plan False False JNull]"
    "demo_turn demo_queue_started = demo_m2\<lparr>mg_stop_pending := False, mg_pq := stop_saved False (mg_pq demo_m2),
       mg_state := STARTING_QUEUE, mg_jobs := [Plan_check demo_plan JNull]\<rparr>"
  using first_turn [OF demo_m2_queue demo_ready(1) _ _ _ demo_ready(4,3,2) demo_queue_started_run] by simp_all

lemma demo_m3_eq: "demo_m3 = demo_m2\<lparr>mg_stop_pending := False, mg_pq := stop_saved False (mg_pq demo_m2),
    mg_state := STARTING_QUEUE, mg_jobs := [Plan_reset JNull]\<rparr>"
  unfolding demo_m3_def by (subst turn_check) (simp_all add: demo_checking(2))

lemma can_run_check [simp]: "can_run (Plan_check i x) s" "can_run (Start_plan b c x) s" "can_run (Plan_reset x) s"
  by simp_all

lemma reach_m3: "mreach demo_site demo_policy demo_m3"
proof -
  have "mreach demo_site demo_policy (demo_turn demo_queue_started)"
    by (rule reach_turn [OF reach_started demo_checking(1)]) simp
  then show ?thesis unfolding demo_m3_def
    by (rule reach_turn [where j = "Plan_check demo_plan JNull"]) (simp_all add: demo_checking(2))
qed

text \<open>Meanwhile a client clears the queue.\<close>

definition demo_m5 :: "string mgr" where
  "demo_m5 = demo_call (Queue_call Queue_clear) [] demo_m3"

lemma reach_m5: "mreach demo_site demo_policy demo_m5"
  unfolding demo_m5_def by (rule reach_call [OF reach_m3]) simp

lemma demo_m5_values: "mg_state demo_m5 = STARTING_QUEUE" "mg_jobs demo_m5 = [Plan_reset JNull]"
    "queue (mg_pq demo_m5) = []"
proof -
  have "queue_request [] [] demo_m3 = (Inr (), demo_m3)"
    by (simp add: queue_request_def check_request_for_unsupported_params_def validate_lock_key_def
        param_def locked_for_def run_simps Let_def demo_m3_eq)
  moreover obtain q where "clear_queue (mg_pq demo_m3) = (Inr (), q)" "queue q = []"
  proof -
    have "wp clear_queue (\<lambda>_ q. queue q = []) (\<lambda>_ _. False) (mg_pq demo_m3)"
      using demo_m2_queue by (simp add: clear_queue_def clear_queue_body_def pq_wp demo_m3_eq)
    then show ?thesis using that by (auto dest: wp_returns)
  qed
  ultimately show "mg_state demo_m5 = STARTING_QUEUE" "mg_jobs demo_m5 = [Plan_reset JNull]"
    "queue (mg_pq demo_m5) = []"
    by (simp_all add: demo_m5_def demo_call_def queue_clear_handler_def failing_def run_simps demo_m3_eq)
qed

text \<open>Without that request, the plan runs.\<close>

lemma reach_m4: "mreach demo_site demo_policy demo_m4"
  unfolding demo_m4_def by (rule reach_turn [OF reach_m3, of "Plan_reset JNull"]) (simp_all add: demo_m3_eq)

lemma demo_m4_values: "running (mg_pq demo_m4) \<noteq> JDict []" "\<not> is_immediate (running (mg_pq demo_m4))"
    "the_uid (running (mg_pq demo_m4)) = JStr ''uuuuuuu''"
proof -
  let ?q = "mg_pq demo_m3"
  have q: "pq_wf ?q" "pq_has_lock ?q" "queue ?q = [demo_plan]" "running ?q = JDict []"
    using demo_m2_queue by (simp_all add: demo_m3_eq)
  have g: "good_item demo_plan" using pq_wf_item [OF q(1), of demo_plan] q(3) by simp
  obtain info where info: "plan_info_of demo_plan = Inr info"
    using demo_plan_values(4) by (auto split: sum.splits)
  obtain l where "item_at (pq_mode ?q) ''loop'' = Inr (JBool l)" using q(1) by (rule pq_wf_loop)
  from wp_returns [OF wp_process_front [OF q(1,3,4) demo_plan_values(1) this]]
  obtain q' where q': "process_next_item_body JNull ?q = (Inr (timed demo_plan ?q), q')"
    "running q' = timed demo_plan ?q" by blast
  have eq: "demo_m4 = demo_m3\<lparr>mg_pq := q', mg_jobs := [Plan_run info]\<rparr>"
    unfolding demo_m4_def
    by (rule turn_reset [OF _ _ q(2) q'(1) timed_info [OF g info]])
      (simp_all add: demo_m3_eq demo_answers_def)
  have "running (mg_pq demo_m4) = timed demo_plan ?q" unfolding eq using q'(2) by simp
  then show "running (mg_pq demo_m4) \<noteq> JDict []" "\<not> is_immediate (running (mg_pq demo_m4))"
    "the_uid (running (mg_pq demo_m4)) = JStr ''uuuuuuu''"
    using timed_good [OF g, of ?q] demo_plan_values(2,3) by (auto simp: good_running_def)
qed

section \<open>The properties on this session\<close>


theorem manager_keeps_queue_instance:
  "distinct (map the_uid (queue (mg_pq demo_m4))) \<and>
   the_uid (running (mg_pq demo_m4)) \<notin> the_uid ` set (queue (mg_pq demo_m4))"
  using manager_keeps_queue [OF reach_m4] demo_m4_values by (simp add: reserved_def)

theorem lock_refuses_instance:
  "\<exists>rep. call_handler demo_policy (Queue_call Queue_clear) []
       (demo_m2\<lparr>mg_lock := (mg_lock demo_m2)\<lparr>li_queue := JBool True, li_key := JStr ''k''\<rparr>\<rparr>) =
     (Inr rep, demo_m2\<lparr>mg_lock := (mg_lock demo_m2)\<lparr>li_queue := JBool True, li_key := JStr ''k''\<rparr>\<rparr>) \<and>
     \<not> rep_ok rep"
  by (rule lock_refuses)
    (simp_all add: lock_concerns_def carries_key_def check_lock_key_def is_set_def param_def)

definition demo_user_locked :: "string mgr" where
  "demo_user_locked = demo_call User_lock
     [(''user'', JStr ''u''), (''lock_key'', JStr ''k''), (''queue'', JBool True)] demo_m0"

definition demo_restarted :: "(py_error + unit) \<times> string mgr" where
  "demo_restarted = demo_start_of False (restarted (mg_pq demo_user_locked))"

lemma demo_user_locked_values: "is_set (mg_lock demo_user_locked)" "\<not> is_immediate (running (mg_pq demo_user_locked))"
  by code_simp+

theorem restart_keeps_orders_instance:
  "fst demo_restarted = Inr () \<and> is_set (mg_lock (snd demo_restarted)) \<and>
   mg_lock (snd demo_restarted) = (mg_lock demo_user_locked)\<lparr>li_emergency := Some ''ek''\<rparr>"
proof -
  have reach: "mreach demo_site demo_policy demo_user_locked"
    unfolding demo_user_locked_def by (rule reach_call [OF reach_m0]) (simp add: request_ok_def submitted_def)
  have "demo_start_of False (restarted (mg_pq demo_user_locked)) = (fst demo_restarted, snd demo_restarted)"
    by (simp add: demo_restarted_def)
  from restart_keeps_orders [OF reach this [unfolded demo_start_of_def]] demo_user_locked_values
  show ?thesis by blast
qed



theorem queue_drains_instance:
  "mg_state (turns demo_site demo_answers idle_worker 7 demo_queue_started) = IDLE \<and>
   queue (mg_pq (turns demo_site demo_answers idle_worker 7 demo_queue_started)) = []"
  using queue_drains [OF reach_m2 demo_ready(1) _ _ _ demo_ready(4,3,2) demo_site_off demo_cooperative
      demo_queue_started_run refl]
  by simp



end
