(* ===== verification/RunList.thy ===== *)
theory RunList
  imports PipeRpc
begin

text \<open>
  The list of the runs of a plan (\<open>plan_monitoring.py\<close>): \<open>RunList\<close>, the callback that feeds it
  from the documents of the Run Engine, and the manager's copy of the list.
\<close>

section \<open>Runs\<close>

record run_entry =
  rn_uid :: json
  rn_scan_id :: "int option"
  rn_open :: bool
  rn_exit_status :: json

record run_list =
  rl_runs :: "run_entry list"
  rl_changed :: bool
  rl_enabled :: bool

definition new_run_list :: run_list where
  "new_run_list = \<lparr>rl_runs = [], rl_changed = False, rl_enabled = False\<rparr>"

definition enable_runs :: "run_list \<Rightarrow> run_list" where
  "enable_runs rl = rl\<lparr>rl_enabled := True\<rparr>"

definition disable_runs :: "run_list \<Rightarrow> run_list" where
  "disable_runs rl = rl\<lparr>rl_enabled := False\<rparr>"

text \<open>As the code has it: the truth value of the list.\<close>

definition is_empty_runs :: "run_list \<Rightarrow> bool" where
  "is_empty_runs rl = (rl_runs rl \<noteq> [])"

definition nruns :: "run_list \<Rightarrow> nat" where
  "nruns rl = length (rl_runs rl)"

definition clear_runs :: "run_list \<Rightarrow> run_list" where
  "clear_runs rl = rl\<lparr>rl_runs := [], rl_changed := True\<rparr>"

definition add_run :: "json \<Rightarrow> int option \<Rightarrow> run_list \<Rightarrow> run_list" where
  "add_run uid scan_id rl =
     (if \<not> rl_enabled rl then rl
      else rl\<lparr>rl_runs := rl_runs rl @
             [\<lparr>rn_uid = uid, rn_scan_id = scan_id, rn_open = True, rn_exit_status = JNull\<rparr>],
           rl_changed := True\<rparr>)"

text \<open>The last run with the UID is closed; None when there is none.\<close>

fun close_last :: "json \<Rightarrow> json \<Rightarrow> run_entry list \<Rightarrow> run_entry list option" where
  "close_last uid status [] = None"
| "close_last uid status (r # rs) =
     (case close_last uid status rs of
        Some rs' \<Rightarrow> Some (r # rs')
      | None \<Rightarrow>
          if py_eq (rn_uid r) uid then Some (r\<lparr>rn_open := False, rn_exit_status := status\<rparr> # rs)
          else None)"

definition set_run_closed :: "json \<Rightarrow> json \<Rightarrow> (run_list, unit) prog" where
  "set_run_closed uid status rl =
     (if \<not> rl_enabled rl then (Inr (), rl)
      else case close_last uid status (rl_runs rl) of
        None \<Rightarrow> (Inl BareException, rl)
      | Some rs \<Rightarrow> (Inr (), rl\<lparr>rl_runs := rs, rl_changed := True\<rparr>))"

definition get_run_list :: "bool \<Rightarrow> run_list \<Rightarrow> run_entry list \<times> run_list" where
  "get_run_list clear_state rl = (rl_runs rl, if clear_state then rl\<lparr>rl_changed := False\<rparr> else rl)"

definition get_uids :: "run_list \<Rightarrow> json list" where
  "get_uids rl = map rn_uid (rl_runs rl)"

definition get_scan_ids :: "run_list \<Rightarrow> int option list" where
  "get_scan_ids rl = map rn_scan_id (rl_runs rl)"

section \<open>The callback of the Run Engine\<close>

text \<open>\<open>int()\<close> of a string: blanks around it, a sign, digits with single underscores between them.\<close>

fun digits :: "int \<Rightarrow> bool \<Rightarrow> string \<Rightarrow> int option" where
  "digits acc after_digit [] = (if after_digit then Some acc else None)"
| "digits acc after_digit (c # cs) =
     (let k = of_char c in
      if 48 \<le> k \<and> k \<le> (57 :: nat) then digits (10 * acc + int k - 48) True cs
      else if c = CHR ''_'' \<and> after_digit then digits acc False cs
      else None)"

definition is_blank :: "char \<Rightarrow> bool" where
  "is_blank c = (let k = of_char c :: nat in 9 \<le> k \<and> k \<le> 13 \<or> 28 \<le> k \<and> k \<le> 32 \<or> k = 133 \<or> k = 160)"

definition strip :: "string \<Rightarrow> string" where
  "strip t = rev (dropWhile is_blank (rev (dropWhile is_blank t)))"

definition int_of_string :: "string \<Rightarrow> int option" where
  "int_of_string t =
     (case strip t of
        [] \<Rightarrow> None
      | c # cs \<Rightarrow> if c = CHR ''-'' then map_option uminus (digits 0 False cs)
                  else if c = CHR ''+'' then digits 0 False cs
                  else digits 0 False (c # cs))"

fun py_int :: "json \<Rightarrow> int option" where
  "py_int (JInt i) = Some i"
| "py_int (JBool b) = Some (if b then 1 else 0)"
| "py_int (JFloat r) = Some (if 0 \<le> r then \<lfloor>r\<rfloor> else - \<lfloor>- r\<rfloor>)"
| "py_int (JStr t) = int_of_string t"
| "py_int _ = None"

text \<open>The documents of the Run Engine; every exception is logged and dropped.\<close>

definition run_start :: "dict \<Rightarrow> run_list \<Rightarrow> run_list" where
  "run_start doc rl =
     (case dget doc ''uid'' of
        None \<Rightarrow> rl
      | Some uid \<Rightarrow> add_run uid (case dget doc ''scan_id'' of None \<Rightarrow> None | Some i \<Rightarrow> py_int i) rl)"

definition run_stop :: "dict \<Rightarrow> run_list \<Rightarrow> run_list" where
  "run_stop doc rl =
     (case (dget doc ''run_start'', dget doc ''exit_status'') of
        (Some uid, Some status) \<Rightarrow> snd (set_run_closed uid status rl)
      | _ \<Rightarrow> rl)"

section \<open>The copy of the manager\<close>

text \<open>\<open>_request_run_list_handler\<close> of the worker and \<open>_download_run_list\<close> of the manager.\<close>

definition request_run_list :: "run_list \<Rightarrow> run_entry list \<times> run_list" where
  "request_run_list rl = get_run_list True rl"

definition download_run_list ::
    "pipe \<Rightarrow> run_list \<times> run_entry list \<Rightarrow> run_list \<times> run_entry list" where
  "download_run_list p = (\<lambda>(rl, copy).
     case send p request_run_list rl of
       (None, rl') \<Rightarrow> (rl', copy)
     | (Some runs, rl') \<Rightarrow> (rl', runs))"

datatype run_event =
    Enable_runs
  | Disable_runs
  | Clear_runs
  | Run_start dict
  | Run_stop dict
  | Download_runs pipe

text \<open>The manager downloads when a poll finds \<open>run_list_updated\<close>.\<close>

fun run_step :: "run_event \<Rightarrow> run_list \<times> run_entry list \<Rightarrow> run_list \<times> run_entry list" where
  "run_step Enable_runs (rl, copy) = (enable_runs rl, copy)"
| "run_step Disable_runs (rl, copy) = (disable_runs rl, copy)"
| "run_step Clear_runs (rl, copy) = (clear_runs rl, copy)"
| "run_step (Run_start doc) (rl, copy) = (run_start doc rl, copy)"
| "run_step (Run_stop doc) (rl, copy) = (run_stop doc rl, copy)"
| "run_step (Download_runs p) (rl, copy) =
     (if rl_changed rl then download_run_list p (rl, copy) else (rl, copy))"

definition run_events :: "run_event list \<Rightarrow> run_list \<times> run_entry list \<Rightarrow> run_list \<times> run_entry list" where
  "run_events es x = fold run_step es x"

section \<open>The copy is current\<close>

lemma run_start_cases: "run_start doc rl = rl \<or> rl_changed (run_start doc rl)"
  by (auto simp: run_start_def add_run_def split: option.splits)

lemma run_stop_cases: "run_stop doc rl = rl \<or> rl_changed (run_stop doc rl)"
  by (auto simp: run_stop_def set_run_closed_def split: option.splits)

lemma run_step_current:
  assumes "rl_changed rl \<or> copy = rl_runs rl" "e \<noteq> Download_runs Reply_lost"
    and "run_step e (rl, copy) = (rl', copy')"
  shows "rl_changed rl' \<or> copy' = rl_runs rl'"
proof (cases e)
  case (Run_start doc)
  then show ?thesis using assms run_start_cases [of doc rl] by auto
next
  case (Run_stop doc)
  then show ?thesis using assms run_stop_cases [of doc rl] by auto
next
  case (Download_runs p)
  then show ?thesis using assms
    by (cases p) (auto simp: download_run_list_def send_def request_run_list_def get_run_list_def split: if_splits)
qed (use assms in \<open>auto simp: enable_runs_def disable_runs_def clear_runs_def\<close>)

text \<open>
  As long as no reply of a download is lost, the manager's copy is the worker's list whenever the
  worker does not announce a change.
\<close>

lemma run_list_current:
  assumes "Download_runs Reply_lost \<notin> set es" "run_events es (new_run_list, []) = (rl, copy)"
    and "\<not> rl_changed rl"
  shows "copy = rl_runs rl"
proof -
  have "case run_events es (new_run_list, []) of (rl, copy) \<Rightarrow> rl_changed rl \<or> copy = rl_runs rl"
    using assms(1)
  proof (induction es rule: rev_induct)
    case Nil
    show ?case by (simp add: run_events_def new_run_list_def)
  next
    case (snoc e es)
    obtain r c where rc: "run_events es (new_run_list, []) = (r, c)" by (rule prod.exhaust)
    obtain r' c' where "run_step e (r, c) = (r', c')" by (rule prod.exhaust)
    moreover have "rl_changed r \<or> c = rl_runs r" using snoc rc by simp
    ultimately show ?case
      using run_step_current [of r c e r' c'] snoc.prems rc by (auto simp: run_events_def)
  qed
  with assms(2,3) show ?thesis by simp
qed

text \<open>
  A lost reply hides the change: the worker has dropped its mark, so the copy stays behind until
  the next change.
\<close>

lemma lost_reply_hides_runs:
  assumes "rl_changed rl" "copy \<noteq> rl_runs rl"
  shows "run_events (Download_runs Reply_lost # replicate n (Download_runs Delivered)) (rl, copy) =
     (rl\<lparr>rl_changed := False\<rparr>, copy)"
proof -
  have "run_step (Download_runs Reply_lost) (rl, copy) = (rl\<lparr>rl_changed := False\<rparr>, copy)"
    using assms by (simp add: download_run_list_def send_def request_run_list_def get_run_list_def)
  moreover have "run_events (replicate n (Download_runs Delivered)) (rl\<lparr>rl_changed := False\<rparr>, copy) =
      (rl\<lparr>rl_changed := False\<rparr>, copy)"
    by (induction n) (simp_all add: run_events_def)
  ultimately show ?thesis by (simp add: run_events_def)
qed

end
