(* ===== verification/WorkerState.thy ===== *)
theory WorkerState
  imports RunList TaskResults
begin

text \<open>
  The worker process (\<open>manager/worker.py\<close>) in Python mode: its state, the handlers of the manager's
  commands, which run in the thread of the pipe, the main thread that executes plans and foreground
  tasks, the threads of background tasks, and the short-lived threads that mark a plan as running.
  What the Run Engine and the executed functions do is chosen by the events.
\<close>

section \<open>States\<close>

datatype estate =
    E_INITIALIZING
  | E_IDLE
  | E_FAILED
  | E_RESERVED
  | E_EXECUTING_PLAN
  | E_EXECUTING_TASK
  | E_CLOSING
  | E_CLOSED

fun estate_value :: "estate \<Rightarrow> string" where
  "estate_value E_INITIALIZING = ''initializing''"
| "estate_value E_IDLE = ''idle''"
| "estate_value E_FAILED = ''failed''"
| "estate_value E_RESERVED = ''reserved''"
| "estate_value E_EXECUTING_PLAN = ''executing_plan''"
| "estate_value E_EXECUTING_TASK = ''executing_task''"
| "estate_value E_CLOSING = ''closing''"
| "estate_value E_CLOSED = ''closed''"

datatype plan_exec = P_RESET | P_COMPLETED | P_SUBMITTED | P_RUNNING

datatype exec_option = NEW | RESUME | STOP | ABORT | HALT

fun plan_exit_status_expected :: "exec_option \<Rightarrow> string" where
  "plan_exit_status_expected NEW = ''completed''"
| "plan_exit_status_expected RESUME = ''completed''"
| "plan_exit_status_expected STOP = ''stopped''"
| "plan_exit_status_expected ABORT = ''aborted''"
| "plan_exit_status_expected HALT = ''halted''"

text \<open>\<open>ExecOption(option)\<close> for the options of a paused plan; other strings are refused before.\<close>

definition exec_option_of :: "string \<Rightarrow> exec_option option" where
  "exec_option_of t =
     (if t = ''resume'' then Some RESUME else if t = ''stop'' then Some STOP
      else if t = ''abort'' then Some ABORT else if t = ''halt'' then Some HALT else None)"

record task =
  tk_uid :: string
  tk_name :: string
  tk_start :: rat
  tk_background :: bool

text \<open>The entries of \<open>_execution_queue\<close>.\<close>

datatype work =
    Plan_work dict
  | Continue_work exec_option
  | Task_work task

record report =
  re_success :: bool
  re_result :: json
  re_uids :: "json list"
  re_scan_ids :: "int option list"
  re_err_msg :: string
  re_traceback :: string
  re_stop_queue :: bool
  re_plan_state :: string
  re_re_state :: "string option"

text \<open>
  Where the main thread is: not started, at \<open>_execution_queue.get\<close>, inside the call of the Run
  Engine, past a report but not yet idle, inside a task, past it but before its result is listed,
  at the end of a turn of the loop, out of the loop, waiting for the confirmation, at the end.
\<close>

datatype main_thread =
    At_start
  | At_get
  | In_plan exec_option
  | After_report
  | In_task task
  | After_task task_res
  | At_check
  | Out_of_loop
  | At_confirm
  | At_exit

text \<open>\<open>wk_threads\<close>: the background tasks that run; \<open>wk_timers\<close>: the sleeping
  \<open>set_plan_exec_state_as_running\<close> threads.\<close>

record rworker =
  wk_env :: estate
  wk_exec :: plan_exec
  wk_plan :: "dict option"
  wk_task :: "string option"
  wk_background :: int
  wk_report :: "report option"
  wk_delivered :: bool
  wk_queue :: "work list option"
  wk_re :: "string option"
  wk_runs :: run_list
  wk_completed :: "task_res list"
  wk_exit :: bool
  wk_exit_confirmed :: bool
  wk_shutdown_initiated :: bool
  wk_unexpected :: bool
  wk_main :: main_thread
  wk_threads :: "task list"
  wk_timers :: nat

definition new_worker :: rworker where
  "new_worker = \<lparr>wk_env = E_CLOSED, wk_exec = P_COMPLETED, wk_plan = None, wk_task = None, wk_background = 0,
     wk_report = None, wk_delivered = False, wk_queue = None, wk_re = None, wk_runs = new_run_list,
     wk_completed = [], wk_exit = False, wk_exit_confirmed = False, wk_shutdown_initiated = False,
     wk_unexpected = False, wk_main = At_start, wk_threads = [], wk_timers = 0\<rparr>"

text \<open>\<open>run\<close> begins in the child process; then commands can arrive.\<close>

definition run_begins :: "rworker \<Rightarrow> rworker" where
  "run_begins w = w\<lparr>wk_env := E_INITIALIZING\<rparr>"

section \<open>Commands of the manager\<close>

datatype verdict = Accepted | Rejected string | Raised_error string

definition quoted :: "string \<Rightarrow> string" where
  "quoted t = [CHR 0x27] @ t @ [CHR 0x27]"

text \<open>\<open>repr\<close> of the state of the Run Engine.\<close>

definition re_repr :: "string option \<Rightarrow> string" where
  "re_repr s = (case s of None \<Rightarrow> ''None'' | Some t \<Rightarrow> quoted t)"

text \<open>The name is read for the log after the state has changed and before the plan is queued.\<close>

definition start_new_plan :: "dict \<Rightarrow> rworker \<Rightarrow> verdict \<times> rworker" where
  "start_new_plan info w =
     (if wk_env w \<notin> {E_IDLE, E_RESERVED} then
        (Rejected (''Attempted to start a plan in '' @ quoted (estate_value (wk_env w)) @
           '' environment state. Accepted state: '' @ quoted ''idle''), w)
      else
        let w' = w\<lparr>wk_plan := Some info, wk_exec := P_SUBMITTED, wk_env := E_EXECUTING_PLAN\<rparr> in
        if \<not> dhas info ''name'' then (Raised_error (quoted ''name''), w')
        else (Accepted, w'\<lparr>wk_queue := map_option (\<lambda>q. q @ [Plan_work info]) (wk_queue w)\<rparr>))"

text \<open>\<open>not plan_info\<close> for the stored plan: no plan or an empty dictionary.\<close>

definition plan_stored :: "rworker \<Rightarrow> bool" where
  "plan_stored w = (case wk_plan w of None \<Rightarrow> False | Some info \<Rightarrow> info \<noteq> [])"

text \<open>Before startup has made the queue, \<open>self._execution_queue.empty()\<close> raises.\<close>

definition run_plan_handler :: "dict \<Rightarrow> rworker \<Rightarrow> verdict \<times> rworker" where
  "run_plan_handler info w =
     (let problem = (\<lambda>t. ''Attempt to start a plan (Run Engine) while '' @ t @ ''.'' @ [CHR 0x0A] @
          ''This may indicate a serious issue with the plan queue execution mechanism.'' @ [CHR 0x0A] @
          ''Please report the issue to developer team.'') in
      case wk_queue w of
        None \<Rightarrow> (Raised_error ''AttributeError'', w)
      | Some q \<Rightarrow>
          if q \<noteq> [] then (Rejected (problem ''the execution queue is not empty''), w)
          else if wk_re w = Some ''running'' then (Rejected (problem ''another plan is running''), w)
          else if plan_stored w \<or> wk_exec w \<noteq> P_RESET
          then (Rejected (problem ''worker is not reset after completion of the previous plan''), w)
          else start_new_plan info w)"

definition continue_plan :: "string \<Rightarrow> rworker \<Rightarrow> verdict \<times> rworker" where
  "continue_plan option w =
     (case exec_option_of option of
        None \<Rightarrow> (Raised_error (''Option '' @ quoted option @ '' is not supported. Supported options: ('' @
          quoted ''resume'' @ '', '' @ quoted ''abort'' @ '', '' @ quoted ''stop'' @ '', '' @ quoted ''halt'' @ '')''), w)
      | Some opt \<Rightarrow>
          if wk_env w \<notin> {E_IDLE, E_RESERVED}
          then (Rejected (''Attempted to '' @ option @ '' a plan in '' @ quoted (estate_value (wk_env w)) @
             '' environment state. Accepted state: '' @ quoted ''idle''), w)
          else (Accepted, w\<lparr>wk_env := E_EXECUTING_PLAN,
              wk_queue := map_option (\<lambda>q. q @ [Continue_work opt]) (wk_queue w)\<rparr>))"

definition continue_plan_handler :: "string \<Rightarrow> rworker \<Rightarrow> verdict \<times> rworker" where
  "continue_plan_handler option w =
     (if wk_re w \<noteq> Some ''paused''
      then (Rejected (''Run Engine must be in '' @ quoted ''paused'' @ '' state to continue. The state is '' @
        re_repr (wk_re w)), w)
      else continue_plan option w)"

text \<open>The request to pause goes to the event loop of the Run Engine.\<close>

definition pause_plan_handler :: "string \<Rightarrow> rworker \<Rightarrow> verdict" where
  "pause_plan_handler option w =
     (if wk_re w \<noteq> Some ''running''
      then Rejected (''Run engine can be paused only in '' @ quoted ''running'' @ '' state. Current state: '' @
        quoted (case wk_re w of None \<Rightarrow> ''None'' | Some t \<Rightarrow> t))
      else if option \<notin> {''deferred'', ''immediate''}
      then Raised_error (''Option '' @ quoted option @ '' is not supported. Available options: ('' @
        quoted ''deferred'' @ '', '' @ quoted ''immediate'' @ '')'')
      else Accepted)"

definition reset_worker_handler :: "rworker \<Rightarrow> verdict \<times> rworker" where
  "reset_worker_handler w =
     (if wk_re w \<in> {Some ''idle'', None}
      then (Accepted, w\<lparr>wk_plan := None, wk_exec := P_RESET, wk_report := None, wk_delivered := False\<rparr>)
      else (Rejected (''Run Engine must be in '' @ quoted ''idle'' @ '' state to continue. The state is '' @
        re_repr (wk_re w)), w))"

definition close_env_handler :: "rworker \<Rightarrow> verdict \<times> rworker" where
  "close_env_handler w =
     (if wk_re w = Some ''running'' then (Rejected ''Run Engine is executing a plan.Stop the running plan and try again.'', w)
      else (Accepted, w\<lparr>wk_exit := True, wk_shutdown_initiated := True\<rparr>))"

definition confirm_exit_handler :: "rworker \<Rightarrow> verdict \<times> rworker" where
  "confirm_exit_handler w =
     (if wk_exit w then (Accepted, w\<lparr>wk_exit_confirmed := True\<rparr>)
      else (Rejected (''Environment closing was not initiated. Use command '' @ quoted ''command_close_env'' @
        '' to initiate closing and wait for RE Worker state: environment state is '' @
        quoted (estate_value (wk_env w))), w))"

definition request_plan_report :: "rworker \<Rightarrow> report option \<times> rworker" where
  "request_plan_report w = (wk_report w, w\<lparr>wk_delivered := True\<rparr>)"

record status =
  sw_item :: json
  sw_plan_completed :: bool
  sw_report_available :: bool
  sw_re :: "string option"
  sw_env :: string
  sw_runs_updated :: bool
  sw_task :: "string option"
  sw_tasks_available :: bool
  sw_background :: int
  sw_unexpected :: bool

text \<open>None: the plan information has no UID, and the handler raises KeyError.\<close>

definition request_state_handler :: "rworker \<Rightarrow> status option" where
  "request_state_handler w =
     map_option (\<lambda>item.
     \<lparr>sw_item = item,
      sw_plan_completed = (wk_exec w = P_COMPLETED),
      sw_report_available = (wk_report w \<noteq> None \<and> \<not> wk_delivered w),
      sw_re = wk_re w, sw_env = estate_value (wk_env w), sw_runs_updated = rl_changed (wk_runs w),
      sw_task = wk_task w, sw_tasks_available = (wk_completed w \<noteq> []),
      sw_background = wk_background w, sw_unexpected = wk_unexpected w\<rparr>)
     (case wk_plan w of Some info \<Rightarrow> if info = [] then Some JNull else dget info ''item_uid''
      | None \<Rightarrow> Some JNull)"

text \<open>\<open>_start_task\<close>; foreground tasks run in the main thread, background tasks in their own.\<close>

definition task_rejected :: "task \<Rightarrow> rworker \<Rightarrow> string \<Rightarrow> verdict" where
  "task_rejected tk w acceptable =
     Rejected (''Task '' @ quoted (tk_name tk) @ '' was rejected by RE Worker process: Incorrect environment state: '' @
       quoted (estate_value (wk_env w)) @ ''. Acceptable states: '' @ acceptable)"

definition begin_task :: "task \<Rightarrow> rworker \<Rightarrow> verdict \<times> rworker" where
  "begin_task tk w =
     (if wk_env w \<notin> {E_IDLE, E_RESERVED, E_EXECUTING_PLAN, E_EXECUTING_TASK} then
        (task_rejected tk w (''['' @ quoted ''idle'' @ '', '' @ quoted ''reserved'' @ '', '' @
           quoted ''executing_plan'' @ '', '' @ quoted ''executing_task'' @ '']''), w)
      else if \<not> tk_background tk \<and> wk_env w \<notin> {E_IDLE, E_RESERVED} then
        (task_rejected tk w (quoted ''idle'' @ '', '' @ quoted ''reserved''), w)
      else if tk_background tk then
        (Accepted, w\<lparr>wk_background := wk_background w + 1, wk_threads := wk_threads w @ [tk]\<rparr>)
      else (Accepted, w\<lparr>wk_env := E_EXECUTING_TASK, wk_task := Some (tk_uid tk),
          wk_queue := map_option (\<lambda>q. q @ [Task_work tk]) (wk_queue w)\<rparr>))"

text \<open>The commands that start tasks, with the names they give them.\<close>

definition permissions_reload :: "string \<Rightarrow> rat \<Rightarrow> rworker \<Rightarrow> verdict \<times> rworker" where
  "permissions_reload uid now w =
     begin_task \<lparr>tk_uid = uid, tk_name = ''Reload Permissions'', tk_start = now, tk_background = True\<rparr> w"

definition load_script :: "bool \<Rightarrow> string \<Rightarrow> rat \<Rightarrow> rworker \<Rightarrow> verdict \<times> rworker" where
  "load_script background uid now w =
     begin_task \<lparr>tk_uid = uid, tk_name = ''Load script'', tk_start = now, tk_background = background\<rparr> w"

definition execute_function :: "bool \<Rightarrow> string \<Rightarrow> rat \<Rightarrow> rworker \<Rightarrow> verdict \<times> rworker" where
  "execute_function background uid now w =
     begin_task \<lparr>tk_uid = uid, tk_name = ''Execute function'', tk_start = now, tk_background = background\<rparr> w"

end
