(* ===== verification/WorkerRun.thy ===== *)
theory WorkerRun
  imports WorkerState
begin

text \<open>
  The main thread of the worker: startup, the execution loop, plans, tasks and the shutdown; the
  other threads; and runs of the worker as sequences of events.
\<close>

section \<open>Plans\<close>

text \<open>What the call of the Run Engine or of a task does: return, or raise with a text and a traceback.\<close>

datatype ending = Returns json | Raises string string

text \<open>\<open>_generate_new_plan\<close>: \<open>prep\<close> is the error of \<open>prepare_plan\<close>, if any.\<close>

definition generate_new_plan :: "(dict \<Rightarrow> string option) \<Rightarrow> dict \<Rightarrow> rworker \<Rightarrow> string option" where
  "generate_new_plan prep info w =
     map_option (\<lambda>t. ''Error occurred while processing plan parameters or starting the plan: '' @ t)
       (case prep info of
          Some why \<Rightarrow> Some why
        | None \<Rightarrow>
            if wk_re w = Some ''panicked''
            then Some (''Run Engine is in the '' @ quoted ''panicked'' @
              '' state. The environment must be closed and opened again before plans could be executed.'')
            else if wk_re w \<notin> {Some ''idle'', None}
            then Some (''Run Engine is in '' @ re_repr (wk_re w) @ '' state. Stop or finish any running plan.'')
            else None)"

definition generate_continued_plan :: "rworker \<Rightarrow> string option" where
  "generate_continued_plan w =
     (if wk_re w = Some ''panicked''
      then Some (''Run Engine is in the '' @ quoted ''panicked'' @
        '' state. The worker environment must be closed and reopened before plans could be executed.'')
      else if wk_re w \<noteq> Some ''paused''
      then Some (''Run Engine is in '' @ re_repr (wk_re w) @ '' state. Only '' @ quoted ''paused'' @ '' plan can be continued.'')
      else None)"

definition runs_off :: "rworker \<Rightarrow> rworker" where
  "runs_off w = w\<lparr>wk_runs := disable_runs (clear_runs (wk_runs w))\<rparr>"

text \<open>The two ends of \<open>_execute_plan\<close>, up to the last assignment of the environment state.\<close>

definition plan_returned :: "exec_option \<Rightarrow> json \<Rightarrow> rworker \<Rightarrow> rworker" where
  "plan_returned opt result w =
     runs_off (w\<lparr>wk_delivered := False,
       wk_report := Some \<lparr>re_success = True, re_result = result, re_uids = get_uids (wk_runs w),
         re_scan_ids = get_scan_ids (wk_runs w), re_err_msg = '''', re_traceback = '''',
         re_stop_queue = False, re_plan_state = plan_exit_status_expected opt, re_re_state = wk_re w\<rparr>,
       wk_exec := P_COMPLETED, wk_main := After_report\<rparr>)"

definition plan_raised :: "string \<Rightarrow> string \<Rightarrow> rworker \<Rightarrow> rworker" where
  "plan_raised why tb w =
     (let rp = \<lparr>re_success = True, re_result = JStr '''', re_uids = get_uids (wk_runs w),
         re_scan_ids = get_scan_ids (wk_runs w), re_err_msg = ''The plan is paused'', re_traceback = tb,
         re_stop_queue = False, re_plan_state = ''paused'', re_re_state = wk_re w\<rparr> in
      if wk_re w = Some ''paused''
      then w\<lparr>wk_delivered := False, wk_report := Some rp, wk_main := After_report\<rparr>
      else runs_off (w\<lparr>wk_delivered := False,
          wk_report := Some (rp\<lparr>re_success := False, re_err_msg := ''Plan failed: '' @ why,
            re_plan_state := ''failed''\<rparr>),
          wk_exec := P_COMPLETED, wk_main := After_report\<rparr>))"

text \<open>The beginning of \<open>_execute_plan\<close>: the traceback is that of the error.\<close>

definition begin_plan :: "exec_option \<Rightarrow> string option \<Rightarrow> string \<Rightarrow> rworker \<Rightarrow> rworker" where
  "begin_plan opt problem tb w =
     (case problem of
        Some why \<Rightarrow> plan_raised why tb w
      | None \<Rightarrow>
          w\<lparr>wk_runs := (if opt = NEW then enable_runs (wk_runs w) else wk_runs w),
            wk_timers := wk_timers w + 1, wk_main := In_plan opt\<rparr>)"

text \<open>The thread that wakes up a short time later.\<close>

definition set_plan_exec_state_as_running :: "rworker \<Rightarrow> rworker" where
  "set_plan_exec_state_as_running w =
     (if wk_timers w = 0 then w
      else w\<lparr>wk_timers := wk_timers w - 1,
             wk_exec := (if wk_exec w \<noteq> P_COMPLETED then P_RUNNING else wk_exec w)\<rparr>)"

section \<open>Tasks\<close>

text \<open>The result of a task; a value that is no JSON counts as raised.\<close>

definition result_of_task :: "task \<Rightarrow> ending \<Rightarrow> rat \<Rightarrow> task_res" where
  "result_of_task tk e now =
     (let (ok, msg, tb, val) =
        (case e of Returns v \<Rightarrow> (True, '''', '''', v)
         | Raises why tb \<Rightarrow>
             (False, ''Error occurred while executing '' @ quoted (tk_name tk) @ '': '' @ why, tb, JNull)) in
      (tk_uid tk, JDict [(''task_uid'', JStr (tk_uid tk)), (''success'', JBool ok), (''msg'', JStr msg),
         (''traceback'', JStr tb), (''return_value'', val), (''time_start'', JFloat (tk_start tk)),
         (''time_stop'', JFloat now)]))"

text \<open>A background task ends: its counter, then its result.\<close>

definition background_ends :: "nat \<Rightarrow> ending \<Rightarrow> rat \<Rightarrow> rworker \<Rightarrow> rworker" where
  "background_ends i e now w =
     (if i < length (wk_threads w) then
        w\<lparr>wk_threads := take i (wk_threads w) @ drop (Suc i) (wk_threads w),
          wk_background := max (wk_background w - 1) 0,
          wk_completed := wk_completed w @ [result_of_task (wk_threads w ! i) e now]\<rparr>
      else w)"

section \<open>The main thread\<close>

text \<open>\<open>_worker_startup_code\<close>: \<open>ok\<close> when everything loads; \<open>re\<close>: the state of the Run Engine found.\<close>

definition worker_startup :: "bool \<Rightarrow> string option \<Rightarrow> rworker \<Rightarrow> rworker" where
  "worker_startup ok re w =
     (if ok then w\<lparr>wk_re := re, wk_queue := Some [], wk_env := E_IDLE, wk_main := At_get\<rparr>
      else w\<lparr>wk_env := E_FAILED, wk_exit := True, wk_main := Out_of_loop\<rparr>)"

definition take_work :: "(dict \<Rightarrow> string option) \<Rightarrow> string \<Rightarrow> rworker \<Rightarrow> rworker" where
  "take_work prep tb w =
     (case wk_queue w of
        Some (Plan_work info # rest) \<Rightarrow>
          begin_plan NEW (generate_new_plan prep info w) tb (w\<lparr>wk_queue := Some rest\<rparr>)
      | Some (Continue_work opt # rest) \<Rightarrow>
          begin_plan opt (generate_continued_plan w) tb (w\<lparr>wk_queue := Some rest\<rparr>)
      | Some (Task_work tk # rest) \<Rightarrow> w\<lparr>wk_queue := Some rest, wk_main := In_task tk\<rparr>
      | _ \<Rightarrow> w\<lparr>wk_main := At_check\<rparr>)"

text \<open>One step of the main thread; \<open>e\<close> tells how the call it is in ends.\<close>

definition main_step :: "(dict \<Rightarrow> string option) \<Rightarrow> ending \<Rightarrow> rat \<Rightarrow> rworker \<Rightarrow> rworker" where
  "main_step prep e now w =
     (case wk_main w of
        At_start \<Rightarrow> w
      | At_get \<Rightarrow> take_work prep (case e of Raises _ tb \<Rightarrow> tb | Returns _ \<Rightarrow> '''') w
      | In_plan opt \<Rightarrow>
          (case e of Returns result \<Rightarrow> plan_returned opt result w | Raises why tb \<Rightarrow> plan_raised why tb w)
      | After_report \<Rightarrow> w\<lparr>wk_env := E_IDLE, wk_main := At_check\<rparr>
      | In_task tk \<Rightarrow>
          w\<lparr>wk_env := E_IDLE, wk_task := None, wk_main := After_task (result_of_task tk e now)\<rparr>
      | After_task r \<Rightarrow> w\<lparr>wk_completed := wk_completed w @ [r], wk_main := At_check\<rparr>
      | At_check \<Rightarrow> w\<lparr>wk_main := (if wk_exit w then Out_of_loop else At_get)\<rparr>
      | Out_of_loop \<Rightarrow>
          w\<lparr>wk_unexpected := (wk_unexpected w \<or> \<not> wk_shutdown_initiated w), wk_env := E_CLOSING,
            wk_main := At_confirm\<rparr>
      | At_confirm \<Rightarrow> if wk_exit_confirmed w then w\<lparr>wk_re := None, wk_main := At_exit\<rparr> else w
      | At_exit \<Rightarrow> w)"

section \<open>Runs of the worker\<close>

datatype command =
    Run_plan dict
  | Continue_plan string
  | Pause_plan string
  | Reset_worker
  | Close_env
  | Confirm_exit
  | Request_state
  | Request_report
  | Request_runs
  | Request_results "string list"
  | Reload_permissions string rat
  | Load_script bool string rat
  | Execute_function bool string rat

datatype response =
    Status verdict
  | State "status option"
  | Report "report option"
  | Runs "run_entry list"
  | Results "task_res list"

definition answered :: "verdict \<times> rworker \<Rightarrow> response \<times> rworker" where
  "answered = (\<lambda>(a, w). (Status a, w))"

lemma answered_simps [simp]: "snd (answered x) = snd x" "fst (answered x) = Status (fst x)"
  by (simp_all add: answered_def split: prod.splits)

text \<open>The commands over the pipe.\<close>

fun worker_command :: "command \<Rightarrow> rworker \<Rightarrow> response \<times> rworker" where
  "worker_command (Run_plan info) w = answered (run_plan_handler info w)"
| "worker_command (Continue_plan option) w = answered (continue_plan_handler option w)"
| "worker_command (Pause_plan option) w = (Status (pause_plan_handler option w), w)"
| "worker_command Reset_worker w = answered (reset_worker_handler w)"
| "worker_command Close_env w = answered (close_env_handler w)"
| "worker_command Confirm_exit w = answered (confirm_exit_handler w)"
| "worker_command Request_state w = (State (request_state_handler w), w)"
| "worker_command Request_report w = (case request_plan_report w of (r, w') \<Rightarrow> (Report r, w'))"
| "worker_command Request_runs w =
     (case request_run_list (wk_runs w) of (runs, rl) \<Rightarrow> (Runs runs, w\<lparr>wk_runs := rl\<rparr>))"
| "worker_command (Request_results acks) w =
     (case request_task_results acks (wk_completed w) of
        (results, kept) \<Rightarrow> (Results results, w\<lparr>wk_completed := kept\<rparr>))"
| "worker_command (Reload_permissions uid now) w = answered (permissions_reload uid now w)"
| "worker_command (Load_script background uid now) w = answered (load_script background uid now w)"
| "worker_command (Execute_function background uid now) w = answered (execute_function background uid now w)"

text \<open>
  \<open>Re_changes\<close>: the Run Engine changes its state by itself or in a task; \<open>Opened\<close>, \<open>Closed\<close>: its
  documents; \<open>Wakes\<close>: a sleeping thread.
\<close>

datatype worker_event =
    Command command
  | Starts bool "string option"
  | Main ending rat
  | Background nat ending rat
  | Wakes
  | Re_changes "string option"
  | Opened dict
  | Closed dict

definition worker_step :: "(dict \<Rightarrow> string option) \<Rightarrow> worker_event \<Rightarrow> rworker \<Rightarrow> rworker" where
  "worker_step prep ev w =
     (case ev of
        Command c \<Rightarrow> snd (worker_command c w)
      | Starts ok re \<Rightarrow> if wk_main w = At_start then worker_startup ok re w else w
      | Main e now \<Rightarrow> main_step prep e now w
      | Background i e now \<Rightarrow> background_ends i e now w
      | Wakes \<Rightarrow> set_plan_exec_state_as_running w
      | Re_changes s \<Rightarrow> w\<lparr>wk_re := s\<rparr>
      | Opened doc \<Rightarrow> w\<lparr>wk_runs := run_start doc (wk_runs w)\<rparr>
      | Closed doc \<Rightarrow> w\<lparr>wk_runs := run_stop doc (wk_runs w)\<rparr>)"

definition worker_run :: "(dict \<Rightarrow> string option) \<Rightarrow> worker_event list \<Rightarrow> rworker \<Rightarrow> rworker" where
  "worker_run prep evs w = fold (worker_step prep) evs w"

end
