(* ===== verification/WorkerProps.thy ===== *)
theory WorkerProps
  imports WorkerRun
begin

text \<open>
  Properties of the worker that hold for every order of commands, threads and endings of plans and
  tasks: one piece of foreground work at a time, every accepted plan executed once, reports that
  survive until they are acknowledged by a reset; and the race of the thread that marks a plan as
  running.
\<close>

section \<open>One piece of work at a time\<close>

definition pending :: "rworker \<Rightarrow> work list" where
  "pending w = (case wk_queue w of None \<Rightarrow> [] | Some q \<Rightarrow> q)"

text \<open>The foreground work accepted and not yet finished.\<close>

definition busy :: "rworker \<Rightarrow> nat" where
  "busy w = length (pending w) +
     (case wk_main w of In_plan _ \<Rightarrow> 1 | After_report \<Rightarrow> 1 | In_task _ \<Rightarrow> 1 | _ \<Rightarrow> 0)"

definition on_plan :: "rworker \<Rightarrow> bool" where
  "on_plan w \<longleftrightarrow> wk_main w = After_report \<or> (\<exists>opt. wk_main w = In_plan opt) \<or>
     (\<exists>info. Plan_work info \<in> set (pending w)) \<or> (\<exists>opt. Continue_work opt \<in> set (pending w))"

definition on_task :: "string \<Rightarrow> rworker \<Rightarrow> bool" where
  "on_task uid w \<longleftrightarrow> (\<exists>tk. (wk_main w = In_task tk \<or> Task_work tk \<in> set (pending w)) \<and> tk_uid tk = uid)"

definition closing :: "rworker \<Rightarrow> bool" where
  "closing w \<longleftrightarrow> wk_main w = At_confirm \<or> wk_main w = At_exit"

definition worker_ok :: "rworker \<Rightarrow> bool" where
  "worker_ok w \<longleftrightarrow>
     busy w \<le> 1 \<and> (on_plan w \<longrightarrow> closing w \<or> wk_env w = E_EXECUTING_PLAN) \<and>
     (\<forall>uid. on_task uid w \<longrightarrow> closing w \<or> (wk_env w = E_EXECUTING_TASK \<and> wk_task w = Some uid)) \<and>
     (closing w \<longrightarrow> wk_env w = E_CLOSING) \<and>
     (wk_main w = At_start \<longrightarrow> wk_env w = E_INITIALIZING) \<and>
     (wk_queue w = None \<longrightarrow> wk_env w \<in> {E_INITIALIZING, E_FAILED, E_CLOSING}) \<and>
     (wk_main w = At_start \<longrightarrow> wk_queue w = None) \<and>
     wk_env w \<noteq> E_RESERVED \<and>
     wk_background w = int (length (wk_threads w))"

lemmas worker_ok_defs = worker_ok_def busy_def on_plan_def on_task_def closing_def pending_def

lemma ok_new: "worker_ok (run_begins new_worker)"
  by (simp add: worker_ok_defs run_begins_def new_worker_def)

lemma idle_free:
  assumes "worker_ok w" "wk_env w = E_IDLE"
  shows "busy w = 0" "\<exists>q. wk_queue w = Some q"
proof -
  have "\<not> closing w" using assms by (auto simp: worker_ok_def)
  with assms have no: "\<not> on_plan w" "\<forall>uid. \<not> on_task uid w" by (auto simp: worker_ok_def)
  have "pending w = []"
  proof (rule ccontr)
    assume "pending w \<noteq> []"
    then obtain x where "x \<in> set (pending w)" by (meson list.set_sel(1))
    with no show False by (cases x) (auto simp: on_plan_def on_task_def)
  qed
  moreover have "(case wk_main w of In_plan _ \<Rightarrow> 1 | After_report \<Rightarrow> 1 | In_task _ \<Rightarrow> 1 | _ \<Rightarrow> (0 :: nat)) = 0"
    using no by (auto simp: on_plan_def on_task_def split: main_thread.splits)
  ultimately show "busy w = 0" by (simp add: busy_def)
  show "\<exists>q. wk_queue w = Some q" using assms by (auto simp: worker_ok_def)
qed

text \<open>Most steps leave all this alone.\<close>

lemma worker_ok_frame:
  assumes "worker_ok w" "wk_env w' = wk_env w" "wk_task w' = wk_task w" "wk_queue w' = wk_queue w"
    and "wk_main w' = wk_main w" "wk_background w' = wk_background w" "wk_threads w' = wk_threads w"
  shows "worker_ok w'"
  using assms by (simp add: worker_ok_defs)

text \<open>Work is accepted only by an idle worker.\<close>

lemma ok_put:
  assumes ok: "worker_ok w" and idle: "wk_env w = E_IDLE"
    and w': "wk_queue w' = map_option (\<lambda>q. q @ [x]) (wk_queue w)" "wk_main w' = wk_main w"
      "wk_background w' = wk_background w" "wk_threads w' = wk_threads w"
    and x: "case x of Task_work tk \<Rightarrow> wk_env w' = E_EXECUTING_TASK \<and> wk_task w' = Some (tk_uid tk)
      | _ \<Rightarrow> wk_env w' = E_EXECUTING_PLAN"
  shows "worker_ok w'"
proof -
  obtain q where q: "wk_queue w = Some q" using idle_free [OF ok idle] by blast
  have free: "busy w = 0" using idle_free [OF ok idle] by blast
  then have "q = []" by (simp add: busy_def pending_def q)
  moreover have "wk_main w \<notin> {At_start, At_confirm, At_exit, After_report}" "\<forall>opt. wk_main w \<noteq> In_plan opt"
    "\<forall>tk. wk_main w \<noteq> In_task tk"
    using ok idle free by (auto simp: worker_ok_defs split: main_thread.splits)
  ultimately show ?thesis
    using ok x by (auto simp: worker_ok_defs w' q split: work.splits main_thread.splits)
qed

lemma ok_stuck:
  assumes ok: "worker_ok w" and idle: "wk_env w = E_IDLE"
  shows "worker_ok (w\<lparr>wk_plan := p, wk_exec := e, wk_env := E_EXECUTING_PLAN\<rparr>)"
proof -
  obtain q where q: "wk_queue w = Some q" using idle_free [OF ok idle] by blast
  have free: "busy w = 0" using idle_free [OF ok idle] by blast
  then have "q = []" by (simp add: busy_def pending_def q)
  moreover have "wk_main w \<notin> {At_start, At_confirm, At_exit, After_report}" "\<forall>opt. wk_main w \<noteq> In_plan opt"
    "\<forall>tk. wk_main w \<noteq> In_task tk"
    using ok idle free by (auto simp: worker_ok_defs split: main_thread.splits)
  ultimately show ?thesis
    using ok by (auto simp: worker_ok_defs q split: main_thread.splits)
qed

lemma ok_idle: "worker_ok w \<Longrightarrow> wk_env w \<in> {E_IDLE, E_RESERVED} \<longleftrightarrow> wk_env w = E_IDLE"
  by (auto simp: worker_ok_def)

lemma ok_start_new_plan:
  assumes ok: "worker_ok w" shows "worker_ok (snd (start_new_plan info w))"
proof (cases "wk_env w = E_IDLE")
  case True
  have "worker_ok (w\<lparr>wk_plan := Some info, wk_exec := P_SUBMITTED, wk_env := E_EXECUTING_PLAN,
      wk_queue := map_option (\<lambda>q. q @ [Plan_work info]) (wk_queue w)\<rparr>)"
    by (rule ok_put [OF ok True, of _ "Plan_work info"]) simp_all
  then show ?thesis using ok_stuck [OF ok True] True by (simp add: start_new_plan_def Let_def)
qed (use ok in \<open>simp add: start_new_plan_def worker_ok_def\<close>)

lemma ok_continue_plan:
  assumes ok: "worker_ok w" shows "worker_ok (snd (continue_plan option w))"
proof (cases "wk_env w = E_IDLE")
  case True
  have "worker_ok (w\<lparr>wk_env := E_EXECUTING_PLAN,
      wk_queue := map_option (\<lambda>q. q @ [Continue_work opt]) (wk_queue w)\<rparr>)" for opt
    by (rule ok_put [OF ok True, of _ "Continue_work opt"]) simp_all
  then show ?thesis using ok True by (simp add: continue_plan_def split: option.splits)
qed (use ok in \<open>simp add: continue_plan_def worker_ok_def split: option.splits\<close>)

lemma ok_start_task:
  assumes ok: "worker_ok w" shows "worker_ok (snd (begin_task tk w))"
proof -
  have "worker_ok (w\<lparr>wk_background := wk_background w + 1, wk_threads := wk_threads w @ [tk]\<rparr>)"
    using ok by (simp add: worker_ok_defs)
  moreover have "worker_ok (w\<lparr>wk_env := E_EXECUTING_TASK, wk_task := Some (tk_uid tk),
      wk_queue := map_option (\<lambda>q. q @ [Task_work tk]) (wk_queue w)\<rparr>)" if "wk_env w = E_IDLE"
    by (rule ok_put [OF ok that, of _ "Task_work tk"]) simp_all
  ultimately show ?thesis using ok ok_idle [OF ok] by (auto simp: begin_task_def)
qed

lemma ok_command: "worker_ok w \<Longrightarrow> worker_ok (snd (worker_command c w))"
proof (cases c)
  case (Run_plan info)
  assume "worker_ok w"
  with ok_start_new_plan [of w info] show ?thesis
    by (simp add: Run_plan run_plan_handler_def Let_def split: option.splits)
next
  case (Continue_plan option)
  assume "worker_ok w"
  with ok_continue_plan [of w option] show ?thesis
    by (simp add: Continue_plan continue_plan_handler_def)
next
  case Reset_worker
  assume "worker_ok w"
  then show ?thesis
    by (auto simp: Reset_worker reset_worker_handler_def elim!: worker_ok_frame)
next
  case Close_env
  assume "worker_ok w"
  then show ?thesis
    by (auto simp: Close_env close_env_handler_def elim!: worker_ok_frame)
next
  case Confirm_exit
  assume "worker_ok w"
  then show ?thesis
    by (auto simp: Confirm_exit confirm_exit_handler_def elim!: worker_ok_frame)
next
  case Request_report
  assume "worker_ok w"
  then show ?thesis
    by (auto simp: Request_report request_plan_report_def elim!: worker_ok_frame)
next
  case Request_runs
  assume "worker_ok w"
  then show ?thesis
    by (auto simp: Request_runs split: prod.splits elim!: worker_ok_frame)
next
  case (Request_results acks)
  assume "worker_ok w"
  then show ?thesis
    by (auto simp: Request_results split: prod.splits elim!: worker_ok_frame)
next
  case (Reload_permissions uid now)
  assume "worker_ok w"
  then show ?thesis by (simp add: Reload_permissions permissions_reload_def ok_start_task)
next
  case (Load_script background uid now)
  assume "worker_ok w"
  then show ?thesis by (simp add: Load_script load_script_def ok_start_task)
next
  case (Execute_function background uid now)
  assume "worker_ok w"
  then show ?thesis by (simp add: Execute_function execute_function_def ok_start_task)
qed simp_all

text \<open>The main thread.\<close>

lemma ok_plan_end:
  assumes "worker_ok w" "wk_main w = In_plan opt"
  shows "worker_ok (plan_returned o' result w)" "worker_ok (plan_raised why tb w)"
  using assms by (auto simp: worker_ok_defs plan_returned_def plan_raised_def runs_off_def Let_def)

text \<open>Taking a plan from the queue, with the main thread free before.\<close>

lemma ok_begin_plan:
  assumes ok: "worker_ok w" and main: "wk_main w = At_get" and q: "wk_queue w = Some (x # rest)"
    and x: "\<forall>tk. x \<noteq> Task_work tk"
  shows "worker_ok (begin_plan opt problem tb (w\<lparr>wk_queue := Some rest\<rparr>))"
proof -
  have "rest = []" using ok q by (auto simp: worker_ok_defs main)
  moreover have "wk_env w = E_EXECUTING_PLAN"
    using ok q x by (cases x) (auto simp: worker_ok_defs main)
  ultimately show ?thesis
    using ok by (cases problem)
      (auto simp: worker_ok_defs main q begin_plan_def plan_raised_def runs_off_def Let_def)
qed

lemma ok_take_work:
  assumes ok: "worker_ok w" and main: "wk_main w = At_get"
  shows "worker_ok (take_work prep tb w)"
proof (cases "wk_queue w")
  case None
  then show ?thesis using ok main by (auto simp: take_work_def worker_ok_defs)
next
  case (Some q)
  show ?thesis
  proof (cases q)
    case Nil
    then show ?thesis using ok main Some by (auto simp: take_work_def worker_ok_defs)
  next
    case (Cons x rest)
    note q = Some [unfolded Cons]
    show ?thesis
    proof (cases x)
      case (Task_work tk)
      then show ?thesis using ok main q by (auto simp: take_work_def worker_ok_defs)
    qed (use ok_begin_plan [OF ok main q] q in \<open>simp_all add: take_work_def\<close>)
  qed
qed

lemma ok_main: "worker_ok w \<Longrightarrow> worker_ok (main_step prep e now w)"
proof (cases "wk_main w")
  case At_get
  assume "worker_ok w"
  then show ?thesis using At_get ok_take_work by (simp add: main_step_def)
next
  case (In_plan opt)
  assume "worker_ok w"
  then show ?thesis using In_plan ok_plan_end by (simp add: main_step_def split: ending.splits)
qed (auto simp: main_step_def worker_ok_defs)

lemma ok_background:
  assumes "worker_ok w" shows "worker_ok (background_ends i e now w)"
proof (cases "i < length (wk_threads w)")
  case True
  then have "length (wk_threads w) = Suc (length (take i (wk_threads w) @ drop (Suc i) (wk_threads w)))"
    by auto
  then show ?thesis using assms True by (simp add: background_ends_def worker_ok_defs)
qed (use assms in \<open>simp add: background_ends_def\<close>)

lemma ok_startup: "worker_ok w \<Longrightarrow> wk_main w = At_start \<Longrightarrow> worker_ok (worker_startup ok re w)"
  by (auto simp: worker_startup_def worker_ok_defs)

lemma ok_step: "worker_ok w \<Longrightarrow> worker_ok (worker_step prep ev w)"
proof (cases ev)
  case Wakes
  assume "worker_ok w"
  then show ?thesis
    by (auto simp: Wakes worker_step_def set_plan_exec_state_as_running_def elim!: worker_ok_frame)
next
  case (Re_changes s)
  assume "worker_ok w"
  then show ?thesis by (auto simp: Re_changes worker_step_def elim!: worker_ok_frame)
next
  case (Opened doc)
  assume "worker_ok w"
  then show ?thesis by (auto simp: Opened worker_step_def elim!: worker_ok_frame)
next
  case (Closed doc)
  assume "worker_ok w"
  then show ?thesis by (auto simp: Closed worker_step_def elim!: worker_ok_frame)
qed (simp_all add: worker_step_def ok_command ok_startup ok_main ok_background)

lemma ok_run: "worker_ok w \<Longrightarrow> worker_ok (worker_run prep evs w)"
  unfolding worker_run_def by (induction evs arbitrary: w) (simp_all add: ok_step)

text \<open> C5: The worker does one thing at a time and says which: in every state it can reach, over all
commands, threads and endings, at most one plan or foreground task is accepted and unfinished; until
the environment is closing, the reported state is executing_plan or executing_task with the task's
UID exactly for such work, idle means that nothing is pending, and the number of background tasks is
exact. \<close>
theorem one_at_a_time:
  "let w = worker_run prep evs (run_begins new_worker) in
     busy w \<le> 1 \<and> (wk_env w = E_IDLE \<longrightarrow> busy w = 0) \<and>
     (\<not> closing w \<longrightarrow> (on_plan w \<longrightarrow> wk_env w = E_EXECUTING_PLAN) \<and>
        (\<forall>uid. on_task uid w \<longrightarrow> wk_env w = E_EXECUTING_TASK \<and> wk_task w = Some uid)) \<and>
     wk_background w = int (length (wk_threads w))"
proof -
  have "worker_ok (worker_run prep evs (run_begins new_worker))" by (rule ok_run [OF ok_new])
  then show ?thesis using idle_free(1) by (auto simp: Let_def worker_ok_def)
qed

section \<open>Every accepted plan is executed once\<close>

definition plans_in :: "work list \<Rightarrow> dict list" where
  "plans_in q = List.map_filter (\<lambda>x. case x of Plan_work info \<Rightarrow> Some info | _ \<Rightarrow> None) q"

lemma plans_in_simps [simp]:
  "plans_in [] = []" "plans_in (Plan_work info # q) = info # plans_in q"
  "plans_in (Continue_work opt # q) = plans_in q" "plans_in (Task_work tk # q) = plans_in q"
  by (simp_all add: plans_in_def)

lemma plans_in_append [simp]: "plans_in (q @ r) = plans_in q @ plans_in r"
  by (induction q) (simp_all add: plans_in_def List.map_filter_def)

text \<open>The plans accepted and the plans taken by the main thread in one step.\<close>

fun accepts :: "worker_event \<Rightarrow> rworker \<Rightarrow> dict list" where
  "accepts (Command (Run_plan info)) w = (if fst (run_plan_handler info w) = Accepted then [info] else [])"
| "accepts ev w = []"

fun takes :: "worker_event \<Rightarrow> rworker \<Rightarrow> dict list" where
  "takes (Main e now) w =
     (if wk_main w = At_get then plans_in (take 1 (pending w)) else [])"
| "takes ev w = []"

fun along :: "(worker_event \<Rightarrow> rworker \<Rightarrow> 'a list) \<Rightarrow> (dict \<Rightarrow> string option) \<Rightarrow> worker_event list \<Rightarrow>
    rworker \<Rightarrow> 'a list" where
  "along f prep [] w = []"
| "along f prep (ev # evs) w = f ev w @ along f prep evs (worker_step prep ev w)"

lemma pending_simps [simp]:
  "wk_queue w = None \<Longrightarrow> pending w = []" "wk_queue w = Some q \<Longrightarrow> pending w = q"
  by (simp_all add: pending_def)

lemma pending_begin [simp]:
  "pending (begin_plan opt problem tb w) = pending w"
  by (simp add: begin_plan_def plan_raised_def runs_off_def pending_def Let_def split: option.splits)

lemma handled_command_pending:
  assumes "worker_ok w"
  shows "plans_in (pending w) @ accepts (Command c) w = plans_in (pending (snd (worker_command c w)))"
proof (cases c)
  case (Run_plan info)
  then show ?thesis
    by (auto simp: run_plan_handler_def start_new_plan_def Let_def pending_def split: option.splits)
next
  case (Continue_plan option)
  then show ?thesis
    by (auto simp: continue_plan_handler_def continue_plan_def pending_def split: option.splits)
next
  case (Reload_permissions uid now)
  then show ?thesis
    by (auto simp: permissions_reload_def begin_task_def pending_def split: option.splits)
next
  case (Load_script background uid now)
  then show ?thesis by (auto simp: load_script_def begin_task_def pending_def split: option.splits)
next
  case (Execute_function background uid now)
  then show ?thesis by (auto simp: execute_function_def begin_task_def pending_def split: option.splits)
qed (simp_all add: reset_worker_handler_def close_env_handler_def confirm_exit_handler_def
    request_plan_report_def request_run_list_def get_run_list_def request_task_results_def pending_def Let_def)

lemma main_pending:
  "plans_in (pending w) = takes (Main e now) w @ plans_in (pending (main_step prep e now w))"
proof (cases "wk_main w = At_get")
  case True
  then show ?thesis
    by (cases "wk_queue w") (auto simp: main_step_def take_work_def split: list.splits work.splits)
qed (auto simp: main_step_def plan_returned_def plan_raised_def runs_off_def pending_def Let_def
    split: main_thread.splits ending.splits)

lemma step_pending:
  assumes "worker_ok w"
  shows "plans_in (pending w) @ accepts ev w = takes ev w @ plans_in (pending (worker_step prep ev w))"
proof (cases ev)
  case (Command c)
  then show ?thesis using handled_command_pending [OF assms, of c] by (simp add: worker_step_def)
next
  case (Starts ok re)
  have "wk_main w = At_start \<Longrightarrow> pending w = []" using assms by (auto simp: worker_ok_def)
  then show ?thesis
    by (auto simp: Starts worker_step_def worker_startup_def pending_def)
next
  case (Main e now)
  then show ?thesis using main_pending by (simp add: worker_step_def)
qed (simp_all add: worker_step_def background_ends_def set_plan_exec_state_as_running_def pending_def)

text \<open> C21: Every plan the worker accepts is executed exactly once and in the order of acceptance: over any
run, the plans accepted are those the main thread has taken, followed by the one still in its queue. \<close>
theorem plans_taken_once:
  "along accepts prep evs (run_begins new_worker) =
     along takes prep evs (run_begins new_worker) @
     plans_in (pending (worker_run prep evs (run_begins new_worker)))"
proof -
  have "plans_in (pending w) @ along accepts prep evs w =
      along takes prep evs w @ plans_in (pending (worker_run prep evs w))" if "worker_ok w" for w
    using that
  proof (induction evs arbitrary: w)
    case (Cons ev evs)
    then show ?case
      using step_pending [OF Cons.prems, of ev prep] Cons.IH [OF ok_step [OF Cons.prems, of prep ev]]
      by (simp add: worker_run_def) (metis append.assoc)
  qed (simp add: worker_run_def)
  from this [OF ok_new] show ?thesis by (simp add: pending_def run_begins_def new_worker_def)
qed

section \<open>Reports survive\<close>

text \<open>A plan is over and its report is there.\<close>

definition plan_over :: "report \<Rightarrow> rworker \<Rightarrow> bool" where
  "plan_over r w \<longleftrightarrow> wk_exec w = P_COMPLETED \<and> wk_report w = Some r \<and> wk_re w \<noteq> Some ''paused'' \<and>
     wk_main w \<noteq> At_start \<and> (\<forall>opt. wk_main w \<noteq> In_plan opt) \<and>
     (\<forall>x \<in> set (pending w). \<exists>tk. x = Task_work tk)"

text \<open>Steps other than a reset; nothing pauses the Run Engine outside a plan.\<close>

definition no_reset :: "worker_event \<Rightarrow> bool" where
  "no_reset ev \<longleftrightarrow> ev \<noteq> Command Reset_worker \<and> ev \<noteq> Re_changes (Some ''paused'')"

lemma over_task: "plan_over r w \<Longrightarrow> plan_over r (snd (begin_task tk w))"
  by (cases "wk_queue w") (auto simp: plan_over_def begin_task_def)

lemma over_command:
  assumes "plan_over r w" "c \<noteq> Reset_worker"
  shows "plan_over r (snd (worker_command c w))"
proof (cases c)
  case (Run_plan info)
  then show ?thesis using assms(1)
    by (auto simp: run_plan_handler_def plan_over_def Let_def split: option.splits)
next
  case (Continue_plan option)
  then show ?thesis using assms(1) by (auto simp: continue_plan_handler_def plan_over_def)
qed (use assms in \<open>simp_all add: over_task permissions_reload_def load_script_def execute_function_def,
    simp_all add: plan_over_def close_env_handler_def confirm_exit_handler_def request_plan_report_def
      request_run_list_def get_run_list_def request_task_results_def pending_def Let_def\<close>)

lemma over_main: "plan_over r w \<Longrightarrow> plan_over r (main_step prep e now w)"
  by (cases "wk_queue w")
    (auto simp: plan_over_def main_step_def take_work_def split: main_thread.splits list.splits work.splits)

lemma over_step:
  assumes "plan_over r w" "no_reset ev"
  shows "plan_over r (worker_step prep ev w)"
proof (cases ev)
  case (Command c)
  then show ?thesis using assms over_command by (simp add: worker_step_def no_reset_def)
next
  case (Main e now)
  then show ?thesis using assms over_main by (simp add: worker_step_def)
qed (use assms in \<open>auto simp: worker_step_def no_reset_def plan_over_def background_ends_def
    set_plan_exec_state_as_running_def pending_def split: option.splits\<close>)

lemma over_run:
  assumes "plan_over r w" "\<forall>ev \<in> set evs. no_reset ev"
  shows "plan_over r (worker_run prep evs w)"
  using assms unfolding worker_run_def by (induction evs arbitrary: w) (simp_all add: over_step)

text \<open>The manager asks twice before it gives up; the worker may do anything in between.\<close>

definition worker_request_plan_report ::
    "(dict \<Rightarrow> string option) \<Rightarrow> pipe \<Rightarrow> worker_event list \<Rightarrow> pipe \<Rightarrow> rworker \<Rightarrow> report option \<times> rworker" where
  "worker_request_plan_report prep p evs p' w =
     (case send p request_plan_report w of
        (Some r, w1) \<Rightarrow> (r, w1)
      | (None, w1) \<Rightarrow>
          (case send p' request_plan_report (worker_run prep evs w1) of
             (Some r, w2) \<Rightarrow> (r, w2)
           | (None, w2) \<Rightarrow> (None, w2)))"

text \<open> C6: The report of a finished plan survives: whatever the worker is asked and does after the plan,
except a reset, the report stays as it is, and the manager obtains it as soon as one of its two
requests is answered, also when the worker had already counted it as delivered. \<close>
theorem report_survives:
  assumes "plan_over r w" "\<forall>ev \<in> set (before @ between). no_reset ev" "Delivered \<in> {p, p'}"
  shows "fst (worker_request_plan_report prep p between p' (worker_run prep before w)) = Some r"
proof -
  have 1: "plan_over r (worker_run prep before w)" using assms(1,2) by (simp add: over_run)
  then have 2: "plan_over r (snd (request_plan_report (worker_run prep before w)))"
    using over_command [of r _ Request_report] by (simp add: request_plan_report_def)
  have "wk_report (worker_run prep between (worker_run prep before w)) = Some r"
    "wk_report (worker_run prep between (snd (request_plan_report (worker_run prep before w)))) = Some r"
    using over_run [OF 1, of between] over_run [OF 2, of between] assms(2) by (simp_all add: plan_over_def)
  moreover have "wk_report (worker_run prep before w) = Some r" using 1 by (simp add: plan_over_def)
  ultimately show ?thesis
    using assms(3) by (cases p) (auto simp: worker_request_plan_report_def send_def request_plan_report_def)
qed

section \<open>The late mark\<close>

text \<open>A thread that wakes up after a reset marks the worker as running.\<close>

lemma late_mark:
  assumes "wk_timers w > 0" "wk_exec w = P_RESET"
  shows "fst (run_plan_handler info (set_plan_exec_state_as_running w)) \<noteq> Accepted"
  using assms by (simp add: set_plan_exec_state_as_running_def run_plan_handler_def Let_def split: option.splits)

text \<open>The session: a plan is run to its end before its thread wakes up.\<close>

definition short_plan :: "dict \<Rightarrow> worker_event list" where
  "short_plan info =
     [Starts True (Some ''idle''), Command Reset_worker, Command (Run_plan info), Main (Returns JNull) 0,
      Re_changes (Some ''running''), Re_changes (Some ''idle''), Main (Returns JNull) 0, Main (Returns JNull) 0,
      Main (Returns JNull) 0, Command Request_report, Command Reset_worker]"

text \<open> C34: A short plan can block the queue: when a plan ends, is reported and the worker is reset before
the thread that marks it as running wakes up, the mark is set on the reset worker, and the next plan is
rejected, although the worker is idle; without the mark it would be accepted. \<close>
theorem late_mark_blocks_plan:
  assumes "prep info = None" "dhas info ''name''" "dhas next ''name''"
  shows "let w = worker_run prep (short_plan info) (run_begins new_worker) in
     wk_env w = E_IDLE \<and> busy w = 0 \<and> fst (run_plan_handler next w) = Accepted \<and>
     (\<exists>why. fst (run_plan_handler next (worker_step prep Wakes w)) = Rejected why)"
  using assms
  by (simp add: short_plan_def worker_run_def worker_step_def run_begins_def new_worker_def
      worker_startup_def reset_worker_handler_def run_plan_handler_def start_new_plan_def plan_stored_def
      main_step_def take_work_def begin_plan_def generate_new_plan_def plan_returned_def runs_off_def
      request_plan_report_def set_plan_exec_state_as_running_def busy_def pending_def Let_def)

end
