(* ===== verification/ManagerWorker.thy ===== *)
theory ManagerWorker
  imports ManagerDrain WorkerProps
begin

text \<open>
  The manager and the worker together: the answers that the manager's coroutines get are those of the
  worker's handlers. With a worker that is idle and a Run Engine that completes the plans, a started
  queue is executed to its end and every plan is handed to the Run Engine once, in order.
\<close>

section \<open>Messages between them\<close>

definition to_plan_report :: "report \<Rightarrow> plan_report" where
  "to_plan_report r =
     \<lparr>rp_state = re_plan_state r, rp_uids = JList (re_uids r),
      rp_scan_ids = JList (map (\<lambda>i. case i of None \<Rightarrow> JNull | Some n \<Rightarrow> JInt n) (re_scan_ids r)),
      rp_err_msg = JStr (re_err_msg r), rp_err_tb = JStr (re_traceback r), rp_stop_queue = re_stop_queue r\<rparr>"

text \<open>\<open>deferred\<close>: the Run Engine has a deferred pause pending.\<close>

definition to_worker_state :: "bool \<Rightarrow> status \<Rightarrow> worker_state" where
  "to_worker_state deferred sw =
     \<lparr>ws_environment = sw_env sw, ws_re = sw_re sw, ws_report = sw_report_available sw,
      ws_shutdown = sw_unexpected sw, ws_item = sw_item sw, ws_task = sw_task sw,
      ws_deferred_pause = deferred\<rparr>"

fun info_dict :: "json \<Rightarrow> dict" where
  "info_dict (JDict d) = d"
| "info_dict _ = []"

text \<open>
  One step of the manager's event loop with the commands it sends: \<open>command_reset_worker\<close>,
  \<open>command_run_plan\<close>, \<open>request_plan_report\<close>, or the poll of the state when no coroutine is scheduled.
  Other coroutines get the answers \<open>an\<close>.
\<close>

definition joint_turn ::
    "'o site \<Rightarrow> 'o answers \<Rightarrow> 'o mgr \<times> rworker \<Rightarrow> 'o mgr \<times> rworker" where
  "joint_turn si an = (\<lambda>(s, w).
     case mg_jobs s of
       [] \<Rightarrow>
         (case request_state_handler w of
            Some sw \<Rightarrow> (turn si an (to_worker_state False sw) s, w)
          | None \<Rightarrow> (s, w))
     | Plan_reset single # js \<Rightarrow>
         (case reset_worker_handler w of
            (a, w') \<Rightarrow> (snd (run_job si (an\<lparr>an_ok := (a = Accepted)\<rparr>) (Plan_reset single)
                          (drop_job (Plan_reset single) s)), w'))
     | Plan_run info # js \<Rightarrow>
         (case run_plan_handler (info_dict info) w of
            (a, w') \<Rightarrow> (snd (run_job si (an\<lparr>an_ok := (a = Accepted)\<rparr>) (Plan_run info)
                          (drop_job (Plan_run info) s)), w'))
     | Plan_report # js \<Rightarrow>
         (case request_plan_report w of
            (r, w') \<Rightarrow> (snd (run_job si (an\<lparr>an_report := map_option to_plan_report r\<rparr>) Plan_report
                          (drop_job Plan_report s)), w'))
     | j # js \<Rightarrow> (snd (run_job si an j (drop_job j s)), w))"

text \<open>
  The worker executes a plan it finds in its queue: the main thread takes it, the marking thread
  wakes up, the Run Engine runs, opens and closes the runs \<open>docs\<close>, and returns.
\<close>

definition execution :: "worker_event list \<Rightarrow> json \<Rightarrow> worker_event list" where
  "execution docs result =
     [Main (Returns JNull) 0, Wakes, Re_changes (Some ''running'')] @ docs @
     [Re_changes (Some ''idle''), Main (Returns result) 0, Main (Returns JNull) 0, Main (Returns JNull) 0]"

definition joint_step ::
    "'o site \<Rightarrow> 'o answers \<Rightarrow> (dict \<Rightarrow> string option) \<Rightarrow> (dict \<Rightarrow> worker_event list) \<Rightarrow> (dict \<Rightarrow> json) \<Rightarrow>
     'o mgr \<times> rworker \<Rightarrow> 'o mgr \<times> rworker" where
  "joint_step si an prep docs result x =
     (case joint_turn si an x of
        (s, w) \<Rightarrow>
          (case pending w of
             [Plan_work info] \<Rightarrow> (s, worker_run prep (execution (docs info) (result info)) w)
           | _ \<Rightarrow> (s, w)))"

fun joint_steps ::
    "'o site \<Rightarrow> 'o answers \<Rightarrow> (dict \<Rightarrow> string option) \<Rightarrow> (dict \<Rightarrow> worker_event list) \<Rightarrow> (dict \<Rightarrow> json) \<Rightarrow>
     nat \<Rightarrow> 'o mgr \<times> rworker \<Rightarrow> 'o mgr \<times> rworker" where
  "joint_steps si an prep docs result 0 x = x"
| "joint_steps si an prep docs result (Suc n) x =
     joint_steps si an prep docs result n (joint_step si an prep docs result x)"

section \<open>The worker between plans\<close>

definition worker_idle :: "rworker \<Rightarrow> bool" where
  "worker_idle w \<longleftrightarrow> wk_env w = E_IDLE \<and> wk_main w = At_get \<and> wk_queue w = Some [] \<and> wk_timers w = 0 \<and>
     wk_re w = Some ''idle'' \<and> \<not> wk_exit w \<and> \<not> wk_unexpected w"

definition reset_done :: "rworker \<Rightarrow> bool" where
  "reset_done w \<longleftrightarrow> worker_idle w \<and> wk_plan w = None \<and> wk_exec w = P_RESET"

definition plan_reported :: "dict \<Rightarrow> rworker \<Rightarrow> bool" where
  "plan_reported info w \<longleftrightarrow> worker_idle w \<and> wk_plan w = Some info \<and> wk_exec w = P_COMPLETED \<and>
     \<not> wk_delivered w \<and> (\<exists>r. wk_report w = Some r \<and> re_plan_state r = ''completed'' \<and> \<not> re_stop_queue r)"

definition only_docs :: "worker_event list \<Rightarrow> bool" where
  "only_docs = list_all (\<lambda>ev. case ev of Opened _ \<Rightarrow> True | Closed _ \<Rightarrow> True | _ \<Rightarrow> False)"

lemma idle_reset:
  assumes "worker_idle w"
  shows "\<exists>w'. reset_worker_handler w = (Accepted, w') \<and> reset_done w'"
  using assms by (auto simp: worker_idle_def reset_worker_handler_def reset_done_def)

lemma docs_run:
  assumes "only_docs docs"
  shows "\<exists>rl. worker_run prep docs w = w\<lparr>wk_runs := rl\<rparr>"
  using assms
proof (induction docs arbitrary: w)
  case Nil
  show ?case by (intro exI [of _ "wk_runs w"]) (simp add: worker_run_def)
next
  case (Cons ev docs)
  obtain rl where "worker_step prep ev w = w\<lparr>wk_runs := rl\<rparr>"
    using Cons.prems by (cases ev) (auto simp: only_docs_def worker_step_def)
  then show ?case using Cons.IH [of "w\<lparr>wk_runs := rl\<rparr>"] Cons.prems
    by (auto simp: worker_run_def only_docs_def)
qed

lemma run_append: "worker_run prep (xs @ ys) w = worker_run prep ys (worker_run prep xs w)"
  by (simp add: worker_run_def)

text \<open>A plan that is accepted after a reset is executed to its report.\<close>

lemma plan_executes:
  assumes "reset_done w" "dhas info ''name''" "prep info = None" "only_docs docs"
  shows "\<exists>w1. run_plan_handler info w = (Accepted, w1) \<and> pending w1 = [Plan_work info] \<and>
     plan_reported info (worker_run prep (execution docs result) w1)"
proof -
  let ?w1 = "w\<lparr>wk_plan := Some info, wk_exec := P_SUBMITTED, wk_env := E_EXECUTING_PLAN,
      wk_queue := Some [Plan_work info]\<rparr>"
  have 1: "run_plan_handler info w = (Accepted, ?w1)"
    using assms(1,2) by (simp add: reset_done_def worker_idle_def run_plan_handler_def start_new_plan_def
        plan_stored_def Let_def)
  let ?w2 = "?w1\<lparr>wk_queue := Some [], wk_runs := enable_runs (wk_runs w), wk_timers := 0,
      wk_main := In_plan NEW, wk_exec := P_RUNNING, wk_re := Some ''running''\<rparr>"
  have "worker_run prep [Main (Returns JNull) 0, Wakes, Re_changes (Some ''running'')] ?w1 = ?w2"
    using assms(1,3) by (simp add: reset_done_def worker_idle_def worker_run_def worker_step_def main_step_def
        take_work_def begin_plan_def generate_new_plan_def set_plan_exec_state_as_running_def)
  moreover obtain rl where "worker_run prep docs ?w2 = ?w2\<lparr>wk_runs := rl\<rparr>" using docs_run [OF assms(4)] by blast
  ultimately have "worker_run prep (execution docs result) ?w1 =
      worker_run prep [Re_changes (Some ''idle''), Main (Returns result) 0, Main (Returns JNull) 0,
        Main (Returns JNull) 0] (?w2\<lparr>wk_runs := rl\<rparr>)"
    by (simp only: execution_def run_append)
  moreover have "plan_reported info (worker_run prep [Re_changes (Some ''idle''), Main (Returns result) 0,
      Main (Returns JNull) 0, Main (Returns JNull) 0] (?w2\<lparr>wk_runs := rl\<rparr>))"
    using assms(1) by (simp add: reset_done_def worker_idle_def worker_run_def worker_step_def main_step_def
        plan_returned_def runs_off_def plan_reported_def)
  ultimately show ?thesis using 1 by (intro exI [of _ ?w1]) simp
qed

section \<open>Joint steps as turns of the manager\<close>

lemma joint_other:
  assumes "mg_jobs s = j # js" "\<forall>x. j \<noteq> Plan_reset x" "\<forall>x. j \<noteq> Plan_run x" "j \<noteq> Plan_report"
    and "pending w = []"
  shows "joint_step si an prep docs result (s, w) = (turn si an ws s, w)"
  using assms by (cases j) (simp_all add: joint_step_def joint_turn_def turn_def)

lemma joint_poll:
  assumes "mg_jobs s = []" "request_state_handler w = Some sw" "pending w = []"
  shows "joint_step si an prep docs result (s, w) = (turn si an (to_worker_state False sw) s, w)"
  using assms by (simp add: joint_step_def joint_turn_def)

lemma joint_reset:
  assumes "mg_jobs s = [Plan_reset x]" "reset_worker_handler w = (a, w')" "pending w' = []"
  shows "joint_step si an prep docs result (s, w) = (turn si (an\<lparr>an_ok := (a = Accepted)\<rparr>) ws s, w')"
  using assms by (simp add: joint_step_def joint_turn_def turn_def)

lemma joint_run:
  assumes "mg_jobs s = [Plan_run (JDict info)]" "run_plan_handler info w = (a, w')"
    and "pending w' = [Plan_work info]"
  shows "joint_step si an prep docs result (s, w) =
     (turn si (an\<lparr>an_ok := (a = Accepted)\<rparr>) ws s, worker_run prep (execution (docs info) (result info)) w')"
  using assms by (simp add: joint_step_def joint_turn_def turn_def)

lemma joint_report:
  assumes "mg_jobs s = [Plan_report]" "request_plan_report w = (r, w')" "pending w' = []"
  shows "joint_step si an prep docs result (s, w) =
     (turn si (an\<lparr>an_report := map_option to_plan_report r\<rparr>) ws s, w')"
  using assms by (simp add: joint_step_def joint_turn_def turn_def)

text \<open>The plans handed to the Run Engine along \<open>n\<close> joint steps.\<close>

fun joint_plans ::
    "'o site \<Rightarrow> 'o answers \<Rightarrow> (dict \<Rightarrow> string option) \<Rightarrow> (dict \<Rightarrow> worker_event list) \<Rightarrow> (dict \<Rightarrow> json) \<Rightarrow>
     nat \<Rightarrow> 'o mgr \<times> rworker \<Rightarrow> dict list" where
  "joint_plans si an prep docs result 0 x = []"
| "joint_plans si an prep docs result (Suc n) x =
     plans_in (pending (snd (joint_turn si an x))) @
     joint_plans si an prep docs result n (joint_step si an prep docs result x)"

lemma joint_steps_add:
  "joint_steps si an prep docs result (m + n) x =
     joint_steps si an prep docs result n (joint_steps si an prep docs result m x)"
  by (induction m arbitrary: x) simp_all

lemma joint_plans_add:
  "joint_plans si an prep docs result (m + n) x =
     joint_plans si an prep docs result m x @
     joint_plans si an prep docs result n (joint_steps si an prep docs result m x)"
  by (induction m arbitrary: x) simp_all

lemma plan_info_dict:
  assumes "plan_info_of j = Inr info"
  obtains d uid where "info = JDict d" "dhas d ''name''" "dget d ''item_uid'' = Some uid"
proof -
  obtain d0 where j: "j = JDict d0" using assms by (cases j) (auto simp: plan_info_of_def)
  from assms [unfolded j] obtain nm user ug uid where
    "info = JDict [(''name'', nm), (''args'', opt_field d0 ''args'' (JList [])),
       (''kwargs'', opt_field d0 ''kwargs'' (JDict [])), (''user'', user), (''user_group'', ug),
       (''meta'', opt_field d0 ''meta'' (JDict [])), (''item_uid'', uid)]"
    by (auto simp: plan_info_of_def ebind_def split: sum.splits)
  then show ?thesis by (rule that) simp_all
qed

section \<open>One plan, end to end\<close>

definition executable ::
    "(dict \<Rightarrow> string option) \<Rightarrow> (dict \<Rightarrow> worker_event list) \<Rightarrow> json \<Rightarrow> bool" where
  "executable prep docs j \<longleftrightarrow>
     queued_plan j \<and> (\<forall>d. plan_info_of j = Inr (JDict d) \<longrightarrow> prep d = None \<and> only_docs (docs d))"

definition info_of :: "json \<Rightarrow> dict" where
  "info_of j = (case plan_info_of j of Inr info \<Rightarrow> info_dict info | Inl _ \<Rightarrow> [])"

lemma five: "5 = Suc (Suc (Suc (Suc (Suc 0))))"
  by simp

lemma joint_round:
  assumes at: "at_plan (j # xs) hs s" and js: "list_all (executable prep docs) (j # xs)"
    and off: "\<not> sg_enabled (si_settings si)" and w: "worker_idle w"
  shows "\<exists>e s' w'. joint_steps si an prep docs result 5 (s, w) = (s', w') \<and>
     joint_plans si an prep docs result 5 (s, w) = [info_of j] \<and>
     the_uid e = the_uid j \<and> at_plan xs (hs @ [e]) s' \<and> worker_idle w'"
proof -
  have q: "list_all queued_plan (j # xs)"
    using js by (auto simp: executable_def list_all_iff)
  then obtain info where info: "plan_info_of j = Inr info" by (auto simp: queued_plan_def)
  obtain d uid where d: "info = JDict d" "dhas d ''name''" "dget d ''item_uid'' = Some uid"
    using plan_info_dict [OF info] .
  have good: "prep d = None" "only_docs (docs d)" using js info d(1) by (auto simp: executable_def)
  have i: "info_of j = d" by (simp add: info_of_def info d(1))
  let ?ok = "an\<lparr>an_ok := True\<rparr>"
  have pend: "pending w = []" using w by (simp add: worker_idle_def pending_def)
  obtain w2 where w2: "reset_worker_handler w = (Accepted, w2)" "reset_done w2" using idle_reset [OF w] by blast
  then have pend2: "pending w2 = []" by (simp add: reset_done_def worker_idle_def pending_def)
  define w4 where "w4 = worker_run prep (execution (docs d) (result d))
     (snd (run_plan_handler d w2))"
  obtain w3 where w3: "run_plan_handler d w2 = (Accepted, w3)" "pending w3 = [Plan_work d]" "plan_reported d w4"
    using plan_executes [of w2 d prep "docs d" "result d"] w2(2) d(2) good by (auto simp: w4_def)
  have w4: "worker_run prep (execution (docs d) (result d)) w3 = w4" by (simp add: w4_def w3(1))
  obtain r where r: "wk_report w4 = Some r" "re_plan_state r = ''completed''" "\<not> re_stop_queue r"
    using w3(3) by (auto simp: plan_reported_def)
  have "d \<noteq> []" using d(3) by auto
  then obtain sw where sw: "request_state_handler w4 = Some sw" "sw_report_available sw" "\<not> sw_unexpected sw"
    using w3(3) d(3) by (fastforce simp: plan_reported_def worker_idle_def request_state_handler_def)
  have pend4: "pending w4 = []" using w3(3) by (simp add: plan_reported_def worker_idle_def pending_def)
  let ?ws = "to_worker_state False sw"
  let ?rp = "an\<lparr>an_report := map_option to_plan_report (Some r)\<rparr>"
  let ?w5 = "w4\<lparr>wk_delivered := True\<rparr>"
  define s1 where "s1 = turn si an ?ws s"
  define s2 where "s2 = turn si ?ok ?ws s1"
  define s3 where "s3 = turn si ?ok ?ws s2"
  define s4 where "s4 = turn si an ?ws s3"
  define s5 where "s5 = turn si ?rp ?ws s4"
  note turns = round_turns [OF at q info off s1_def s2_def s3_def s4_def]
  have j0: "mg_jobs s = [Plan_check j JNull]" by (rule turns(1))
  have j1: "mg_jobs s1 = [Plan_reset JNull]" by (rule turns(2))
  have j2: "mg_jobs s2 = [Plan_run (JDict d)]" using turns(3) d(1) by simp
  have j3: "mg_jobs s3 = []" using turns(4) by simp
  have j4: "mg_jobs s4 = [Plan_report]" using turns(5) sw by (simp add: to_worker_state_def)
  obtain e where e: "the_uid e = the_uid j" "at_plan xs (hs @ [e]) s5"
    using turns(6) [of ?rp "to_plan_report r" ?ws] sw r by (auto simp: to_worker_state_def to_plan_report_def s5_def)
  note st1 = joint_other [OF j0 _ _ _ pend, of si an prep docs result ?ws, folded s1_def, simplified]
  note st2 = joint_reset [OF j1 w2(1) pend2, of si an prep docs result ?ws, simplified, folded s2_def]
  note st3 = joint_run [OF j2 w3(1,2), of si an prep docs result ?ws, simplified, folded s3_def, unfolded w4]
  note st4 = joint_poll [OF j3 sw(1) pend4, of si an prep docs result, folded s4_def]
  have req: "request_plan_report w4 = (Some r, ?w5)" by (simp add: request_plan_report_def r(1))
  have pend5: "pending ?w5 = []" using pend4 by (simp add: pending_def)
  note st5 = joint_report [OF j4 req pend5, of si an prep docs result ?ws, folded s5_def]
  have steps: "joint_steps si an prep docs result 5 (s, w) = (s5, ?w5)"
    unfolding five joint_steps.simps st1 st2 st3 st4 st5 ..
  have plans: "joint_plans si an prep docs result 5 (s, w) = [d]"
    unfolding five joint_plans.simps st1 st2 st3 st4 st5
    by (simp add: joint_turn_def j0 j1 j2 j3 j4 pend w2(1) pend2 w3(1,2) sw(1) pend4 req pend5)
  have "worker_idle ?w5" using w3(3) by (simp add: plan_reported_def worker_idle_def)
  with steps plans e i show ?thesis by blast
qed

section \<open>The whole queue, end to end\<close>

lemma joint_rounds:
  assumes "at_plan q hs s" "list_all (executable prep docs) q" "\<not> sg_enabled (si_settings si)" "worker_idle w"
  shows "\<exists>es s' w'. joint_steps si an prep docs result (5 * length q) (s, w) = (s', w') \<and>
     joint_plans si an prep docs result (5 * length q) (s, w) = map info_of q \<and>
     map the_uid es = map the_uid q \<and> at_plan [] (hs @ es) s' \<and> worker_idle w'"
  using assms(1,2,4)
proof (induction q arbitrary: hs s w)
  case (Cons j q)
  obtain e s1 w1 where 1: "joint_steps si an prep docs result 5 (s, w) = (s1, w1)"
    "joint_plans si an prep docs result 5 (s, w) = [info_of j]"
    "the_uid e = the_uid j" "at_plan q (hs @ [e]) s1" "worker_idle w1"
    using joint_round [OF Cons.prems(1,2) assms(3) Cons.prems(3), of an result] by blast
  obtain es s' w' where 2: "joint_steps si an prep docs result (5 * length q) (s1, w1) = (s', w')"
    "joint_plans si an prep docs result (5 * length q) (s1, w1) = map info_of q"
    "map the_uid es = map the_uid q" "at_plan [] ((hs @ [e]) @ es) s'" "worker_idle w'"
    using Cons.IH [OF 1(4) _ 1(5)] Cons.prems(2) by auto
  have n: "5 * length (j # q) = 5 + 5 * length q" by simp
  show ?case
    unfolding n joint_steps_add joint_plans_add 1(1,2) 2(1,2)
    using 1(3) 2(3-5) by (intro exI [of _ "e # es"] exI [of _ s'] exI [of _ w']) simp
qed simp

text \<open> C3: Manager and worker finish the queue together. Start the queue of an idle manager, whose items are
plans that the worker can prepare, beside an idle worker; let the commands of the manager be answered by
the worker's handlers, and let the Run Engine finish each plan before the next poll. Then after
\<open>5 n + 2\<close> steps for \<open>n\<close> plans the manager is idle, the queue is empty, the history has grown by one entry
for each plan in the order of the queue, the worker is idle, and it has handed exactly these plans to
the Run Engine, once each and in this order. \<close>
theorem queue_executed_end_to_end:
  assumes "mreach si pl s" and "ready_to_start s" "\<not> mg_pause_pending s" "mg_jobs s = []"
    and "running (mg_pq s) = JDict []" "pq_queue_size (mg_pq s) = int (length (queue (mg_pq s)))"
    and "dget (pq_mode (mg_pq s)) ''loop'' = Some (JBool False)"
    and "list_all (executable prep docs) (queue (mg_pq s))"
    and "\<not> sg_enabled (si_settings si)" "worker_idle w"
    and start: "start_plan_mg s = (r, s1)"
    and n: "n = 5 * length (queue (mg_pq s)) + 2"
    and t: "joint_steps si an prep docs result n (s1, w) = (t, w')"
  shows "r = Inr True \<and> mg_state t = IDLE \<and> mg_jobs t = [] \<and> queue (mg_pq t) = [] \<and>
     running (mg_pq t) = JDict [] \<and> worker_idle w' \<and>
     (\<exists>es. history (mg_pq t) = history (mg_pq s) @ es \<and> map the_uid es = map the_uid (queue (mg_pq s))) \<and>
     joint_plans si an prep docs result n (s1, w) = map info_of (queue (mg_pq s))"
proof -
  let ?q = "queue (mg_pq s)"
  have wf: "pq_wf (mg_pq s)" "pq_has_lock (mg_pq s)"
    using mgr_ok_wf [OF mreach_ok [OF assms(1)]] reach_saves [OF assms(1)] by (simp_all add: flags_saved_def)
  have queued: "list_all queued_plan ?q" using assms(8) by (auto simp: executable_def list_all_iff)
  note first = first_turn [OF wf assms(2-7) queued start]
  let ?ws = "to_worker_state False undefined"
  have pend: "pending w = []" using assms(10) by (simp add: worker_idle_def pending_def)
  have st1: "joint_step si an prep docs result (s1, w) = (turn si an ?ws s1, w)"
    by (rule joint_other [OF first(2) _ _ _ pend]) simp_all
  have p1: "plans_in (pending (snd (joint_turn si an (s1, w)))) = []"
    using pend by (simp add: joint_turn_def first(2))
  have at: "at_plan ?q (history (mg_pq s)) (turn si an ?ws s1)" by (rule first(4))
  obtain es s2 w2 where 2: "joint_steps si an prep docs result (5 * length ?q) (turn si an ?ws s1, w) = (s2, w2)"
    "joint_plans si an prep docs result (5 * length ?q) (turn si an ?ws s1, w) = map info_of ?q"
    "map the_uid es = map the_uid ?q" "at_plan [] (history (mg_pq s) @ es) s2" "worker_idle w2"
    using joint_rounds [OF at assms(8,9,10), of an result] by blast
  have pend2: "pending w2 = []" using 2(5) by (simp add: worker_idle_def pending_def)
  have j2: "mg_jobs s2 = [Set_state IDLE False]" using 2(4) by (simp add: at_plan_def)
  have st3: "joint_step si an prep docs result (s2, w2) = (turn si an ?ws s2, w2)"
    by (rule joint_other [OF j2 _ _ _ pend2]) simp_all
  have p3: "plans_in (pending (snd (joint_turn si an (s2, w2)))) = []"
    using pend2 by (simp add: joint_turn_def j2)
  have n': "n = Suc (5 * length ?q + 1)" by (simp add: n)
  have all: "joint_steps si an prep docs result n (s1, w) = (turn si an ?ws s2, w2)"
    unfolding n' joint_steps.simps st1 joint_steps_add 2(1) by (simp add: st3)
  have plans: "joint_plans si an prep docs result n (s1, w) = map info_of ?q"
    unfolding n' joint_plans.simps st1 joint_plans_add 2(1,2) p1 by (simp add: p3)
  have "t = turn si an ?ws s2" "w' = w2" using all t by simp_all
  then show ?thesis using last_turn [OF 2(4), of si an ?ws] 2(3,4,5) first(1) plans
    by (auto simp: at_plan_def)
qed

end
