(* ===== verification/WorkerDemo.thy ===== *)
theory WorkerDemo
  imports ManagerDemo ManagerWorker
begin

text \<open>Concrete sessions of the worker, alone and with the manager.\<close>

definition demo_plan_info :: dict where
  "demo_plan_info = [(''name'', JStr ''count''), (''item_uid'', JStr ''u1'')]"

definition demo_finished :: rworker where
  "demo_finished = worker_run (\<lambda>_. None)
     [Starts True (Some ''idle''), Command Reset_worker, Command (Run_plan demo_plan_info), Main (Returns JNull) 0,
      Wakes, Re_changes (Some ''running''), Opened [(''uid'', JStr ''r1''), (''scan_id'', JInt 5)],
      Closed [(''run_start'', JStr ''r1''), (''exit_status'', JStr ''success'')], Re_changes (Some ''idle''),
      Main (Returns JNull) 0, Main (Returns JNull) 0] (run_begins new_worker)"

definition demo_run_report :: report where
  "demo_run_report = \<lparr>re_success = True, re_result = JNull, re_uids = [JStr ''r1''], re_scan_ids = [Some 5],
     re_err_msg = '''', re_traceback = '''', re_stop_queue = False, re_plan_state = ''completed'',
     re_re_state = Some ''idle''\<rparr>"

lemma demo_finished_over: "plan_over demo_run_report demo_finished"
  by (simp add: demo_finished_def demo_run_report_def demo_plan_info_def plan_over_def worker_run_def
      worker_step_def run_begins_def new_worker_def new_run_list_def worker_startup_def reset_worker_handler_def
      run_plan_handler_def start_new_plan_def plan_stored_def main_step_def take_work_def begin_plan_def
      generate_new_plan_def plan_returned_def runs_off_def set_plan_exec_state_as_running_def run_start_def
      add_run_def enable_runs_def run_stop_def set_run_closed_def get_uids_def get_scan_ids_def
      clear_runs_def disable_runs_def Let_def)

definition demo_running :: rworker where
  "demo_running = worker_run (\<lambda>_. None)
     [Starts True (Some ''idle''), Command Reset_worker, Command (Run_plan demo_plan_info), Main (Returns JNull) 0]
     (run_begins new_worker)"

lemma demo_running_on: "on_plan demo_running" "\<not> closing demo_running"
  by (simp_all add: demo_running_def demo_plan_info_def on_plan_def worker_run_def
      worker_step_def run_begins_def new_worker_def new_run_list_def worker_startup_def reset_worker_handler_def
      run_plan_handler_def start_new_plan_def plan_stored_def main_step_def take_work_def begin_plan_def
      generate_new_plan_def plan_returned_def runs_off_def closing_def Let_def)

theorem one_at_a_time_instance:
  "on_plan demo_running \<and> busy demo_running \<le> 1 \<and> wk_env demo_running = E_EXECUTING_PLAN"
  using demo_running_on one_at_a_time [of "\<lambda>_. None"
      "[Starts True (Some ''idle''), Command Reset_worker, Command (Run_plan demo_plan_info), Main (Returns JNull) 0]"]
  unfolding Let_def demo_running_def [symmetric] by blast

theorem report_survives_instance:
  "fst (worker_request_plan_report (\<lambda>_. None) Reply_lost [Command (Run_plan demo_plan_info), Main (Returns JNull) 1]
     Delivered (worker_run (\<lambda>_. None) [Command Request_report] demo_finished)) = Some demo_run_report"
  by (rule report_survives [OF demo_finished_over]) (simp_all add: no_reset_def)

theorem late_mark_blocks_plan_instance:
  "let w = worker_run (\<lambda>_. None) (short_plan demo_plan_info) (run_begins new_worker) in
     wk_env w = E_IDLE \<and> busy w = 0 \<and> fst (run_plan_handler demo_plan_info w) = Accepted \<and>
     (\<exists>why. fst (run_plan_handler demo_plan_info (worker_step (\<lambda>_. None) Wakes w)) = Rejected why)"
  by (rule late_mark_blocks_plan) (simp_all add: demo_plan_info_def)

definition demo_idle :: rworker where
  "demo_idle = worker_startup True (Some ''idle'') (run_begins new_worker)"

definition demo_docs :: "dict \<Rightarrow> worker_event list" where
  "demo_docs info = [Opened [(''uid'', JStr ''r1'')], Closed [(''run_start'', JStr ''r1''), (''exit_status'', JStr ''success'')]]"

lemma demo_worker_idle: "worker_idle demo_idle"
  by (simp add: demo_idle_def worker_idle_def worker_startup_def run_begins_def new_worker_def)

lemma demo_executable: "list_all (executable (\<lambda>_. None) demo_docs) (queue (mg_pq demo_m2))"
  using demo_ready(2) by (auto simp: executable_def demo_docs_def only_docs_def list_all_iff)

theorem queue_executed_end_to_end_instance:
  "let (t, w') = joint_steps demo_site demo_answers (\<lambda>_. None) demo_docs (\<lambda>_. JNull) 7
       (demo_queue_started, demo_idle) in
     mg_state t = IDLE \<and> queue (mg_pq t) = [] \<and> worker_idle w' \<and>
     joint_plans demo_site demo_answers (\<lambda>_. None) demo_docs (\<lambda>_. JNull) 7 (demo_queue_started, demo_idle) =
       [info_of demo_plan]"
proof -
  obtain t w' where t: "joint_steps demo_site demo_answers (\<lambda>_. None) demo_docs (\<lambda>_. JNull) 7
      (demo_queue_started, demo_idle) = (t, w')" by (rule prod.exhaust)
  have n: "7 = 5 * length (queue (mg_pq demo_m2)) + 2" by simp
  from queue_executed_end_to_end [OF reach_m2 demo_ready(1) _ _ _ demo_ready(4,3) demo_executable demo_site_off
      demo_worker_idle demo_queue_started_run n t]
  show ?thesis unfolding t by simp
qed

end
