(* ===== verification/Spec2Isabelle.thy ===== *)
theory Spec2Isabelle
  imports PlanQueueProps2 RegistryFeed CoordDemo SqlRefines DirectDemo DeviceDiffDemo PipeProps
    TaskResultsProps WorkerDemo
begin

text \<open>
  Verification of the services of ophyd-service.

  \<^bold>\<open>The program.\<close> Four services control the devices of a beamline. The \<^emph>\<open>configuration
  service\<close> (\<open>src/backend/configuration_service\<close>) owns the registry of devices and PVs, locks
  devices for plans and records the health of PVs. The \<^emph>\<open>queue server\<close>
  (\<open>src/backend/queueserver_service\<close>) keeps a queue of plans; its manager process talks to clients
  and starts, watches and stops a worker process that runs the plans. It is a client of the
  configuration service: it fills an empty registry, follows its changes, locks the devices of a
  running plan and keeps the lease alive. The \<^emph>\<open>direct control service\<close>
  (\<open>src/backend/direct_control_service\<close>) writes to PVs and calls device methods for interactive
  users, and asks the configuration service first whether a device is enabled and not locked.

  \<^bold>\<open>Layers.\<close> \<open>Prelude\<close> holds computations with a state and Python exceptions (an exception keeps
  the state changes made before it) and the calculus of weakest preconditions for them;
  \<open>PyValue\<close> the JSON values with Python's equality, truth and dictionaries in insertion order;
  \<open>Doubles\<close> the floating-point numbers of the positions in the SQL tables.

  \<^item> \<^bold>\<open>Queue storage\<close> (\<open>manager/queue_store.py\<close>): \<open>QueueStore\<close> is the interface as a locale
    \<open>queue_lists\<close> and its functional model; \<open>SqlStore\<close> the tables of \<open>SqlQueueStore\<close>;
    \<open>SqlLaws\<close>, \<open>SqlInsert\<close>, \<open>SqlContract\<close> its laws; \<open>SqlRefines\<close> the locale \<open>simulation\<close> and the
    equality of all answers. Positions stay distinct and exact for \<open>2 ^ 52\<close> operations, more than
    any queue sees: that is the bound in the refinement.
  \<^item> \<^bold>\<open>Plan queue\<close> (\<open>manager/plan_queue_ops.py\<close>): \<open>PlanQueue\<close>, \<open>PlanQueueOps\<close>, \<open>PlanQueueExec\<close>
    are the methods of \<open>PlanQueueOperations\<close> over the functional store; \<open>PlanQueueWp\<close> computes
    their effect on an abstract view; \<open>PlanQueueInv\<close>, \<open>PlanQueueSafe\<close>, \<open>PlanQueueKeep\<close>,
    \<open>PlanQueueKeep2\<close>, \<open>PlanQueueCycle\<close>, \<open>PlanQueueReach\<close> prove the invariant for every history of
    operations and restarts; \<open>PlanQueueProps\<close> and \<open>PlanQueueProps2\<close> say what the operations do.
  \<^item> \<^bold>\<open>Configuration service\<close>: \<open>DeviceRegistry\<close> (\<open>models.py\<close>), \<open>LockManager\<close> and \<open>LockProps\<close>
    (\<open>lock_manager.py\<close>), \<open>RegistryStore\<close> and \<open>RegistryFeed\<close> (\<open>device_registry_store.py\<close>),
    \<open>StandalonePVs\<close> (\<open>standalone_pv_store.py\<close>), \<open>PvHealth\<close> (\<open>pv_health_manager.py\<close>), the request
    handlers \<open>ConfigService\<close> (\<open>main.py\<close>) with invariant and properties in \<open>ConfigInv\<close>,
    \<open>ConfigKeep\<close>, \<open>ConfigProps\<close>. Whether a database write is accepted is an argument of a request.
  \<^item> \<^bold>\<open>Its clients in the queue server\<close>: \<open>ConfigClient\<close> (\<open>config_service.py\<close>) sends requests over a
    network that loses requests and answers (a list says what happens to each attempt);
    \<open>Coordinator\<close>, \<open>CoordProps\<close>, \<open>Heartbeat\<close>, \<open>CoordLoss\<close> (\<open>config_service_coordinator.py\<close>)
    lock and renew; \<open>Overlay\<close>, \<open>OverlayKeep\<close>, \<open>OverlayRun\<close>, \<open>OverlayProps\<close> (with \<open>worker.py\<close>)
    keep the worker's devices equal to the registry's.
  \<^item> \<^bold>\<open>Direct control\<close>: \<open>DirectGate\<close> (\<open>registry_client.py\<close>, \<open>coordination_client.py\<close>) and
    \<open>DirectControl\<close> (\<open>device_controller.py\<close>, \<open>device_manager.py\<close>, \<open>main.py\<close>) run against a world
    of moments: before each exchange other clients may do anything to the configuration service;
    \<open>DirectSafe\<close> and \<open>DirectProps\<close> prove what is kept and promised.
  \<^item> \<^bold>\<open>Manager\<close> (\<open>manager/manager.py\<close>): \<open>ManagerState\<close> is the state of \<open>RunEngineManager\<close> with the
    plan queue and the coordinator inside; \<open>ManagerLock\<close> and \<open>ManagerQueue\<close> are the handlers of
    lock, queue and history requests, \<open>ManagerRun\<close> and \<open>ManagerPlans\<close> the environment, the
    running of the queue and the recovery after a restart, \<open>ManagerCalls\<close> the dispatch and the
    step relation \<open>mstep\<close>. \<open>ManagerSteps\<close> states in the locale \<open>manager_invariant\<close> what a property
    must satisfy to survive every step; it is interpreted in \<open>ManagerInv\<close> (the queue stays
    consistent) and \<open>ManagerRestart\<close> (the saved flags follow the state, using \<open>QueueFrames\<close>).
    \<open>ManagerQueueProps\<close>, \<open>ManagerLockProps\<close>, \<open>ManagerWatch\<close>, \<open>ManagerDrain\<close>, \<open>ManagerRace\<close> hold
    the properties; \<open>ManagerDemo\<close> runs a session for the instances.

  \<^item> \<^bold>\<open>Worker\<close> (\<open>manager/worker.py\<close>, \<open>plan_monitoring.py\<close>): \<open>RunList\<close> is the list of runs and the
    manager's copy of it; \<open>WorkerState\<close> the state of \<open>RunEngineWorker\<close> and the handlers of all commands,
    \<open>WorkerRun\<close> the main thread, background tasks, marking threads and sequences of events;
    \<open>WorkerProps\<close> proves that one thing runs at a time, that plans are executed once and reports
    survive. \<open>ManagerWorker\<close> answers the manager's commands with the worker's handlers and runs a
    queue to its end; \<open>WorkerDemo\<close> holds the instances.
  \<^item> \<^bold>\<open>Messages\<close> (\<open>common/json_rpc.py\<close>, \<open>common/comms.py\<close>): \<open>JsonRpc\<close> handles requests and batches;
    \<open>PipeRpc\<close> models both ends of a pipe with their threads, buffers and callbacks, and \<open>send\<close>, what a
    call amounts to for its caller; \<open>PipeProps\<close> proves that this is all that can be observed.
  \<^item> \<^bold>\<open>Results of tasks\<close> (\<open>task_results.py\<close>): \<open>TaskResults\<close> is the table, the worker's list and the
    acknowledged download over \<open>send\<close>; \<open>TaskResultsProps\<close> proves exactly-once delivery.
  \<^item> \<^bold>\<open>Device difference\<close> (\<open>config_service.py\<close>, \<open>config_service_coordinator.py\<close>): \<open>DeviceDiff\<close> compares
    the worker's devices with the registry and synchronises them; \<open>DeviceDiffProps\<close> says what a
    synchronisation achieves and spares, \<open>DeviceDiffDemo\<close> holds the instances.

  \<^bold>\<open>How the code is read.\<close> An \<open>async\<close> method without an \<open>await\<close> that lets others run is one step;
  where interleaving matters it is cut at the awaits. In the manager each remainder is a job in
  \<open>mg_jobs\<close>, and \<open>mstep\<close> lets requests, jobs, polls, heartbeats and requests of other clients
  happen in any order. Answers of the worker, the watchdog, EPICS, ophyd and the network are
  arguments, so that the theorems hold for all of them. Times are rationals, durations those of
  the code; the clock and the fresh identifiers are streams. Python's integers are unbounded and
  so are the model's. A coroutine that raises ends and keeps what it changed.

  \<^bold>\<open>What is shown.\<close> Invariants: the plan queue is consistent in every reachable state, on its own
  and under the manager; memory and database of the registry agree; the PV index is exact; the worker
  does one thing at a time and its reports survive until a reset. Safety: a lease protects its holder, direct control stays off the devices of a running plan and fails
  closed, a user lock refuses, a worker is killed only on proof. Refinement and equivalence: the
  SQL backend, the change feed, the overlay, and calls over a pipe, which are linear whatever its
  threads do. Results of tasks are delivered exactly once. Liveness and termination: the heartbeat keeps a lock,
  restarts recover, a queue of \<open>n\<close> plans is finished after \<open>5 n + 2\<close> steps of manager and worker together (five
  for each plan: check, reset, upload, poll, report; one to begin and one to become idle). Error
  behaviour: what failed requests leave behind, and the situations in which the code falls short
  of what it means to do, each with a concrete instance.

  \<^bold>\<open>Not modelled.\<close> What the Run Engine, ophyd, EPICS and the executed functions do (external packages
  and user code: every outcome is allowed); the IPython kernel mode of the worker with its abandoned
  plans; introspection of Python code in \<open>profile_ops.py\<close> (what it decides about plans and functions
  is the parameter \<open>policy\<close> of the manager and the error of \<open>prepare_plan\<close> of the worker); the status
  and permission endpoints of the manager and its lists of plans and devices; ZeroMQ sockets and
  encodings; starting and stopping the ends of a pipe; the HTTP servers with their authentication,
  command line tools, monitoring over web sockets, and the loaders that read profile collections.
  They are input and output around the parts above, or depend on packages that are not in the
  repository.
\<close>

end
